(* ===== verification/Prelude.thy ===== *)
theory Prelude
  imports Main "HOL-Library.Word" "HOL-Library.AList" "HOL-Library.Sublist"
begin

text \<open>
  Shared vocabulary of the development: Go's instants and durations, the string
  functions of package \<open>strings\<close> the daemon calls, Go errors with wrapping, and Go maps
  with their iteration order.  The interface of maps is the locale \<open>go_map\<close>, interpreted
  at the end on association lists; the counting lemmas proved inside it carry the
  bounds of the components that keep a map.
\<close>

named_theorems go_defs \<open>definitions unfolded by the component proofs\<close>

section \<open>Time\<close>

text \<open>
  An instant is the number of nanoseconds since Go's zero time (January 1, year 1, UTC),
  so that \<open>IsZero\<close> is a comparison with 0.  A duration is a number of nanoseconds;
  \<open>Time.Sub\<close> saturates at the bounds of a signed 64-bit integer.
\<close>

type_synonym gotime = int
type_synonym duration = int

definition millisecond :: duration where [code_unfold]: "millisecond = 1000000"
definition second :: duration where [code_unfold]: "second = 1000000000"
definition minute :: duration where [code_unfold]: "minute = 60 * second"

definition max_duration :: duration where "max_duration = 9223372036854775807"
definition min_duration :: duration where "min_duration = - 9223372036854775808"

definition IsZero :: "gotime \<Rightarrow> bool" where "IsZero t \<longleftrightarrow> t = 0"

definition time_Sub :: "gotime \<Rightarrow> gotime \<Rightarrow> duration" where
  "time_Sub t u = max min_duration (min max_duration (t - u))"

abbreviation time_Since :: "gotime \<Rightarrow> gotime \<Rightarrow> duration" where
  "time_Since now t \<equiv> time_Sub now t"

abbreviation time_Until :: "gotime \<Rightarrow> gotime \<Rightarrow> duration" where
  "time_Until now t \<equiv> time_Sub t now"

text \<open>
  \<open>time.Unix\<close> and \<open>Time.Unix\<close> shift between the two epochs in signed 64-bit arithmetic: a number of
  seconds near the upper bound wraps around.
\<close>

definition wrap64 :: "int \<Rightarrow> int" where
  "wrap64 x = (x + 9223372036854775808) mod 18446744073709551616 - 9223372036854775808"

definition int64 :: "int \<Rightarrow> bool" where
  "int64 x \<longleftrightarrow> - 9223372036854775808 \<le> x \<and> x < 9223372036854775808"

definition unix_to_internal :: int where "unix_to_internal = 62135596800"

definition time_Unix :: "int \<Rightarrow> gotime" where
  "time_Unix s = wrap64 (s + unix_to_internal) * second"

definition to_Unix :: "gotime \<Rightarrow> int" where
  "to_Unix t = wrap64 (t div second - unix_to_internal)"

lemma wrap64_id: "int64 x \<Longrightarrow> wrap64 x = x"
  by (simp add: int64_def wrap64_def)

lemma wrap64_range: "int64 (wrap64 x)"
  using pos_mod_bound [of 18446744073709551616 "x + 9223372036854775808"] pos_mod_sign [of 18446744073709551616 "x + 9223372036854775808"]
  by (simp add: int64_def wrap64_def)

lemma wrap64_add: "wrap64 (wrap64 x + y) = wrap64 (x + y)"
proof -
  have "(a - c + y + c) mod m = (x + y + c) mod m" if "a = (x + c) mod m" for a c m :: int
    using mod_add_left_eq [of "x + c" m y] that by (simp add: algebra_simps)
  then show ?thesis by (simp add: wrap64_def)
qed

lemma second_pos [simp]: "0 < second"
  by (simp add: second_def)

lemma to_Unix_time_Unix [simp]: "int64 s \<Longrightarrow> to_Unix (time_Unix s) = s"
  using wrap64_add [of "s + unix_to_internal" "- unix_to_internal"] by (simp add: to_Unix_def time_Unix_def wrap64_id second_def)

text \<open>The instants a clock can show: between year 1 and the end of Go's calendar.\<close>

definition clock_time :: "gotime \<Rightarrow> bool" where
  "clock_time t \<longleftrightarrow> 0 < t \<and> t < 9223372036854775807 * second"

lemma to_Unix_clock: "clock_time t \<Longrightarrow> to_Unix t = t div second - unix_to_internal"
  by (auto simp: clock_time_def to_Unix_def unix_to_internal_def second_def int64_def intro!: wrap64_id)

lemma to_Unix_mono: "t \<le> u \<Longrightarrow> clock_time t \<Longrightarrow> clock_time u \<Longrightarrow> to_Unix t \<le> to_Unix u"
  by (simp add: to_Unix_clock zdiv_mono1)

lemma time_Sub_le_iff: "min_duration \<le> d \<Longrightarrow> d < max_duration \<Longrightarrow> time_Sub t u \<le> d \<longleftrightarrow> t - u \<le> d"
  by (auto simp: time_Sub_def)

lemma time_Sub_gt_iff: "min_duration \<le> d \<Longrightarrow> d < max_duration \<Longrightarrow> d < time_Sub t u \<longleftrightarrow> d < t - u"
  by (auto simp: time_Sub_def)

lemma time_Sub_mono: "t \<le> t' \<Longrightarrow> time_Sub t u \<le> time_Sub t' u"
  by (auto simp: time_Sub_def)

section \<open>Strings\<close>

text \<open>A Go string is a byte string; \<open>char\<close> is a byte.\<close>

fun contains :: "string \<Rightarrow> string \<Rightarrow> bool" where
  "contains [] sub \<longleftrightarrow> sub = []"
| "contains (c # cs) sub \<longleftrightarrow> prefix sub (c # cs) \<or> contains cs sub"

lemma contains_iff: "contains s sub \<longleftrightarrow> (\<exists>a b. s = a @ sub @ b)"
proof (induction s)
  case Nil
  show ?case by simp
next
  case (Cons c cs)
  show ?case
  proof
    assume "contains (c # cs) sub"
    then consider "prefix sub (c # cs)" | "contains cs sub" by auto
    then show "\<exists>a b. c # cs = a @ sub @ b"
    proof cases
      case 1
      then show ?thesis by (metis append_Nil prefixE)
    next
      case 2
      then show ?thesis using Cons.IH by (metis append_Cons)
    qed
  next
    assume "\<exists>a b. c # cs = a @ sub @ b"
    then obtain a b where ab: "c # cs = a @ sub @ b" by blast
    show "contains (c # cs) sub"
    proof (cases a)
      case Nil
      then show ?thesis using ab by (metis append_Nil contains.simps(2) prefixI)
    next
      case (Cons x xs)
      then show ?thesis using ab \<open>contains cs sub = (\<exists>a b. cs = a @ sub @ b)\<close> by auto
    qed
  qed
qed

lemma contains_append1: "contains s sub \<Longrightarrow> contains (s @ t) sub"
  by (metis append.assoc contains_iff)

lemma contains_append2: "contains t sub \<Longrightarrow> contains (s @ t) sub"
  by (metis append.assoc contains_iff)

lemma contains_Cons: "contains s sub \<Longrightarrow> contains (c # s) sub"
  by simp

definition byte_of :: "char \<Rightarrow> nat" where [code_unfold]: "byte_of c = of_char c"

lemma byte_of_char_of [simp]: "n < 256 \<Longrightarrow> byte_of (char_of n) = n"
  by (simp add: byte_of_def)

lemma char_of_byte_of [simp]: "char_of (byte_of c) = c"
  by (simp add: byte_of_def)

lemma char_of_eq: "byte_of c = n \<Longrightarrow> char_of n = c"
  by (auto simp: byte_of_def)

definition lower_char :: "char \<Rightarrow> char" where
  "lower_char c = (if 65 \<le> byte_of c \<and> byte_of c \<le> 90 then char_of (byte_of c + 32) else c)"

text \<open>
  \<open>strings.ToLower\<close>, up to runes without an ASCII lower case: besides the letters, the Kelvin sign
  (U+212A) and the dotted capital I (U+0130) become ASCII; every other rune stays outside ASCII, which is all that a
  comparison of the result with an ASCII word depends on.
\<close>

fun ToLower :: "string \<Rightarrow> string" where
  "ToLower [] = []"
| "ToLower (c # cs) =
     (if prefix ([CHR 0xE2, CHR 0x84, CHR 0xAA]) (c # cs) then CHR ''k'' # ToLower (drop 2 cs)
      else if prefix ([CHR 0xC4, CHR 0xB0]) (c # cs) then CHR ''i'' # ToLower (drop 1 cs)
      else lower_char c # ToLower cs)"

text \<open>The length in bytes of the white-space rune at the head of a string, 0 if there is none (\<open>unicode.IsSpace\<close>).\<close>

fun space_len :: "string \<Rightarrow> nat" where
  "space_len [] = 0"
| "space_len (a # cs) =
     (if byte_of a \<in> {9, 10, 11, 12, 13, 32} then 1
      else case cs of
        [] \<Rightarrow> 0
      | b # ds \<Rightarrow>
          if byte_of a = 194 \<and> byte_of b \<in> {133, 160} then 2
          else case ds of
            [] \<Rightarrow> 0
          | c # _ \<Rightarrow>
              if (byte_of a, byte_of b, byte_of c) \<in> {(225, 154, 128), (226, 129, 159), (227, 128, 128)} then 3
              else if byte_of a = 226 \<and> byte_of b = 128 \<and>
                (128 \<le> byte_of c \<and> byte_of c \<le> 138 \<or> byte_of c \<in> {168, 169, 175}) then 3
              else 0)"

function trim_left :: "string \<Rightarrow> string" where
  "trim_left s = (if space_len s = 0 then s else trim_left (drop (space_len s) s))"
  by pat_completeness auto
termination
proof (relation "measure length")
  show "(drop (space_len s) s, s) \<in> measure length" if "space_len s \<noteq> 0" for s
    using that by (cases s) auto
qed simp

declare trim_left.simps [simp del]

fun trim_right :: "string \<Rightarrow> string" where
  "trim_right [] = []"
| "trim_right (c # cs) = (if trim_left (c # cs) = [] then [] else c # trim_right cs)"

definition TrimSpace :: "string \<Rightarrow> string" where
  "TrimSpace s = trim_right (trim_left s)"

lemma trim_left_nospace: "space_len s = 0 \<Longrightarrow> trim_left s = s"
  by (simp add: trim_left.simps)

lemma TrimSpace_newline: "TrimSpace [CHR 0x0A] = []"
  by (simp add: TrimSpace_def trim_left.simps byte_of_def)

fun IndexByte :: "string \<Rightarrow> char \<Rightarrow> nat option" where
  "IndexByte [] c = None"
| "IndexByte (x # xs) c = (if x = c then Some 0 else map_option Suc (IndexByte xs c))"

lemma IndexByte_Some: "IndexByte s c = Some i \<Longrightarrow> i < length s \<and> s ! i = c \<and> c \<notin> set (take i s)"
  by (induction s arbitrary: i) (auto split: if_splits)

lemma IndexByte_append: "c \<notin> set k \<Longrightarrow> IndexByte (k @ c # v) c = Some (length k)"
  by (induction k) auto

lemma IndexByte_None [simp]: "IndexByte s c = None \<longleftrightarrow> c \<notin> set s"
  by (induction s) auto

fun digit_char :: "nat \<Rightarrow> char" where
  "digit_char d = char_of (48 + d)"

fun show_nat :: "nat \<Rightarrow> string" where
  "show_nat n = (if n < 10 then [digit_char n] else show_nat (n div 10) @ [digit_char (n mod 10)])"

declare show_nat.simps [simp del]

fun show_oct :: "nat \<Rightarrow> string" where
  "show_oct n = (if n < 8 then [digit_char n] else show_oct (n div 8) @ [digit_char (n mod 8)])"

declare show_oct.simps [simp del]

definition show_int :: "int \<Rightarrow> string" where
  "show_int i = (if i < 0 then ''-'' @ show_nat (nat (- i)) else show_nat (nat i))"

text \<open>
  \<open>d.Round(time.Second).String()\<close>: rounding is half away from zero, and a whole number
  of seconds is printed as \<open>1h2m3s\<close> without leading zero units.
\<close>

definition round_second :: "duration \<Rightarrow> int" where
  "round_second d = (if d < 0 then - ((- d + 500000000) div second) else (d + 500000000) div second)"

definition seconds_String :: "int \<Rightarrow> string" where
  "seconds_String s =
     (let n = nat \<bar>s\<bar>; h = n div 3600; m = n div 60 mod 60; r = n mod 60
      in (if s < 0 then ''-'' else '''')
         @ (if h > 0 then show_nat h @ ''h'' else '''')
         @ (if n \<ge> 60 then show_nat m @ ''m'' else '''')
         @ show_nat r @ ''s'')"

section \<open>Errors\<close>

text \<open>
  \<open>Err\<close> is an error made by \<open>fmt.Errorf\<close> without wrapping, \<open>PermErr\<close> the daemon's
  \<open>permanentRefreshError\<close>, \<open>Wrap\<close> an \<open>Errorf\<close> with \<open>%w\<close>.
\<close>

datatype go_error = Err string | PermErr string | Wrap string go_error

primrec Error :: "go_error \<Rightarrow> string" where
  "Error (Err s) = s"
| "Error (PermErr s) = s"
| "Error (Wrap p e) = p @ '': '' @ Error e"

section \<open>Maps\<close>

text \<open>
  A Go map is a list of key-value pairs with distinct keys.  The order of the list is the
  order in which one \<open>range\<close> loop visits the keys: Go leaves that order open, and a theorem
  about every list is a theorem about every order.
\<close>

type_synonym ('k, 'v) gomap = "('k \<times> 'v) list"

abbreviation gm_get :: "('k, 'v) gomap \<Rightarrow> 'k \<Rightarrow> 'v option" where
  "gm_get \<equiv> map_of"

abbreviation gm_put :: "'k \<Rightarrow> 'v \<Rightarrow> ('k, 'v) gomap \<Rightarrow> ('k, 'v) gomap" where
  "gm_put \<equiv> AList.update"

abbreviation gm_del :: "'k \<Rightarrow> ('k, 'v) gomap \<Rightarrow> ('k, 'v) gomap" where
  "gm_del \<equiv> AList.delete"

definition gm_keys :: "('k, 'v) gomap \<Rightarrow> 'k list" where
  [simp]: "gm_keys m = map fst m"

definition gm_wf :: "('k, 'v) gomap \<Rightarrow> bool" where
  "gm_wf m \<longleftrightarrow> distinct (gm_keys m)"

locale go_map =
  fixes get :: "'m \<Rightarrow> 'k \<Rightarrow> 'v option"
    and put :: "'k \<Rightarrow> 'v \<Rightarrow> 'm \<Rightarrow> 'm"
    and del :: "'k \<Rightarrow> 'm \<Rightarrow> 'm"
    and keys :: "'m \<Rightarrow> 'k list"
    and invar :: "'m \<Rightarrow> bool"
  assumes get_put: "get (put k v m) = (get m)(k \<mapsto> v)"
    and get_del: "get (del k m) = (get m)(k := None)"
    and invar_put: "invar m \<Longrightarrow> invar (put k v m)"
    and invar_del: "invar m \<Longrightarrow> invar (del k m)"
    and invar_distinct: "invar m \<Longrightarrow> distinct (keys m)"
    and set_keys: "set (keys m) = dom (get m)"
begin

lemma length_keys: "invar m \<Longrightarrow> length (keys m) = card (dom (get m))"
  using distinct_card invar_distinct set_keys by metis

lemma finite_dom: "finite (dom (get m))"
  by (metis List.finite_set set_keys)

lemma length_put_new: "invar m \<Longrightarrow> get m k = None \<Longrightarrow> length (keys (put k v m)) = Suc (length (keys m))"
  by (simp add: length_keys invar_put get_put card_insert_disjoint finite_dom domIff)

lemma length_put_old: "invar m \<Longrightarrow> get m k \<noteq> None \<Longrightarrow> length (keys (put k v m)) = length (keys m)"
  by (simp add: length_keys invar_put get_put insert_absorb domIff)

lemma length_del_present: "invar m \<Longrightarrow> get m k \<noteq> None \<Longrightarrow> Suc (length (keys (del k m))) = length (keys m)"
  using card.remove [OF finite_dom, of k m]
  by (simp add: length_keys invar_del get_del domIff)

lemma length_del_le: "invar m \<Longrightarrow> length (keys (del k m)) \<le> length (keys m)"
  by (simp add: length_keys invar_del get_del card_Diff1_le)

end

interpretation gm: go_map map_of AList.update AList.delete gm_keys gm_wf
proof
  show "map_of (AList.update k v m) = (map_of m)(k \<mapsto> v)" for k :: 'a and v :: 'b and m
    by (rule update_conv')
  show "map_of (AList.delete k m) = (map_of m)(k := None)" for k :: 'a and m :: "('a \<times> 'b) list"
    by (rule delete_conv')
  show "gm_wf m \<Longrightarrow> gm_wf (AList.update k v m)" for k :: 'a and v :: 'b and m
    by (simp add: gm_wf_def distinct_update)
  show "gm_wf m \<Longrightarrow> gm_wf (AList.delete k m)" for k :: 'a and m :: "('a \<times> 'b) list"
    by (simp add: gm_wf_def distinct_delete)
  show "gm_wf m \<Longrightarrow> distinct (gm_keys m)" for m :: "('a \<times> 'b) list"
    by (simp add: gm_wf_def)
  show "set (gm_keys m) = dom (map_of m)" for m :: "('a \<times> 'b) list"
    by (simp add: dom_map_of_conv_image_fst)
qed

lemmas gm_lookup = gm.get_put gm.get_del

declare gm_lookup [simp]

lemma gm_wf_Nil [simp]: "gm_wf []"
  by (simp add: gm_wf_def)

lemma gm_put_new: "k \<notin> fst ` set m \<Longrightarrow> gm_put k v m = m @ [(k, v)]"
  by (induction m) auto

lemma gm_wf_filter: "gm_wf m \<Longrightarrow> gm_wf (filter P m)"
  by (simp add: gm_wf_def distinct_map_filter)

lemma gm_get_in_set: "gm_wf m \<Longrightarrow> gm_get m k = Some v \<longleftrightarrow> (k, v) \<in> set m"
  by (simp add: gm_wf_def)

lemma gm_get_filter: "gm_wf m \<Longrightarrow> gm_get (filter P m) k =
    (case gm_get m k of None \<Rightarrow> None | Some v \<Rightarrow> if P (k, v) then Some v else None)"
proof (induction m)
  case Nil
  show ?case by simp
next
  case (Cons p m)
  obtain k' v' where p: "p = (k', v')" by (cases p)
  from Cons.prems have wf: "gm_wf m" and new: "k' \<notin> fst ` set m"
    by (auto simp: gm_wf_def p)
  from new have "gm_get m k' = None" by (simp add: map_of_eq_None_iff)
  then show ?case using Cons.IH [OF wf] by (auto simp: p)
qed

end
