(* ===== verification/Json.thy ===== *)
theory Json
  imports Prelude
begin

text \<open>
  The part of \<open>encoding/json\<close> the daemon relies on, over byte strings: the string encoder of
  \<open>json.Marshal\<close> (HTML escaping on), a parser for the scanner's grammar with its nesting
  limit, and the decoding of numbers and field names.  The parser runs on fuel; twice the input's
  length (plus two) is always enough, and that bound is what the callers use.
\<close>

section \<open>UTF-8\<close>

definition cont_byte :: "char \<Rightarrow> bool" where
  "cont_byte c \<longleftrightarrow> 128 \<le> byte_of c \<and> byte_of c \<le> 191"

definition byte_in :: "nat \<Rightarrow> nat \<Rightarrow> char \<Rightarrow> bool" where
  "byte_in lo hi c \<longleftrightarrow> lo \<le> byte_of c \<and> byte_of c \<le> hi"

text \<open>The size of the valid multi-byte rune at the head of a string, 0 if there is none.\<close>

fun utf8_len :: "string \<Rightarrow> nat" where
  "utf8_len (a # b # rest) =
     (if byte_in 194 223 a then (if cont_byte b then 2 else 0)
      else case rest of
        [] \<Rightarrow> 0
      | c # rest' \<Rightarrow>
          if byte_in 224 224 a then (if byte_in 160 191 b \<and> cont_byte c then 3 else 0)
          else if byte_in 237 237 a then (if byte_in 128 159 b \<and> cont_byte c then 3 else 0)
          else if byte_in 225 239 a then (if cont_byte b \<and> cont_byte c then 3 else 0)
          else case rest' of
            [] \<Rightarrow> 0
          | d # _ \<Rightarrow>
              if byte_in 240 240 a then (if byte_in 144 191 b \<and> cont_byte c \<and> cont_byte d then 4 else 0)
              else if byte_in 241 243 a then (if cont_byte b \<and> cont_byte c \<and> cont_byte d then 4 else 0)
              else if byte_in 244 244 a then (if byte_in 128 143 b \<and> cont_byte c \<and> cont_byte d then 4 else 0)
              else 0)"
| "utf8_len _ = 0"

definition replacement_char :: string where
  "replacement_char = map char_of [239::nat, 191, 189]"

text \<open>\<open>utf8.EncodeRune\<close>; surrogates and values out of range become U+FFFD.\<close>

definition encode_rune :: "nat \<Rightarrow> string" where
  "encode_rune r =
     (if r < 128 then [char_of r]
      else if r < 2048 then map char_of [192 + r div 64, 128 + r mod 64]
      else if 55296 \<le> r \<and> r \<le> 57343 \<or> r > 1114111 then replacement_char
      else if r < 65536 then map char_of [224 + r div 4096, 128 + r div 64 mod 64, 128 + r mod 64]
      else map char_of [240 + r div 262144, 128 + r div 4096 mod 64, 128 + r div 64 mod 64, 128 + r mod 64])"

section \<open>Encoding\<close>

definition hex_digit :: "nat \<Rightarrow> char" where
  "hex_digit n = (if n < 10 then char_of (48 + n) else char_of (87 + n))"

definition html_safe :: "char \<Rightarrow> bool" where
  "html_safe c \<longleftrightarrow> 32 \<le> byte_of c \<and> byte_of c < 128 \<and> byte_of c \<notin> {34, 38, 60, 62, 92}"

definition escape_ascii :: "char \<Rightarrow> string" where
  "escape_ascii c =
     (if html_safe c then [c]
      else if byte_of c = 34 \<or> byte_of c = 92 then [CHR 0x5C, c]
      else if byte_of c = 8 then [CHR 0x5C, CHR ''b'']
      else if byte_of c = 12 then [CHR 0x5C, CHR ''f'']
      else if byte_of c = 10 then [CHR 0x5C, CHR ''n'']
      else if byte_of c = 13 then [CHR 0x5C, CHR ''r'']
      else if byte_of c = 9 then [CHR 0x5C, CHR ''t'']
      else CHR 0x5C # ''u00'' @ [hex_digit (byte_of c div 16), hex_digit (byte_of c mod 16)])"

function quote_body :: "string \<Rightarrow> string" where
  "quote_body [] = []"
| "quote_body (c # cs) =
     (if byte_of c < 128 then escape_ascii c @ quote_body cs
      else let n = utf8_len (c # cs)
           in if n = 0 then (CHR 0x5C # ''ufffd'') @ quote_body cs
              else (if take 3 (c # cs) = map char_of [226::nat, 128, 168] then CHR 0x5C # ''u2028''
                    else if take 3 (c # cs) = map char_of [226::nat, 128, 169] then CHR 0x5C # ''u2029''
                    else take n (c # cs)) @ quote_body (drop n (c # cs)))"
  by pat_completeness auto
termination
  by (relation "measure length") auto

definition json_quote :: "string \<Rightarrow> string" where
  "json_quote s = [CHR 0x22] @ quote_body s @ [CHR 0x22]"

section \<open>Parsing\<close>

datatype json = JNull | JBool bool | JNum string | JStr string | JArr "json list" | JObj "(string \<times> json) list"

datatype json_error = SyntaxError | OutOfFuel

definition is_ws :: "char \<Rightarrow> bool" where
  "is_ws c \<longleftrightarrow> byte_of c \<in> {32, 9, 10, 13}"

definition skip_ws :: "string \<Rightarrow> string" where
  "skip_ws s = dropWhile is_ws s"

definition is_digit :: "char \<Rightarrow> bool" where
  "is_digit c \<longleftrightarrow> 48 \<le> byte_of c \<and> byte_of c \<le> 57"

definition hex_val :: "char \<Rightarrow> nat option" where
  "hex_val c =
     (if is_digit c then Some (byte_of c - 48)
      else if byte_in 97 102 c then Some (byte_of c - 87)
      else if byte_in 65 70 c then Some (byte_of c - 55)
      else None)"

text \<open>Four hexadecimal digits after \<open>\\u\<close>.\<close>

fun hex4 :: "string \<Rightarrow> (nat \<times> string) option" where
  "hex4 (a # b # c # d # rest) =
     (case (hex_val a, hex_val b, hex_val c, hex_val d) of
        (Some w, Some x, Some y, Some z) \<Rightarrow> Some (((w * 16 + x) * 16 + y) * 16 + z, rest)
      | _ \<Rightarrow> None)"
| "hex4 _ = None"

lemma hex4_length: "hex4 s = Some (r, rest) \<Longrightarrow> length s = length rest + 4"
  by (induction s rule: hex4.induct) (auto split: option.splits)

text \<open>
  The rune of a \<open>\\u\<close> escape: a high surrogate followed by the escape of a low one is one rune,
  any other surrogate is U+FFFD and only its own escape is consumed.
\<close>

fun unescape_u :: "string \<Rightarrow> (string \<times> string) option" where
  "unescape_u s =
     (case hex4 s of
        None \<Rightarrow> None
      | Some (r, rest) \<Rightarrow>
          if 55296 \<le> r \<and> r \<le> 57343 then
            (case rest of
               a # b # rest' \<Rightarrow>
                 (case (if a = CHR 0x5C \<and> b = CHR ''u'' then hex4 rest' else None) of
                    Some (r', rest'') \<Rightarrow>
                      if r \<le> 56319 \<and> 56320 \<le> r' \<and> r' \<le> 57343
                      then Some (encode_rune (65536 + (r - 55296) * 1024 + (r' - 56320)), rest'')
                      else Some (replacement_char, rest)
                  | None \<Rightarrow> Some (replacement_char, rest))
             | _ \<Rightarrow> Some (replacement_char, rest))
          else Some (encode_rune r, rest))"

lemma unescape_u_length: "unescape_u s = Some (t, rest) \<Longrightarrow> length rest < length s"
  by (auto split: option.splits list.splits if_splits dest!: hex4_length)

declare unescape_u.simps [simp del]

definition unescape_char :: "char \<Rightarrow> char option" where
  "unescape_char c =
     (if byte_of c \<in> {34, 47, 92} then Some c
      else if c = CHR ''b'' then Some (char_of (8::nat))
      else if c = CHR ''f'' then Some (char_of (12::nat))
      else if c = CHR ''n'' then Some (char_of (10::nat))
      else if c = CHR ''r'' then Some (char_of (13::nat))
      else if c = CHR ''t'' then Some (char_of (9::nat))
      else None)"

text \<open>
  Reading a string literal after its opening quote, one step at a time: the closing quote, a
  chunk of the value (a character, an escape or a rune), or a syntax error.
\<close>

datatype string_step = StrEnd string | StrChunk string string | StrBad

definition string_step :: "string \<Rightarrow> string_step" where
  "string_step s =
     (case s of
        [] \<Rightarrow> StrBad
      | c # cs \<Rightarrow>
          if byte_of c = 34 then StrEnd cs
          else if byte_of c < 32 then StrBad
          else if byte_of c = 92 then
            (case cs of
               [] \<Rightarrow> StrBad
             | e # es \<Rightarrow>
                 if e = CHR ''u'' then
                   (case unescape_u es of None \<Rightarrow> StrBad | Some (t, rest) \<Rightarrow> StrChunk t rest)
                 else (case unescape_char e of None \<Rightarrow> StrBad | Some x \<Rightarrow> StrChunk [x] es))
          else if byte_of c < 128 then StrChunk [c] cs
          else (let n = utf8_len s
                in if n = 0 then StrChunk replacement_char cs else StrChunk (take n s) (drop n s)))"

lemma string_step_chunk: "string_step s = StrChunk t r \<Longrightarrow> length r < length s"
  by (auto simp: string_step_def Let_def split: list.splits if_splits option.splits dest!: unescape_u_length)

lemma string_step_end: "string_step s = StrEnd r \<Longrightarrow> length r < length s"
  by (auto simp: string_step_def Let_def split: list.splits if_splits option.splits)

function parse_string :: "string \<Rightarrow> json_error + (string \<times> string)" where
  "parse_string s =
     (case string_step s of
        StrBad \<Rightarrow> Inl SyntaxError
      | StrEnd r \<Rightarrow> Inr ([], r)
      | StrChunk t rest \<Rightarrow>
          (case parse_string rest of Inl err \<Rightarrow> Inl err | Inr (v, r) \<Rightarrow> Inr (t @ v, r)))"
  by pat_completeness auto
termination
  by (relation "measure length") (auto dest: string_step_chunk)

declare parse_string.simps [simp del]

lemma parse_string_length: "parse_string s = Inr (v, r) \<Longrightarrow> length r < length s"
proof (induction s arbitrary: v r rule: parse_string.induct)
  case (1 s)
  then show ?case
    by (auto simp: parse_string.simps [of s] split: string_step.splits sum.splits prod.splits
        dest!: string_step_chunk string_step_end) (meson less_trans)
qed

lemma parse_string_fuel: "parse_string s \<noteq> Inl OutOfFuel"
proof (induction s rule: parse_string.induct)
  case (1 s)
  then show ?case by (auto simp: parse_string.simps [of s] split: string_step.splits sum.splits)
qed

text \<open>Numbers keep their text, as \<open>json.Number\<close> would; conversion happens at the field.\<close>

definition parse_frac :: "string \<Rightarrow> (string \<times> string) option" where
  "parse_frac s =
     (case s of
        c # cs \<Rightarrow>
          if c = CHR ''.'' then
            (let ds = takeWhile is_digit cs in if ds = [] then None else Some (c # ds, dropWhile is_digit cs))
          else Some ([], s)
      | [] \<Rightarrow> Some ([], s))"

definition parse_exp_digits :: "string \<Rightarrow> string \<Rightarrow> (string \<times> string) option" where
  "parse_exp_digits pre s =
     (let ds = takeWhile is_digit s in if ds = [] then None else Some (pre @ ds, dropWhile is_digit s))"

definition parse_exp :: "string \<Rightarrow> (string \<times> string) option" where
  "parse_exp s =
     (case s of
        c # cs \<Rightarrow>
          if c = CHR ''e'' \<or> c = CHR ''E'' then
            (case cs of
               d # ds \<Rightarrow> if d = CHR ''+'' \<or> d = CHR ''-'' then parse_exp_digits [c, d] ds else parse_exp_digits [c] cs
             | [] \<Rightarrow> None)
          else Some ([], s)
      | [] \<Rightarrow> Some ([], s))"

definition parse_number :: "string \<Rightarrow> json_error + (string \<times> string)" where
  "parse_number s =
     (let neg = (case s of c # _ \<Rightarrow> c = CHR ''-'' | [] \<Rightarrow> False);
          s1 = (if neg then tl s else s)
      in case s1 of
           [] \<Rightarrow> Inl SyntaxError
         | c # cs \<Rightarrow>
             if \<not> is_digit c then Inl SyntaxError
             else let ip = (if c = CHR ''0'' then [c] else takeWhile is_digit s1);
                      s2 = (if c = CHR ''0'' then cs else dropWhile is_digit s1)
                  in case parse_frac s2 of
                       None \<Rightarrow> Inl SyntaxError
                     | Some (fp, s3) \<Rightarrow>
                         (case parse_exp s3 of
                            None \<Rightarrow> Inl SyntaxError
                          | Some (ep, s4) \<Rightarrow> Inr ((if neg then ''-'' else []) @ ip @ fp @ ep, s4)))"

definition maxNestingDepth :: nat where "maxNestingDepth = 10000"

text \<open>A literal word such as \<open>true\<close>: what follows it, if it is there.\<close>

definition strip :: "string \<Rightarrow> string \<Rightarrow> string option" where
  "strip w s = (if prefix w s then Some (drop (length w) s) else None)"

text \<open>The key of an object member and the colon after it.\<close>

definition parse_key :: "string \<Rightarrow> json_error + (string \<times> string)" where
  "parse_key s =
     (case skip_ws s of
        [] \<Rightarrow> Inl SyntaxError
      | c # cs \<Rightarrow>
          if c \<noteq> CHR 0x22 then Inl SyntaxError
          else case parse_string cs of
                 Inl e \<Rightarrow> Inl e
               | Inr (k, r) \<Rightarrow>
                   (case skip_ws r of
                      [] \<Rightarrow> Inl SyntaxError
                    | c' # cs' \<Rightarrow> if c' = CHR '':'' then Inr (k, cs') else Inl SyntaxError))"

text \<open>
  \<open>parse_value\<close> reads one value; \<open>parse_elems\<close> and \<open>parse_members\<close> read the elements of an array and
  the members of an object, from the first one to the closing bracket.
\<close>

fun parse_value :: "nat \<Rightarrow> nat \<Rightarrow> string \<Rightarrow> json_error + (json \<times> string)"
  and parse_elems :: "nat \<Rightarrow> nat \<Rightarrow> string \<Rightarrow> json_error + (json list \<times> string)"
  and parse_members :: "nat \<Rightarrow> nat \<Rightarrow> string \<Rightarrow> json_error + ((string \<times> json) list \<times> string)" where
  "parse_value 0 d s = Inl OutOfFuel"
| "parse_value (Suc n) d s =
     (case skip_ws s of
        [] \<Rightarrow> Inl SyntaxError
      | c # cs \<Rightarrow>
          if c = CHR 0x22 then
            (case parse_string cs of Inl e \<Rightarrow> Inl e | Inr (t, r) \<Rightarrow> Inr (JStr t, r))
          else if c = CHR ''{'' then
            (if d \<ge> maxNestingDepth then Inl SyntaxError
             else case skip_ws cs of
                    [] \<Rightarrow> Inl SyntaxError
                  | c' # cs' \<Rightarrow>
                      if c' = CHR ''}'' then Inr (JObj [], cs')
                      else (case parse_members n (Suc d) (c' # cs') of Inl e \<Rightarrow> Inl e | Inr (ms, r) \<Rightarrow> Inr (JObj ms, r)))
          else if c = CHR ''['' then
            (if d \<ge> maxNestingDepth then Inl SyntaxError
             else case skip_ws cs of
                    [] \<Rightarrow> Inl SyntaxError
                  | c' # cs' \<Rightarrow>
                      if c' = CHR '']'' then Inr (JArr [], cs')
                      else (case parse_elems n (Suc d) (c' # cs') of Inl e \<Rightarrow> Inl e | Inr (vs, r) \<Rightarrow> Inr (JArr vs, r)))
          else case strip ''true'' (c # cs) of Some r \<Rightarrow> Inr (JBool True, r) | None \<Rightarrow>
               case strip ''false'' (c # cs) of Some r \<Rightarrow> Inr (JBool False, r) | None \<Rightarrow>
               case strip ''null'' (c # cs) of Some r \<Rightarrow> Inr (JNull, r) | None \<Rightarrow>
               case parse_number (c # cs) of Inl e \<Rightarrow> Inl e | Inr (t, r) \<Rightarrow> Inr (JNum t, r))"
| "parse_elems 0 d s = Inl OutOfFuel"
| "parse_elems (Suc n) d s =
     (case parse_value n d s of
        Inl e \<Rightarrow> Inl e
      | Inr (v, r) \<Rightarrow>
          (case skip_ws r of
             [] \<Rightarrow> Inl SyntaxError
           | c # cs \<Rightarrow>
               if c = CHR '']'' then Inr ([v], cs)
               else if c = CHR '','' then
                 (case parse_elems n d cs of Inl e \<Rightarrow> Inl e | Inr (vs, r') \<Rightarrow> Inr (v # vs, r'))
               else Inl SyntaxError))"
| "parse_members 0 d s = Inl OutOfFuel"
| "parse_members (Suc n) d s =
     (case parse_key s of
        Inl e \<Rightarrow> Inl e
      | Inr (k, s1) \<Rightarrow>
          (case parse_value n d s1 of
             Inl e \<Rightarrow> Inl e
           | Inr (v, r) \<Rightarrow>
               (case skip_ws r of
                  [] \<Rightarrow> Inl SyntaxError
                | c # cs \<Rightarrow>
                    if c = CHR ''}'' then Inr ([(k, v)], cs)
                    else if c = CHR '','' then
                      (case parse_members n d cs of Inl e \<Rightarrow> Inl e | Inr (ms, r') \<Rightarrow> Inr ((k, v) # ms, r'))
                    else Inl SyntaxError)))"

definition json_fuel :: "string \<Rightarrow> nat" where
  "json_fuel s = 2 * length s + 2"

lemma skip_ws_length: "length (skip_ws s) \<le> length s"
  by (simp add: skip_ws_def length_dropWhile_le)

lemma skip_ws_Cons: "skip_ws s = c # cs \<Longrightarrow> length cs < length s"
  using skip_ws_length [of s] by simp

lemma dropWhile_lt: "p c \<Longrightarrow> length (dropWhile p (c # cs)) < Suc (length cs)"
  by (simp add: length_dropWhile_le le_imp_less_Suc)

lemma parse_frac_length: "parse_frac s = Some (t, r) \<Longrightarrow> length r \<le> length s"
  by (auto simp: parse_frac_def Let_def length_dropWhile_le le_SucI split: list.splits if_splits)

lemma parse_exp_length: "parse_exp s = Some (t, r) \<Longrightarrow> length r \<le> length s"
  by (auto simp: parse_exp_def parse_exp_digits_def Let_def split: list.splits if_splits)
    (meson length_dropWhile_le le_SucI)+

lemma parse_number_length: "parse_number s = Inr (t, r) \<Longrightarrow> length r < length s"
proof -
  assume a: "parse_number s = Inr (t, r)"
  define s1 where "s1 = (if (case s of c # _ \<Rightarrow> c = CHR ''-'' | [] \<Rightarrow> False) then tl s else s)"
  obtain c cs where s1: "s1 = c # cs" and dig: "is_digit c"
    using a by (auto simp: parse_number_def Let_def s1_def split: list.splits if_splits)
  define s2 where "s2 = (if c = CHR ''0'' then cs else dropWhile is_digit s1)"
  obtain fp s3 ep where "parse_frac s2 = Some (fp, s3)" "parse_exp s3 = Some (ep, r)"
    using a s1 dig unfolding parse_number_def s1_def [symmetric] Let_def s2_def
    by (auto split: option.splits if_splits)
  then have "length r \<le> length s2" using parse_frac_length parse_exp_length le_trans by blast
  moreover have "length s2 < length s1" using s1 dig by (simp add: s2_def dropWhile_lt del: dropWhile.simps)
  moreover have "length s1 \<le> length s" by (simp add: s1_def)
  ultimately show ?thesis by simp
qed

lemma parse_number_fuel: "parse_number s \<noteq> Inl OutOfFuel"
  by (auto simp: parse_number_def Let_def split: list.splits option.splits)

lemma strip_length: "strip w s = Some r \<Longrightarrow> w \<noteq> [] \<Longrightarrow> length r < length s"
  by (auto simp: strip_def prefix_def split: if_splits)

lemma parse_key_length: "parse_key s = Inr (k, r) \<Longrightarrow> length r < length s"
  by (auto simp: parse_key_def split: list.splits if_splits sum.splits dest!: skip_ws_Cons parse_string_length)

lemma parse_key_fuel: "parse_key s \<noteq> Inl OutOfFuel"
  using parse_string_fuel by (auto simp: parse_key_def split: list.splits sum.splits)

lemma parse_shorter:
  "parse_value n d s = Inr (v, r) \<Longrightarrow> length r < length s"
  "parse_elems n d s = Inr (vs, r) \<Longrightarrow> length r < length s"
  "parse_members n d s = Inr (ms, r) \<Longrightarrow> length r < length s"
proof (induction n arbitrary: d s v vs ms r)
  case 0
  { case 1 then show ?case by simp next case 2 then show ?case by simp next case 3 then show ?case by simp }
next
  case (Suc n)
  { case 1
    then show ?case
      by (auto split: list.splits if_splits sum.splits option.splits prod.splits
          dest!: skip_ws_Cons parse_string_length strip_length parse_number_length Suc.IH)
  next
    case 2
    then show ?case
      by (auto split: list.splits if_splits sum.splits prod.splits dest!: skip_ws_Cons Suc.IH)
  next
    case 3
    then show ?case
      by (auto split: list.splits if_splits sum.splits prod.splits dest!: skip_ws_Cons parse_key_length Suc.IH)
  }
qed

lemma skip_ws_le: "skip_ws s = t \<Longrightarrow> length t \<le> length s"
  using skip_ws_length by blast

lemmas parse_lengths = skip_ws_le parse_string_length strip_length parse_number_length parse_key_length parse_shorter

lemma fuel_notes: "parse_string s = Inl OutOfFuel \<Longrightarrow> False" "parse_number s = Inl OutOfFuel \<Longrightarrow> False"
  "parse_key s = Inl OutOfFuel \<Longrightarrow> False"
  using parse_string_fuel parse_number_fuel parse_key_fuel by blast+

lemma parse_enough_fuel:
  "parse_value n d s = Inl OutOfFuel \<Longrightarrow> n < 2 * length s + 1"
  "parse_elems n d s = Inl OutOfFuel \<Longrightarrow> n < 2 * length s + 2"
  "parse_members n d s = Inl OutOfFuel \<Longrightarrow> n < 2 * length s + 2"
proof (induction n arbitrary: d s)
  case 0
  { case 1 then show ?case by simp next case 2 then show ?case by simp next case 3 then show ?case by simp }
next
  case (Suc n)
  { case 1
    then show ?case
      by (auto split: list.splits if_splits sum.splits option.splits prod.splits
          dest!: fuel_notes parse_lengths Suc.IH)
  next
    case 2
    then show ?case
      by (auto split: list.splits if_splits sum.splits prod.splits dest!: parse_lengths Suc.IH)
  next
    case 3
    obtain k s1 where k: "parse_key s = Inr (k, s1)"
      using 3 parse_key_fuel by (auto split: sum.splits)
    note len = parse_key_length [OF k]
    show ?case
    proof (cases "parse_value n d s1")
      case (Inl e)
      then show ?thesis using 3 k len Suc.IH(1) by fastforce
    next
      case (Inr p)
      obtain v r where p: "p = (v, r)" by (cases p)
      obtain c cs where c: "skip_ws r = c # cs" "parse_members n d cs = Inl OutOfFuel"
        using 3 k Inr p by (auto split: list.splits if_splits sum.splits)
      have "length cs < length s" using skip_ws_Cons [OF c(1)] parse_shorter(1) [of n d s1 v r] Inr p len by simp
      then show ?thesis using Suc.IH(3) [OF c(2)] by simp
    qed
  }
qed

text \<open>The first value of the input and what follows it (\<open>Decoder.Decode\<close>), and a whole input (\<open>Unmarshal\<close>).\<close>

definition decode_first :: "string \<Rightarrow> json_error + (json \<times> string)" where
  "decode_first s = parse_value (json_fuel s) 0 s"

definition json_parse :: "string \<Rightarrow> json_error + json" where
  "json_parse s =
     (case decode_first s of
        Inl e \<Rightarrow> Inl e
      | Inr (v, r) \<Rightarrow> if skip_ws r = [] then Inr v else Inl SyntaxError)"

section \<open>Struct fields\<close>

text \<open>
  A key selects a field by its exact name or by the name folded to upper case; the folding maps
  the two non-ASCII runes whose case orbit holds an ASCII letter (long s, Kelvin sign).
\<close>

fun fold_name :: "string \<Rightarrow> string" where
  "fold_name [] = []"
| "fold_name (c # cs) =
     (if prefix [CHR 0xC5, CHR 0xBF] (c # cs) then CHR ''S'' # fold_name (drop 1 cs)
      else if prefix [CHR 0xE2, CHR 0x84, CHR 0xAA] (c # cs) then CHR ''K'' # fold_name (drop 2 cs)
      else (if byte_in 97 122 c then char_of (byte_of c - 32) else c) # fold_name cs)"

text \<open>\<open>strconv.ParseInt(s, 10, 64)\<close> on the text of a JSON number.\<close>

definition digits_val :: "string \<Rightarrow> nat" where
  "digits_val s = foldl (\<lambda>n c. 10 * n + (byte_of c - 48)) 0 s"

definition ParseInt64 :: "string \<Rightarrow> int option" where
  "ParseInt64 s =
     (let neg = (case s of c # _ \<Rightarrow> c = CHR ''-'' | [] \<Rightarrow> False);
          ds = (if neg then tl s else s);
          n = int (digits_val ds); v = (if neg then - n else n)
      in if ds = [] \<or> \<not> list_all is_digit ds then None
         else if v < - (2 ^ 63) \<or> v \<ge> 2 ^ 63 then None else Some v)"

text \<open>
  Storing a value in an \<open>int\<close> or \<open>string\<close> field: \<open>null\<close> leaves it alone; a value of the wrong kind
  leaves it alone too and is reported after the whole struct has been read (first component).
\<close>

fun store_int :: "json \<Rightarrow> int \<Rightarrow> bool \<times> int" where
  "store_int JNull old = (False, old)"
| "store_int (JNum t) old = (case ParseInt64 t of None \<Rightarrow> (True, old) | Some v \<Rightarrow> (False, v))"
| "store_int _ old = (True, old)"

fun store_string :: "json \<Rightarrow> string \<Rightarrow> bool \<times> string" where
  "store_string JNull old = (False, old)"
| "store_string (JStr t) old = (False, t)"
| "store_string _ old = (True, old)"

definition select_field :: "string list \<Rightarrow> string \<Rightarrow> string option" where
  "select_field names key =
     (if key \<in> set names then Some key else find (\<lambda>f. fold_name f = fold_name key) names)"

section \<open>Round trip of string literals\<close>

definition ascii :: "string \<Rightarrow> bool" where
  "ascii s \<longleftrightarrow> list_all (\<lambda>c. byte_of c < 128) s"

lemma hex_val_hex_digit: "n < 16 \<Longrightarrow> hex_val (hex_digit n) = Some n"
  by (auto simp: hex_val_def hex_digit_def is_digit_def byte_in_def)

lemma byte_of_simps:
  "byte_of CHR 0x22 = 34" "byte_of CHR 0x5C = 92" "byte_of (CHR ''u'') = 117" "byte_of (CHR ''b'') = 98"
  "byte_of (CHR ''f'') = 102" "byte_of (CHR ''n'') = 110" "byte_of (CHR ''r'') = 114" "byte_of (CHR ''t'') = 116"
  by code_simp+

lemma string_step_escape:
  assumes "byte_of c < 128"
  shows "string_step (escape_ascii c @ rest) = StrChunk [c] rest"
proof (cases "html_safe c")
  case True
  then show ?thesis using assms
    by (auto simp: escape_ascii_def string_step_def html_safe_def)
next
  case False
  have hex: "hex4 (CHR ''0'' # CHR ''0'' # hex_digit (byte_of c div 16) # hex_digit (byte_of c mod 16) # rest) = Some (byte_of c, rest)"
    using assms by (simp add: hex_val_hex_digit hex_val_def [of "CHR ''0''"] is_digit_def byte_of_def)
  have "unescape_u (CHR ''0'' # CHR ''0'' # hex_digit (byte_of c div 16) # hex_digit (byte_of c mod 16) # rest) = Some ([c], rest)"
    unfolding unescape_u.simps [of "_ # _"] hex using assms by (simp add: encode_rune_def)
  then show ?thesis using False
    by (auto simp: escape_ascii_def string_step_def unescape_char_def byte_of_simps intro: char_of_eq)
qed

lemma parse_string_quote:
  assumes "ascii s"
  shows "parse_string (quote_body s @ CHR 0x22 # r) = Inr (s, r)"
  using assms
proof (induction s)
  case Nil
  show ?case by (simp add: parse_string.simps string_step_def byte_of_def)
next
  case (Cons c cs)
  then show ?case by (simp add: parse_string.simps [of "escape_ascii c @ _"] string_step_escape ascii_def)
qed

lemma length_escape_ascii: "length (escape_ascii c) \<le> 6"
  by (simp add: escape_ascii_def)

lemma length_quote_body: "length (quote_body s) \<le> 6 * length s"
proof (induction s rule: quote_body.induct)
  case 1
  show ?case by simp
next
  case (2 c cs)
  show ?case
  proof (cases "byte_of c < 128")
    case True
    then show ?thesis using "2.IH"(1) [OF True] length_escape_ascii [of c] by simp
  next
    case False
    let ?n = "utf8_len (c # cs)"
    show ?thesis
    proof (cases "?n = 0")
      case True
      then show ?thesis using False "2.IH"(2) [OF False refl] by simp
    next
      case n: False
      have "length (quote_body (drop ?n (c # cs))) \<le> 6 * (Suc (length cs) - ?n)"
        using "2.IH"(3) [OF False refl n] by simp
      moreover have "6 * (Suc (length cs) - ?n) + 6 * min ?n (Suc (length cs)) = 6 * Suc (length cs)"
        by (simp only: min_def split: if_split) arith
      moreover define chunk where "chunk =
          (if take 3 (c # cs) = map char_of [226::nat, 128, 168] then CHR 0x5C # ''u2028''
           else if take 3 (c # cs) = map char_of [226::nat, 128, 169] then CHR 0x5C # ''u2029''
           else take ?n (c # cs))"
      moreover have "length chunk \<le> 6 * min ?n (Suc (length cs))"
      proof -
        define m where "m = min ?n (Suc (length cs))"
        have "length (take ?n (c # cs)) = m" "1 \<le> m" using n by (simp_all add: m_def min.commute)
        then show ?thesis unfolding chunk_def m_def [symmetric] by auto
      qed
      moreover have "quote_body (c # cs) = chunk @ quote_body (drop ?n (c # cs))"
        using False n by (simp only: chunk_def quote_body.simps Let_def if_False)
      ultimately show ?thesis by simp
    qed
  qed
qed

lemma skip_ws_id: "\<not> is_ws c \<Longrightarrow> skip_ws (c # cs) = c # cs"
  by (simp add: skip_ws_def)

lemma is_ws_simps [simp]:
  "\<not> is_ws CHR 0x22" "\<not> is_ws (CHR ''{'')" "\<not> is_ws (CHR ''}'')" "\<not> is_ws (CHR '':'')" "\<not> is_ws (CHR '','')" "\<not> is_ws (CHR ''1'')"
  by (simp_all add: is_ws_def byte_of_def)

lemma parse_key_quote:
  assumes "ascii k"
  shows "parse_key (json_quote k @ CHR '':'' # r) = Inr (k, r)"
  using parse_string_quote [OF assms] by (simp add: parse_key_def json_quote_def skip_ws_id)

lemma parse_value_quote:
  assumes "ascii v"
  shows "parse_value (Suc n) d (json_quote v @ r) = Inr (JStr v, r)"
  using parse_string_quote [OF assms] by (simp add: json_quote_def skip_ws_id)

lemma is_digit_one [simp]: "is_digit (CHR ''1'')" "\<not> is_digit (CHR '','')" "\<not> is_digit (CHR ''}'')"
  by (simp_all add: is_digit_def byte_of_def)

lemma parse_value_one:
  assumes "c = CHR '','' \<or> c = CHR ''}''"
  shows "parse_value (Suc n) d (CHR ''1'' # c # cs) = Inr (JNum ''1'', c # cs)"
  using assms by (auto simp: skip_ws_id strip_def parse_number_def parse_frac_def parse_exp_def Let_def)

lemma parse_members_quote:
  assumes "ascii k" "ascii v"
  shows "parse_members (Suc (Suc n)) d (json_quote k @ CHR '':'' # json_quote v @ CHR ''}'' # cs) = Inr ([(k, JStr v)], cs)"
    "parse_members (Suc (Suc n)) d (json_quote k @ CHR '':'' # json_quote v @ CHR '','' # cs) =
       (case parse_members (Suc n) d cs of Inl e \<Rightarrow> Inl e | Inr (ms, r') \<Rightarrow> Inr ((k, JStr v) # ms, r'))"
  by (simp_all add: parse_key_quote parse_value_quote assms skip_ws_id del: parse_value.simps)

lemma parse_members_one:
  assumes "ascii k"
  shows "parse_members (Suc (Suc n)) d (json_quote k @ CHR '':'' # CHR ''1'' # CHR ''}'' # cs) = Inr ([(k, JNum ''1'')], cs)"
    "parse_members (Suc (Suc n)) d (json_quote k @ CHR '':'' # CHR ''1'' # CHR '','' # cs) =
       (case parse_members (Suc n) d cs of Inl e \<Rightarrow> Inl e | Inr (ms, r') \<Rightarrow> Inr ((k, JNum ''1'') # ms, r'))"
  by (simp_all add: parse_key_quote parse_value_one assms skip_ws_id del: parse_value.simps)

lemma parse_object:
  "parse_value (Suc n) 0 (CHR ''{'' # json_quote k @ rest) =
     (case parse_members n 1 (json_quote k @ rest) of Inl e \<Rightarrow> Inl e | Inr (ms, r) \<Rightarrow> Inr (JObj ms, r))"
  by (simp add: skip_ws_id json_quote_def maxNestingDepth_def del: parse_members.simps)

end
