(* ===== verification/JsonPrint.thy ===== *)
theory JsonPrint
  imports Json
begin

text \<open>
  Compact printing of JSON values, as \<open>json.Marshal\<close> lays them out, and the proof that the parser
  reads back what was printed: strings of ASCII bytes, integers, and nesting within the limit.
\<close>

fun join_comma :: "string list \<Rightarrow> string" where
  "join_comma [] = []"
| "join_comma [s] = s"
| "join_comma (s # t # ts) = s @ '','' @ join_comma (t # ts)"

fun print_json :: "json \<Rightarrow> string" where
  "print_json JNull = ''null''"
| "print_json (JBool b) = (if b then ''true'' else ''false'')"
| "print_json (JNum t) = t"
| "print_json (JStr s) = json_quote s"
| "print_json (JArr vs) = ''['' @ join_comma (map print_json vs) @ '']''"
| "print_json (JObj ms) = ''{'' @ join_comma (map (\<lambda>(k, v). json_quote k @ CHR '':'' # print_json v) ms) @ ''}''"

section \<open>Numbers\<close>

text \<open>The text of an integer: an optional sign and digits without leading zeros.\<close>

definition num_ok :: "string \<Rightarrow> bool" where
  "num_ok t \<longleftrightarrow>
     (let ds = (case t of c # cs \<Rightarrow> if c = CHR ''-'' then cs else t | [] \<Rightarrow> [])
      in ds \<noteq> [] \<and> list_all is_digit ds \<and> (hd ds = CHR ''0'' \<longrightarrow> tl ds = []))"

text \<open>What may follow a value: nothing, a line break, or punctuation.\<close>

definition delim :: "string \<Rightarrow> bool" where
  "delim r \<longleftrightarrow> (case r of [] \<Rightarrow> True | c # _ \<Rightarrow> byte_of c \<in> {10, 44, 93, 125})"

lemma delim_simps [simp]: "delim []" "delim (CHR '','' # r)" "delim (CHR '']'' # r)" "delim (CHR ''}'' # r)" "delim (CHR 0x0A # r)"
  by (simp_all add: delim_def byte_of_def)

lemma delim_not_digit: "delim r \<Longrightarrow> r = c # cs \<Longrightarrow> \<not> is_digit c \<and> c \<noteq> CHR ''.'' \<and> c \<noteq> CHR ''e'' \<and> c \<noteq> CHR ''E''"
  by (auto simp: delim_def is_digit_def byte_of_def)

lemma takeWhile_digits: "list_all is_digit ds \<Longrightarrow> delim r \<Longrightarrow> takeWhile is_digit (ds @ r) = ds \<and> dropWhile is_digit (ds @ r) = r"
  by (induction ds) (auto simp: delim_not_digit split: list.splits, (cases r; simp add: delim_not_digit)+)

lemma parse_frac_delim: "delim r \<Longrightarrow> parse_frac r = Some ([], r)"
  by (cases r) (auto simp: parse_frac_def dest: delim_not_digit)

lemma parse_exp_delim: "delim r \<Longrightarrow> parse_exp r = Some ([], r)"
  by (cases r) (auto simp: parse_exp_def dest: delim_not_digit)

lemma parse_number_ok:
  assumes "num_ok t" "delim r"
  shows "parse_number (t @ r) = Inr (t, r)"
proof -
  define neg where "neg = (case t of c # _ \<Rightarrow> c = CHR ''-'' | [] \<Rightarrow> False)"
  define ds where "ds = (if neg then tl t else t)"
  have ds: "ds \<noteq> []" "list_all is_digit ds" "hd ds = CHR ''0'' \<longrightarrow> tl ds = []"
    using assms(1) by (auto simp: num_ok_def ds_def neg_def Let_def split: list.splits if_splits)
  have t: "t = (if neg then ''-'' else []) @ ds"
    using ds(1) by (auto simp: ds_def neg_def split: list.splits if_splits)
  have neg': "(case t @ r of c # _ \<Rightarrow> c = CHR ''-'' | [] \<Rightarrow> False) = neg"
    using ds(1) by (cases t) (simp_all add: neg_def ds_def)
  have tl: "(if neg then tl (t @ r) else t @ r) = ds @ r" using t by auto
  obtain d ds' where d: "ds = d # ds'" using ds(1) by (cases ds) auto
  have rest: "(if d = CHR ''0'' then [d] else takeWhile is_digit (ds @ r)) = ds"
    "(if d = CHR ''0'' then ds' @ r else dropWhile is_digit (ds @ r)) = r"
    using ds(3) takeWhile_digits [OF ds(2) assms(2)] d by auto
  have "is_digit d" using ds(2) d by simp
  moreover have "(if neg then ''-'' else []) @ d # ds' = t" using t d by simp
  ultimately show ?thesis
    unfolding parse_number_def Let_def neg' tl using rest d
    by (simp add: parse_frac_delim parse_exp_delim assms(2))
qed

lemma num_ok_head:
  assumes "num_ok t"
  obtains c cs where "t = c # cs" "c = CHR ''-'' \<or> is_digit c"
  using assms by (auto simp: num_ok_def Let_def split: list.splits if_splits)

section \<open>Reading back\<close>

fun ok_json :: "nat \<Rightarrow> json \<Rightarrow> bool" where
  "ok_json d JNull \<longleftrightarrow> True"
| "ok_json d (JBool b) \<longleftrightarrow> True"
| "ok_json d (JNum t) \<longleftrightarrow> num_ok t"
| "ok_json d (JStr s) \<longleftrightarrow> ascii s"
| "ok_json d (JArr vs) \<longleftrightarrow> d < maxNestingDepth \<and> (\<forall>v \<in> set vs. ok_json (Suc d) v)"
| "ok_json d (JObj ms) \<longleftrightarrow> d < maxNestingDepth \<and> (\<forall>(k, v) \<in> set ms. ascii k \<and> ok_json (Suc d) v)"


lemma digit_not_special: "is_digit c \<Longrightarrow> \<not> is_ws c \<and> c \<notin> {CHR 0x22, CHR ''{'', CHR ''['', CHR '']'', CHR ''t'', CHR ''f'', CHR ''n''}"
  by (auto simp: is_digit_def is_ws_def byte_of_def)

lemma minus_not_special: "\<not> is_ws (CHR ''-'')" "\<not> is_ws (CHR ''['')" "\<not> is_ws (CHR ''t'')" "\<not> is_ws (CHR ''f'')" "\<not> is_ws (CHR ''n'')" "\<not> is_ws (CHR '']'')"
  by (simp_all add: is_ws_def byte_of_def)

lemma print_json_head:
  assumes "ok_json d v"
  obtains c cs where "print_json v = c # cs" "\<not> is_ws c" "c \<noteq> CHR '']''"
proof (cases v)
  case (JNum t)
  then obtain c cs where "t = c # cs" "c = CHR ''-'' \<or> is_digit c" using assms num_ok_head by auto
  then show ?thesis using that JNum digit_not_special minus_not_special by auto
next
  case (JBool b)
  then show ?thesis using that by (cases b) (auto simp: minus_not_special)
qed (auto intro: that simp: json_quote_def minus_not_special)

lemma parse_value_num:
  assumes "num_ok t" "delim r"
  shows "parse_value (Suc n) d (t @ r) = Inr (JNum t, r)"
proof -
  obtain c cs where c: "t = c # cs" "c = CHR ''-'' \<or> is_digit c" using num_ok_head [OF assms(1)] by blast
  then have s: "\<not> is_ws c" "c \<notin> {CHR 0x22, CHR ''{'', CHR ''['', CHR ''t'', CHR ''f'', CHR ''n''}"
    using digit_not_special minus_not_special by auto
  have "parse_number (c # cs @ r) = Inr (t, r)" using parse_number_ok [OF assms] c(1) by simp
  then show ?thesis using c(1) s by (auto simp: skip_ws_id strip_def)
qed

abbreviation print_member :: "string \<times> json \<Rightarrow> string" where
  "print_member m \<equiv> (case m of (k, v) \<Rightarrow> json_quote k @ CHR '':'' # print_json v)"

lemma join_comma_Cons: "join_comma (s # ts) @ r = s @ (if ts = [] then r else CHR '','' # join_comma ts @ r)"
  by (cases ts) auto

lemma parse_print:
  "ok_json d v \<Longrightarrow> delim r \<Longrightarrow> parse_value n d (print_json v @ r) \<in> {Inl OutOfFuel, Inr (v, r)}"
  "\<forall>v \<in> set vs. ok_json d v \<Longrightarrow> vs \<noteq> [] \<Longrightarrow>
     parse_elems n d (join_comma (map print_json vs) @ CHR '']'' # r) \<in> {Inl OutOfFuel, Inr (vs, r)}"
  "\<forall>(k, v) \<in> set ms. ascii k \<and> ok_json d v \<Longrightarrow> ms \<noteq> [] \<Longrightarrow>
     parse_members n d (join_comma (map print_member ms) @ CHR ''}'' # r) \<in> {Inl OutOfFuel, Inr (ms, r)}"
proof (induction n arbitrary: d v r vs ms)
  case 0
  { case 1 then show ?case by simp next case 2 then show ?case by simp next case 3 then show ?case by simp }
next
  case (Suc n)
  { case 1
    show ?case
    proof (cases v)
      case (JNum t)
      then show ?thesis using 1 by (simp add: parse_value_num del: parse_value.simps)
    next
      case (JStr s)
      then show ?thesis using 1 by (simp add: parse_value_quote del: parse_value.simps)
    next
      case (JArr vs)
      show ?thesis
      proof (cases "vs = []")
        case True
        then show ?thesis using JArr 1 by (simp add: skip_ws_id minus_not_special)
      next
        case False
        then obtain w ws where w: "vs = w # ws" by (cases vs) auto
        obtain c cs where c: "print_json w = c # cs" "\<not> is_ws c" "c \<noteq> CHR '']''"
          using print_json_head [of "Suc d" w] 1 JArr w by auto
        then obtain cs' where cs': "join_comma (map print_json vs) @ CHR '']'' # r = c # cs'"
          by (simp add: w join_comma_Cons del: join_comma.simps)
        then show ?thesis
          using Suc.IH(2) [of vs "Suc d" r] 1 JArr False c(2,3) unfolding cs' by (auto simp: skip_ws_id minus_not_special cs')
      qed
    next
      case (JObj ms)
      show ?thesis
      proof (cases "ms = []")
        case True
        then show ?thesis using JObj 1 by (simp add: skip_ws_id)
      next
        case False
        then obtain m ms' where m: "ms = m # ms'" by (cases ms) auto
        then obtain cs' where cs': "join_comma (map print_member ms) @ CHR ''}'' # r = CHR 0x22 # cs'"
          by (cases m) (simp add: json_quote_def join_comma_Cons del: join_comma.simps)
        then show ?thesis
          using Suc.IH(3) [of ms "Suc d" r] 1 JObj False unfolding cs' by (auto simp: skip_ws_id cs')
      qed
    qed (auto simp: skip_ws_id minus_not_special strip_def)
  next
    case 2
    then obtain w ws where w: "vs = w # ws" by (cases vs) auto
    let ?r = "if ws = [] then CHR '']'' # r else CHR '','' # join_comma (map print_json ws) @ CHR '']'' # r"
    have "parse_value n d (print_json w @ ?r) \<in> {Inl OutOfFuel, Inr (w, ?r)}"
      using 2 w by (intro Suc.IH(1)) auto
    moreover have "ws \<noteq> [] \<Longrightarrow> parse_elems n d (join_comma (map print_json ws) @ CHR '']'' # r) \<in> {Inl OutOfFuel, Inr (ws, r)}"
      using 2 w by (intro Suc.IH(2)) auto
    moreover have "join_comma (map print_json vs) @ CHR '']'' # r = print_json w @ ?r"
      by (simp add: w join_comma_Cons del: join_comma.simps)
    ultimately show ?case
      by (cases "ws = []") (auto simp: w skip_ws_id minus_not_special)
  next
    case 3
    then obtain k w ws where w: "ms = (k, w) # ws" by (cases ms) auto
    let ?r = "if ws = [] then CHR ''}'' # r else CHR '','' # join_comma (map print_member ws) @ CHR ''}'' # r"
    have "parse_value n d (print_json w @ ?r) \<in> {Inl OutOfFuel, Inr (w, ?r)}"
      using 3 w by (intro Suc.IH(1)) auto
    moreover have "ws \<noteq> [] \<Longrightarrow> parse_members n d (join_comma (map print_member ws) @ CHR ''}'' # r) \<in> {Inl OutOfFuel, Inr (ws, r)}"
      using 3 w by (intro Suc.IH(3)) auto
    moreover have "join_comma (map print_member ms) @ CHR ''}'' # r = json_quote k @ CHR '':'' # print_json w @ ?r"
      by (simp add: w join_comma_Cons del: join_comma.simps)
    moreover have "parse_key (json_quote k @ CHR '':'' # print_json w @ ?r) = Inr (k, print_json w @ ?r)"
      using 3 w by (intro parse_key_quote) auto
    ultimately show ?case
      by (cases "ws = []") (auto simp: w skip_ws_id)
  }
qed

text \<open>What the encoder wrote on a stream is the first value the decoder reads from it.\<close>

lemma decode_first_print: "ok_json 0 v \<Longrightarrow> delim r \<Longrightarrow> decode_first (print_json v @ r) = Inr (v, r)"
  using parse_print(1) [of 0 v r "json_fuel (print_json v @ r)"] parse_enough_fuel(1) [of "json_fuel (print_json v @ r)" 0 "print_json v @ r"]
  by (auto simp: decode_first_def json_fuel_def)

section \<open>Integers\<close>

lemma is_digit_digit_char: "n < 10 \<Longrightarrow> is_digit (digit_char n)"
  by (simp add: is_digit_def)

lemma show_nat_digits: "show_nat n \<noteq> [] \<and> list_all is_digit (show_nat n) \<and> (hd (show_nat n) = CHR ''0'' \<longrightarrow> n = 0)"
proof (induction n rule: show_nat.induct)
  case (1 n)
  show ?case
  proof (cases "n < 10")
    case True
    have "byte_of (char_of (48 + n)) = 48 + n" using True by simp
    then have "char_of (48 + n) = CHR ''0'' \<Longrightarrow> n = 0" by (simp add: byte_of_def)
    then show ?thesis using True is_digit_digit_char [OF True] by (simp add: show_nat.simps [of n])
  next
    case False
    then show ?thesis using 1 is_digit_digit_char [of "n mod 10"] by (auto simp: show_nat.simps [of n])
  qed
qed

lemma digits_val_show_nat [simp]: "digits_val (show_nat n) = n"
proof (induction n rule: show_nat.induct)
  case (1 n)
  then show ?case by (cases "n < 10") (auto simp: show_nat.simps [of n] digits_val_def)
qed

lemma show_nat_not_minus: "show_nat n = c # cs \<Longrightarrow> c \<noteq> CHR ''-''"
  using show_nat_digits [of n] by (auto simp: is_digit_def byte_of_def)

lemma show_nat_zero_tl: "hd (show_nat n) = CHR ''0'' \<Longrightarrow> tl (show_nat n) = []"
proof -
  assume "hd (show_nat n) = CHR ''0''"
  then have "n = 0" using show_nat_digits by blast
  then show ?thesis by (simp add: show_nat.simps [of 0])
qed

lemma num_ok_show_int [simp]: "num_ok (show_int i)"
proof -
  obtain c cs where c: "show_nat (nat \<bar>i\<bar>) = c # cs" using show_nat_digits by (cases "show_nat (nat \<bar>i\<bar>)") auto
  then show ?thesis
    using show_nat_digits [of "nat \<bar>i\<bar>"] show_nat_not_minus [OF c] show_nat_zero_tl [of "nat \<bar>i\<bar>"]
    by (auto simp: num_ok_def show_int_def)
qed

lemma ParseInt64_show_int: "- (2 ^ 63) \<le> i \<Longrightarrow> i < 2 ^ 63 \<Longrightarrow> ParseInt64 (show_int i) = Some i"
proof -
  assume i: "- (2 ^ 63) \<le> i" "i < 2 ^ 63"
  obtain c cs where c: "show_nat (nat \<bar>i\<bar>) = c # cs" using show_nat_digits by (cases "show_nat (nat \<bar>i\<bar>)") auto
  have v: "digits_val (c # cs) = nat \<bar>i\<bar>" using c digits_val_show_nat by metis
  then show ?thesis
    using show_nat_digits [of "nat \<bar>i\<bar>"] show_nat_not_minus [OF c] i c
    by (auto simp: ParseInt64_def show_int_def Let_def)
qed

end
