(* ===== verification/Ipc.thy ===== *)
theory Ipc
  imports JsonPrint "HOL-Library.Char_ord" "HOL-Library.List_Lexorder"
begin

text \<open>
  The messages between shim and daemon (\<open>pkg/daemon/ipc.go\<close>).  A request is modelled down to the bytes on
  the socket, as \<open>json.Encoder\<close> writes and \<open>json.Decoder\<close> reads them; a response is the struct.  Slices and
  maps that are nil or empty are the empty list: the encoder omits them, or writes \<open>null\<close> in the nested
  TLS settings.
\<close>

section \<open>Protocol constants\<close>

definition ProtocolVersion :: int where "ProtocolVersion = 2"

definition ErrCodeTokenRevoked :: string where "ErrCodeTokenRevoked = ''TOKEN_REVOKED''"
definition ErrCodeLoginInProgress :: string where "ErrCodeLoginInProgress = ''LOGIN_IN_PROGRESS''"
definition ErrCodeRefreshFailed :: string where "ErrCodeRefreshFailed = ''REFRESH_FAILED''"
definition ErrCodeProviderUnreachable :: string where "ErrCodeProviderUnreachable = ''PROVIDER_UNREACHABLE''"
definition ErrCodeNeedsLogin :: string where "ErrCodeNeedsLogin = ''NEEDS_LOGIN''"

lemmas err_codes = ErrCodeTokenRevoked_def ErrCodeLoginInProgress_def ErrCodeRefreshFailed_def
  ErrCodeProviderUnreachable_def ErrCodeNeedsLogin_def

section \<open>Requests\<close>

record TLSClientConfig =
  tls_CACertFilename :: "string list"
  tls_CACertData :: "string list"
  tls_SkipTLSVerify :: bool
  tls_Renegotiation :: int

record Request =
  rq_Version :: int
  rq_Command :: string
  rq_CacheKey :: string
  rq_Nonce :: string
  rq_IssuerURL :: string
  rq_ClientID :: string
  rq_ClientSecret :: string
  rq_ExtraScopes :: "string list"
  rq_ExtraParams :: "(string, string) gomap"
  rq_Username :: string
  rq_UseAccessToken :: bool
  rq_GrantType :: string
  rq_RequestHeaders :: "(string, string) gomap"
  rq_RedirectURL :: string
  rq_ForceRefresh :: bool
  rq_TLSConfig :: TLSClientConfig
  rq_IDToken :: string
  rq_RefreshToken :: string

definition zero_tls :: TLSClientConfig where
  "zero_tls = \<lparr>tls_CACertFilename = [], tls_CACertData = [], tls_SkipTLSVerify = False, tls_Renegotiation = 0\<rparr>"

definition zero_request :: Request where
  "zero_request = \<lparr>rq_Version = 0, rq_Command = [], rq_CacheKey = [], rq_Nonce = [], rq_IssuerURL = [], rq_ClientID = [],
     rq_ClientSecret = [], rq_ExtraScopes = [], rq_ExtraParams = [], rq_Username = [], rq_UseAccessToken = False,
     rq_GrantType = [], rq_RequestHeaders = [], rq_RedirectURL = [], rq_ForceRefresh = False, rq_TLSConfig = zero_tls,
     rq_IDToken = [], rq_RefreshToken = []\<rparr>"

subsection \<open>Encoding\<close>

definition omit_string :: "string \<Rightarrow> string \<Rightarrow> (string \<times> json) list" where
  "omit_string name s = (if s = [] then [] else [(name, JStr s)])"

definition omit_strings :: "string \<Rightarrow> string list \<Rightarrow> (string \<times> json) list" where
  "omit_strings name xs = (if xs = [] then [] else [(name, JArr (map JStr xs))])"

definition omit_map :: "string \<Rightarrow> (string, string) gomap \<Rightarrow> (string \<times> json) list" where
  "omit_map name m = (if m = [] then [] else [(name, JObj (map (\<lambda>(k, v). (k, JStr v)) (sort_key fst m)))])"

definition omit_bool :: "string \<Rightarrow> bool \<Rightarrow> (string \<times> json) list" where
  "omit_bool name b = (if b then [(name, JBool True)] else [])"

definition strings_json :: "string list \<Rightarrow> json" where
  "strings_json xs = (if xs = [] then JNull else JArr (map JStr xs))"

definition tls_json :: "TLSClientConfig \<Rightarrow> json" where
  "tls_json c = JObj [(''CACertFilename'', strings_json (tls_CACertFilename c)), (''CACertData'', strings_json (tls_CACertData c)),
     (''SkipTLSVerify'', JBool (tls_SkipTLSVerify c)), (''Renegotiation'', JNum (show_int (tls_Renegotiation c)))]"

definition request_members :: "Request \<Rightarrow> (string \<times> json) list" where
  "request_members r =
     (''version'', JNum (show_int (rq_Version r))) # (''command'', JStr (rq_Command r)) #
     omit_string ''cache_key'' (rq_CacheKey r) @ omit_string ''nonce'' (rq_Nonce r) @
     omit_string ''issuer_url'' (rq_IssuerURL r) @ omit_string ''client_id'' (rq_ClientID r) @
     omit_string ''client_secret'' (rq_ClientSecret r) @ omit_strings ''extra_scopes'' (rq_ExtraScopes r) @
     omit_map ''extra_params'' (rq_ExtraParams r) @ omit_string ''username'' (rq_Username r) @
     omit_bool ''use_access_token'' (rq_UseAccessToken r) @ omit_string ''grant_type'' (rq_GrantType r) @
     omit_map ''request_headers'' (rq_RequestHeaders r) @ omit_string ''redirect_url'' (rq_RedirectURL r) @
     omit_bool ''force_refresh'' (rq_ForceRefresh r) @ [(''tls_config'', tls_json (rq_TLSConfig r))] @
     omit_string ''id_token'' (rq_IDToken r) @ omit_string ''refresh_token'' (rq_RefreshToken r)"

text \<open>\<open>json.NewEncoder(conn).Encode(req)\<close>.\<close>

definition encode_request :: "Request \<Rightarrow> string" where
  "encode_request r = print_json (JObj (request_members r)) @ [CHR 0x0A]"

subsection \<open>Decoding\<close>

fun store_bool :: "json \<Rightarrow> bool \<Rightarrow> bool \<times> bool" where
  "store_bool JNull old = (False, old)"
| "store_bool (JBool b) old = (False, b)"
| "store_bool _ old = (True, old)"

text \<open>Elements are decoded over the old ones; \<open>null\<close> leaves an element as it was and clears a slice or map.\<close>

fun store_elems :: "json list \<Rightarrow> string list \<Rightarrow> bool \<times> string list" where
  "store_elems [] old = (False, [])"
| "store_elems (v # vs) old =
     (let (b, s) = store_string v (case old of [] \<Rightarrow> [] | x # _ \<Rightarrow> x); (bs, ss) = store_elems vs (tl old)
      in (b \<or> bs, s # ss))"

fun store_strings :: "json \<Rightarrow> string list \<Rightarrow> bool \<times> string list" where
  "store_strings JNull old = (False, [])"
| "store_strings (JArr vs) old = store_elems vs old"
| "store_strings _ old = (True, old)"

fun store_entries :: "(string \<times> json) list \<Rightarrow> (string, string) gomap \<Rightarrow> bool \<times> (string, string) gomap" where
  "store_entries [] m = (False, m)"
| "store_entries ((k, v) # kvs) m =
     (let (b, s) = store_string v []; (bs, m') = store_entries kvs (gm_put k s m) in (b \<or> bs, m'))"

fun store_map :: "json \<Rightarrow> (string, string) gomap \<Rightarrow> bool \<times> (string, string) gomap" where
  "store_map JNull old = (False, [])"
| "store_map (JObj kvs) old = store_entries kvs old"
| "store_map _ old = (True, old)"

definition tls_fields :: "string list" where
  "tls_fields = [''CACertFilename'', ''CACertData'', ''SkipTLSVerify'', ''Renegotiation'']"

definition tls_member :: "string \<times> json \<Rightarrow> bool \<times> TLSClientConfig \<Rightarrow> bool \<times> TLSClientConfig" where
  "tls_member m st =
     (case select_field tls_fields (fst m) of
        None \<Rightarrow> st
      | Some f \<Rightarrow>
          if f = ''CACertFilename'' then
            (let (b, v) = store_strings (snd m) (tls_CACertFilename (snd st)) in (fst st \<or> b, (snd st)\<lparr>tls_CACertFilename := v\<rparr>))
          else if f = ''CACertData'' then
            (let (b, v) = store_strings (snd m) (tls_CACertData (snd st)) in (fst st \<or> b, (snd st)\<lparr>tls_CACertData := v\<rparr>))
          else if f = ''SkipTLSVerify'' then
            (let (b, v) = store_bool (snd m) (tls_SkipTLSVerify (snd st)) in (fst st \<or> b, (snd st)\<lparr>tls_SkipTLSVerify := v\<rparr>))
          else
            (let (b, v) = store_int (snd m) (tls_Renegotiation (snd st)) in (fst st \<or> b, (snd st)\<lparr>tls_Renegotiation := v\<rparr>)))"

fun store_tls :: "json \<Rightarrow> TLSClientConfig \<Rightarrow> bool \<times> TLSClientConfig" where
  "store_tls JNull old = (False, old)"
| "store_tls (JObj ms) old = fold tls_member ms (False, old)"
| "store_tls _ old = (True, old)"

definition request_fields :: "string list" where
  "request_fields = [''version'', ''command'', ''cache_key'', ''nonce'', ''issuer_url'', ''client_id'', ''client_secret'',
     ''extra_scopes'', ''extra_params'', ''username'', ''use_access_token'', ''grant_type'', ''request_headers'',
     ''redirect_url'', ''force_refresh'', ''tls_config'', ''id_token'', ''refresh_token'']"

definition set_field :: "string \<Rightarrow> json \<Rightarrow> Request \<Rightarrow> bool \<times> Request" where
  "set_field f j r =
     (if f = ''version'' then (let (b, v) = store_int j (rq_Version r) in (b, r\<lparr>rq_Version := v\<rparr>))
      else if f = ''command'' then (let (b, v) = store_string j (rq_Command r) in (b, r\<lparr>rq_Command := v\<rparr>))
      else if f = ''cache_key'' then (let (b, v) = store_string j (rq_CacheKey r) in (b, r\<lparr>rq_CacheKey := v\<rparr>))
      else if f = ''nonce'' then (let (b, v) = store_string j (rq_Nonce r) in (b, r\<lparr>rq_Nonce := v\<rparr>))
      else if f = ''issuer_url'' then (let (b, v) = store_string j (rq_IssuerURL r) in (b, r\<lparr>rq_IssuerURL := v\<rparr>))
      else if f = ''client_id'' then (let (b, v) = store_string j (rq_ClientID r) in (b, r\<lparr>rq_ClientID := v\<rparr>))
      else if f = ''client_secret'' then (let (b, v) = store_string j (rq_ClientSecret r) in (b, r\<lparr>rq_ClientSecret := v\<rparr>))
      else if f = ''extra_scopes'' then (let (b, v) = store_strings j (rq_ExtraScopes r) in (b, r\<lparr>rq_ExtraScopes := v\<rparr>))
      else if f = ''extra_params'' then (let (b, v) = store_map j (rq_ExtraParams r) in (b, r\<lparr>rq_ExtraParams := v\<rparr>))
      else if f = ''username'' then (let (b, v) = store_string j (rq_Username r) in (b, r\<lparr>rq_Username := v\<rparr>))
      else if f = ''use_access_token'' then (let (b, v) = store_bool j (rq_UseAccessToken r) in (b, r\<lparr>rq_UseAccessToken := v\<rparr>))
      else if f = ''grant_type'' then (let (b, v) = store_string j (rq_GrantType r) in (b, r\<lparr>rq_GrantType := v\<rparr>))
      else if f = ''request_headers'' then (let (b, v) = store_map j (rq_RequestHeaders r) in (b, r\<lparr>rq_RequestHeaders := v\<rparr>))
      else if f = ''redirect_url'' then (let (b, v) = store_string j (rq_RedirectURL r) in (b, r\<lparr>rq_RedirectURL := v\<rparr>))
      else if f = ''force_refresh'' then (let (b, v) = store_bool j (rq_ForceRefresh r) in (b, r\<lparr>rq_ForceRefresh := v\<rparr>))
      else if f = ''tls_config'' then (let (b, v) = store_tls j (rq_TLSConfig r) in (b, r\<lparr>rq_TLSConfig := v\<rparr>))
      else if f = ''id_token'' then (let (b, v) = store_string j (rq_IDToken r) in (b, r\<lparr>rq_IDToken := v\<rparr>))
      else (let (b, v) = store_string j (rq_RefreshToken r) in (b, r\<lparr>rq_RefreshToken := v\<rparr>)))"

definition request_member :: "string \<times> json \<Rightarrow> bool \<times> Request \<Rightarrow> bool \<times> Request" where
  "request_member m st =
     (case select_field request_fields (fst m) of
        None \<Rightarrow> st
      | Some f \<Rightarrow> (let (b, r) = set_field f (snd m) (snd st) in (fst st \<or> b, r)))"

definition request_of_json :: "json \<Rightarrow> go_error + Request" where
  "request_of_json v =
     (case v of
        JNull \<Rightarrow> Inr zero_request
      | JObj ms \<Rightarrow>
          (case fold request_member ms (False, zero_request) of
             (True, _) \<Rightarrow> Inl (Err ''cannot unmarshal value into Go struct field'')
           | (False, r) \<Rightarrow> Inr r)
      | _ \<Rightarrow> Inl (Err ''cannot unmarshal value into Go value of type daemon.Request''))"

text \<open>
  \<open>Decode\<close> on the bytes that arrived (cut at one mebibyte), and what the decoder still buffers: the
  request with the rest of the input.
\<close>

definition decode_request :: "string \<Rightarrow> go_error + (Request \<times> string)" where
  "decode_request input =
     (case decode_first (take (2 ^ 20) input) of
        Inl _ \<Rightarrow> Inl (Err ''invalid JSON'')
      | Inr (v, rest) \<Rightarrow> (case request_of_json v of Inl e \<Rightarrow> Inl e | Inr r \<Rightarrow> Inr (r, rest)))"

section \<open>Responses\<close>

record Response =
  rs_Version :: int
  rs_DaemonVersion :: int
  rs_Status :: string
  rs_Token :: string
  rs_Expiry :: gotime
  rs_Error :: string
  rs_ErrorCode :: string
  rs_Uptime :: string
  rs_TokenExpiry :: "gotime option"
  rs_Ready :: "bool option"
  rs_State :: string
  rs_AccessTokenExpiry :: "gotime option"
  rs_RefreshTokenValid :: "bool option"
  rs_DaemonRunning :: "bool option"
  rs_Message :: string
  rs_Action :: string
  rs_LoginStartedAt :: "gotime option"
  rs_Refreshed :: "bool option"
  rs_PID :: int
  rs_LogPath :: string
  rs_RuntimeDir :: string
  rs_BinaryPath :: string
  rs_TokenCount :: int
  rs_UptimeSeconds :: int

text \<open>A struct literal with the two version fields and the status.\<close>

definition base_response :: "string \<Rightarrow> Response" where
  "base_response status = \<lparr>rs_Version = ProtocolVersion, rs_DaemonVersion = ProtocolVersion, rs_Status = status,
     rs_Token = [], rs_Expiry = 0, rs_Error = [], rs_ErrorCode = [], rs_Uptime = [], rs_TokenExpiry = None,
     rs_Ready = None, rs_State = [], rs_AccessTokenExpiry = None, rs_RefreshTokenValid = None, rs_DaemonRunning = None,
     rs_Message = [], rs_Action = [], rs_LoginStartedAt = None, rs_Refreshed = None, rs_PID = 0, rs_LogPath = [],
     rs_RuntimeDir = [], rs_BinaryPath = [], rs_TokenCount = 0, rs_UptimeSeconds = 0\<rparr>"

definition errorResponse :: "string \<Rightarrow> Response" where
  "errorResponse msg = (base_response ''error'')\<lparr>rs_Error := msg\<rparr>"

definition errorCodeResponse :: "string \<Rightarrow> string \<Rightarrow> string \<Rightarrow> Response" where
  "errorCodeResponse code msg action = (base_response ''error'')\<lparr>rs_Error := msg, rs_ErrorCode := code, rs_Action := action\<rparr>"

definition tokenResponse :: "string \<Rightarrow> gotime \<Rightarrow> Response" where
  "tokenResponse token expiry = (base_response ''ok'')\<lparr>rs_Token := token, rs_Expiry := expiry\<rparr>"

definition needsAuthResponse :: Response where
  "needsAuthResponse = (base_response ''needs-auth'')\<lparr>rs_ErrorCode := ErrCodeNeedsLogin,
     rs_Message := ''No valid token. Authentication required.'', rs_Action := ''Run 'kubelogin-daemon login' in a terminal''\<rparr>"

lemmas response_defs = base_response_def errorResponse_def errorCodeResponse_def tokenResponse_def needsAuthResponse_def

section \<open>Round trip of requests\<close>

text \<open>A request that survives the wire: ASCII strings, integers of 64 bits, maps with distinct keys.\<close>

definition ascii_map :: "(string, string) gomap \<Rightarrow> bool" where
  "ascii_map m \<longleftrightarrow> gm_wf m \<and> list_all (\<lambda>(k, v). ascii k \<and> ascii v) m"

definition wire_ok :: "Request \<Rightarrow> bool" where
  "wire_ok r \<longleftrightarrow> int64 (rq_Version r) \<and> int64 (tls_Renegotiation (rq_TLSConfig r)) \<and>
     list_all ascii [rq_Command r, rq_CacheKey r, rq_Nonce r, rq_IssuerURL r, rq_ClientID r, rq_ClientSecret r, rq_Username r,
       rq_GrantType r, rq_RedirectURL r, rq_IDToken r, rq_RefreshToken r] \<and>
     list_all ascii (rq_ExtraScopes r) \<and> list_all ascii (tls_CACertFilename (rq_TLSConfig r)) \<and>
     list_all ascii (tls_CACertData (rq_TLSConfig r)) \<and> ascii_map (rq_ExtraParams r) \<and> ascii_map (rq_RequestHeaders r)"

text \<open>The encoder sorts the keys of a map.\<close>

definition sort_maps :: "Request \<Rightarrow> Request" where
  "sort_maps r = r\<lparr>rq_ExtraParams := sort_key fst (rq_ExtraParams r), rq_RequestHeaders := sort_key fst (rq_RequestHeaders r)\<rparr>"

lemma store_elems_print [simp]: "store_elems (map JStr xs) [] = (False, xs)"
  by (induction xs) auto

lemma store_strings_json [simp]: "store_strings (strings_json xs) [] = (False, xs)"
  by (simp add: strings_json_def)

lemma store_entries_print:
  "distinct (map fst (m0 @ m)) \<Longrightarrow> store_entries (map (\<lambda>(k, v). (k, JStr v)) m) m0 = (False, m0 @ m)"
proof (induction m arbitrary: m0)
  case Nil
  show ?case by simp
next
  case (Cons p m)
  obtain k v where p: "p = (k, v)" by (cases p)
  have "gm_put k v m0 = m0 @ [(k, v)]" using Cons.prems by (intro gm_put_new) (auto simp: p)
  then show ?case using Cons.IH [of "m0 @ [(k, v)]"] Cons.prems by (simp add: p)
qed

lemma store_map_print: "gm_wf m \<Longrightarrow> store_map (JObj (map (\<lambda>(k, v). (k, JStr v)) (sort_key fst m))) [] = (False, sort_key fst m)"
  using store_entries_print [of "[]" "sort_key fst m"] by (simp add: gm_wf_def distinct_map)

lemma gm_wf_sort: "gm_wf m \<Longrightarrow> gm_wf (sort_key fst m) \<and> gm_get (sort_key fst m) = gm_get m"
  by (auto simp: gm_wf_def distinct_map intro!: map_of_inject_set [THEN iffD2])


lemma fold_omit_strings:
  "rq_CacheKey r = [] \<Longrightarrow> fold request_member (omit_string ''cache_key'' s) (False, r) = (False, r\<lparr>rq_CacheKey := s\<rparr>)"
  "rq_Nonce r = [] \<Longrightarrow> fold request_member (omit_string ''nonce'' s) (False, r) = (False, r\<lparr>rq_Nonce := s\<rparr>)"
  "rq_IssuerURL r = [] \<Longrightarrow> fold request_member (omit_string ''issuer_url'' s) (False, r) = (False, r\<lparr>rq_IssuerURL := s\<rparr>)"
  "rq_ClientID r = [] \<Longrightarrow> fold request_member (omit_string ''client_id'' s) (False, r) = (False, r\<lparr>rq_ClientID := s\<rparr>)"
  "rq_ClientSecret r = [] \<Longrightarrow> fold request_member (omit_string ''client_secret'' s) (False, r) = (False, r\<lparr>rq_ClientSecret := s\<rparr>)"
  "rq_Username r = [] \<Longrightarrow> fold request_member (omit_string ''username'' s) (False, r) = (False, r\<lparr>rq_Username := s\<rparr>)"
  "rq_GrantType r = [] \<Longrightarrow> fold request_member (omit_string ''grant_type'' s) (False, r) = (False, r\<lparr>rq_GrantType := s\<rparr>)"
  "rq_RedirectURL r = [] \<Longrightarrow> fold request_member (omit_string ''redirect_url'' s) (False, r) = (False, r\<lparr>rq_RedirectURL := s\<rparr>)"
  "rq_IDToken r = [] \<Longrightarrow> fold request_member (omit_string ''id_token'' s) (False, r) = (False, r\<lparr>rq_IDToken := s\<rparr>)"
  "rq_RefreshToken r = [] \<Longrightarrow> fold request_member (omit_string ''refresh_token'' s) (False, r) = (False, r\<lparr>rq_RefreshToken := s\<rparr>)"
  by (simp_all add: omit_string_def request_member_def select_field_def request_fields_def set_field_def)

lemma fold_omit_others:
  "rq_ExtraScopes r = [] \<Longrightarrow> fold request_member (omit_strings ''extra_scopes'' xs) (False, r) = (False, r\<lparr>rq_ExtraScopes := xs\<rparr>)"
  "\<not> rq_UseAccessToken r \<Longrightarrow> fold request_member (omit_bool ''use_access_token'' b) (False, r) = (False, r\<lparr>rq_UseAccessToken := b\<rparr>)"
  "\<not> rq_ForceRefresh r \<Longrightarrow> fold request_member (omit_bool ''force_refresh'' b) (False, r) = (False, r\<lparr>rq_ForceRefresh := b\<rparr>)"
  "rq_ExtraParams r = [] \<Longrightarrow> gm_wf m \<Longrightarrow>
     fold request_member (omit_map ''extra_params'' m) (False, r) = (False, r\<lparr>rq_ExtraParams := sort_key fst m\<rparr>)"
  "rq_RequestHeaders r = [] \<Longrightarrow> gm_wf m \<Longrightarrow>
     fold request_member (omit_map ''request_headers'' m) (False, r) = (False, r\<lparr>rq_RequestHeaders := sort_key fst m\<rparr>)"
  by (simp_all add: omit_strings_def omit_bool_def omit_map_def request_member_def select_field_def request_fields_def
      set_field_def store_map_print del: store_map.simps(2))

lemma store_tls_json: "int64 (tls_Renegotiation c) \<Longrightarrow> store_tls (tls_json c) zero_tls = (False, c)"
  by (simp add: tls_json_def zero_tls_def tls_member_def select_field_def tls_fields_def ParseInt64_show_int int64_def)

lemma request_member_heads:
  "int64 i \<Longrightarrow> request_member (''version'', JNum (show_int i)) (False, r) = (False, r\<lparr>rq_Version := i\<rparr>)"
  "request_member (''command'', JStr s) (False, r) = (False, r\<lparr>rq_Command := s\<rparr>)"
  "int64 (tls_Renegotiation c) \<Longrightarrow> rq_TLSConfig r = zero_tls \<Longrightarrow>
     request_member (''tls_config'', tls_json c) (False, r) = (False, r\<lparr>rq_TLSConfig := c\<rparr>)"
  by (simp_all add: request_member_def select_field_def request_fields_def set_field_def ParseInt64_show_int int64_def store_tls_json)

lemma request_of_members:
  assumes "wire_ok r"
  shows "request_of_json (JObj (request_members r)) = Inr (sort_maps r)"
proof -
  have "fold request_member (request_members r) (False, zero_request) = (False, sort_maps r)"
    using assms unfolding request_members_def wire_ok_def ascii_map_def
    by (simp add: request_member_heads fold_omit_strings fold_omit_others zero_request_def sort_maps_def)
  then show ?thesis by (simp add: request_of_json_def)
qed

lemma ok_omit [simp]:
  "(\<forall>(k, v) \<in> set (omit_string n s). ascii k \<and> ok_json d v) \<longleftrightarrow> (s = [] \<or> ascii n \<and> ascii s)"
  "(\<forall>(k, v) \<in> set (omit_bool n b). ascii k \<and> ok_json d v) \<longleftrightarrow> (\<not> b \<or> ascii n)"
  "d < maxNestingDepth \<Longrightarrow>
   (\<forall>(k, v) \<in> set (omit_strings n xs). ascii k \<and> ok_json d v) \<longleftrightarrow> (xs = [] \<or> ascii n \<and> list_all ascii xs)"
  "d < maxNestingDepth \<Longrightarrow>
   (\<forall>(k, v) \<in> set (omit_map n m). ascii k \<and> ok_json d v) \<longleftrightarrow> (m = [] \<or> ascii n \<and> list_all (\<lambda>(k, v). ascii k \<and> ascii v) m)"
  by (auto simp: omit_string_def omit_bool_def omit_strings_def omit_map_def list_all_iff)

lemma ascii_tls_names: "ascii ''CACertFilename''" "ascii ''CACertData''" "ascii ''SkipTLSVerify''" "ascii ''Renegotiation''"
  by (simp_all add: ascii_def byte_of_def)

lemma ascii_field_names:
  "ascii ''version''" "ascii ''command''" "ascii ''cache_key''" "ascii ''nonce''" "ascii ''issuer_url''" "ascii ''client_id''"
  "ascii ''client_secret''" "ascii ''extra_scopes''" "ascii ''extra_params''" "ascii ''username''" "ascii ''use_access_token''"
  "ascii ''grant_type''" "ascii ''request_headers''" "ascii ''redirect_url''" "ascii ''force_refresh''" "ascii ''tls_config''"
  "ascii ''id_token''" "ascii ''refresh_token''"
  by (simp_all add: ascii_def byte_of_def)

lemma ok_tls_json:
  "list_all ascii (tls_CACertFilename c) \<Longrightarrow> list_all ascii (tls_CACertData c) \<Longrightarrow> ok_json (Suc 0) (tls_json c)"
  by (simp add: tls_json_def strings_json_def ascii_tls_names maxNestingDepth_def list_all_iff)

lemma ok_request_members:
  assumes "wire_ok r"
  shows "ok_json 0 (JObj (request_members r))"
proof -
  have "\<forall>(k, v) \<in> set (request_members r). ascii k \<and> ok_json 1 v"
    using assms unfolding request_members_def wire_ok_def ascii_map_def
    by (simp only: set_append set_simps ball_Un ball_simps ok_omit)
      (simp add: ascii_field_names ok_tls_json maxNestingDepth_def)
  then show ?thesis by (simp add: maxNestingDepth_def)
qed

lemma decode_encode_ok:
  assumes "wire_ok r" "length (encode_request r) \<le> 2 ^ 20"
  shows "decode_request (encode_request r) = Inr (sort_maps r, [CHR 0x0A])"
proof -
  have "decode_first (encode_request r) = Inr (JObj (request_members r), [CHR 0x0A])"
    unfolding encode_request_def using ok_request_members [OF assms(1)] by (rule decode_first_print) simp
  then show ?thesis using assms(2) by (simp add: decode_request_def request_of_members [OF assms(1)])
qed

text \<open>
  C22: a request survives the wire.  What the shim encodes is what the daemon decodes, with nothing left
  in the buffer but the encoder's line break, and maps holding the same entries in key order.
\<close>

theorem decode_encode_request:
  assumes "wire_ok r" and "length (encode_request r) \<le> 2 ^ 20"
  shows "decode_request (encode_request r) = Inr (sort_maps r, [CHR 0x0A]) \<and>
    gm_get (rq_ExtraParams (sort_maps r)) = gm_get (rq_ExtraParams r) \<and>
    gm_get (rq_RequestHeaders (sort_maps r)) = gm_get (rq_RequestHeaders r)"
  using decode_encode_ok [OF assms] assms(1) by (simp add: sort_maps_def wire_ok_def ascii_map_def gm_wf_sort)

lemma length_json_quote: "length (json_quote s) \<le> 6 * length s + 2"
  using length_quote_body [of s] by (simp add: json_quote_def)

theorem decode_encode_request_witness:
  "let r = zero_request\<lparr>rq_Version := 2, rq_Command := ''check'', rq_CacheKey := ''ab'', rq_ExtraParams := [(''b'', ''1''), (''a'', ''2'')]\<rparr>
   in decode_request (encode_request r) = Inr (r\<lparr>rq_ExtraParams := [(''a'', ''2''), (''b'', ''1'')]\<rparr>, [CHR 0x0A])"
proof -
  let ?r = "zero_request\<lparr>rq_Version := 2, rq_Command := ''check'', rq_CacheKey := ''ab'', rq_ExtraParams := [(''b'', ''1''), (''a'', ''2'')]\<rparr>"
  have ok: "wire_ok ?r"
    by (simp add: wire_ok_def zero_request_def zero_tls_def ascii_def byte_of_def int64_def ascii_map_def gm_wf_def)
  have sorted: "sort_maps ?r = ?r\<lparr>rq_ExtraParams := [(''a'', ''2''), (''b'', ''1'')]\<rparr>"
    by (simp add: sort_maps_def zero_request_def insort_key_def less_eq_char_def less_char_def)
  have ints: "show_int 2 = ''2''" "show_int 0 = ''0''"
    by (simp_all add: show_int_def show_nat.simps char_of_eq byte_of_def)
  have "length (encode_request ?r) \<le> 2 ^ 20"
    using length_json_quote [of "''version''"] length_json_quote [of "''command''"] length_json_quote [of "''check''"]
      length_json_quote [of "''cache_key''"] length_json_quote [of "''ab''"] length_json_quote [of "''extra_params''"]
      length_json_quote [of "''a''"] length_json_quote [of "''b''"] length_json_quote [of "''1''"] length_json_quote [of "''2''"]
      length_json_quote [of "''tls_config''"] length_json_quote [of "''CACertFilename''"] length_json_quote [of "''CACertData''"]
      length_json_quote [of "''SkipTLSVerify''"] length_json_quote [of "''Renegotiation''"]
    by (simp add: encode_request_def request_members_def zero_request_def zero_tls_def omit_string_def omit_strings_def omit_map_def
        omit_bool_def tls_json_def strings_json_def ints)
  from decode_encode_request [OF ok this] show ?thesis by (simp add: sorted)
qed

end
