(* ===== verification/Jwt.thy ===== *)
theory Jwt
  imports JsonPrint
begin

text \<open>
  Base64 as \<open>encoding/base64\<close> decodes it (line breaks ignored, positions of errors reported) and the
  unverified decoding of a JWT (\<open>pkg/jwt/decode.go\<close>), with the daemon's reading of the expiry
  (\<open>parseTokenExpiry\<close> of \<open>server.go\<close>).
\<close>

section \<open>Base64\<close>

text \<open>The two alphabets differ in the characters for 62 and 63.\<close>

definition b64_val :: "char \<Rightarrow> char \<Rightarrow> char \<Rightarrow> nat option" where
  "b64_val c62 c63 c =
     (if byte_in 65 90 c then Some (byte_of c - 65)
      else if byte_in 97 122 c then Some (byte_of c - 71)
      else if is_digit c then Some (byte_of c + 4)
      else if c = c62 then Some 62
      else if c = c63 then Some 63
      else None)"

definition b64_char :: "char \<Rightarrow> char \<Rightarrow> nat \<Rightarrow> char" where
  "b64_char c62 c63 n =
     (if n < 26 then char_of (n + 65)
      else if n < 52 then char_of (n + 71)
      else if n < 62 then char_of (n - 4)
      else if n = 62 then c62 else c63)"

abbreviation url_val :: "char \<Rightarrow> nat option" where "url_val \<equiv> b64_val (CHR ''-'') (CHR ''_'')"
abbreviation url_char :: "nat \<Rightarrow> char" where "url_char \<equiv> b64_char (CHR ''-'') (CHR ''_'')"
abbreviation std_val :: "char \<Rightarrow> nat option" where "std_val \<equiv> b64_val (CHR ''+'') (CHR ''/'')"

definition is_newline :: "char \<Rightarrow> bool" where
  "is_newline c \<longleftrightarrow> byte_of c = 10 \<or> byte_of c = 13"

text \<open>Bytes from sextets; the unused low bits of a final group are dropped, a lone sextet is an error.\<close>

fun from_sextets :: "nat list \<Rightarrow> string option" where
  "from_sextets [] = Some []"
| "from_sextets [a] = None"
| "from_sextets [a, b] = Some [char_of (a * 4 + b div 16)]"
| "from_sextets [a, b, c] = Some [char_of (a * 4 + b div 16), char_of (b mod 16 * 16 + c div 4)]"
| "from_sextets (a # b # c # d # rest) =
     map_option (\<lambda>s. char_of (a * 4 + b div 16) # char_of (b mod 16 * 16 + c div 4) # char_of (c mod 4 * 64 + d) # s)
       (from_sextets rest)"

fun to_sextets :: "nat list \<Rightarrow> nat list" where
  "to_sextets [] = []"
| "to_sextets [x] = [x div 4, x mod 4 * 16]"
| "to_sextets [x, y] = [x div 4, x mod 4 * 16 + y div 16, y mod 16 * 4]"
| "to_sextets (x # y # z # rest) =
     [x div 4, x mod 4 * 16 + y div 16, y mod 16 * 4 + z div 64, z mod 64] @ to_sextets rest"

fun first_bad :: "(char \<Rightarrow> bool) \<Rightarrow> nat \<Rightarrow> string \<Rightarrow> nat option" where
  "first_bad good i [] = None"
| "first_bad good i (c # cs) = (if good c then first_bad good (Suc i) cs else Some i)"

definition corrupt_input :: "nat \<Rightarrow> go_error" where
  "corrupt_input i = Err (''illegal base64 data at input byte '' @ show_nat i)"

text \<open>\<open>base64.URLEncoding.WithPadding(base64.NoPadding)\<close>.\<close>

definition url_decode :: "string \<Rightarrow> go_error + string" where
  "url_decode s =
     (case first_bad (\<lambda>c. is_newline c \<or> url_val c \<noteq> None) 0 s of
        Some i \<Rightarrow> Inl (corrupt_input i)
      | None \<Rightarrow>
          (case from_sextets (map (\<lambda>c. the (url_val c)) (filter (\<lambda>c. \<not> is_newline c) s)) of
             None \<Rightarrow> Inl (corrupt_input (length s - 1))
           | Some b \<Rightarrow> Inr b))"

definition base64URLEncode :: "string \<Rightarrow> string" where
  "base64URLEncode b = map url_char (to_sextets (map byte_of b))"

text \<open>
  \<open>base64.StdEncoding\<close>: groups of four, the last one padded; whether the input is accepted, and
  the bytes.  The position reported for a bad input is not kept.
\<close>

fun std_groups :: "string \<Rightarrow> string option" where
  "std_groups [] = Some []"
| "std_groups [a, b, c, d] =
     (case (std_val a, std_val b) of
        (Some x, Some y) \<Rightarrow>
          if d = CHR ''='' then
            if c = CHR ''='' then from_sextets [x, y]
            else (case std_val c of Some z \<Rightarrow> from_sextets [x, y, z] | None \<Rightarrow> None)
          else (case (std_val c, std_val d) of (Some z, Some w) \<Rightarrow> from_sextets [x, y, z, w] | _ \<Rightarrow> None)
      | _ \<Rightarrow> None)"
| "std_groups (a # b # c # d # rest) =
     (case (std_val a, std_val b, std_val c, std_val d) of
        (Some x, Some y, Some z, Some w) \<Rightarrow>
          (case std_groups rest of None \<Rightarrow> None | Some s \<Rightarrow> map_option (\<lambda>t. t @ s) (from_sextets [x, y, z, w]))
      | _ \<Rightarrow> None)"
| "std_groups _ = None"

definition std_decode :: "string \<Rightarrow> string option" where
  "std_decode s = std_groups (filter (\<lambda>c. \<not> is_newline c) s)"

section \<open>Indentation\<close>

text \<open>
  \<open>json.Indent\<close> with an empty prefix and two blanks, on a valid document: \<open>q\<close> tells that the position
  is inside a string literal, \<open>esc\<close> that the next byte of it is escaped, \<open>need\<close> that an opening bracket
  awaits its first element, \<open>st\<close> that the document has started (blanks after its end are kept).
\<close>

definition newline_at :: "nat \<Rightarrow> string" where
  "newline_at d = CHR 0x0A # concat (replicate d ''  '')"

fun indent_from :: "bool \<Rightarrow> bool \<Rightarrow> bool \<Rightarrow> bool \<Rightarrow> nat \<Rightarrow> string \<Rightarrow> string" where
  "indent_from st q esc need d [] = []"
| "indent_from st q esc need d (c # cs) =
     (if q then
        c # (if esc then indent_from st True False need d cs
             else if c = CHR 0x5C then indent_from st True True need d cs
             else if c = CHR 0x22 then indent_from st False False need d cs
             else indent_from st True False need d cs)
      else if is_ws c then
        (if st \<and> d = 0 \<and> \<not> need then c # indent_from st False False need d cs else indent_from st False False need d cs)
      else
        let close = (c = CHR ''}'' \<or> c = CHR '']''); first = (need \<and> \<not> close);
            d' = (if first then Suc d else d); need' = (need \<and> close);
            pre = (if first then newline_at d' else [])
        in pre @ (if c = CHR 0x22 then c # indent_from True True False need' d' cs
                  else if c = CHR ''{'' \<or> c = CHR ''['' then c # indent_from True False False True d' cs
                  else if c = CHR '','' then c # newline_at d' @ indent_from True False False need' d' cs
                  else if c = CHR '':'' then c # CHR '' '' # indent_from True False False need' d' cs
                  else if close then
                    (if need' then c # indent_from True False False False d' cs
                     else newline_at (d' - 1) @ c # indent_from True False False False (d' - 1) cs)
                  else c # indent_from True False False need' d' cs))"

definition json_Indent :: "string \<Rightarrow> go_error + string" where
  "json_Indent s = (case json_parse s of Inl _ \<Rightarrow> Inl (Err ''invalid JSON'') | Inr _ \<Rightarrow> Inr (indent_from False False False False 0 s))"

section \<open>Tokens\<close>

record Claims =
  cl_Subject :: string
  cl_Expiry :: gotime
  cl_Pretty :: string

definition Claims_IsExpired :: "gotime \<Rightarrow> Claims \<Rightarrow> bool" where
  "Claims_IsExpired now c \<longleftrightarrow> cl_Expiry c < now"

text \<open>\<open>strings.SplitN(s, sep, n)\<close> for one byte.\<close>

fun SplitN :: "char \<Rightarrow> nat \<Rightarrow> string \<Rightarrow> string list" where
  "SplitN c 0 s = []"
| "SplitN c (Suc 0) s = [s]"
| "SplitN c (Suc (Suc n)) s =
     (case IndexByte s c of None \<Rightarrow> [s] | Some i \<Rightarrow> take i s # SplitN c (Suc n) (drop (Suc i) s))"

definition decodePayload :: "string \<Rightarrow> go_error + string" where
  "decodePayload payload =
     (case url_decode payload of Inl e \<Rightarrow> Inl (Wrap ''invalid base64'' e) | Inr b \<Rightarrow> Inr b)"

definition DecodePayloadAsRawJSON :: "string \<Rightarrow> go_error + string" where
  "DecodePayloadAsRawJSON s =
     (let parts = SplitN (CHR ''.'') 3 s
      in if length parts \<noteq> 3
         then Inl (Err (''wants 3 segments but got '' @ show_nat (length parts) @ '' segments''))
         else case decodePayload (parts ! 1) of
                Inl e \<Rightarrow> Inl (Wrap ''could not decode the payload'' e)
              | Inr b \<Rightarrow> Inr b)"

definition claims_member :: "string \<times> json \<Rightarrow> bool \<times> string \<times> int \<Rightarrow> bool \<times> string \<times> int" where
  "claims_member m st =
     (case st of (bad, sub, exp) \<Rightarrow>
        (case select_field [''sub'', ''exp''] (fst m) of
           None \<Rightarrow> st
         | Some f \<Rightarrow>
             if f = ''sub'' then (let (b, v) = store_string (snd m) sub in (bad \<or> b, v, exp))
             else (let (b, v) = store_int (snd m) exp in (bad \<or> b, sub, v))))"

definition decode_claims :: "string \<Rightarrow> go_error + (string \<times> int)" where
  "decode_claims payload =
     (case decode_first payload of
        Inl _ \<Rightarrow> Inl (Err ''invalid JSON'')
      | Inr (JNull, _) \<Rightarrow> Inr ([], 0)
      | Inr (JObj ms, _) \<Rightarrow>
          (case fold claims_member ms (False, [], 0) of
             (True, _) \<Rightarrow> Inl (Err ''cannot unmarshal value into Go struct field'')
           | (False, c) \<Rightarrow> Inr c)
      | Inr _ \<Rightarrow> Inl (Err ''cannot unmarshal value into Go value''))"

definition DecodePayloadAsPrettyJSON :: "string \<Rightarrow> go_error + string" where
  "DecodePayloadAsPrettyJSON s =
     (case DecodePayloadAsRawJSON s of
        Inl e \<Rightarrow> Inl (Wrap ''could not decode the payload'' e)
      | Inr payload \<Rightarrow>
          (case json_Indent payload of
             Inl e \<Rightarrow> Inl (Wrap ''could not indent the json of token'' e)
           | Inr p \<Rightarrow> Inr p))"

definition DecodeWithoutVerify :: "string \<Rightarrow> go_error + Claims" where
  "DecodeWithoutVerify s =
     (case DecodePayloadAsRawJSON s of
        Inl e \<Rightarrow> Inl (Wrap ''could not decode the payload'' e)
      | Inr payload \<Rightarrow>
          (case decode_claims payload of
             Inl e \<Rightarrow> Inl (Wrap ''could not decode the json of token'' e)
           | Inr (sub, exp) \<Rightarrow>
               (case json_Indent payload of
                  Inl e \<Rightarrow> Inl (Wrap ''could not indent the json of token'' e)
                | Inr pretty \<Rightarrow>
                    Inr \<lparr>cl_Subject = sub, cl_Expiry = (if exp \<noteq> 0 then time_Unix exp else 0), cl_Pretty = pretty\<rparr>)))"

definition parseTokenExpiry :: "string \<Rightarrow> go_error + gotime" where
  "parseTokenExpiry token =
     (case DecodeWithoutVerify token of
        Inl e \<Rightarrow> Inl e
      | Inr claims \<Rightarrow> if IsZero (cl_Expiry claims) then Inl (Err ''token has no exp claim'') else Inr (cl_Expiry claims))"

section \<open>Round trips\<close>

lemma byte_of_url_char:
  "n < 64 \<Longrightarrow> byte_of (url_char n) = (if n < 26 then n + 65 else if n < 52 then n + 71 else if n < 62 then n - 4 else if n = 62 then 45 else 95)"
  by (simp add: b64_char_def byte_of_def)

lemma url_val_char: "n < 64 \<Longrightarrow> url_val (url_char n) = Some n \<and> \<not> is_newline (url_char n) \<and> url_char n \<noteq> CHR ''.''"
proof (intro conjI)
  assume n: "n < 64"
  note byte = byte_of_url_char [OF n]
  show "url_val (url_char n) = Some n" unfolding b64_val_def byte_in_def is_digit_def byte using n by (auto simp: b64_char_def)
  show "\<not> is_newline (url_char n)" using n by (auto simp: is_newline_def byte)
  have "byte_of (CHR ''.'') = 46" by (simp add: byte_of_def)
  then show "url_char n \<noteq> CHR ''.''" using n byte by (auto split: if_splits)
qed

lemma to_sextets_range: "\<forall>x \<in> set xs. x < 256 \<Longrightarrow> \<forall>y \<in> set (to_sextets xs). y < 64"
  by (induction xs rule: to_sextets.induct) auto

lemma from_to_sextets: "\<forall>x \<in> set xs. x < 256 \<Longrightarrow> from_sextets (to_sextets xs) = Some (map char_of xs)"
proof (induction xs rule: to_sextets.induct)
  case (2 x)
  then show ?case by (simp add: mult.commute)
next
  case (3 x y)
  have "x div 4 * 4 + (x mod 4 * 16 + y div 16) div 16 = x" "(x mod 4 * 16 + y div 16) mod 16 * 16 + y mod 16 * 4 div 4 = y"
    using 3 by auto
  then show ?case by simp
next
  case (4 x y z rest)
  have "x div 4 * 4 + (x mod 4 * 16 + y div 16) div 16 = x"
    "(x mod 4 * 16 + y div 16) mod 16 * 16 + (y mod 16 * 4 + z div 64) div 4 = y"
    "(y mod 16 * 4 + z div 64) mod 4 * 64 + z mod 64 = z"
    using 4 by auto
  then show ?case using 4 by simp
qed simp

lemma first_bad_None: "first_bad good i s = None \<longleftrightarrow> list_all good s"
  by (induction good i s rule: first_bad.induct) auto

lemma byte_of_lt [simp]: "byte_of c < 256"
  by (simp add: byte_of_def)

lemma url_decode_encode: "url_decode (base64URLEncode b) = Inr b"
proof -
  have r: "\<forall>y \<in> set (to_sextets (map byte_of b)). y < 64"
    by (rule to_sextets_range) auto
  have "first_bad (\<lambda>c. is_newline c \<or> url_val c \<noteq> None) 0 (base64URLEncode b) = None"
    using r url_val_char by (auto simp: first_bad_None list_all_iff base64URLEncode_def)
  moreover have "filter (\<lambda>c. \<not> is_newline c) (base64URLEncode b) = base64URLEncode b"
    using r url_val_char by (auto simp: base64URLEncode_def intro!: filter_True)
  moreover have "map (\<lambda>c. the (url_val c)) (base64URLEncode b) = to_sextets (map byte_of b)"
    using r url_val_char by (auto simp: base64URLEncode_def intro!: map_idI)
  moreover have "from_sextets (to_sextets (map byte_of b)) = Some b"
    using from_to_sextets [of "map byte_of b"] by (auto simp: comp_def)
  ultimately show ?thesis by (simp add: url_decode_def)
qed

lemma base64URLEncode_no_dot: "CHR ''.'' \<notin> set (base64URLEncode b)"
  using to_sextets_range [of "map byte_of b"] url_val_char by (fastforce simp: base64URLEncode_def)


lemma SplitN_token:
  assumes "CHR ''.'' \<notin> set h" "CHR ''.'' \<notin> set p"
  shows "SplitN (CHR ''.'') 3 (h @ ''.'' @ p @ ''.'' @ s) = [h, p, s]"
  using assms by (simp add: eval_nat_numeral IndexByte_append)

lemma DecodePayload_token:
  assumes "CHR ''.'' \<notin> set h"
  shows "DecodePayloadAsRawJSON (h @ ''.'' @ base64URLEncode b @ ''.'' @ s) = Inr b"
  unfolding DecodePayloadAsRawJSON_def SplitN_token [OF assms base64URLEncode_no_dot]
  by (simp add: decodePayload_def url_decode_encode)

text \<open>The token an issuer makes for a subject and an expiry: header, claims and signature.\<close>

definition issued_token :: "string \<Rightarrow> string \<Rightarrow> int \<Rightarrow> string \<Rightarrow> string" where
  "issued_token h sub exp sig =
     h @ ''.'' @ base64URLEncode (print_json (JObj [(''sub'', JStr sub), (''exp'', JNum (show_int exp))])) @ ''.'' @ sig"

lemma decode_claims_print:
  assumes "ascii sub" "int64 exp"
  shows "decode_claims (print_json (JObj [(''sub'', JStr sub), (''exp'', JNum (show_int exp))])) = Inr (sub, exp)"
proof -
  have "decode_first (print_json (JObj [(''sub'', JStr sub), (''exp'', JNum (show_int exp))]) @ []) =
    Inr (JObj [(''sub'', JStr sub), (''exp'', JNum (show_int exp))], [])"
    using assms(1) by (intro decode_first_print) (simp_all add: maxNestingDepth_def ascii_def byte_of_def)
  then show ?thesis using assms(2)
    by (simp add: decode_claims_def claims_member_def select_field_def ParseInt64_show_int int64_def del: print_json.simps)
qed

lemma json_parse_print: "ok_json 0 v \<Longrightarrow> json_parse (print_json v) = Inr v"
  using decode_first_print [of v "[]"] by (simp add: json_parse_def skip_ws_def)

lemma DecodeWithoutVerify_issued:
  assumes "CHR ''.'' \<notin> set h" and "ascii sub" and "int64 exp"
  shows "\<exists>c. DecodeWithoutVerify (issued_token h sub exp sig) = Inr c \<and> cl_Subject c = sub \<and>
            cl_Expiry c = (if exp = 0 then 0 else time_Unix exp)"
proof -
  let ?v = "JObj [(''sub'', JStr sub), (''exp'', JNum (show_int exp))]"
  have "json_parse (print_json ?v) = Inr ?v"
    using assms(2) by (intro json_parse_print) (simp_all add: maxNestingDepth_def ascii_def byte_of_def)
  then show ?thesis
    using decode_claims_print [OF assms(2,3)]
    unfolding DecodeWithoutVerify_def issued_token_def DecodePayload_token [OF assms(1)]
    by (auto simp: json_Indent_def simp del: print_json.simps)
qed

text \<open>
  The expiry of an issued token is read back.  For every header and signature, a token whose
  claims hold a subject and an expiry decodes to exactly these; its expiry is accepted when it is not 0,
  and an expiry of 0, which Go's \<open>omitempty\<close> cannot tell from a missing claim, is refused.
\<close>

theorem parseTokenExpiry_issued:
  assumes "CHR ''.'' \<notin> set h" and "ascii sub" and "int64 exp"
  shows "(\<exists>c. DecodeWithoutVerify (issued_token h sub exp sig) = Inr c \<and> cl_Subject c = sub \<and>
            cl_Expiry c = (if exp = 0 then 0 else time_Unix exp)) \<and>
    parseTokenExpiry (issued_token h sub exp sig) =
      (if exp = 0 \<or> time_Unix exp = 0 then Inl (Err ''token has no exp claim'') else Inr (time_Unix exp))"
  using DecodeWithoutVerify_issued [OF assms, of sig] by (auto simp: parseTokenExpiry_def IsZero_def)

theorem parseTokenExpiry_issued_witness:
  "parseTokenExpiry (issued_token ''e30'' ''alice'' 1700000000 ''sig'') = Inr (time_Unix 1700000000)"
  using parseTokenExpiry_issued [of "''e30''" "''alice''" 1700000000 "''sig''"]
  by (simp add: ascii_def byte_of_def int64_def time_Unix_def wrap64_def unix_to_internal_def second_def)

end
