(* ===== verification/Filesys.thy ===== *)
theory Filesys
  imports Prelude
begin

text \<open>
  The file system as the daemon uses it: the directories it creates and the entries of those
  directories, addressed by directory and entry name (\<open>filepath.Join(dir, name)\<close> with a name that
  has no separator).  Each system call of package \<open>os\<close> is a function that may fail; which calls fail is
  fixed by a record of faults, so that every error branch of the callers can be taken.  Every change of
  a file is appended to a history: a crash may expose any state of it.
\<close>

datatype os_error = ENOENT | EEXIST | ELOOP | EIO | EADDRINUSE | ENOTDIR | ENOTEMPTY | EISDIR | EINVAL

primrec os_msg :: "os_error \<Rightarrow> string" where
  "os_msg ENOENT = ''no such file or directory''"
| "os_msg EEXIST = ''file exists''"
| "os_msg ELOOP = ''too many levels of symbolic links''"
| "os_msg EIO = ''input/output error''"
| "os_msg EADDRINUSE = ''address already in use''"
| "os_msg ENOTDIR = ''not a directory''"
| "os_msg ENOTEMPTY = ''directory not empty''"
| "os_msg EISDIR = ''is a directory''"
| "os_msg EINVAL = ''invalid argument''"

definition OsErr :: "os_error \<Rightarrow> go_error" where "OsErr e = Err (os_msg e)"

datatype node_kind = Regular | Directory | Symlink | Socket

record node =
  n_kind :: node_kind
  n_data :: string
  n_perm :: "32 word"
  n_synced :: bool
  n_uid :: nat
  n_mtime :: gotime
  n_inode :: nat

datatype path = Path (p_dir: string) (p_name: string)

record vfs =
  vf_dirs :: "(string, node) gomap"
  vf_files :: "(path, node) gomap"
  vf_hist :: "(path, node) gomap list"

text \<open>
  What the operating system answers during one operation: the error of each kind of call, if
  it fails, how many bytes a failing write stores first, the random part of the temporary
  name, and the attributes of new files.
\<close>

record faults =
  f_mkdir :: "os_error option"
  f_create :: "os_error option"
  f_chmod :: "os_error option"
  f_write :: "os_error option"
  f_sync :: "os_error option"
  f_close :: "os_error option"
  f_rename :: "os_error option"
  f_harden :: "os_error option"
  f_open :: "os_error option"
  f_read :: "os_error option"
  f_written :: nat
  f_tmp :: string
  f_uid :: nat
  f_now :: gotime
  f_inode :: nat

definition no_faults :: "string \<Rightarrow> faults" where
  "no_faults tmp = \<lparr>f_mkdir = None, f_create = None, f_chmod = None, f_write = None, f_sync = None,
     f_close = None, f_rename = None, f_harden = None, f_open = None, f_read = None, f_written = 0, f_tmp = tmp,
     f_uid = 1000, f_now = second, f_inode = 7\<rparr>"

definition perm600 :: "32 word" where "perm600 = 384"
definition perm700 :: "32 word" where "perm700 = 448"

definition set_files :: "(path, node) gomap \<Rightarrow> vfs \<Rightarrow> vfs" where
  "set_files fs w = w\<lparr>vf_files := fs, vf_hist := vf_hist w @ [fs]\<rparr>"

abbreviation file_at :: "vfs \<Rightarrow> path \<Rightarrow> node option" where
  "file_at w \<equiv> map_of (vf_files w)"

text \<open>\<open>os.Mkdir\<close>: an existing directory entry is the error \<open>EEXIST\<close>.\<close>

definition os_Mkdir :: "faults \<Rightarrow> string \<Rightarrow> vfs \<Rightarrow> os_error option \<times> vfs" where
  "os_Mkdir io dir w =
     (case gm_get (vf_dirs w) dir of
        Some _ \<Rightarrow> (Some EEXIST, w)
      | None \<Rightarrow>
          (case f_mkdir io of
             Some e \<Rightarrow> (Some e, w)
           | None \<Rightarrow> (None, w\<lparr>vf_dirs := gm_put dir
               \<lparr>n_kind = Directory, n_data = [], n_perm = perm700, n_synced = True, n_uid = f_uid io,
                n_mtime = f_now io, n_inode = f_inode io\<rparr> (vf_dirs w)\<rparr>)))"

text \<open>
  \<open>os.CreateTemp\<close> with the name its last attempt picked: the file is created exclusively, with
  mode 0600, and a name that is taken after all attempts is the error \<open>EEXIST\<close>.
\<close>

definition os_CreateTemp :: "faults \<Rightarrow> path \<Rightarrow> vfs \<Rightarrow> os_error + vfs" where
  "os_CreateTemp io p w =
     (case f_create io of
        Some e \<Rightarrow> Inl e
      | None \<Rightarrow>
          if gm_get (vf_dirs w) (p_dir p) = None then Inl ENOENT
          else if file_at w p \<noteq> None then Inl EEXIST
          else Inr (set_files (gm_put p
             \<lparr>n_kind = Regular, n_data = [], n_perm = perm600, n_synced = False, n_uid = f_uid io,
              n_mtime = f_now io, n_inode = f_inode io\<rparr> (vf_files w)) w))"

definition map_node :: "path \<Rightarrow> (node \<Rightarrow> node) \<Rightarrow> vfs \<Rightarrow> vfs" where
  "map_node p f w =
     (case file_at w p of None \<Rightarrow> w | Some n \<Rightarrow> set_files (gm_put p (f n) (vf_files w)) w)"

definition f_Chmod :: "faults \<Rightarrow> path \<Rightarrow> 32 word \<Rightarrow> vfs \<Rightarrow> os_error option \<times> vfs" where
  "f_Chmod io p perm w =
     (case f_chmod io of Some e \<Rightarrow> (Some e, w) | None \<Rightarrow> (None, map_node p (\<lambda>n. n\<lparr>n_perm := perm\<rparr>) w))"

definition f_Write :: "faults \<Rightarrow> path \<Rightarrow> string \<Rightarrow> vfs \<Rightarrow> os_error option \<times> vfs" where
  "f_Write io p b w =
     (case f_write io of
        Some e \<Rightarrow> (Some e, map_node p (\<lambda>n. n\<lparr>n_data := n_data n @ take (f_written io) b, n_synced := False\<rparr>) w)
      | None \<Rightarrow> (None, map_node p (\<lambda>n. n\<lparr>n_data := n_data n @ b, n_synced := False\<rparr>) w))"

definition f_Sync :: "faults \<Rightarrow> path \<Rightarrow> vfs \<Rightarrow> os_error option \<times> vfs" where
  "f_Sync io p w =
     (case f_sync io of Some e \<Rightarrow> (Some e, w) | None \<Rightarrow> (None, map_node p (\<lambda>n. n\<lparr>n_synced := True\<rparr>) w))"

definition os_Remove :: "path \<Rightarrow> vfs \<Rightarrow> vfs" where
  "os_Remove p w = (if file_at w p = None then w else set_files (gm_del p (vf_files w)) w)"

text \<open>A file does not replace a directory.\<close>

definition is_dir :: "node option \<Rightarrow> bool" where
  "is_dir n \<longleftrightarrow> (case n of None \<Rightarrow> False | Some x \<Rightarrow> n_kind x = Directory)"

lemma is_dir_simps [simp]: "\<not> is_dir None" "is_dir (Some x) \<longleftrightarrow> n_kind x = Directory"
  by (simp_all add: is_dir_def)

definition os_Rename :: "faults \<Rightarrow> path \<Rightarrow> path \<Rightarrow> vfs \<Rightarrow> os_error option \<times> vfs" where
  "os_Rename io src dst w =
     (case f_rename io of
        Some e \<Rightarrow> (Some e, w)
      | None \<Rightarrow>
          (case file_at w src of
             None \<Rightarrow> (Some ENOENT, w)
           | Some n \<Rightarrow>
               if is_dir (file_at w dst) \<and> n_kind n \<noteq> Directory then (Some EISDIR, w)
               else (None, set_files (gm_put dst n (gm_del src (vf_files w))) w)))"

text \<open>\<open>setPrivatePermissions\<close> of \<open>security_unix.go\<close> on a file.\<close>

definition setPrivatePermissions :: "faults \<Rightarrow> path \<Rightarrow> vfs \<Rightarrow> os_error option \<times> vfs" where
  "setPrivatePermissions io p w =
     (case f_harden io of Some e \<Rightarrow> (Some e, w) | None \<Rightarrow> (None, map_node p (\<lambda>n. n\<lparr>n_perm := perm600\<rparr>) w))"

text \<open>\<open>openNoFollow\<close>: opens for reading and refuses symbolic links; the message for a link is the daemon's own.\<close>

datatype open_error = OpenOs os_error | OpenSymlink

definition openNoFollow :: "faults \<Rightarrow> path \<Rightarrow> vfs \<Rightarrow> open_error + node" where
  "openNoFollow io p w =
     (case file_at w p of
        None \<Rightarrow> Inl (OpenOs ENOENT)
      | Some n \<Rightarrow>
          if n_kind n = Symlink then Inl OpenSymlink
          else case f_open io of Some e \<Rightarrow> Inl (OpenOs e) | None \<Rightarrow> Inr n)"

lemmas fs_ops = os_Mkdir_def os_CreateTemp_def map_node_def f_Chmod_def f_Write_def f_Sync_def
  os_Remove_def os_Rename_def setPrivatePermissions_def set_files_def

section \<open>Frames\<close>

text \<open>
  What a sequence of calls on a temporary file does to the rest: the directories stay, files
  other than the temporary one stay, and the history grows by states in which they stay.
\<close>

definition touches_only :: "path set \<Rightarrow> vfs \<Rightarrow> vfs \<Rightarrow> bool" where
  "touches_only ps w w' \<longleftrightarrow>
     (\<forall>p. p \<notin> ps \<longrightarrow> file_at w' p = file_at w p) \<and>
     (\<exists>hs. vf_hist w' = vf_hist w @ hs \<and> (\<forall>h \<in> set hs. \<forall>p. p \<notin> ps \<longrightarrow> gm_get h p = file_at w p))"

lemma touches_refl [simp, intro]: "touches_only ps w w"
  by (simp add: touches_only_def)

lemma touches_trans: "touches_only ps w w' \<Longrightarrow> touches_only ps w' w'' \<Longrightarrow> touches_only ps w w''"
  unfolding touches_only_def by (elim conjE exE) (auto 0 3)

lemma touches_mono: "touches_only ps w w' \<Longrightarrow> ps \<subseteq> qs \<Longrightarrow> touches_only qs w w'"
  unfolding touches_only_def by blast

lemma touches_file: "touches_only ps w w' \<Longrightarrow> p \<notin> ps \<Longrightarrow> file_at w' p = file_at w p"
  unfolding touches_only_def by blast

lemma touches_map_node [simp, intro]: "p \<in> ps \<Longrightarrow> touches_only ps w (map_node p f w)"
  by (auto simp: touches_only_def map_node_def set_files_def split: option.split)

lemma touches_Remove [simp, intro]: "p \<in> ps \<Longrightarrow> touches_only ps w (os_Remove p w)"
  by (auto simp: touches_only_def os_Remove_def set_files_def)

lemma touches_Chmod [simp, intro]: "p \<in> ps \<Longrightarrow> touches_only ps w (snd (f_Chmod io p m w))"
  by (simp add: f_Chmod_def split: option.split)

lemma touches_Write [simp, intro]: "p \<in> ps \<Longrightarrow> touches_only ps w (snd (f_Write io p b w))"
  by (simp add: f_Write_def split: option.split)

lemma touches_Sync [simp, intro]: "p \<in> ps \<Longrightarrow> touches_only ps w (snd (f_Sync io p w))"
  by (simp add: f_Sync_def split: option.split)

lemma touches_CreateTemp: "os_CreateTemp io p w = Inr w' \<Longrightarrow> p \<in> ps \<Longrightarrow> touches_only ps w w'"
  by (auto simp: touches_only_def os_CreateTemp_def set_files_def split: option.splits if_splits)

lemma touches_Mkdir: "touches_only ps w (snd (os_Mkdir io d w))"
  by (auto simp: touches_only_def os_Mkdir_def split: option.split)

section \<open>Atomic replacement of a file\<close>

text \<open>
  The sequence shared by \<open>PersistToken\<close>, \<open>atomicWriteFile\<close>, \<open>generateNonce\<close> and the CLI's
  \<open>safeWriteFile\<close>: create a temporary file, restrict it, write, flush, close, rename; a failure
  after the creation removes the temporary file.  The stage tells the callers which message to give.
\<close>

datatype stage = StCreate | StChmod | StWrite | StSync | StClose | StRename

definition atomic_write :: "faults \<Rightarrow> 32 word \<Rightarrow> path \<Rightarrow> path \<Rightarrow> string \<Rightarrow> vfs \<Rightarrow> (stage \<times> os_error) option \<times> vfs" where
  "atomic_write io perm tmp final b w =
     (case os_CreateTemp io tmp w of
        Inl e \<Rightarrow> (Some (StCreate, e), w)
      | Inr w1 \<Rightarrow>
          (case f_Chmod io tmp perm w1 of
             (Some e, w2) \<Rightarrow> (Some (StChmod, e), os_Remove tmp w2)
           | (None, w2) \<Rightarrow>
               (case f_Write io tmp b w2 of
                  (Some e, w3) \<Rightarrow> (Some (StWrite, e), os_Remove tmp w3)
                | (None, w3) \<Rightarrow>
                    (case f_Sync io tmp w3 of
                       (Some e, w4) \<Rightarrow> (Some (StSync, e), os_Remove tmp w4)
                     | (None, w4) \<Rightarrow>
                         (case f_close io of
                            Some e \<Rightarrow> (Some (StClose, e), os_Remove tmp w4)
                          | None \<Rightarrow>
                              (case os_Rename io tmp final w4 of
                                 (Some e, w5) \<Rightarrow> (Some (StRename, e), os_Remove tmp w5)
                               | (None, w5) \<Rightarrow> (None, w5)))))))"

text \<open>The file a successful replacement leaves: complete, flushed and with the given mode.\<close>

definition new_node :: "faults \<Rightarrow> 32 word \<Rightarrow> string \<Rightarrow> node" where
  "new_node io perm b = \<lparr>n_kind = Regular, n_data = b, n_perm = perm, n_synced = True, n_uid = f_uid io,
     n_mtime = f_now io, n_inode = f_inode io\<rparr>"

lemma os_CreateTemp_fresh: "os_CreateTemp io p w = Inr w' \<Longrightarrow> file_at w p = None"
  by (auto simp: os_CreateTemp_def split: option.splits if_splits)

lemma atomic_write_NoneE:
  assumes "atomic_write io perm tmp final b w = (None, w')"
  obtains w1 n where "os_CreateTemp io tmp w = Inr w1" "file_at w tmp = None"
    "f_chmod io = None" "f_write io = None" "f_sync io = None" "f_rename io = None"
    "w1 = set_files (gm_put tmp n (vf_files w)) w" "n\<lparr>n_perm := perm, n_data := b, n_synced := True\<rparr> = new_node io perm b"
    "n_data n = []"
    "os_Rename io tmp final (snd (f_Sync io tmp (snd (f_Write io tmp b (snd (f_Chmod io tmp perm w1)))))) = (None, w')"
proof -
  obtain w1 where w1: "os_CreateTemp io tmp w = Inr w1"
    using assms by (auto simp: atomic_write_def split: sum.splits)
  let ?n = "\<lparr>n_kind = Regular, n_data = [], n_perm = perm600, n_synced = False, n_uid = f_uid io,
              n_mtime = f_now io, n_inode = f_inode io\<rparr>"
  have n: "w1 = set_files (gm_put tmp ?n (vf_files w)) w"
    using w1 by (auto simp: os_CreateTemp_def split: option.splits if_splits)
  have "fst (f_Chmod io tmp perm w1) = None"
    using assms w1 by (auto simp: atomic_write_def split: prod.splits option.splits)
  moreover have "fst (f_Write io tmp b (snd (f_Chmod io tmp perm w1))) = None"
    using assms w1 by (auto simp: atomic_write_def split: prod.splits option.splits)
  moreover have "fst (f_Sync io tmp (snd (f_Write io tmp b (snd (f_Chmod io tmp perm w1))))) = None"
    using assms w1 by (auto simp: atomic_write_def split: prod.splits option.splits)
  moreover have "os_Rename io tmp final (snd (f_Sync io tmp (snd (f_Write io tmp b (snd (f_Chmod io tmp perm w1)))))) = (None, w')"
    using assms w1 by (auto simp: atomic_write_def split: prod.splits option.splits)
  ultimately show ?thesis
    by (intro that [of w1 ?n])
      (auto simp: w1 n f_Chmod_def f_Write_def f_Sync_def os_Rename_def new_node_def os_CreateTemp_fresh [OF w1]
        split: option.splits)
qed

lemma atomic_write_None:
  assumes "tmp \<noteq> final" "atomic_write io perm tmp final b w = (None, w')"
  shows "file_at w' final = Some (new_node io perm b)" "file_at w' tmp = None" "file_at w tmp = None"
    "p \<noteq> final \<Longrightarrow> p \<noteq> tmp \<Longrightarrow> file_at w' p = file_at w p"
    "\<exists>hs. vf_hist w' = vf_hist w @ hs \<and> (\<forall>h \<in> set hs. gm_get h final \<in> {file_at w final, Some (new_node io perm b)})"
  using assms by (auto elim!: atomic_write_NoneE simp: fs_ops split: if_splits)

lemma atomic_write_ok:
  assumes "tmp \<noteq> final" "atomic_write io perm tmp final b w = (None, w')"
  shows "file_at w' = (file_at w)(final \<mapsto> new_node io perm b)"
proof
  fix p
  show "file_at w' p = ((file_at w)(final \<mapsto> new_node io perm b)) p"
    using atomic_write_None [OF assms] assms(1) by (cases "p = tmp") auto
qed

lemma remove_temp:
  assumes "touches_only {tmp} w w'" "file_at w tmp = None"
  shows "file_at (os_Remove tmp w') = file_at w \<and> touches_only {tmp} w (os_Remove tmp w')"
proof
  show t: "touches_only {tmp} w (os_Remove tmp w')"
    using assms(1) by (rule touches_trans) simp
  show "file_at (os_Remove tmp w') = file_at w"
  proof
    fix p
    show "file_at (os_Remove tmp w') p = file_at w p"
    proof (cases "p = tmp")
      case True
      then show ?thesis using assms(2) by (simp add: os_Remove_def set_files_def)
    next
      case False
      then show ?thesis using touches_file [OF t] by simp
    qed
  qed
qed

lemma atomic_write_error:
  assumes "atomic_write io perm tmp final b w = (Some err, w')"
  shows "file_at w' = file_at w \<and> touches_only {tmp} w w'"
proof (cases "os_CreateTemp io tmp w")
  case (Inl e)
  then show ?thesis using assms by (auto simp: atomic_write_def)
next
  case (Inr w1)
  note fresh = os_CreateTemp_fresh [OF Inr]
  let ?w2 = "snd (f_Chmod io tmp perm w1)"
  let ?w3 = "snd (f_Write io tmp b ?w2)"
  let ?w4 = "snd (f_Sync io tmp ?w3)"
  have t1: "touches_only {tmp} w w1" by (rule touches_CreateTemp [OF Inr]) simp
  have t2: "touches_only {tmp} w ?w2" by (rule touches_trans [OF t1]) simp
  have t3: "touches_only {tmp} w ?w3" by (rule touches_trans [OF t2]) simp
  have t4: "touches_only {tmp} w ?w4" by (rule touches_trans [OF t3]) simp
  have "w' \<in> {os_Remove tmp ?w2, os_Remove tmp ?w3, os_Remove tmp ?w4}"
    using assms Inr
    by (auto simp: atomic_write_def os_Rename_def split: prod.splits option.splits if_splits)
  then show ?thesis using remove_temp [OF t2 fresh] remove_temp [OF t3 fresh] remove_temp [OF t4 fresh] by auto
qed

text \<open>
  Crash safety: in every state the sequence passes through, the final path holds its old node
  or the complete new one.
\<close>

lemma atomic_write_history:
  assumes "tmp \<noteq> final"
  shows "\<exists>hs. vf_hist (snd (atomic_write io perm tmp final b w)) = vf_hist w @ hs \<and>
    (\<forall>h \<in> set hs. gm_get h final \<in> {file_at w final, Some (new_node io perm b)})"
proof (cases "fst (atomic_write io perm tmp final b w)")
  case (Some err)
  then have "touches_only {tmp} w (snd (atomic_write io perm tmp final b w))"
    using atomic_write_error by (metis prod.collapse)
  then show ?thesis using assms unfolding touches_only_def by fastforce
next
  case None
  then have "atomic_write io perm tmp final b w = (None, snd (atomic_write io perm tmp final b w))"
    by (metis prod.collapse)
  then show ?thesis by (rule atomic_write_None(5) [OF assms])
qed

lemma atomic_write_succeeds:
  assumes "gm_get (vf_dirs w) (p_dir tmp) \<noteq> None" "file_at w tmp = None" "\<not> is_dir (file_at w final)"
    and "f_create io = None" "f_chmod io = None" "f_write io = None" "f_sync io = None" "f_close io = None" "f_rename io = None"
  shows "\<exists>w'. atomic_write io perm tmp final b w = (None, w')"
  using assms by (auto simp: atomic_write_def fs_ops split: option.splits)

section \<open>Truncating writes\<close>

definition perm644 :: "32 word" where "perm644 = 420"

text \<open>
  \<open>os.Create\<close> and \<open>os.WriteFile\<close>: an existing file is truncated, a missing one is created, a directory is an error.  What a symbolic link
  leads to is not part of the directory.
\<close>

definition os_Create :: "faults \<Rightarrow> 32 word \<Rightarrow> path \<Rightarrow> vfs \<Rightarrow> os_error + vfs" where
  "os_Create io perm p w =
     (case f_create io of
        Some e \<Rightarrow> Inl e
      | None \<Rightarrow>
          (case file_at w p of
             None \<Rightarrow>
               if gm_get (vf_dirs w) (p_dir p) = None then Inl ENOENT
               else Inr (set_files (gm_put p ((new_node io perm [])\<lparr>n_synced := False\<rparr>) (vf_files w)) w)
           | Some n \<Rightarrow>
               if n_kind n = Directory then Inl EISDIR
               else if n_kind n = Regular then Inr (map_node p (\<lambda>n. n\<lparr>n_data := [], n_synced := False\<rparr>) w)
               else Inr w))"

definition os_WriteFile :: "faults \<Rightarrow> path \<Rightarrow> string \<Rightarrow> 32 word \<Rightarrow> vfs \<Rightarrow> os_error option \<times> vfs" where
  "os_WriteFile io p b perm w =
     (case os_Create io perm p w of
        Inl e \<Rightarrow> (Some e, w)
      | Inr w' \<Rightarrow> if (case file_at w p of None \<Rightarrow> True | Some n \<Rightarrow> n_kind n = Regular) then f_Write io p b w' else (None, w'))"

lemma file_at_Create_other: "os_Create io perm p w = Inr w' \<Longrightarrow> q \<noteq> p \<Longrightarrow> file_at w' q = file_at w q"
  by (auto simp: os_Create_def set_files_def map_node_def update_conv split: option.splits if_splits)

lemma file_at_Write_other: "f_Write io p b w = (e, w') \<Longrightarrow> q \<noteq> p \<Longrightarrow> file_at w' q = file_at w q"
  by (auto simp: f_Write_def set_files_def map_node_def update_conv split: option.splits)

lemma os_WriteFile_effect:
  assumes "os_WriteFile io p b perm w = (e, w')" "f_write io = None"
  shows "file_at w' p = file_at w p \<or> (\<exists>n. file_at w' p = Some n \<and> n_data n = b)" "q \<noteq> p \<Longrightarrow> file_at w' q = file_at w q"
  using assms by (auto simp: os_WriteFile_def os_Create_def new_node_def f_Write_def set_files_def map_node_def update_conv split: option.splits if_splits)

end
