(* ===== verification/Refresher.thy ===== *)
theory Refresher
  imports Ipc Jwt Filesys
begin

text \<open>
  The refresh of a token against the provider (\<open>pkg/daemon/refresher.go\<close>): the filters on extra
  parameters and headers, the TLS settings, and \<open>OIDCRefresher.Refresh\<close>.  The libraries it calls
  (\<open>go-oidc\<close>, \<open>oauth2\<close>) and the parsing of certificates are parameters, collected in one record; the token
  URL is a parsed URL.  The interface \<open>Refresher\<close> that the token manager relies on is the locale
  \<open>refresher_iface\<close>.
\<close>

section \<open>Configuration\<close>

datatype PKCEMethod = PKCEMethodAuto | PKCEMethodNo | PKCEMethodS256

record Provider =
  pv_IssuerURL :: string
  pv_ClientID :: string
  pv_ClientSecret :: string
  pv_ExtraScopes :: "string list"
  pv_RedirectURL :: string
  pv_PKCEMethod :: PKCEMethod
  pv_UseAccessToken :: bool
  pv_RequestHeaders :: "(string, string) gomap"

record OIDCRefresher =
  or_Provider :: Provider
  or_TLSConfig :: TLSClientConfig
  or_ExtraParams :: "(string, string) gomap"

definition providerFromRequest :: "Request \<Rightarrow> Provider" where
  "providerFromRequest req = \<lparr>pv_IssuerURL = rq_IssuerURL req, pv_ClientID = rq_ClientID req, pv_ClientSecret = rq_ClientSecret req,
     pv_ExtraScopes = rq_ExtraScopes req, pv_RedirectURL = rq_RedirectURL req, pv_PKCEMethod = PKCEMethodAuto,
     pv_UseAccessToken = rq_UseAccessToken req, pv_RequestHeaders = rq_RequestHeaders req\<rparr>"

text \<open>The literal \<open>&OIDCRefresher{...}\<close> the server builds from a request in four places.\<close>

definition refresherFromRequest :: "Request \<Rightarrow> OIDCRefresher" where
  "refresherFromRequest req = \<lparr>or_Provider = providerFromRequest req, or_TLSConfig = rq_TLSConfig req, or_ExtraParams = rq_ExtraParams req\<rparr>"

section \<open>Filters\<close>

definition blockedOAuthParams :: "string list" where
  "blockedOAuthParams = [''scope'', ''client_id'', ''client_secret'', ''redirect_uri'', ''grant_type'', ''code'',
     ''code_verifier'', ''refresh_token'', ''response_type'']"

definition isBlockedOAuthParam :: "string \<Rightarrow> bool" where
  "isBlockedOAuthParam key \<longleftrightarrow> ToLower key \<in> set blockedOAuthParams"

definition blockedRequestHeaders :: "string list" where
  "blockedRequestHeaders = [''authorization'', ''host'', ''cookie'']"

definition isBlockedRequestHeader :: "string \<Rightarrow> bool" where
  "isBlockedRequestHeader key \<longleftrightarrow> ToLower key \<in> set blockedRequestHeaders"

definition filterRequestHeaders :: "(string, string) gomap \<Rightarrow> (string, string) gomap" where
  "filterRequestHeaders headers =
     (if headers = [] then headers
      else fold (\<lambda>(k, v) filtered. if isBlockedRequestHeader k then filtered else gm_put k v filtered) headers [])"

section \<open>TLS settings\<close>

text \<open>A \<open>*tls.Config\<close>: the root pool is the list of PEM texts appended to it, if one was made.\<close>

record tls_Config =
  tc_InsecureSkipVerify :: bool
  tc_Renegotiation :: int
  tc_RootCAs :: "string list option"

fun append_ca_files :: "(string \<Rightarrow> os_error + string) \<Rightarrow> (string \<Rightarrow> bool) \<Rightarrow> string list \<Rightarrow> string list \<Rightarrow> go_error + string list" where
  "append_ca_files readFile hasCerts [] pool = Inr pool"
| "append_ca_files readFile hasCerts (filename # rest) pool =
     (case readFile filename of
        Inl e \<Rightarrow> Inl (Wrap (''read CA cert '' @ filename) (OsErr e))
      | Inr pem \<Rightarrow>
          if \<not> hasCerts pem then Inl (Err (''no valid certificates in '' @ filename))
          else append_ca_files readFile hasCerts rest (pool @ [pem]))"

fun append_ca_data :: "(string \<Rightarrow> bool) \<Rightarrow> string list \<Rightarrow> string list \<Rightarrow> go_error + string list" where
  "append_ca_data hasCerts [] pool = Inr pool"
| "append_ca_data hasCerts (data # rest) pool =
     (case std_decode data of
        None \<Rightarrow> Inl (Wrap ''decode base64 CA data'' (Err ''illegal base64 data''))
      | Some pem \<Rightarrow>
          if \<not> hasCerts pem then Inl (Err ''no valid certificates in inline CA data'')
          else append_ca_data hasCerts rest (pool @ [pem]))"

definition buildTLSConfig :: "(string \<Rightarrow> os_error + string) \<Rightarrow> (string \<Rightarrow> bool) \<Rightarrow> TLSClientConfig \<Rightarrow> go_error + tls_Config option" where
  "buildTLSConfig readFile hasCerts cfg =
     (if tls_CACertFilename cfg = [] \<and> tls_CACertData cfg = [] \<and> \<not> tls_SkipTLSVerify cfg \<and> tls_Renegotiation cfg = 0
      then Inr None
      else
        let tlsCfg = \<lparr>tc_InsecureSkipVerify = tls_SkipTLSVerify cfg, tc_Renegotiation = tls_Renegotiation cfg, tc_RootCAs = None\<rparr>
        in if tls_CACertFilename cfg \<noteq> [] \<or> tls_CACertData cfg \<noteq> []
           then (case append_ca_files readFile hasCerts (tls_CACertFilename cfg) [] of
                   Inl e \<Rightarrow> Inl e
                 | Inr pool \<Rightarrow>
                     (case append_ca_data hasCerts (tls_CACertData cfg) pool of
                        Inl e \<Rightarrow> Inl e
                      | Inr pool' \<Rightarrow> Inr (Some (tlsCfg\<lparr>tc_RootCAs := Some pool'\<rparr>))))
           else Inr (Some tlsCfg))"

section \<open>The libraries\<close>

record http_Client =
  hc_TLS :: "tls_Config option"
  hc_Headers :: "(string, string) gomap"

text \<open>A token URL: one that \<open>url.Parse\<close> rejects, or a base with its query values.\<close>

datatype token_url = BadURL string | URL (url_base: string) (url_query: "(string, string list) gomap")

record oauth2_Config =
  oc_TokenURL :: token_url
  oc_AuthInParams :: bool
  oc_ClientID :: string
  oc_ClientSecret :: string
  oc_RedirectURL :: string
  oc_Scopes :: "string list"

record oauth2_Token =
  ot_AccessToken :: "string option"
  ot_IDToken :: "string option"
  ot_RefreshToken :: string

text \<open>The discovered provider: its token endpoint and whether it prescribes credentials in the body.\<close>

record discovered =
  ds_TokenURL :: token_url
  ds_AuthInParams :: bool
  ds_Issuer :: string

text \<open>
  What the outside answers during one refresh.  Discovery and exchange see whether the context is
  cancelled; the verifier gets the expected client, or none when the check of the client is skipped.
\<close>

record oidc_world =
  ow_readFile :: "string \<Rightarrow> os_error + string"
  ow_hasCerts :: "string \<Rightarrow> bool"
  ow_NewProvider :: "bool \<Rightarrow> http_Client \<Rightarrow> string \<Rightarrow> go_error + discovered"
  ow_Token :: "bool \<Rightarrow> http_Client \<Rightarrow> oauth2_Config \<Rightarrow> string \<Rightarrow> go_error + oauth2_Token"
  ow_Verify :: "http_Client \<Rightarrow> discovered \<Rightarrow> string option \<Rightarrow> string \<Rightarrow> go_error option"

section \<open>Refresh\<close>

definition extra_query :: "(string, string) gomap \<Rightarrow> (string, string list) gomap \<Rightarrow> (string, string list) gomap" where
  "extra_query params q = fold (\<lambda>(k, v) q. if isBlockedOAuthParam k then q else gm_put k [v] q) params q"

definition refresh_url :: "(string, string) gomap \<Rightarrow> token_url \<Rightarrow> token_url" where
  "refresh_url params u =
     (if params \<noteq> [] then (case u of BadURL s \<Rightarrow> BadURL s | URL base q \<Rightarrow> URL base (extra_query params q)) else u)"

text \<open>The token to keep from the provider's answer, verified.\<close>

definition select_token :: "oidc_world \<Rightarrow> http_Client \<Rightarrow> discovered \<Rightarrow> Provider \<Rightarrow> oauth2_Token \<Rightarrow> go_error + string" where
  "select_token W client provider pv token =
     (if pv_UseAccessToken pv then
        (case ot_AccessToken token of
           None \<Rightarrow> Inl (Err ''access_token missing in response'')
         | Some t \<Rightarrow>
             (case ow_Verify W client provider None t of
                Some e \<Rightarrow> Inl (Wrap ''verify access token'' e)
              | None \<Rightarrow> Inr t))
      else
        (case ot_IDToken token of
           None \<Rightarrow> Inl (Err ''id_token missing in response'')
         | Some t \<Rightarrow>
             (case ow_Verify W client provider (Some (pv_ClientID pv)) t of
                Some e \<Rightarrow> Inl (Wrap ''verify id token'' e)
              | None \<Rightarrow> Inr t)))"

definition refresh_client :: "OIDCRefresher \<Rightarrow> tls_Config option \<Rightarrow> http_Client" where
  "refresh_client r tlsCfg = \<lparr>hc_TLS = tlsCfg, hc_Headers = filterRequestHeaders (pv_RequestHeaders (or_Provider r))\<rparr>"

definition refresh_config :: "OIDCRefresher \<Rightarrow> discovered \<Rightarrow> oauth2_Config" where
  "refresh_config r provider =
     \<lparr>oc_TokenURL = refresh_url (or_ExtraParams r) (ds_TokenURL provider),
      oc_AuthInParams = (if pv_ClientSecret (or_Provider r) = [] then True else ds_AuthInParams provider),
      oc_ClientID = pv_ClientID (or_Provider r), oc_ClientSecret = pv_ClientSecret (or_Provider r),
      oc_RedirectURL = pv_RedirectURL (or_Provider r), oc_Scopes = pv_ExtraScopes (or_Provider r) @ [''openid'']\<rparr>"

definition OIDCRefresher_Refresh :: "oidc_world \<Rightarrow> bool \<Rightarrow> OIDCRefresher \<Rightarrow> string \<Rightarrow> go_error + (string \<times> string \<times> gotime)" where
  "OIDCRefresher_Refresh W canceled r refreshToken =
     (case buildTLSConfig (ow_readFile W) (ow_hasCerts W) (or_TLSConfig r) of
        Inl e \<Rightarrow> Inl (Wrap ''build TLS config'' e)
      | Inr tlsCfg \<Rightarrow>
          let client = refresh_client r tlsCfg in
          (case ow_NewProvider W canceled client (pv_IssuerURL (or_Provider r)) of
             Inl e \<Rightarrow> Inl (Wrap ''oidc discovery'' e)
           | Inr provider \<Rightarrow>
               (case ow_Token W canceled client (refresh_config r provider) refreshToken of
                  Inl e \<Rightarrow> Inl (Wrap ''refresh token exchange'' e)
                | Inr token \<Rightarrow>
                    (case select_token W client provider (or_Provider r) token of
                       Inl e \<Rightarrow> Inl e
                     | Inr resultToken \<Rightarrow>
                         (case DecodeWithoutVerify resultToken of
                            Inl e \<Rightarrow> Inl (Wrap ''decode token claims'' e)
                          | Inr claims \<Rightarrow>
                              let newRT = (if ot_RefreshToken token = [] then refreshToken else ot_RefreshToken token)
                              in Inr (resultToken, newRT, cl_Expiry claims))))))"

section \<open>Properties\<close>

text \<open>
  What the token manager relies on: a refresh with a refresh token never answers without one.
\<close>

locale refresher_iface =
  fixes refresh :: "bool \<Rightarrow> 'r \<Rightarrow> string \<Rightarrow> go_error + (string \<times> string \<times> gotime)"
  assumes keeps_refresh_token: "refresh canceled r rt = Inr (i, rt', e) \<Longrightarrow> rt \<noteq> [] \<Longrightarrow> rt' \<noteq> []"
begin

text \<open>By induction, a chain of refreshes, each with the token of the one before, never loses it.\<close>

fun refresh_chain :: "(bool \<times> 'r) list \<Rightarrow> string \<Rightarrow> string option" where
  "refresh_chain [] rt = Some rt"
| "refresh_chain ((c, r) # rs) rt = (case refresh c r rt of Inl _ \<Rightarrow> None | Inr (i, rt', e) \<Rightarrow> refresh_chain rs rt')"

lemma chain_keeps: "refresh_chain rs rt = Some rt' \<Longrightarrow> rt \<noteq> [] \<Longrightarrow> rt' \<noteq> []"
proof (induction rs rt rule: refresh_chain.induct)
  case (2 c r rs rt)
  obtain i rt1 e where r: "refresh c r rt = Inr (i, rt1, e)" "refresh_chain rs rt1 = Some rt'"
    using "2.prems"(1) by (auto split: sum.splits)
  then show ?case using "2.IH" [OF r(1) refl refl r(2)] keeps_refresh_token [OF r(1) "2.prems"(2)] by simp
qed simp

end

lemma Refresh_InrE:
  assumes "OIDCRefresher_Refresh W canceled r rt = Inr (i, rt', e)"
  obtains tlsCfg provider token claims where
    "buildTLSConfig (ow_readFile W) (ow_hasCerts W) (or_TLSConfig r) = Inr tlsCfg"
    "ow_NewProvider W canceled (refresh_client r tlsCfg) (pv_IssuerURL (or_Provider r)) = Inr provider"
    "ow_Token W canceled (refresh_client r tlsCfg) (refresh_config r provider) rt = Inr token"
    "select_token W (refresh_client r tlsCfg) provider (or_Provider r) token = Inr i"
    "DecodeWithoutVerify i = Inr claims" "e = cl_Expiry claims"
    "rt' = (if ot_RefreshToken token = [] then rt else ot_RefreshToken token)"
  using assms by (auto simp: OIDCRefresher_Refresh_def Let_def split: sum.splits if_splits)

interpretation orf: refresher_iface "OIDCRefresher_Refresh W"
  by unfold_locales (auto elim!: Refresh_InrE split: if_splits)

lemma filter_headers_get:
  assumes "gm_wf headers"
  shows "gm_get (filterRequestHeaders headers) k = (if isBlockedRequestHeader k then None else gm_get headers k)"
proof -
  have "gm_get (fold (\<lambda>(k, v) m. if isBlockedRequestHeader k then m else gm_put k v m) hs m) k =
    (if isBlockedRequestHeader k \<or> k \<notin> fst ` set hs then gm_get m k else gm_get (rev hs) k)" for hs and m :: "(string, string) gomap"
    by (induction hs rule: rev_induct) (auto simp: map_add_def image_iff split: option.split, force)
  from this [of headers "[]"] have "gm_get (filterRequestHeaders headers) k =
    (if isBlockedRequestHeader k \<or> k \<notin> fst ` set headers then None else gm_get (rev headers) k)"
    by (simp add: filterRequestHeaders_def)
  moreover have "gm_get (rev headers) = gm_get headers"
    using assms by (simp add: gm_wf_def map_of_inject_set rev_map [symmetric] flip: map_map)
  moreover have "k \<notin> fst ` set headers \<Longrightarrow> gm_get headers k = None"
    by (simp add: map_of_eq_None_iff)
  ultimately show ?thesis by simp
qed

lemma extra_query_blocked: "isBlockedOAuthParam k \<Longrightarrow> gm_get (extra_query params q) k = gm_get q k"
  unfolding extra_query_def by (induction params arbitrary: q) auto




definition demo_world :: "string \<Rightarrow> oidc_world" where
  "demo_world tok = \<lparr>ow_readFile = \<lambda>_. Inl ENOENT, ow_hasCerts = \<lambda>_. True,
     ow_NewProvider = \<lambda>c _ u. if c then Inl (Err ''context canceled'')
       else Inr \<lparr>ds_TokenURL = URL (u @ ''/token'') [], ds_AuthInParams = False, ds_Issuer = u\<rparr>,
     ow_Token = \<lambda>c _ _ rt. if c then Inl (Err ''context canceled'')
       else if rt = ''revoked'' then Inl (Err ''invalid_grant'')
       else Inr \<lparr>ot_AccessToken = None, ot_IDToken = Some tok, ot_RefreshToken = []\<rparr>,
     ow_Verify = \<lambda>_ _ _ _. None\<rparr>"

definition demo_refresher :: OIDCRefresher where
  "demo_refresher = refresherFromRequest (zero_request\<lparr>rq_IssuerURL := ''https://i'', rq_ClientID := ''c'',
     rq_ExtraParams := [(''SCOPE'', ''admin''), (''audience'', ''a'')], rq_RequestHeaders := [(''Host'', ''evil'')]\<rparr>)"


lemma demo_Refresh:
  "OIDCRefresher_Refresh (demo_world (issued_token ''e30'' ''alice'' 1700000000 ''sig'')) False demo_refresher ''rt'' =
     Inr (issued_token ''e30'' ''alice'' 1700000000 ''sig'', ''rt'', time_Unix 1700000000)"
proof -
  have "CHR ''.'' \<notin> set ''e30''" "ascii ''alice''" "int64 1700000000"
    by (simp_all add: ascii_def byte_of_def int64_def)
  from DecodeWithoutVerify_issued [OF this, of "''sig''"] show ?thesis
    by (auto simp: OIDCRefresher_Refresh_def demo_world_def demo_refresher_def refresherFromRequest_def providerFromRequest_def
        zero_request_def zero_tls_def buildTLSConfig_def select_token_def)
qed


end
