(* ===== verification/Persist.thy ===== *)
theory Persist
  imports Filesys Json
begin

text \<open>
  Token persistence (\<open>pkg/daemon/persist.go\<close>): the on-disk format, the atomic write, the read with
  its self-healing of corrupt files, the migration from the legacy directory, and the clean-up of
  temporary files (\<open>cleanupStaleTempFiles\<close> of \<open>server.go\<close>).  The server's view of it is the locale
  \<open>token_store\<close>.
\<close>

section \<open>Cache keys\<close>

definition is_hex :: "char \<Rightarrow> bool" where
  "is_hex c \<longleftrightarrow> byte_in 97 102 c \<or> byte_in 65 70 c \<or> byte_in 48 57 c"

text \<open>The regular expression \<open>^[a-fA-F0-9]{1,128}$\<close>.\<close>

definition IsValidCacheKey :: "string \<Rightarrow> bool" where
  "IsValidCacheKey name \<longleftrightarrow> 1 \<le> length name \<and> length name \<le> 128 \<and> list_all is_hex name"

section \<open>File format\<close>

definition maxPersistFileSize :: nat where "maxPersistFileSize = 10 * 2 ^ 20"

definition persistFormatVersion :: int where "persistFormatVersion = 1"

record persistedToken =
  pt_FormatVersion :: int
  pt_IDToken :: string
  pt_RefreshToken :: string

definition marshal_field :: "string \<Rightarrow> string \<Rightarrow> string" where
  "marshal_field name v = (if v = [] then [] else '','' @ json_quote name @ '':'' @ json_quote v)"

definition marshal_token :: "persistedToken \<Rightarrow> string" where
  "marshal_token t =
     ''{'' @ json_quote ''format_version'' @ '':'' @ show_int (pt_FormatVersion t)
     @ marshal_field ''id_token'' (pt_IDToken t) @ marshal_field ''refresh_token'' (pt_RefreshToken t) @ ''}''"

definition token_fields :: "string list" where
  "token_fields = [''format_version'', ''id_token'', ''refresh_token'']"

text \<open>Decoding one member; the flag records that some member had a value of the wrong kind.\<close>

definition token_member :: "string \<times> json \<Rightarrow> bool \<times> persistedToken \<Rightarrow> bool \<times> persistedToken" where
  "token_member m st =
     (case select_field token_fields (fst m) of
        None \<Rightarrow> st
      | Some f \<Rightarrow>
          if f = ''format_version'' then
            (let (bad, v) = store_int (snd m) (pt_FormatVersion (snd st)) in (fst st \<or> bad, (snd st)\<lparr>pt_FormatVersion := v\<rparr>))
          else if f = ''id_token'' then
            (let (bad, v) = store_string (snd m) (pt_IDToken (snd st)) in (fst st \<or> bad, (snd st)\<lparr>pt_IDToken := v\<rparr>))
          else
            (let (bad, v) = store_string (snd m) (pt_RefreshToken (snd st)) in (fst st \<or> bad, (snd st)\<lparr>pt_RefreshToken := v\<rparr>)))"

definition zero_token :: persistedToken where
  "zero_token = \<lparr>pt_FormatVersion = 0, pt_IDToken = [], pt_RefreshToken = []\<rparr>"

definition unmarshal_token :: "string \<Rightarrow> go_error + persistedToken" where
  "unmarshal_token b =
     (case json_parse b of
        Inl _ \<Rightarrow> Inl (Err ''invalid JSON'')
      | Inr JNull \<Rightarrow> Inr zero_token
      | Inr (JObj ms) \<Rightarrow>
          (case fold token_member ms (False, zero_token) of
             (True, _) \<Rightarrow> Inl (Err ''cannot unmarshal value into Go struct field'')
           | (False, t) \<Rightarrow> Inr t)
      | Inr _ \<Rightarrow> Inl (Err ''cannot unmarshal value into Go value of type daemon.persistedToken''))"

section \<open>Writing and reading\<close>

definition token_path :: "string \<Rightarrow> string \<Rightarrow> path" where
  "token_path dir cacheKey = Path dir (cacheKey @ ''.json'')"

definition temp_path :: "string \<Rightarrow> string \<Rightarrow> string \<Rightarrow> path" where
  "temp_path dir cacheKey rnd = Path dir (cacheKey @ ''.tmp.'' @ rnd)"

primrec persist_stage_msg :: "stage \<Rightarrow> string" where
  "persist_stage_msg StCreate = ''create temp file''"
| "persist_stage_msg StChmod = ''chmod temp file''"
| "persist_stage_msg StWrite = ''write temp file''"
| "persist_stage_msg StSync = ''fsync temp file''"
| "persist_stage_msg StClose = ''close temp file''"
| "persist_stage_msg StRename = ''rename to final path''"

definition PersistToken :: "faults \<Rightarrow> string \<Rightarrow> string \<Rightarrow> string \<Rightarrow> string \<Rightarrow> vfs \<Rightarrow> go_error option \<times> vfs" where
  "PersistToken io dir cacheKey idToken refreshToken w =
     (if \<not> IsValidCacheKey cacheKey then (Some (Err ''invalid cache key: must be hex string''), w)
      else
        let b = marshal_token \<lparr>pt_FormatVersion = persistFormatVersion, pt_IDToken = idToken, pt_RefreshToken = refreshToken\<rparr>;
            (mk, w1) = os_Mkdir io dir w
        in if mk \<noteq> None \<and> mk \<noteq> Some EEXIST then (Some (Wrap ''create persist dir'' (OsErr (the mk))), w1)
           else
             let final = token_path dir cacheKey; tmp = temp_path dir cacheKey (f_tmp io)
             in case atomic_write io perm600 tmp final b w1 of
                  (Some (st, e), w2) \<Rightarrow> (Some (Wrap (persist_stage_msg st) (OsErr e)), w2)
                | (None, w2) \<Rightarrow>
                    (case setPrivatePermissions io final w2 of
                       (Some e, w3) \<Rightarrow> (Some (Wrap ''harden persist file permissions'' (OsErr e)), w3)
                     | (None, w3) \<Rightarrow> (None, w3)))"

text \<open>A directory can be opened but not read.\<close>

definition read_fault :: "faults \<Rightarrow> node \<Rightarrow> os_error option" where
  "read_fault io n = (if n_kind n = Directory then Some EISDIR else f_read io)"

definition LoadPersistedToken :: "faults \<Rightarrow> string \<Rightarrow> string \<Rightarrow> vfs \<Rightarrow> (go_error + (string \<times> string)) \<times> vfs" where
  "LoadPersistedToken io dir cacheKey w =
     (if \<not> IsValidCacheKey cacheKey then (Inl (Err ''invalid cache key: must be hex string''), w)
      else
        let final = token_path dir cacheKey
        in case openNoFollow io final w of
             Inl (OpenOs ENOENT) \<Rightarrow> (Inr ([], []), w)
           | Inl (OpenOs e) \<Rightarrow> (Inl (OsErr e), w)
           | Inl OpenSymlink \<Rightarrow> (Inl (Err ''persist file is a symlink (rejected)''), w)
           | Inr n \<Rightarrow>
               (case read_fault io n of
                  Some e \<Rightarrow> (Inl (Wrap ''read persist file'' (OsErr e)), w)
                | None \<Rightarrow>
                    let b = take (maxPersistFileSize + 1) (n_data n)
                    in if length b > maxPersistFileSize
                       then (Inl (Err ''persist file exceeds maximum size (10485760 bytes), deleted''), os_Remove final w)
                       else case unmarshal_token b of
                              Inl e \<Rightarrow> (Inl (Wrap ''corrupt persist file deleted'' e), os_Remove final w)
                            | Inr data \<Rightarrow>
                                if pt_FormatVersion data \<noteq> persistFormatVersion
                                then (Inl (Err (''persist file has unknown format version '' @ show_int (pt_FormatVersion data) @ '', deleted'')),
                                      os_Remove final w)
                                else (Inr (pt_IDToken data, pt_RefreshToken data), w)))"

section \<open>Directory security and migration\<close>

definition validateRuntimeDirSecurity :: "nat \<Rightarrow> string \<Rightarrow> node option \<Rightarrow> go_error option" where
  "validateRuntimeDirSecurity uid dir info =
     (case info of
        None \<Rightarrow> Some (Wrap ''lstat runtime dir'' (OsErr ENOENT))
      | Some n \<Rightarrow>
          if n_kind n = Symlink then Some (Err (''runtime directory '' @ dir @ '' is a symlink (possible attack)''))
          else if n_kind n \<noteq> Directory then Some (Err (''runtime path '' @ dir @ '' is not a directory''))
          else if n_uid n \<noteq> uid then
            Some (Err (''runtime directory '' @ dir @ '' owned by uid '' @ show_nat (n_uid n) @ '', expected '' @ show_nat uid @
              '' (possible directory pre-creation attack)''))
          else if and (n_perm n) 63 \<noteq> 0 then
            Some (Err (''runtime directory '' @ dir @ '' has insecure permissions '' @ show_oct (unat (n_perm n)) @ '' (must be 0700)''))
          else None)"

definition atomicWriteFile :: "faults \<Rightarrow> path \<Rightarrow> string \<Rightarrow> 32 word \<Rightarrow> vfs \<Rightarrow> go_error option \<times> vfs" where
  "atomicWriteFile io p data perm w =
     (case atomic_write io perm (Path (p_dir p) (''.migrate-'' @ f_tmp io @ ''.tmp'')) p data w of
        (Some (st, e), w') \<Rightarrow> (Some (OsErr e), w')
      | (None, w') \<Rightarrow> (None, w'))"

definition dir_entries :: "string \<Rightarrow> vfs \<Rightarrow> (string \<times> node) list" where
  "dir_entries dir w = map (\<lambda>(p, n). (p_name p, n)) (filter (\<lambda>(p, n). p_dir p = dir) (vf_files w))"

definition strip_json :: "string \<Rightarrow> string option" where
  "strip_json name = (if suffix ''.json'' name then Some (take (length name - 5) name) else None)"

text \<open>
  One round of the migration loop.  \<open>resolves\<close> tells whether a symbolic link at the
  destination leads to an existing file, which is what \<open>os.Stat\<close> asks.
\<close>

definition migrate_entry :: "(path \<Rightarrow> bool) \<Rightarrow> faults \<Rightarrow> string \<Rightarrow> string \<Rightarrow> string \<Rightarrow> nat \<times> vfs \<Rightarrow> nat \<times> vfs" where
  "migrate_entry resolves io legacyDir newDir name st =
     (let (migrated, w) = st in
      case strip_json name of
        None \<Rightarrow> st
      | Some base \<Rightarrow>
          if \<not> IsValidCacheKey base then st
          else
            let dst = Path newDir name; src = Path legacyDir name;
                stat_ok = (case file_at w dst of None \<Rightarrow> False | Some n \<Rightarrow> n_kind n \<noteq> Symlink \<or> resolves dst)
            in if stat_ok then st
               else case file_at w src of
                      None \<Rightarrow> st
                    | Some n \<Rightarrow>
                        if n_kind n \<noteq> Regular then st
                        else case openNoFollow io src w of
                               Inl _ \<Rightarrow> st
                             | Inr f \<Rightarrow>
                                 (case f_read io of
                                    Some _ \<Rightarrow> st
                                  | None \<Rightarrow>
                                      (case atomicWriteFile io dst (take maxPersistFileSize (n_data f)) perm600 w of
                                         (Some _, w') \<Rightarrow> (migrated, w')
                                       | (None, w') \<Rightarrow> (Suc migrated, os_Remove src w'))))"

definition MigrateTokensFromLegacyDir :: "(path \<Rightarrow> bool) \<Rightarrow> (string \<Rightarrow> faults) \<Rightarrow> nat \<Rightarrow> string \<Rightarrow> string \<Rightarrow> vfs \<Rightarrow> vfs" where
  "MigrateTokensFromLegacyDir resolves io uid legacyDir newDir w =
     (if legacyDir = newDir then w
      else case gm_get (vf_dirs w) legacyDir of
             None \<Rightarrow> w
           | Some info \<Rightarrow>
               if n_kind info = Symlink then w
               else if n_kind info \<noteq> Directory then w
               else if validateRuntimeDirSecurity uid legacyDir (Some info) \<noteq> None then w
               else
                 let entries = dir_entries legacyDir w;
                     (migrated, w') = fold (\<lambda>(name, n). migrate_entry resolves (io name) legacyDir newDir name) entries (0, w)
                 in if (migrated > 0 \<or> entries = []) \<and> dir_entries legacyDir w' = []
                    then w'\<lparr>vf_dirs := gm_del legacyDir (vf_dirs w')\<rparr> else w')"

section \<open>Clean-up of temporary files\<close>

definition is_temp_name :: "string \<Rightarrow> bool" where
  "is_temp_name name \<longleftrightarrow> contains name ''.tmp.'' \<or> suffix ''.tmp'' name"

definition stale_temp :: "gotime \<Rightarrow> string \<times> node \<Rightarrow> bool" where
  "stale_temp now e \<longleftrightarrow> n_kind (snd e) \<noteq> Directory \<and> is_temp_name (fst e) \<and> \<not> n_mtime (snd e) > now - 60 * second"

definition cleanupStaleTempFiles :: "string \<Rightarrow> gotime \<Rightarrow> vfs \<Rightarrow> vfs" where
  "cleanupStaleTempFiles dir now w =
     fold (\<lambda>e w. if stale_temp now e then os_Remove (Path dir (fst e)) w else w) (dir_entries dir w) w"

section \<open>Round trip of the file format\<close>

lemma ascii_fields [simp]: "ascii ''format_version''" "ascii ''id_token''" "ascii ''refresh_token''"
  by (simp_all add: ascii_def byte_of_def)

lemma show_int_one: "show_int 1 = ''1''"
  by (simp add: show_int_def show_nat.simps char_of_eq byte_of_def)

definition token_members :: "string \<Rightarrow> string \<Rightarrow> (string \<times> json) list" where
  "token_members a b = (''format_version'', JNum ''1'') #
     (if a = [] then [] else [(''id_token'', JStr a)]) @ (if b = [] then [] else [(''refresh_token'', JStr b)])"

lemma json_parse_marshal:
  assumes "ascii a" "ascii b"
  shows "json_parse (marshal_token \<lparr>pt_FormatVersion = persistFormatVersion, pt_IDToken = a, pt_RefreshToken = b\<rparr>) = Inr (JObj (token_members a b))"
proof -
  let ?s = "marshal_token \<lparr>pt_FormatVersion = persistFormatVersion, pt_IDToken = a, pt_RefreshToken = b\<rparr>"
  have "5 \<le> json_fuel ?s" by (simp add: json_fuel_def marshal_token_def json_quote_def)
  then obtain n where "json_fuel ?s = 5 + n" using le_Suc_ex by blast
  then have n: "json_fuel ?s = Suc (Suc (Suc (Suc (Suc n))))" by simp
  show ?thesis
    unfolding json_parse_def decode_first_def n using assms
    by (simp add: marshal_token_def marshal_field_def persistFormatVersion_def show_int_one parse_object
        parse_members_one parse_members_quote token_members_def skip_ws_def
        del: parse_value.simps parse_members.simps)
qed


lemma unmarshal_marshal:
  assumes "ascii a" "ascii b"
  shows "unmarshal_token (marshal_token \<lparr>pt_FormatVersion = persistFormatVersion, pt_IDToken = a, pt_RefreshToken = b\<rparr>) =
    Inr \<lparr>pt_FormatVersion = persistFormatVersion, pt_IDToken = a, pt_RefreshToken = b\<rparr>"
proof -
  have one: "ParseInt64 ''1'' = Some 1"
    by (simp add: ParseInt64_def digits_val_def byte_of_def Let_def)
  show ?thesis
    unfolding unmarshal_token_def json_parse_marshal [OF assms]
    by (auto simp: token_members_def token_member_def select_field_def token_fields_def zero_token_def persistFormatVersion_def one)
qed

lemma length_marshal:
  "length (marshal_token \<lparr>pt_FormatVersion = persistFormatVersion, pt_IDToken = a, pt_RefreshToken = b\<rparr>) \<le>
     6 * (length a + length b) + 300"
proof -
  have "length (json_quote s) \<le> 6 * length s + 2" for s
    using length_quote_body [of s] by (simp add: json_quote_def)
  note q = this
  have "length (marshal_field name v) \<le> 6 * length name + 6 * length v + 10" for name v
    using q [of name] q [of v] by (simp add: marshal_field_def)
  note m = this
  show ?thesis
    using q [of "''format_version''"] m [of "''id_token''" a] m [of "''refresh_token''" b]
    by (simp add: marshal_token_def persistFormatVersion_def show_int_one)
qed

section \<open>Properties of writing and reading\<close>

lemma temp_neq_token: "temp_path dir k r \<noteq> token_path dir' k'" if "IsValidCacheKey k" "IsValidCacheKey k'"
proof
  assume "temp_path dir k r = token_path dir' k'"
  then have eq: "k @ ''.tmp.'' @ r = k' @ ''.json''" by (simp add: temp_path_def token_path_def)
  have dot: "CHR ''.'' \<notin> set k" "CHR ''.'' \<notin> set k'"
    using that by (auto simp: IsValidCacheKey_def list_all_iff is_hex_def byte_in_def byte_of_def)
  have "takeWhile (\<lambda>c. c \<noteq> CHR ''.'') (k @ ''.tmp.'' @ r) = k" "takeWhile (\<lambda>c. c \<noteq> CHR ''.'') (k' @ ''.json'') = k'"
    using dot by (simp_all add: takeWhile_append)
  then have "k = k'" using eq by simp
  then show False using eq by simp
qed

abbreviation token_bytes :: "string \<Rightarrow> string \<Rightarrow> string" where
  "token_bytes a b \<equiv> marshal_token \<lparr>pt_FormatVersion = persistFormatVersion, pt_IDToken = a, pt_RefreshToken = b\<rparr>"

lemma PersistToken_cases:
  obtains (invalid) "\<not> IsValidCacheKey k" "PersistToken io dir k a b w = (Some (Err ''invalid cache key: must be hex string''), w)"
  | (mkdir) e where "IsValidCacheKey k" "fst (os_Mkdir io dir w) \<notin> {None, Some EEXIST}" "PersistToken io dir k a b w = (Some e, w)"
  | (failed) st e w1 w2 where "IsValidCacheKey k" "w1 = snd (os_Mkdir io dir w)"
      "atomic_write io perm600 (temp_path dir k (f_tmp io)) (token_path dir k) (token_bytes a b) w1 = (Some (st, e), w2)"
      "PersistToken io dir k a b w = (Some (Wrap (persist_stage_msg st) (OsErr e)), w2)"
  | (written) w1 w2 where "IsValidCacheKey k" "w1 = snd (os_Mkdir io dir w)"
      "atomic_write io perm600 (temp_path dir k (f_tmp io)) (token_path dir k) (token_bytes a b) w1 = (None, w2)"
      "PersistToken io dir k a b w =
         (map_option (\<lambda>e. Wrap ''harden persist file permissions'' (OsErr e)) (f_harden io), snd (setPrivatePermissions io (token_path dir k) w2))"
proof (cases "IsValidCacheKey k")
  case False
  then show ?thesis by (intro invalid) (simp_all add: PersistToken_def)
next
  case True
  define w1 where "w1 = snd (os_Mkdir io dir w)"
  define mk where "mk = fst (os_Mkdir io dir w)"
  have mkw: "os_Mkdir io dir w = (mk, w1)" by (simp add: w1_def mk_def)
  show ?thesis
  proof (cases "mk \<noteq> None \<and> mk \<noteq> Some EEXIST")
    case bad: True
    then have "w1 = w" using mkw by (auto simp: os_Mkdir_def split: option.splits)
    then show ?thesis using True bad mkw by (intro mkdir [of "Wrap ''create persist dir'' (OsErr (the mk))"]) (simp_all add: PersistToken_def Let_def)
  next
    case False
    obtain r w2 where aw: "atomic_write io perm600 (temp_path dir k (f_tmp io)) (token_path dir k) (token_bytes a b) w1 = (r, w2)"
      by (cases "atomic_write io perm600 (temp_path dir k (f_tmp io)) (token_path dir k) (token_bytes a b) w1")
    show ?thesis
    proof (cases r)
      case None
      have "PersistToken io dir k a b w =
         (map_option (\<lambda>e. Wrap ''harden persist file permissions'' (OsErr e)) (f_harden io), snd (setPrivatePermissions io (token_path dir k) w2))"
        using False True aw None
        by (cases "f_harden io") (simp_all add: PersistToken_def mkw setPrivatePermissions_def)
      then show ?thesis using True aw None by (intro written [of w1 w2]) (simp_all add: w1_def)
    next
      case (Some q)
      then obtain st e where "r = Some (st, e)" by (cases q) auto
      moreover from this have "PersistToken io dir k a b w = (Some (Wrap (persist_stage_msg st) (OsErr e)), w2)"
        using False True aw by (auto simp: PersistToken_def mkw)
      ultimately show ?thesis using True aw by (intro failed [of w1 st e w2]) (simp_all add: w1_def)
    qed
  qed
qed

lemma file_at_Mkdir [simp]: "vf_files (snd (os_Mkdir io d w)) = vf_files w" "vf_hist (snd (os_Mkdir io d w)) = vf_hist w"
  by (auto simp: os_Mkdir_def split: option.split)

lemma harden_new:
  assumes "file_at w p = Some (new_node io perm600 b)"
  shows "file_at (snd (setPrivatePermissions io' p w)) = file_at w"
    "\<exists>hs. vf_hist (snd (setPrivatePermissions io' p w)) = vf_hist w @ hs \<and> (\<forall>h \<in> set hs. gm_get h = file_at w)"
  using assms by (auto simp: setPrivatePermissions_def map_node_def set_files_def new_node_def split: option.split)

lemma PersistToken_written:
  assumes "PersistToken io dir k a b w = (None, w')"
  shows "IsValidCacheKey k" "file_at w' = (file_at w)(token_path dir k \<mapsto> new_node io perm600 (token_bytes a b))"
proof -
  show "IsValidCacheKey k" using assms by (auto simp: PersistToken_def split: if_splits)
  show "file_at w' = (file_at w)(token_path dir k \<mapsto> new_node io perm600 (token_bytes a b))"
  proof (cases rule: PersistToken_cases [of k io dir a b w])
    case (written w1 w2)
    have "file_at w2 = (file_at w1)(token_path dir k \<mapsto> new_node io perm600 (token_bytes a b))"
      using written(1,3) by (intro atomic_write_ok) (simp_all add: temp_neq_token)
    moreover from this have "file_at (snd (setPrivatePermissions io (token_path dir k) w2)) = file_at w2"
      by (intro harden_new) simp
    ultimately show ?thesis using written assms by simp
  qed (use assms in auto)
qed

text \<open>
  C9: persisting a token is crash-safe.  In every intermediate state of the file system, whatever
  call fails, the token file is its old self or the complete new file, already flushed and private.
\<close>

theorem PersistToken_crash_safe:
  "\<exists>hs. vf_hist (snd (PersistToken io dir k a b w)) = vf_hist w @ hs \<and>
     (\<forall>h \<in> set hs. gm_get h (token_path dir k) = file_at w (token_path dir k) \<or>
        gm_get h (token_path dir k) = Some (new_node io perm600 (token_bytes a b)))"
proof (cases rule: PersistToken_cases [of k io dir a b w])
  case (failed st e w1 w2)
  then show ?thesis using atomic_write_history [OF temp_neq_token [OF failed(1,1)], of io perm600 dir "f_tmp io" dir "token_bytes a b" w1] by auto
next
  case (written w1 w2)
  have f: "file_at w2 (token_path dir k) = Some (new_node io perm600 (token_bytes a b))"
    using atomic_write_None(1) [OF temp_neq_token [OF written(1,1)] written(3)] .
  obtain hs where hs: "vf_hist w2 = vf_hist w @ hs"
    "\<forall>h \<in> set hs. gm_get h (token_path dir k) \<in> {file_at w (token_path dir k), Some (new_node io perm600 (token_bytes a b))}"
    using atomic_write_None(5) [OF temp_neq_token [OF written(1,1)] written(3)] written(2) by auto
  obtain hs' where "vf_hist (snd (setPrivatePermissions io (token_path dir k) w2)) = vf_hist w2 @ hs'" "\<forall>h \<in> set hs'. gm_get h = file_at w2"
    using harden_new(2) [OF f] by blast
  then show ?thesis using hs f written(4) by (intro exI [of _ "hs @ hs'"]) auto
qed auto

theorem PersistToken_crash_safe_witness:
  "\<exists>hs. vf_hist (snd (PersistToken (no_faults ''1'') ''/d'' ''ab'' ''i'' ''r'' \<lparr>vf_dirs = [], vf_files = [], vf_hist = []\<rparr>)) = [] @ hs \<and>
     (\<forall>h \<in> set hs. gm_get h (token_path ''/d'' ''ab'') = None \<or>
        gm_get h (token_path ''/d'' ''ab'') = Some (new_node (no_faults ''1'') perm600 (token_bytes ''i'' ''r'')))"
  using PersistToken_crash_safe [of "no_faults ''1''" "''/d''" "''ab''" "''i''" "''r''" "\<lparr>vf_dirs = [], vf_files = [], vf_hist = []\<rparr>"]
  by simp

text \<open>
  A failing write leaves nothing behind.  When \<open>PersistToken\<close> returns an error, every file of the
  directory is as before (the temporary file is gone), except that a failure to restrict the finished
  file leaves the new token in place.
\<close>

theorem PersistToken_error:
  assumes "PersistToken io dir k a b w = (Some e, w')"
  shows "file_at w' = file_at w \<or>
    f_harden io \<noteq> None \<and> file_at w' = (file_at w)(token_path dir k \<mapsto> new_node io perm600 (token_bytes a b))"
proof (cases rule: PersistToken_cases [of k io dir a b w])
  case (failed st err w1 w2)
  then show ?thesis using atomic_write_error [OF failed(3)] assms by simp
next
  case (written w1 w2)
  have "file_at w2 = (file_at w)(token_path dir k \<mapsto> new_node io perm600 (token_bytes a b))"
    using atomic_write_ok [OF temp_neq_token [OF written(1,1)] written(3)] written(2) by simp
  moreover from this have "file_at (snd (setPrivatePermissions io (token_path dir k) w2)) = file_at w2"
    by (intro harden_new) simp
  ultimately show ?thesis using written assms by auto
qed (use assms in auto)

theorem PersistToken_error_witness:
  "let io = (no_faults ''1'')\<lparr>f_sync := Some EIO\<rparr>; w = \<lparr>vf_dirs = [], vf_files = [], vf_hist = []\<rparr>;
       w' = snd (PersistToken io ''/d'' ''ab'' ''i'' ''r'' w)
   in file_at w' = file_at w \<or>
      f_harden io \<noteq> None \<and> file_at w' = (file_at w)(token_path ''/d'' ''ab'' \<mapsto> new_node io perm600 (token_bytes ''i'' ''r''))"
proof -
  let ?io = "(no_faults ''1'')\<lparr>f_sync := Some EIO\<rparr>" and ?w = "\<lparr>vf_dirs = [], vf_files = [], vf_hist = []\<rparr>"
  have "fst (PersistToken ?io ''/d'' ''ab'' ''i'' ''r'' ?w) = Some (Wrap ''fsync temp file'' (OsErr EIO))"
    by (simp add: PersistToken_def IsValidCacheKey_def is_hex_def byte_in_def byte_of_def no_faults_def atomic_write_def fs_ops
        token_path_def temp_path_def Let_def)
  then show ?thesis using PersistToken_error [of ?io "''/d''" "''ab''" "''i''" "''r''" ?w] unfolding Let_def by (metis prod.collapse)
qed


text \<open>
  What was persisted is what is loaded.  After a successful write of printable tokens of at most
  a mebibyte, a read that meets no I/O error returns exactly the two tokens and changes nothing.
\<close>

theorem PersistToken_Load:
  assumes "PersistToken io dir k a b w = (None, w')" and "ascii a" and "ascii b"
    and "length a + length b \<le> 2 ^ 20" and "f_open io' = None" and "f_read io' = None"
  shows "LoadPersistedToken io' dir k w' = (Inr (a, b), w')"
proof -
  note f = PersistToken_written [OF assms(1)]
  have "length (token_bytes a b) \<le> maxPersistFileSize"
    using length_marshal [of a b] assms(4) by (simp add: maxPersistFileSize_def)
  then show ?thesis using f(1) assms(5,6)
    by (simp add: LoadPersistedToken_def read_fault_def openNoFollow_def f(2) new_node_def unmarshal_marshal assms(2,3) Let_def)
qed

lemma PersistToken_ok:
  assumes "IsValidCacheKey k" "file_at w (temp_path dir k r) = None" "gm_get (vf_dirs w) dir \<noteq> None" "\<not> is_dir (file_at w (token_path dir k))"
  shows "\<exists>w'. PersistToken (no_faults r) dir k a b w = (None, w')"
proof (cases rule: PersistToken_cases [of k "no_faults r" dir a b w])
  case (mkdir e)
  then show ?thesis using assms(3) by (auto simp: os_Mkdir_def)
next
  case (failed st e w1 w2)
  have "\<exists>w'. atomic_write (no_faults r) perm600 (temp_path dir k r) (token_path dir k) (token_bytes a b) w1 = (None, w')"
    using failed(2) assms by (intro atomic_write_succeeds) (auto simp: no_faults_def os_Mkdir_def temp_path_def split: option.splits)
  then show ?thesis using failed(3) by (simp add: no_faults_def)
next
  case (written w1 w2)
  then show ?thesis by (simp add: no_faults_def)
qed (use assms in auto)

lemma valid_key_ab [simp]: "IsValidCacheKey ''ab''" "IsValidCacheKey ''cd''"
  by (simp_all add: IsValidCacheKey_def is_hex_def byte_in_def byte_of_def)

definition one_dir :: vfs where
  "one_dir = \<lparr>vf_dirs = [(''/d'', (new_node (no_faults ''1'') perm700 [])\<lparr>n_kind := Directory\<rparr>)], vf_files = [], vf_hist = []\<rparr>"

theorem PersistToken_Load_witness:
  "let w' = snd (PersistToken (no_faults ''1'') ''/d'' ''ab'' ''i'' ''r'' one_dir)
   in LoadPersistedToken (no_faults ''2'') ''/d'' ''ab'' w' = (Inr (''i'', ''r''), w')"
proof -
  obtain w' where "PersistToken (no_faults ''1'') ''/d'' ''ab'' ''i'' ''r'' one_dir = (None, w')"
    using PersistToken_ok [of "''ab''" one_dir "''/d''" "''1''" "''i''" "''r''"] by (auto simp: one_dir_def)
  then show ?thesis
    using PersistToken_Load [of "no_faults ''1''" "''/d''" "''ab''" "''i''" "''r''" one_dir w' "no_faults ''2''"]
    by (simp add: no_faults_def ascii_def byte_of_def)
qed

lemma file_at_Remove [simp]: "file_at (os_Remove p w) = (file_at w)(p := None)"
  by (auto simp: os_Remove_def set_files_def)

text \<open>
  A bad token file heals.  Reading an existing regular file either succeeds
  and changes nothing, or removes exactly that file, so that the next read reports \<open>no token\<close>.
\<close>

theorem LoadPersistedToken_heals:
  assumes "IsValidCacheKey k" and "file_at w (token_path dir k) = Some n" and "n_kind n = Regular"
    and "f_open io = None" and "f_read io = None"
  shows "case LoadPersistedToken io dir k w of
           (Inr t, w') \<Rightarrow> w' = w
         | (Inl e, w') \<Rightarrow> file_at w' = (file_at w)(token_path dir k := None) \<and>
                        LoadPersistedToken io dir k w' = (Inr ([], []), w')"
proof -
  have none: "LoadPersistedToken io dir k (os_Remove (token_path dir k) w) = (Inr ([], []), os_Remove (token_path dir k) w)"
    using assms(1) by (simp add: LoadPersistedToken_def read_fault_def openNoFollow_def)
  have "LoadPersistedToken io dir k w = (Inl e, os_Remove (token_path dir k) w) \<or> (\<exists>t. LoadPersistedToken io dir k w = (Inr t, w))"
    if "fst (LoadPersistedToken io dir k w) = Inl e \<or> isl (fst (LoadPersistedToken io dir k w)) = False" for e
    using that assms by (auto simp: LoadPersistedToken_def read_fault_def openNoFollow_def Let_def split: sum.splits if_splits)
  then show ?thesis
    using none by (cases "fst (LoadPersistedToken io dir k w)") (force split: sum.split prod.split)+
qed

theorem LoadPersistedToken_heals_witness:
  "let w = one_dir\<lparr>vf_files := [(token_path ''/d'' ''ab'', new_node (no_faults ''1'') perm600 ''}'')]\<rparr>;
       w' = snd (LoadPersistedToken (no_faults ''1'') ''/d'' ''ab'' w)
   in file_at w' (token_path ''/d'' ''ab'') = None \<and> LoadPersistedToken (no_faults ''1'') ''/d'' ''ab'' w' = (Inr ([], []), w')"
proof -
  let ?n = "new_node (no_faults ''1'') perm600 ''}''"
  let ?w = "one_dir\<lparr>vf_files := [(token_path ''/d'' ''ab'', ?n)]\<rparr>"
  have "unmarshal_token ''}'' = Inl (Err ''invalid JSON'')"
    by (simp add: unmarshal_token_def json_parse_def decode_first_def json_fuel_def skip_ws_def is_ws_def byte_of_def eval_nat_numeral parse_number_def strip_def)
  then have bad: "isl (fst (LoadPersistedToken (no_faults ''1'') ''/d'' ''ab'' ?w))"
    by (simp add: LoadPersistedToken_def read_fault_def openNoFollow_def new_node_def no_faults_def maxPersistFileSize_def Let_def)
  have "case LoadPersistedToken (no_faults ''1'') ''/d'' ''ab'' ?w of
           (Inr t, w') \<Rightarrow> w' = ?w
         | (Inl e, w') \<Rightarrow> file_at w' = (file_at ?w)(token_path ''/d'' ''ab'' := None) \<and>
                        LoadPersistedToken (no_faults ''1'') ''/d'' ''ab'' w' = (Inr ([], []), w')"
    by (rule LoadPersistedToken_heals [where n = ?n]) (simp_all add: new_node_def no_faults_def)
  then show ?thesis using bad unfolding Let_def
    by (cases "LoadPersistedToken (no_faults ''1'') ''/d'' ''ab'' ?w"; cases "fst (LoadPersistedToken (no_faults ''1'') ''/d'' ''ab'' ?w)") simp_all
qed

section \<open>The store the server sees\<close>

text \<open>
  The contract of the token store: a successful write of tokens within the format's limits is what
  every later read of that key returns, and concerns no other key.
\<close>

locale token_store =
  fixes save :: "'io \<Rightarrow> string \<Rightarrow> string \<Rightarrow> string \<Rightarrow> 'w \<Rightarrow> 'e option \<times> 'w"
    and look :: "'w \<Rightarrow> string \<Rightarrow> 'f + (string \<times> string)"
    and storable :: "string \<Rightarrow> string \<Rightarrow> bool"
  assumes save_look: "save io k a b w = (None, w') \<Longrightarrow> storable a b \<Longrightarrow> look w' k = Inr (a, b)"
    and save_other: "save io k a b w = (None, w') \<Longrightarrow> k' \<noteq> k \<Longrightarrow> look w' k' = look w k'"
begin

fun saves :: "('io \<times> string \<times> string \<times> string) list \<Rightarrow> 'w \<Rightarrow> 'w option" where
  "saves [] w = Some w"
| "saves ((io, k, a, b) # ops) w = (case save io k a b w of (None, w') \<Rightarrow> saves ops w' | (Some e, w') \<Rightarrow> None)"

lemma saves_last:
  assumes "saves ops w = Some w'" "\<forall>(io, k, a, b) \<in> set ops. storable a b"
  shows "look w' k = (case map_of (rev (map (\<lambda>(io, k, a, b). (k, (a, b))) ops)) k of None \<Rightarrow> look w k | Some t \<Rightarrow> Inr t)"
  using assms
proof (induction ops arbitrary: w)
  case Nil
  then show ?case by simp
next
  case (Cons op ops)
  obtain io k0 a b where op: "op = (io, k0, a, b)" by (cases op)
  from Cons.prems obtain w1 where w1: "save io k0 a b w = (None, w1)" "saves ops w1 = Some w'"
    by (auto simp: op split: prod.splits option.splits)
  then show ?case
    using Cons.IH [OF w1(2)] Cons.prems(2) save_look [OF w1(1)] save_other [OF w1(1), of k]
    by (auto simp: op map_add_def split: option.splits)
qed

end

lemma vf_dirs_ops [simp]:
  "vf_dirs (set_files fs w) = vf_dirs w" "vf_dirs (map_node p f w) = vf_dirs w" "vf_dirs (os_Remove p w) = vf_dirs w"
  "vf_dirs (snd (f_Chmod io p m w)) = vf_dirs w" "vf_dirs (snd (f_Write io p c w)) = vf_dirs w"
  "vf_dirs (snd (f_Sync io p w)) = vf_dirs w" "vf_dirs (snd (os_Rename io p q w)) = vf_dirs w"
  "vf_dirs (snd (setPrivatePermissions io p w)) = vf_dirs w"
  by (simp_all add: fs_ops split: option.split)

lemma vf_dirs_CreateTemp: "os_CreateTemp io p w = Inr w' \<Longrightarrow> vf_dirs w' = vf_dirs w"
  by (auto simp: os_CreateTemp_def split: option.splits if_splits)

lemma vf_dirs_atomic_write [simp]: "vf_dirs (snd (atomic_write io m p q c w)) = vf_dirs w"
proof (cases "os_CreateTemp io p w")
  case (Inl e)
  then show ?thesis by (simp add: atomic_write_def)
next
  case (Inr w1)
  let ?w2 = "snd (f_Chmod io p m w1)"
  let ?w3 = "snd (f_Write io p c ?w2)"
  let ?w4 = "snd (f_Sync io p ?w3)"
  have "snd (atomic_write io m p q c w) \<in> {os_Remove p ?w2, os_Remove p ?w3, os_Remove p ?w4,
      os_Remove p (snd (os_Rename io p q ?w4)), snd (os_Rename io p q ?w4)}"
    using Inr by (auto simp: atomic_write_def split: prod.splits option.splits)
  then show ?thesis using vf_dirs_CreateTemp [OF Inr] by (elim insertE emptyE) simp_all
qed

lemma PersistToken_dirs:
  assumes "gm_get (vf_dirs w) d \<noteq> None"
  shows "gm_get (vf_dirs (snd (PersistToken io dir k a b w))) d \<noteq> None"
proof -
  have mk: "gm_get (vf_dirs (snd (os_Mkdir io dir w))) d \<noteq> None"
    using assms by (auto simp: os_Mkdir_def split: option.split)
  show ?thesis
  proof (cases rule: PersistToken_cases [of k io dir a b w])
    case (failed st e w1 w2)
    then have "vf_dirs w2 = vf_dirs w1" by (metis snd_conv vf_dirs_atomic_write)
    then show ?thesis using failed mk by simp
  next
    case (written w1 w2)
    then have "vf_dirs w2 = vf_dirs w1" by (metis snd_conv vf_dirs_atomic_write)
    then show ?thesis using written mk by simp
  qed (use assms in auto)
qed

definition storable :: "string \<Rightarrow> string \<Rightarrow> bool" where
  "storable a b \<longleftrightarrow> ascii a \<and> ascii b \<and> length a + length b \<le> 2 ^ 20"

text \<open>What a read returns that meets no I/O error.\<close>

definition look_token :: "string \<Rightarrow> vfs \<Rightarrow> string \<Rightarrow> go_error + (string \<times> string)" where
  "look_token dir w k = fst (LoadPersistedToken (no_faults []) dir k w)"

lemma look_token_cong:
  assumes "file_at w (token_path dir k) = file_at w' (token_path dir k)"
  shows "look_token dir w k = look_token dir w' k"
  using assms by (simp add: look_token_def LoadPersistedToken_def read_fault_def openNoFollow_def Let_def split: option.split sum.split open_error.split os_error.split)

interpretation ts: token_store "\<lambda>io. PersistToken io dir" "look_token dir" storable
proof
  fix io k a b w w' k'
  assume ok: "PersistToken io dir k a b w = (None, w')"
  show "storable a b \<Longrightarrow> look_token dir w' k = Inr (a, b)"
    using PersistToken_written [OF ok] length_marshal [of a b]
    by (simp add: look_token_def LoadPersistedToken_def read_fault_def openNoFollow_def new_node_def no_faults_def
        storable_def unmarshal_marshal maxPersistFileSize_def Let_def)
  show "k' \<noteq> k \<Longrightarrow> look_token dir w' k' = look_token dir w k'"
    using PersistToken_written(2) [OF ok] by (intro look_token_cong) (simp add: token_path_def)
qed

text \<open>
  C10: the last write wins, per key.  After any sequence of successful writes to one directory, under
  whatever conditions each ran, a read of a key returns the tokens of the last write to it, and for a
  key not written what it returned before.
\<close>

theorem persist_last_write_wins:
  assumes "ts.saves dir ops w = Some w'" and "\<forall>(io, k, a, b) \<in> set ops. storable a b"
  shows "look_token dir w' k =
    (case map_of (rev (map (\<lambda>(io, k, a, b). (k, (a, b))) ops)) k of None \<Rightarrow> look_token dir w k | Some t \<Rightarrow> Inr t)"
  using assms by (rule ts.saves_last)

theorem persist_last_write_wins_witness:
  "let w' = the (ts.saves ''/d'' [(no_faults ''1'', ''ab'', ''i'', ''r''), (no_faults ''2'', ''ab'', ''j'', ''s'')] one_dir)
   in look_token ''/d'' w' ''ab'' = Inr (''j'', ''s'') \<and> look_token ''/d'' w' ''cd'' = look_token ''/d'' one_dir ''cd''"
proof -
  obtain w1 where w1: "PersistToken (no_faults ''1'') ''/d'' ''ab'' ''i'' ''r'' one_dir = (None, w1)"
    using PersistToken_ok [of "''ab''" one_dir "''/d''" "''1''" "''i''" "''r''"] by (auto simp: one_dir_def)
  have "gm_get (vf_dirs w1) ''/d'' \<noteq> None"
    using PersistToken_dirs [of one_dir "''/d''" "no_faults ''1''" "''/d''" "''ab''" "''i''" "''r''"] w1 by (simp add: one_dir_def)
  moreover have "file_at w1 (temp_path ''/d'' ''ab'' ''2'') = None"
    using PersistToken_written(2) [OF w1] by (simp add: one_dir_def temp_path_def token_path_def)
  moreover have "\<not> is_dir (file_at w1 (token_path ''/d'' ''ab''))"
    using PersistToken_written(2) [OF w1] by (simp add: new_node_def)
  ultimately obtain w2 where "PersistToken (no_faults ''2'') ''/d'' ''ab'' ''j'' ''s'' w1 = (None, w2)"
    using PersistToken_ok [of "''ab''" w1 "''/d''" "''2''" "''j''" "''s''"] by auto
  then have run: "ts.saves ''/d'' [(no_faults ''1'', ''ab'', ''i'', ''r''), (no_faults ''2'', ''ab'', ''j'', ''s'')] one_dir = Some w2"
    using w1 by simp
  note last = persist_last_write_wins [OF run]
  show ?thesis using last [of "''ab''"] last [of "''cd''"] run by (simp add: storable_def ascii_def byte_of_def)
qed

section \<open>Clean-up and migration\<close>

lemma fold_remove:
  assumes "gm_wf (vf_files w)" "distinct (map fst es)"
  shows "file_at (fold (\<lambda>e w. if P e then os_Remove (Path dir (fst e)) w else w) es w) p =
    (if p_dir p = dir \<and> (\<exists>n. (p_name p, n) \<in> set es \<and> P (p_name p, n)) then None else file_at w p)"
  using assms
proof (induction es rule: rev_induct)
  case Nil
  then show ?case by simp
next
  case (snoc e es)
  then show ?case by (cases e; cases p) auto
qed

lemma dir_entries_distinct: "gm_wf (vf_files w) \<Longrightarrow> distinct (map fst (dir_entries dir w))"
  unfolding dir_entries_def gm_wf_def gm_keys_def
proof (induction "vf_files w" arbitrary: w)
  case Nil
  then show ?case by simp
next
  case (Cons x fs)
  have "distinct (map fst (map (\<lambda>(p, n). (p_name p, n)) (filter (\<lambda>(p, n). p_dir p = dir) fs)))"
    using Cons.hyps(1) [of "w\<lparr>vf_files := fs\<rparr>"] Cons.prems Cons.hyps(2) [symmetric] by simp
  moreover have "fst x \<notin> fst ` set fs" using Cons.prems Cons.hyps(2) [symmetric] by simp
  ultimately show ?case
    using Cons.hyps(2) [symmetric] by (cases x; cases "fst x") (force dest: path.expand)
qed

lemma dir_entries_iff:
  "gm_wf (vf_files w) \<Longrightarrow> (name, n) \<in> set (dir_entries dir w) \<longleftrightarrow> file_at w (Path dir name) = Some n"
  by (auto simp: dir_entries_def gm_get_in_set image_iff)

lemma valid_key_no_dot: "IsValidCacheKey k \<Longrightarrow> CHR ''.'' \<notin> set k"
  by (auto simp: IsValidCacheKey_def list_all_iff is_hex_def byte_in_def byte_of_def)

lemma token_name_not_temp:
  assumes "IsValidCacheKey k"
  shows "\<not> is_temp_name (k @ ''.json'')"
proof -
  have "\<not> contains (k @ ''.json'') ''.tmp.''" if "CHR ''.'' \<notin> set k" for k
    using that by (induction k) auto
  then show ?thesis using valid_key_no_dot [OF assms] by (auto simp: is_temp_name_def suffix_def)
qed

text \<open>
  Cleaning up removes exactly the stale temporary files of the directory: those older than a
  minute.  In particular it never removes a token file.
\<close>

theorem cleanupStaleTempFiles_exact:
  assumes "gm_wf (vf_files w)"
  shows "file_at (cleanupStaleTempFiles dir now w) p =
      (if p_dir p = dir \<and> (\<exists>n. file_at w p = Some n \<and> stale_temp now (p_name p, n)) then None else file_at w p) \<and>
    (IsValidCacheKey k \<longrightarrow> file_at (cleanupStaleTempFiles dir now w) (token_path dir k) = file_at w (token_path dir k))"
proof -
  have "file_at (cleanupStaleTempFiles dir now w) p =
      (if p_dir p = dir \<and> (\<exists>n. file_at w p = Some n \<and> stale_temp now (p_name p, n)) then None else file_at w p)" for p
    unfolding cleanupStaleTempFiles_def fold_remove [OF assms dir_entries_distinct [OF assms]]
    by (cases p) (auto simp: dir_entries_iff [OF assms])
  then show ?thesis using token_name_not_temp [of k] by (auto simp: stale_temp_def token_path_def)
qed


theorem cleanupStaleTempFiles_exact_witness:
  "let w = one_dir\<lparr>vf_files := [(temp_path ''/d'' ''ab'' ''1'', new_node (no_faults ''1'') perm600 []),
                               (token_path ''/d'' ''ab'', new_node (no_faults ''1'') perm600 ''x'')]\<rparr>
   in file_at (cleanupStaleTempFiles ''/d'' (2 * minute) w) (temp_path ''/d'' ''ab'' ''1'') = None \<and>
      file_at (cleanupStaleTempFiles ''/d'' (2 * minute) w) (token_path ''/d'' ''ab'') = Some (new_node (no_faults ''1'') perm600 ''x'')"
proof -
  let ?w = "one_dir\<lparr>vf_files := [(temp_path ''/d'' ''ab'' ''1'', new_node (no_faults ''1'') perm600 []),
                               (token_path ''/d'' ''ab'', new_node (no_faults ''1'') perm600 ''x'')]\<rparr>"
  have "gm_wf (vf_files ?w)" by (simp add: gm_wf_def temp_path_def token_path_def)
  from cleanupStaleTempFiles_exact [OF this, of "''/d''" "2 * minute" "temp_path ''/d'' ''ab'' ''1''" "''ab''"]
  show ?thesis
    by (simp add: stale_temp_def is_temp_name_def temp_path_def token_path_def new_node_def no_faults_def minute_def second_def)
qed

lemma strip_json_Some: "strip_json name = Some base \<longleftrightarrow> name = base @ ''.json''"
  by (auto simp: strip_json_def suffix_def)

lemma migrate_temp_neq:
  assumes "strip_json name = Some base" "IsValidCacheKey base"
  shows "Path d (''.migrate-'' @ r @ ''.tmp'') \<noteq> Path d' name"
proof
  assume "Path d (''.migrate-'' @ r @ ''.tmp'') = Path d' name"
  then have "last (''.migrate-'' @ r @ ''.tmp'') = last name" by simp
  then show False using assms(1) by (simp add: strip_json_Some)
qed

text \<open>One round of the loop changes nothing, or moves the file of that name.\<close>

lemma migrate_entry_cases:
  obtains (same) "file_at (snd (migrate_entry resolves io old new name (m, w))) = file_at w"
  | (moved) n base where "strip_json name = Some base" "IsValidCacheKey base"
      "file_at w (Path old name) = Some n" "n_kind n = Regular"
      "\<And>d. file_at w (Path new name) = Some d \<Longrightarrow> n_kind d = Symlink \<and> \<not> resolves (Path new name)"
      "file_at (snd (migrate_entry resolves io old new name (m, w))) =
         ((file_at w)(Path new name \<mapsto> new_node io perm600 (take maxPersistFileSize (n_data n))))(Path old name := None)"
proof (cases "\<exists>base n. strip_json name = Some base \<and> IsValidCacheKey base \<and> file_at w (Path old name) = Some n \<and>
    n_kind n = Regular \<and> (\<forall>d. file_at w (Path new name) = Some d \<longrightarrow> n_kind d = Symlink \<and> \<not> resolves (Path new name)) \<and>
    f_open io = None \<and> f_read io = None")
  case False
  then have "migrate_entry resolves io old new name (m, w) = (m, w)"
    by (auto simp: migrate_entry_def openNoFollow_def Let_def split: option.split)
  then show ?thesis by (intro same) simp
next
  case True
  then obtain base n where b: "strip_json name = Some base" "IsValidCacheKey base" "file_at w (Path old name) = Some n"
    "n_kind n = Regular" "\<forall>d. file_at w (Path new name) = Some d \<longrightarrow> n_kind d = Symlink \<and> \<not> resolves (Path new name)"
    "f_open io = None" "f_read io = None" by blast
  let ?aw = "atomic_write io perm600 (Path new (''.migrate-'' @ f_tmp io @ ''.tmp'')) (Path new name) (take maxPersistFileSize (n_data n)) w"
  have step: "migrate_entry resolves io old new name (m, w) =
    (case ?aw of (Some _, w') \<Rightarrow> (m, w') | (None, w') \<Rightarrow> (Suc m, os_Remove (Path old name) w'))"
    using b by (auto simp: migrate_entry_def openNoFollow_def atomicWriteFile_def Let_def split: option.splits prod.splits)
  show ?thesis
  proof (cases "fst ?aw")
    case None
    then obtain w' where aw: "?aw = (None, w')" by (cases ?aw) auto
    have "file_at w' = (file_at w)(Path new name \<mapsto> new_node io perm600 (take maxPersistFileSize (n_data n)))"
      using migrate_temp_neq [OF b(1,2)] aw by (rule atomic_write_ok)
    then show ?thesis using b step aw by (intro moved [of base n]) auto
  next
    case (Some e)
    then obtain w' where aw: "?aw = (Some e, w')" by (cases ?aw) auto
    then show ?thesis using atomic_write_error [OF aw] step by (intro same) simp
  qed
qed

definition migrated_from :: "(string \<Rightarrow> faults) \<Rightarrow> string \<Rightarrow> string \<Rightarrow> vfs \<Rightarrow> vfs \<Rightarrow> string \<Rightarrow> bool" where
  "migrated_from io old new w w' name \<longleftrightarrow>
     (\<exists>n. file_at w (Path old name) = Some n \<and> n_kind n = Regular \<and> file_at w' (Path old name) = None \<and>
          file_at w' (Path new name) = Some (new_node (io name) perm600 (take maxPersistFileSize (n_data n))))"

lemma migrated_fromI:
  "file_at w (Path old name) = Some n \<Longrightarrow> n_kind n = Regular \<Longrightarrow> file_at w' (Path old name) = None \<Longrightarrow>
   file_at w' (Path new name) = Some (new_node (io name) perm600 (take maxPersistFileSize (n_data n))) \<Longrightarrow>
   migrated_from io old new w w' name"
  by (simp add: migrated_from_def)

definition migration_inv :: "(path \<Rightarrow> bool) \<Rightarrow> (string \<Rightarrow> faults) \<Rightarrow> string \<Rightarrow> string \<Rightarrow> vfs \<Rightarrow> vfs \<Rightarrow> bool" where
  "migration_inv resolves io old new w w' \<longleftrightarrow>
     (\<forall>name. migrated_from io old new w w' name \<or>
        file_at w' (Path old name) = file_at w (Path old name) \<and> file_at w' (Path new name) = file_at w (Path new name)) \<and>
     (\<forall>name d. file_at w (Path new name) = Some d \<longrightarrow> n_kind d \<noteq> Symlink \<or> resolves (Path new name) \<longrightarrow>
        file_at w' (Path new name) = Some d) \<and>
     (\<forall>p. p_dir p \<noteq> old \<longrightarrow> p_dir p \<noteq> new \<longrightarrow> file_at w' p = file_at w p)"

lemma migration_invD:
  assumes "migration_inv resolves io old new w w'"
  shows "migrated_from io old new w w' name \<or>
      file_at w' (Path old name) = file_at w (Path old name) \<and> file_at w' (Path new name) = file_at w (Path new name)"
    "file_at w (Path new name) = Some d \<Longrightarrow> n_kind d \<noteq> Symlink \<or> resolves (Path new name) \<Longrightarrow> file_at w' (Path new name) = Some d"
    "p_dir p \<noteq> old \<Longrightarrow> p_dir p \<noteq> new \<Longrightarrow> file_at w' p = file_at w p"
  using assms unfolding migration_inv_def by blast+

lemma migration_inv_step:
  assumes "old \<noteq> new" "migration_inv resolves io old new w w'"
  shows "migration_inv resolves io old new w (snd (migrate_entry resolves (io name) old new name (m, w')))"
proof (cases rule: migrate_entry_cases [of resolves "io name" old new name m w'])
  case same
  then show ?thesis using assms(2) by (simp add: migration_inv_def migrated_from_def)
next
  case (moved n base)
  let ?w' = "snd (migrate_entry resolves (io name) old new name (m, w'))"
  have kept: "file_at w' (Path old name) = file_at w (Path old name)" "file_at w' (Path new name) = file_at w (Path new name)"
    using migration_invD(1) [OF assms(2), of name] moved(3) by (auto simp: migrated_from_def)
  have others: "file_at ?w' (Path d name') = file_at w' (Path d name')" if "name' \<noteq> name" for d name'
    using that by (simp add: moved(6))
  have "migrated_from io old new w ?w' name"
    using kept moved(3,4) assms(1) by (intro migrated_fromI [of _ _ _ n]) (simp_all add: moved(6))
  then have "migrated_from io old new w ?w' name' \<or>
     file_at ?w' (Path old name') = file_at w (Path old name') \<and> file_at ?w' (Path new name') = file_at w (Path new name')" for name'
    using migration_invD(1) [OF assms(2), of name'] others [of name'] by (cases "name' = name") (auto simp: migrated_from_def)
  moreover have "file_at ?w' (Path new name') = Some d"
    if "file_at w (Path new name') = Some d" "n_kind d \<noteq> Symlink \<or> resolves (Path new name')" for name' d
    using migration_invD(2) [OF assms(2) that] others [of name' new] that kept(2) moved(5) [of d]
    by (cases "name' = name") auto
  moreover have "file_at ?w' p = file_at w p" if "p_dir p \<noteq> old" "p_dir p \<noteq> new" for p
    using that migration_invD(3) [OF assms(2) that] by (auto simp: moved(6))
  ultimately show ?thesis unfolding migration_inv_def by blast
qed

lemma migration_inv_cong: "file_at w' = file_at w'' \<Longrightarrow> migration_inv resolves io old new w w' = migration_inv resolves io old new w w''"
  by (simp add: migration_inv_def migrated_from_def)

lemma migration_inv_fold:
  assumes "old \<noteq> new"
  shows "migration_inv resolves io old new w
    (snd (fold (\<lambda>(name, n). migrate_entry resolves (io name) old new name) es (m, w)))"
proof (induction es rule: rev_induct)
  case Nil
  show ?case by (simp add: migration_inv_def)
next
  case (snoc e es)
  obtain m' w' where st: "fold (\<lambda>(name, n). migrate_entry resolves (io name) old new name) es (m, w) = (m', w')"
    by (cases "fold (\<lambda>(name, n). migrate_entry resolves (io name) old new name) es (m, w)")
  then show ?case using migration_inv_step [OF assms, of resolves io w w' "fst e" m'] snoc
    by (cases e) simp
qed

text \<open>
  C23: migration loses no token and overwrites none.  For every name, either the legacy file moved,
  whole up to the size limit, into the new directory as a private flushed file, or both files of that
  name are as before; a file already in the new directory is never replaced (unless it is a dangling
  link), and no other directory is touched.
\<close>

theorem Migrate_preserves_tokens:
  "(migrated_from io old new w (MigrateTokensFromLegacyDir resolves io uid old new w) name \<or>
     file_at (MigrateTokensFromLegacyDir resolves io uid old new w) (Path old name) = file_at w (Path old name) \<and>
     file_at (MigrateTokensFromLegacyDir resolves io uid old new w) (Path new name) = file_at w (Path new name)) \<and>
   (case file_at w (Path new name) of
      Some d \<Rightarrow> file_at (MigrateTokensFromLegacyDir resolves io uid old new w) (Path new name) = Some d \<or>
                n_kind d = Symlink \<and> \<not> resolves (Path new name)
    | None \<Rightarrow> True) \<and>
   (p_dir p = old \<or> p_dir p = new \<or> file_at (MigrateTokensFromLegacyDir resolves io uid old new w) p = file_at w p)"
proof -
  have "migration_inv resolves io old new w (MigrateTokensFromLegacyDir resolves io uid old new w)"
  proof (cases "old = new")
    case True
    then show ?thesis by (simp add: MigrateTokensFromLegacyDir_def migration_inv_def)
  next
    case False
    have "vf_files (MigrateTokensFromLegacyDir resolves io uid old new w) = vf_files w \<or>
      vf_files (MigrateTokensFromLegacyDir resolves io uid old new w) =
        vf_files (snd (fold (\<lambda>(name, n). migrate_entry resolves (io name) old new name) (dir_entries old w) (0, w)))"
      by (auto simp: MigrateTokensFromLegacyDir_def Let_def split: option.split prod.split)
    then show ?thesis
    proof
      assume "vf_files (MigrateTokensFromLegacyDir resolves io uid old new w) = vf_files w"
      then show ?thesis by (simp add: migration_inv_def)
    next
      assume "vf_files (MigrateTokensFromLegacyDir resolves io uid old new w) =
        vf_files (snd (fold (\<lambda>(name, n). migrate_entry resolves (io name) old new name) (dir_entries old w) (0, w)))"
      from arg_cong [OF this, of map_of] show ?thesis
        by (rule iffD2 [OF migration_inv_cong migration_inv_fold [OF False]])
    qed
  qed
  note inv = migration_invD [OF this]
  show ?thesis
  proof (intro conjI)
    show "case file_at w (Path new name) of
      Some d \<Rightarrow> file_at (MigrateTokensFromLegacyDir resolves io uid old new w) (Path new name) = Some d \<or>
                n_kind d = Symlink \<and> \<not> resolves (Path new name)
    | None \<Rightarrow> True"
      using inv(2) [of name] by (cases "file_at w (Path new name)") auto
  qed (use inv(1) [of name] inv(3) [of p] in blast)+
qed

end
