(* ===== verification/TokenManager.thy ===== *)
theory TokenManager
  imports Refresher Persist "HOL-Library.Multiset"
begin

text \<open>
  The token manager of one cache key (\<open>pkg/daemon/token_manager.go\<close>): the current token, its
  refresh, the timers for the proactive refresh, its retries and the persist watchdog, and \<open>Stop\<close>.
  A timer is pending, fired or stopped; a fired timer's callback is a job that runs later.  What the outside
  contributes to a call (the clock, the provider, the file system's answers, randomness) is a record; the
  file system is passed along.  The interleavings of callbacks and callers are a step relation.
\<close>

section \<open>Data\<close>

fun IsPermanentRefreshError :: "go_error \<Rightarrow> bool" where
  "IsPermanentRefreshError (PermErr s) \<longleftrightarrow> True"
| "IsPermanentRefreshError (Wrap p e) \<longleftrightarrow> IsPermanentRefreshError e"
| "IsPermanentRefreshError (Err s) \<longleftrightarrow> False"

record tokenEntry =
  te_idToken :: string
  te_refreshToken :: string
  te_expiry :: gotime
  te_obtainedAt :: gotime

datatype job = JobProactive tokenEntry | JobRetry "64 word" duration | JobWatchdog

datatype timer_status = TPending | TFired | TStopped

record timer =
  tr_due :: gotime
  tr_status :: timer_status
  tr_job :: job

text \<open>
  \<open>refreshMargin\<close> is the fraction in units of \<open>2 ^ -52\<close>, which holds a double between one half and one
  exactly.
\<close>

record TokenManager =
  tm_current :: "tokenEntry option"
  tm_refresher :: OIDCRefresher
  tm_persistDir :: string
  tm_cacheKey :: string
  tm_lastAccess :: int
  tm_ctxDone :: bool
  tm_refreshMargin :: nat
  tm_minRefreshInterval :: duration
  tm_persistInterval :: duration
  tm_refreshTimer :: "timer option"
  tm_persistTimer :: "timer option"
  tm_retryCount :: "64 word"
  tm_stopped :: bool
  tm_callbackWg :: int

record call_env =
  ce_now :: gotime
  ce_fin :: gotime
  ce_refresh :: "bool \<Rightarrow> OIDCRefresher \<Rightarrow> string \<Rightarrow> go_error + (string \<times> string \<times> gotime)"
  ce_io :: faults
  ce_rand :: nat

definition default_margin :: nat where "default_margin = 3602879701896397"

definition NewTokenManager :: "gotime \<Rightarrow> OIDCRefresher \<Rightarrow> string \<Rightarrow> string \<Rightarrow> nat \<Rightarrow> duration \<Rightarrow> duration \<Rightarrow> TokenManager" where
  "NewTokenManager now refresher persistDir cacheKey margin minInterval persistInterval =
     \<lparr>tm_current = None, tm_refresher = refresher, tm_persistDir = persistDir, tm_cacheKey = cacheKey,
      tm_lastAccess = to_Unix now, tm_ctxDone = False,
      tm_refreshMargin = (if margin \<le> 0 \<or> margin \<ge> 2 ^ 52 then default_margin else margin),
      tm_minRefreshInterval = (if minInterval \<le> 0 then 10 * second else minInterval),
      tm_persistInterval = (if persistInterval \<le> 0 then 5 * minute else persistInterval),
      tm_refreshTimer = None, tm_persistTimer = None, tm_retryCount = 0, tm_stopped = False, tm_callbackWg = 0\<rparr>"

section \<open>Timers\<close>

definition pending :: "timer option \<Rightarrow> bool" where
  "pending t \<longleftrightarrow> (case t of None \<Rightarrow> False | Some x \<Rightarrow> tr_status x = TPending)"

text \<open>\<open>if t != nil { if t.Stop() { callbackWg.Done() } }\<close>: the timer after it and the counter.\<close>

definition stop_timer :: "timer option \<Rightarrow> int \<Rightarrow> timer option \<times> int" where
  "stop_timer t wg =
     (case t of
        None \<Rightarrow> (None, wg)
      | Some x \<Rightarrow> if tr_status x = TPending then (Some (x\<lparr>tr_status := TStopped\<rparr>), wg - 1) else (Some x, wg))"

definition AfterFunc :: "gotime \<Rightarrow> duration \<Rightarrow> job \<Rightarrow> timer" where
  "AfterFunc now d j = \<lparr>tr_due = now + d, tr_status = TPending, tr_job = j\<rparr>"

text \<open>
  \<open>float64\<close> arithmetic of \<open>time.Duration(float64(lifetime) * m.refreshMargin)\<close>: rounding to 53 bits,
  ties to even, of the lifetime and of the product.
\<close>

fun bit_len :: "nat \<Rightarrow> nat" where
  "bit_len n = (if n = 0 then 0 else Suc (bit_len (n div 2)))"

declare bit_len.simps [simp del]

definition round53 :: "nat \<Rightarrow> nat" where
  "round53 n =
     (let k = bit_len n in
      if k \<le> 53 then n
      else let p = 2 ^ (k - 53); lo = n div p; r = n mod p
           in (if 2 * r > p \<or> 2 * r = p \<and> odd lo then Suc lo else lo) * p)"

definition margin_delay :: "duration \<Rightarrow> nat \<Rightarrow> duration" where
  "margin_delay lifetime margin = int (round53 (round53 (nat lifetime) * margin) div 2 ^ 52)"

definition scheduleProactiveRefresh :: "gotime \<Rightarrow> tokenEntry \<Rightarrow> TokenManager \<Rightarrow> TokenManager" where
  "scheduleProactiveRefresh now entry m =
     (if tm_stopped m then m
      else
        let (t, wg) = stop_timer (tm_refreshTimer m) (tm_callbackWg m);
            m1 = m\<lparr>tm_refreshTimer := t, tm_callbackWg := wg\<rparr>;
            lifetime = time_Until now (te_expiry entry)
        in if lifetime \<le> 0 then m1
           else
             let delay0 = margin_delay lifetime (tm_refreshMargin m);
                 delay = (if delay0 < tm_minRefreshInterval m then tm_minRefreshInterval m else delay0)
             in m1\<lparr>tm_callbackWg := tm_callbackWg m1 + 1, tm_refreshTimer := Some (AfterFunc now delay (JobProactive entry))\<rparr>)"

definition retry_delay :: "64 word \<Rightarrow> nat \<Rightarrow> duration" where
  "retry_delay retryCount r =
     (let shift = retryCount - 1;
          shift = (if shift > 5 then 5 else shift);
          delay = second * 2 ^ unat shift;
          delay = (if delay > 30 * second then 30 * second else delay);
          jitter = int r mod (delay div 2)
      in delay div 2 + delay div 4 + jitter)"

definition scheduleRetry :: "gotime \<Rightarrow> nat \<Rightarrow> tokenEntry \<Rightarrow> TokenManager \<Rightarrow> TokenManager" where
  "scheduleRetry now r entry m =
     (if tm_stopped m then m
      else
        let (t, wg) = stop_timer (tm_refreshTimer m) (tm_callbackWg m);
            retryCount = tm_retryCount m + 1;
            m1 = m\<lparr>tm_refreshTimer := t, tm_callbackWg := wg, tm_retryCount := retryCount\<rparr>;
            remaining = time_Until now (te_expiry entry)
        in if remaining \<le> 0 then m1
           else
             let delay0 = retry_delay retryCount r;
                 delay = (if delay0 > remaining then remaining else delay0)
             in m1\<lparr>tm_callbackWg := tm_callbackWg m1 + 1, tm_refreshTimer := Some (AfterFunc now delay (JobRetry retryCount delay))\<rparr>)"

definition startPersistWatchdog :: "gotime \<Rightarrow> TokenManager \<Rightarrow> TokenManager" where
  "startPersistWatchdog now m =
     (if tm_stopped m then m
      else if tm_persistTimer m \<noteq> None then m
      else m\<lparr>tm_callbackWg := tm_callbackWg m + 1, tm_persistTimer := Some (AfterFunc now (tm_persistInterval m) JobWatchdog)\<rparr>)"

section \<open>Operations\<close>

definition SetInitialToken :: "gotime \<Rightarrow> string \<Rightarrow> string \<Rightarrow> gotime \<Rightarrow> TokenManager \<Rightarrow> TokenManager" where
  "SetInitialToken now idToken refreshToken expiry m =
     (let entry = \<lparr>te_idToken = idToken, te_refreshToken = refreshToken, te_expiry = expiry, te_obtainedAt = now\<rparr>
      in startPersistWatchdog now (scheduleProactiveRefresh now entry (m\<lparr>tm_current := Some entry\<rparr>)))"

definition GetToken :: "gotime \<Rightarrow> TokenManager \<Rightarrow> (string \<times> gotime) option \<times> TokenManager" where
  "GetToken now m =
     (case tm_current m of
        None \<Rightarrow> (None, m)
      | Some entry \<Rightarrow> (Some (te_idToken entry, te_expiry entry), m\<lparr>tm_lastAccess := to_Unix now\<rparr>))"

definition LastAccess :: "TokenManager \<Rightarrow> gotime" where
  "LastAccess m = (if tm_lastAccess m = 0 then 0 else time_Unix (tm_lastAccess m))"

definition SetRefresher :: "OIDCRefresher \<Rightarrow> TokenManager \<Rightarrow> TokenManager" where
  "SetRefresher r m = m\<lparr>tm_refresher := r\<rparr>"

definition HasToken :: "TokenManager \<Rightarrow> bool" where
  "HasToken m \<longleftrightarrow> tm_current m \<noteq> None"

definition IsExpired :: "gotime \<Rightarrow> TokenManager \<Rightarrow> bool" where
  "IsExpired now m \<longleftrightarrow> (case tm_current m of None \<Rightarrow> True | Some entry \<Rightarrow> now > te_expiry entry)"

definition CurrentRefreshToken :: "TokenManager \<Rightarrow> string" where
  "CurrentRefreshToken m = (case tm_current m of None \<Rightarrow> [] | Some entry \<Rightarrow> te_refreshToken entry)"

text \<open>The body \<open>singleflight\<close> runs once for all callers that wait for it.\<close>

definition TM_Refresh :: "call_env \<Rightarrow> TokenManager \<times> vfs \<Rightarrow> (go_error + (string \<times> gotime)) \<times> (TokenManager \<times> vfs)" where
  "TM_Refresh E s =
     (let (m, w) = s in
      case tm_current m of
        None \<Rightarrow> (Inl (Err ''no token to refresh''), s)
      | Some entry \<Rightarrow>
          if te_refreshToken entry = [] then (Inl (PermErr ''refresh token is empty, re-authentication required''), s)
          else
            (case ce_refresh E (tm_ctxDone m) (tm_refresher m) (te_refreshToken entry) of
               Inl e \<Rightarrow>
                 if contains (Error e) ''invalid_grant'' \<or> contains (Error e) ''token has been revoked''
                 then (Inl (PermErr (''refresh token revoked: '' @ Error e)), s)
                 else (Inl (Wrap ''refresh failed'' e), s)
             | Inr (newID, newRT, newExpiry) \<Rightarrow>
                 let newEntry = \<lparr>te_idToken = newID, te_refreshToken = newRT, te_expiry = newExpiry, te_obtainedAt = ce_fin E\<rparr>;
                     m1 = m\<lparr>tm_current := Some newEntry\<rparr>;
                     (pErr, w1) = PersistToken (ce_io E) (tm_persistDir m) (tm_cacheKey m) newID newRT w;
                     m2 = scheduleProactiveRefresh (ce_fin E) newEntry (m1\<lparr>tm_retryCount := 0\<rparr>)
                 in (Inr (newID, newExpiry), (m2, w1))))"

definition Stop :: "TokenManager \<Rightarrow> TokenManager" where
  "Stop m =
     (if tm_stopped m then m
      else
        let (t, wg) = stop_timer (tm_refreshTimer m) (tm_callbackWg m);
            (pt, wg') = stop_timer (tm_persistTimer m) wg
        in m\<lparr>tm_stopped := True, tm_ctxDone := True, tm_refreshTimer := t, tm_persistTimer := pt, tm_callbackWg := wg'\<rparr>)"

section \<open>Callbacks\<close>

definition refresh_callback :: "call_env \<Rightarrow> (TokenManager \<Rightarrow> tokenEntry option) \<Rightarrow> TokenManager \<times> vfs \<Rightarrow> TokenManager \<times> vfs" where
  "refresh_callback E retry_entry s =
     (if tm_ctxDone (fst s) then s
      else case TM_Refresh E s of
             (Inr _, s') \<Rightarrow> s'
           | (Inl err, (m, w)) \<Rightarrow>
               if IsPermanentRefreshError err then (m, w)
               else (case retry_entry m of
                       None \<Rightarrow> (m, w)
                     | Some entry \<Rightarrow> (scheduleRetry (ce_fin E) (ce_rand E) entry m, w)))"

definition watchdog_work :: "call_env \<Rightarrow> TokenManager \<times> vfs \<Rightarrow> TokenManager \<times> vfs" where
  "watchdog_work E s =
     (let (m, w) = s in
      if tm_ctxDone m then s
      else case tm_current m of
             None \<Rightarrow> s
           | Some entry \<Rightarrow>
               if te_idToken entry = [] \<and> te_refreshToken entry = [] then s
               else (m, snd (PersistToken (ce_io E) (tm_persistDir m) (tm_cacheKey m) (te_idToken entry) (te_refreshToken entry) w)))"

definition persistWatchdogCallback :: "call_env \<Rightarrow> TokenManager \<times> vfs \<Rightarrow> TokenManager \<times> vfs" where
  "persistWatchdogCallback E s =
     (let (m, w) = watchdog_work E s in
      if tm_stopped m \<or> tm_ctxDone m then (m, w)
      else (m\<lparr>tm_callbackWg := tm_callbackWg m + 1,
              tm_persistTimer := Some (AfterFunc (ce_fin E) (tm_persistInterval m) JobWatchdog)\<rparr>, w))"

text \<open>A job, with the \<open>callbackWg.Done()\<close> deferred by every callback.\<close>

definition run_job :: "call_env \<Rightarrow> job \<Rightarrow> TokenManager \<times> vfs \<Rightarrow> TokenManager \<times> vfs" where
  "run_job E j s =
     (let (m, w) =
        (case j of
           JobProactive entry \<Rightarrow> refresh_callback E (\<lambda>m. Some entry) s
         | JobRetry n d \<Rightarrow> refresh_callback E tm_current s
         | JobWatchdog \<Rightarrow> persistWatchdogCallback E s)
      in (m\<lparr>tm_callbackWg := tm_callbackWg m - 1\<rparr>, w))"


section \<open>Interleavings\<close>

text \<open>
  One manager with its goroutines: the jobs that have fired and not finished.  Callers and callbacks
  interleave at the granularity of whole operations.
\<close>

record tm_sys =
  ts_m :: TokenManager
  ts_w :: vfs
  ts_running :: "job list"

definition fire :: "timer \<Rightarrow> timer" where "fire t = t\<lparr>tr_status := TFired\<rparr>"

inductive tm_step :: "tm_sys \<Rightarrow> tm_sys \<Rightarrow> bool" where
  set_initial: "tm_step s (s\<lparr>ts_m := SetInitialToken now i rt e (ts_m s)\<rparr>)"
| get: "tm_step s (s\<lparr>ts_m := snd (GetToken now (ts_m s))\<rparr>)"
| set_refresher: "tm_step s (s\<lparr>ts_m := SetRefresher r (ts_m s)\<rparr>)"
| refresh: "tm_step s (s\<lparr>ts_m := m, ts_w := w\<rparr>)"
    if "snd (TM_Refresh E (ts_m s, ts_w s)) = (m, w)"
| fire_refresh: "tm_step s (s\<lparr>ts_m := (ts_m s)\<lparr>tm_refreshTimer := Some (fire t)\<rparr>, ts_running := tr_job t # ts_running s\<rparr>)"
    if "tm_refreshTimer (ts_m s) = Some t" "tr_status t = TPending"
| fire_persist: "tm_step s (s\<lparr>ts_m := (ts_m s)\<lparr>tm_persistTimer := Some (fire t)\<rparr>, ts_running := tr_job t # ts_running s\<rparr>)"
    if "tm_persistTimer (ts_m s) = Some t" "tr_status t = TPending"
| run: "tm_step s (s\<lparr>ts_m := m, ts_w := w, ts_running := xs @ ys\<rparr>)"
    if "ts_running s = xs @ j # ys" "run_job E j (ts_m s, ts_w s) = (m, w)"
| stop: "tm_step s (s\<lparr>ts_m := Stop (ts_m s)\<rparr>)"

inductive tm_reach :: "tm_sys \<Rightarrow> bool" where
  new: "tm_reach \<lparr>ts_m = NewTokenManager now r dir k mg mi pi, ts_w = w, ts_running = []\<rparr>"
| step: "tm_reach s \<Longrightarrow> tm_step s s' \<Longrightarrow> tm_reach s'"

definition n_pending :: "timer option \<Rightarrow> int" where
  "n_pending t = (if pending t then 1 else 0)"

definition is_refresh_job :: "job \<Rightarrow> bool" where
  "is_refresh_job j \<longleftrightarrow> j \<noteq> JobWatchdog"

definition timer_job :: "timer option \<Rightarrow> job option" where
  "timer_job t = map_option tr_job t"

text \<open>
  The invariant of the wait group and of the watchdog: the counter is the number of callbacks that
  are pending or running; a stopped manager has no pending timer; and there is exactly one watchdog once
  it was started and until \<open>Stop\<close>.
\<close>

definition watchdogs :: "TokenManager \<Rightarrow> job list \<Rightarrow> int" where
  "watchdogs m js = n_pending (tm_persistTimer m) + int (length (filter (\<lambda>j. j = JobWatchdog) js))"

definition tm_inv :: "TokenManager \<Rightarrow> job list \<Rightarrow> bool" where
  "tm_inv m js \<longleftrightarrow>
     tm_callbackWg m = n_pending (tm_refreshTimer m) + n_pending (tm_persistTimer m) + int (length js) \<and>
     (tm_stopped m \<longleftrightarrow> tm_ctxDone m) \<and>
     (tm_stopped m \<longrightarrow> \<not> pending (tm_refreshTimer m) \<and> \<not> pending (tm_persistTimer m)) \<and>
     timer_job (tm_refreshTimer m) \<noteq> Some JobWatchdog \<and>
     timer_job (tm_persistTimer m) \<in> {None, Some JobWatchdog} \<and>
     (\<not> tm_stopped m \<longrightarrow> watchdogs m js = (if tm_persistTimer m = None then 0 else 1)) \<and>
     (tm_current m \<noteq> None \<and> \<not> tm_stopped m \<longrightarrow> tm_persistTimer m \<noteq> None)"

lemma pending_simps [simp]: "\<not> pending None" "pending (Some (AfterFunc now d j))" "\<not> pending (Some (fire t))"
  "n_pending None = 0" "n_pending (Some (AfterFunc now d j)) = 1" "n_pending (Some (fire t)) = 0"
  by (simp_all add: pending_def AfterFunc_def fire_def n_pending_def)

lemma timer_job_simps [simp]: "timer_job None = None" "timer_job (Some (AfterFunc now d j)) = Some j" "timer_job (Some (fire t)) = timer_job (Some t)"
  by (simp_all add: timer_job_def AfterFunc_def fire_def)

definition stopped_timer :: "timer option \<Rightarrow> timer option" where
  "stopped_timer t = map_option (\<lambda>x. if tr_status x = TPending then x\<lparr>tr_status := TStopped\<rparr> else x) t"

lemma stop_timer_eq [simp]: "stop_timer t wg = (stopped_timer t, wg - n_pending t)"
  by (cases t) (auto simp: stop_timer_def stopped_timer_def n_pending_def pending_def)

lemma stopped_timer_simps [simp]: "\<not> pending (stopped_timer t)" "n_pending (stopped_timer t) = 0"
  "stopped_timer t = None \<longleftrightarrow> t = None" "timer_job (stopped_timer t) = timer_job t"
  by (cases t; auto simp: stopped_timer_def n_pending_def pending_def timer_job_def)+

lemma inv_schedule:
  assumes "tm_inv m js"
  shows "tm_inv (scheduleProactiveRefresh now entry m) js" "tm_inv (scheduleRetry now r entry m) js"
  using assms by (auto simp: tm_inv_def scheduleProactiveRefresh_def scheduleRetry_def Let_def watchdogs_def)

lemma inv_current: "tm_inv m js \<Longrightarrow> tm_current m \<noteq> None \<Longrightarrow> tm_inv (m\<lparr>tm_current := c\<rparr>) js"
  by (auto simp: tm_inv_def watchdogs_def)

lemma inv_retryCount: "tm_inv m js \<Longrightarrow> tm_inv (m\<lparr>tm_retryCount := n\<rparr>) js"
  by (auto simp: tm_inv_def watchdogs_def)

lemma inv_Refresh: "tm_inv m js \<Longrightarrow> tm_inv (fst (snd (TM_Refresh E (m, w)))) js"
  by (auto simp: TM_Refresh_def Let_def split: option.split sum.split prod.split intro!: inv_schedule inv_retryCount inv_current)

text \<open>A retry is scheduled only from a callback that found the manager alive.\<close>

lemma inv_refresh_callback: "tm_inv m js \<Longrightarrow> tm_inv (fst (refresh_callback E re (m, w))) js"
  using inv_Refresh [of m js E w]
  by (auto simp: refresh_callback_def split: prod.split sum.split option.split intro: inv_schedule)

lemma inv_done:
  assumes "tm_inv m (xs @ j # ys)" "is_refresh_job j"
  shows "tm_inv (m\<lparr>tm_callbackWg := tm_callbackWg m - 1\<rparr>) (xs @ ys)"
  using assms by (auto simp: tm_inv_def watchdogs_def is_refresh_job_def)

lemma watchdog_work_m [simp]: "fst (watchdog_work E (m, w)) = m"
  by (auto simp: watchdog_work_def split: option.split)

lemma inv_watchdog:
  assumes "tm_inv m (xs @ JobWatchdog # ys)" "persistWatchdogCallback E (m, w) = (m', w')"
  shows "tm_inv (m'\<lparr>tm_callbackWg := tm_callbackWg m' - 1\<rparr>) (xs @ ys)"
proof -
  obtain w1 where w1: "watchdog_work E (m, w) = (m, w1)" by (metis watchdog_work_m prod.collapse)
  show ?thesis using assms
    by (cases "pending (tm_persistTimer m)")
       (auto simp: tm_inv_def watchdogs_def persistWatchdogCallback_def w1 n_pending_def split: if_splits)
qed

lemma inv_run_job:
  assumes "tm_inv m (xs @ j # ys)" "run_job E j (m, w) = (m', w')"
  shows "tm_inv m' (xs @ ys)"
proof (cases j)
  case JobWatchdog
  then show ?thesis using assms inv_watchdog [of m xs ys E w]
    by (cases "persistWatchdogCallback E (m, w)") (auto simp: run_job_def)
next
  case (JobProactive e)
  then show ?thesis using assms inv_refresh_callback [of m _ E "\<lambda>m. Some e" w] inv_done [of _ xs j ys]
    by (cases "refresh_callback E (\<lambda>m. Some e) (m, w)") (fastforce simp: run_job_def is_refresh_job_def)
next
  case (JobRetry n d)
  then show ?thesis using assms inv_refresh_callback [of m _ E tm_current w] inv_done [of _ xs j ys]
    by (cases "refresh_callback E tm_current (m, w)") (fastforce simp: run_job_def is_refresh_job_def)
qed

lemma inv_SetInitialToken:
  assumes "tm_inv m js"
  shows "tm_inv (SetInitialToken now i rt e m) js"
  using assms
  by (auto simp: tm_inv_def SetInitialToken_def startPersistWatchdog_def scheduleProactiveRefresh_def Let_def watchdogs_def)

lemma inv_Stop: "tm_inv m js \<Longrightarrow> tm_inv (Stop m) js"
  by (auto simp: tm_inv_def Stop_def watchdogs_def)

lemma inv_step: "tm_step s s' \<Longrightarrow> tm_inv (ts_m s) (ts_running s) \<Longrightarrow> tm_inv (ts_m s') (ts_running s')"
proof (induction rule: tm_step.induct)
  case (set_initial s now i rt e)
  then show ?case by (simp add: inv_SetInitialToken)
next
  case (get s now)
  then show ?case by (auto simp: GetToken_def tm_inv_def watchdogs_def split: option.split)
next
  case (set_refresher s r)
  then show ?case by (auto simp: SetRefresher_def tm_inv_def watchdogs_def)
next
  case (refresh E s m w)
  then show ?case using inv_Refresh [of "ts_m s" "ts_running s" E "ts_w s"] by simp
next
  case (fire_refresh s t)
  then show ?case by (auto simp: tm_inv_def watchdogs_def n_pending_def pending_def fire_def timer_job_def)
next
  case (fire_persist s t)
  then show ?case by (auto simp: tm_inv_def watchdogs_def n_pending_def pending_def fire_def timer_job_def)
next
  case (run s xs j ys E m w)
  then show ?case using inv_run_job by auto
next
  case (stop s)
  then show ?case by (simp add: inv_Stop)
qed


lemma inv_new: "tm_inv (NewTokenManager now r dir k mg mi pi) []"
  by (simp add: tm_inv_def NewTokenManager_def watchdogs_def)

lemma reach_inv: "tm_reach s \<Longrightarrow> tm_inv (ts_m s) (ts_running s)"
  by (induction rule: tm_reach.induct) (auto intro: inv_new inv_step)

section \<open>Properties\<close>

text \<open>
  C14: the wait group counts exactly the callbacks that are pending or running, in every interleaving
  of callers, timers and callbacks.  So \<open>Done\<close> never drives it below zero (which panics), no slot leaks, and
  \<open>Stop\<close> waits for the running callbacks and for nothing else.
\<close>

theorem callbackWg_exact:
  assumes "tm_reach s"
  shows "tm_callbackWg (ts_m s) =
      n_pending (tm_refreshTimer (ts_m s)) + n_pending (tm_persistTimer (ts_m s)) + int (length (ts_running s)) \<and>
    0 \<le> tm_callbackWg (ts_m s) \<and>
    tm_callbackWg (Stop (ts_m s)) = int (length (ts_running s))"
proof -
  note i = reach_inv [OF assms]
  have "tm_callbackWg m = int (length js)" if "tm_inv m js" "tm_stopped m" for m js
    using that by (auto simp: tm_inv_def n_pending_def)
  from this [OF inv_Stop [OF i]] have "tm_callbackWg (Stop (ts_m s)) = int (length (ts_running s))"
    by (simp add: Stop_def)
  then show ?thesis using i by (auto simp: tm_inv_def n_pending_def)
qed

definition demo_manager :: "TokenManager" where
  "demo_manager = SetInitialToken 100 ''i'' ''r'' (100 + 3600 * second)
     (NewTokenManager 100 demo_refresher ''/d'' ''ab'' 0 0 0)"

lemma demo_reach: "tm_reach \<lparr>ts_m = demo_manager, ts_w = one_dir, ts_running = []\<rparr>"
proof -
  let ?s = "\<lparr>ts_m = NewTokenManager 100 demo_refresher ''/d'' ''ab'' 0 0 0, ts_w = one_dir, ts_running = []\<rparr>"
  have "tm_reach (?s\<lparr>ts_m := SetInitialToken 100 ''i'' ''r'' (100 + 3600 * second) (ts_m ?s)\<rparr>)"
    by (rule tm_reach.step [OF tm_reach.new tm_step.set_initial])
  then show ?thesis by (simp add: demo_manager_def)
qed

theorem callbackWg_exact_witness: "tm_callbackWg demo_manager = 2 \<and> tm_callbackWg (Stop demo_manager) = 0"
proof -
  have "pending (tm_refreshTimer demo_manager)" "pending (tm_persistTimer demo_manager)"
    by (simp_all add: demo_manager_def SetInitialToken_def startPersistWatchdog_def scheduleProactiveRefresh_def
        NewTokenManager_def Let_def time_Sub_def max_duration_def min_duration_def second_def)
  then show ?thesis using callbackWg_exact [OF demo_reach] by (simp add: n_pending_def)
qed

lemma stopped_job:
  assumes "tm_stopped m" "tm_ctxDone m"
  shows "run_job E j (m, w) = (m\<lparr>tm_callbackWg := tm_callbackWg m - 1\<rparr>, w)"
  using assms by (cases j) (simp_all add: run_job_def refresh_callback_def persistWatchdogCallback_def watchdog_work_def)

definition drain :: "(call_env \<times> job) list \<Rightarrow> TokenManager \<times> vfs \<Rightarrow> TokenManager \<times> vfs" where
  "drain js s = fold (\<lambda>(E, j). run_job E j) js s"

lemma drain_stopped:
  assumes "tm_stopped m" "tm_ctxDone m"
  shows "drain js (m, w) = (m\<lparr>tm_callbackWg := tm_callbackWg m - int (length js)\<rparr>, w)"
  using assms
proof (induction js arbitrary: m)
  case Nil
  show ?case by (simp add: drain_def)
next
  case (Cons p js)
  then show ?case using Cons.IH [of "m\<lparr>tm_callbackWg := tm_callbackWg m - 1\<rparr>"]
    by (cases p) (simp add: drain_def stopped_job)
qed

text \<open>
  Callbacks that begin after \<open>Stop\<close> end at once: in any order and whatever the provider and disk would do, they neither refresh nor persist nor
  schedule anything, and bring the wait group to zero; no timer is left.
\<close>

theorem Stop_drains:
  assumes "tm_reach s" and "mset (map snd js) = mset (ts_running s)"
  shows "\<exists>m'. drain js (Stop (ts_m s), ts_w s) = (m', ts_w s) \<and> tm_callbackWg m' = 0 \<and>
    tm_current m' = tm_current (ts_m s) \<and> \<not> pending (tm_refreshTimer m') \<and> \<not> pending (tm_persistTimer m')"
proof -
  let ?m = "Stop (ts_m s)"
  have inv: "tm_inv ?m (ts_running s)" by (rule inv_Stop [OF reach_inv [OF assms(1)]])
  have st: "tm_stopped ?m" by (simp add: Stop_def)
  have ctx: "tm_ctxDone ?m" using inv st by (simp add: tm_inv_def)
  have len: "length js = length (ts_running s)" by (metis assms(2) length_map size_mset)
  have wg: "tm_callbackWg ?m = int (length (ts_running s))" using inv st by (auto simp: tm_inv_def n_pending_def)
  have "tm_current ?m = tm_current (ts_m s)" by (simp add: Stop_def)
  moreover have "\<not> pending (tm_refreshTimer ?m)" "\<not> pending (tm_persistTimer ?m)" using inv st by (simp_all add: tm_inv_def)
  ultimately show ?thesis using drain_stopped [OF st ctx, of js "ts_w s"] len wg by simp
qed

theorem Stop_drains_witness:
  "\<exists>m'. drain [] (Stop demo_manager, one_dir) = (m', one_dir) \<and> tm_callbackWg m' = 0 \<and>
    tm_current m' = tm_current demo_manager \<and> \<not> pending (tm_refreshTimer m') \<and> \<not> pending (tm_persistTimer m')"
  using Stop_drains [OF demo_reach, of "[]"] by simp

text \<open>
  The persist watchdog never dies.  As long as a manager that has a token is not stopped, exactly
  one watchdog callback is pending or running.
\<close>

theorem watchdog_alive:
  assumes "tm_reach s" and "HasToken (ts_m s)" and "\<not> tm_stopped (ts_m s)"
  shows "pending (tm_persistTimer (ts_m s)) \<and> JobWatchdog \<notin> set (ts_running s) \<or>
    \<not> pending (tm_persistTimer (ts_m s)) \<and> length (filter (\<lambda>j. j = JobWatchdog) (ts_running s)) = 1"
proof -
  have "watchdogs (ts_m s) (ts_running s) = 1"
    using reach_inv [OF assms(1)] assms(2,3) by (auto simp: tm_inv_def HasToken_def)
  then show ?thesis by (auto simp: watchdogs_def n_pending_def filter_empty_conv split: if_splits)
qed

theorem watchdog_alive_witness: "pending (tm_persistTimer demo_manager)"
proof -
  have "HasToken demo_manager" "\<not> tm_stopped demo_manager"
    by (simp_all add: HasToken_def demo_manager_def SetInitialToken_def startPersistWatchdog_def scheduleProactiveRefresh_def
        NewTokenManager_def Let_def)
  then show ?thesis using watchdog_alive [OF demo_reach] by simp
qed


subsection \<open>Refresh\<close>

text \<open>
  What a refresh does, on every branch.  A failure changes neither the token nor the disk, and it is
  permanent exactly when the refresh token is empty or the provider reports it as revoked.  A success
  installs the new token, resets the retry counter, and, if the token is still to expire and the manager is
  not stopped, schedules the next refresh, and the disk is what \<open>PersistToken\<close> makes of it.
\<close>

theorem TM_Refresh_spec:
  "case TM_Refresh E (m, w) of
     (Inl err, s') \<Rightarrow> s' = (m, w) \<and>
       (IsPermanentRefreshError err \<longleftrightarrow>
          tm_current m \<noteq> None \<and>
          (CurrentRefreshToken m = [] \<or>
           (\<exists>e. ce_refresh E (tm_ctxDone m) (tm_refresher m) (CurrentRefreshToken m) = Inl e \<and>
              (contains (Error e) ''invalid_grant'' \<or> contains (Error e) ''token has been revoked'' \<or> IsPermanentRefreshError e))))
   | (Inr (tok, expiry), (m', w')) \<Rightarrow>
       (\<exists>rt. ce_refresh E (tm_ctxDone m) (tm_refresher m) (CurrentRefreshToken m) = Inr (tok, rt, expiry) \<and>
          tm_current m' = Some \<lparr>te_idToken = tok, te_refreshToken = rt, te_expiry = expiry, te_obtainedAt = ce_fin E\<rparr> \<and>
          w' = snd (PersistToken (ce_io E) (tm_persistDir m) (tm_cacheKey m) tok rt w)) \<and>
       tm_retryCount m' = 0 \<and>
       pending (tm_refreshTimer m') = (\<not> tm_stopped m \<and> time_Until (ce_fin E) expiry > 0 \<or> tm_stopped m \<and> pending (tm_refreshTimer m))"
  by (auto simp: TM_Refresh_def CurrentRefreshToken_def scheduleProactiveRefresh_def Let_def split: option.split sum.split prod.split)

lemma Refresh_keeps:
  assumes "refresher_iface (ce_refresh E)" "CurrentRefreshToken m \<noteq> []"
  shows "CurrentRefreshToken (fst (snd (TM_Refresh E (m, w)))) \<noteq> []"
  using assms(2) refresher_iface.keeps_refresh_token [OF assms(1)]
  by (auto simp: TM_Refresh_def CurrentRefreshToken_def scheduleProactiveRefresh_def Let_def split: option.splits sum.splits prod.splits if_splits)

lemma scheduleRetry_current [simp]: "tm_current (scheduleRetry now r entry m) = tm_current m"
  by (simp add: scheduleRetry_def Let_def)

lemma refresh_callback_keeps:
  assumes "refresher_iface (ce_refresh E)" "CurrentRefreshToken m \<noteq> []"
  shows "CurrentRefreshToken (fst (refresh_callback E re (m, w))) \<noteq> []"
  using assms(2) Refresh_keeps [OF assms, of w]
  by (auto simp: refresh_callback_def CurrentRefreshToken_def split: prod.splits sum.splits option.splits)

lemma watchdog_current: "tm_current (fst (persistWatchdogCallback E (m, w))) = tm_current m"
  by (simp add: persistWatchdogCallback_def case_prod_beta)

lemma CurrentRefreshToken_wg [simp]: "CurrentRefreshToken (m\<lparr>tm_callbackWg := n\<rparr>) = CurrentRefreshToken m"
  by (simp add: CurrentRefreshToken_def)

lemma run_job_keeps:
  assumes "refresher_iface (ce_refresh E)" "CurrentRefreshToken m \<noteq> []"
  shows "CurrentRefreshToken (fst (run_job E j (m, w))) \<noteq> []"
proof (cases j)
  case JobWatchdog
  then show ?thesis using assms(2) watchdog_current [of E m w] by (simp add: run_job_def case_prod_beta CurrentRefreshToken_def)
qed (simp_all add: run_job_def case_prod_beta refresh_callback_keeps [OF assms])

text \<open>
  No refresh or callback loses the session.  With the daemon's own refresher, a manager that holds
  a refresh token still holds one after any sequence of refreshes and timer callbacks, whether they succeed
  or fail.
\<close>

theorem session_kept:
  assumes "CurrentRefreshToken m \<noteq> []"
  shows "CurrentRefreshToken (fst (fold (\<lambda>(E, j). case j of
        None \<Rightarrow> (\<lambda>s. snd (TM_Refresh (E\<lparr>ce_refresh := OIDCRefresher_Refresh (W E)\<rparr>) s))
      | Some job \<Rightarrow> run_job (E\<lparr>ce_refresh := OIDCRefresher_Refresh (W E)\<rparr>) job) evs (m, w))) \<noteq> []"
  using assms
proof (induction evs arbitrary: m w)
  case Nil
  then show ?case by simp
next
  case (Cons ev evs)
  obtain E j where ev: "ev = (E, j)" by (cases ev)
  let ?E = "E\<lparr>ce_refresh := OIDCRefresher_Refresh (W E)\<rparr>"
  have iface: "refresher_iface (ce_refresh ?E)" by (simp add: orf.refresher_iface_axioms)
  have "CurrentRefreshToken (fst (run_job ?E job (m, w))) \<noteq> []" for job
    using iface Cons.prems by (rule run_job_keeps)
  moreover have "CurrentRefreshToken (fst (snd (TM_Refresh ?E (m, w)))) \<noteq> []"
    using iface Cons.prems by (rule Refresh_keeps)
  ultimately show ?case using Cons.IH [of "fst (snd (TM_Refresh ?E (m, w)))" "snd (snd (TM_Refresh ?E (m, w)))"]
    Cons.IH [of "fst (run_job ?E (the j) (m, w))" "snd (run_job ?E (the j) (m, w))"]
    by (cases j) (simp_all add: ev)
qed


theorem session_kept_witness:
  "CurrentRefreshToken (fst (fold (\<lambda>(E, j). case j of
        None \<Rightarrow> (\<lambda>s. snd (TM_Refresh (E\<lparr>ce_refresh := OIDCRefresher_Refresh (demo_world ''x'')\<rparr>) s))
      | Some job \<Rightarrow> run_job (E\<lparr>ce_refresh := OIDCRefresher_Refresh (demo_world ''x'')\<rparr>) job)
      [(\<lparr>ce_now = 100, ce_fin = 200, ce_refresh = \<lambda>_ _ _. Inl (Err []), ce_io = no_faults ''1'', ce_rand = 0\<rparr>, None)]
      (demo_manager, one_dir))) \<noteq> []"
proof -
  have "CurrentRefreshToken demo_manager = ''r''"
    by (simp add: CurrentRefreshToken_def demo_manager_def SetInitialToken_def startPersistWatchdog_def scheduleProactiveRefresh_def Let_def)
  then show ?thesis by (intro session_kept) simp
qed

subsection \<open>Delays\<close>

lemma bit_len_bounds: "n < 2 ^ bit_len n \<and> (n = 0 \<or> 2 ^ (bit_len n - 1) \<le> n)"
proof (induction n rule: bit_len.induct)
  case (1 n)
  show ?case
  proof (cases "n = 0")
    case True
    then show ?thesis by simp
  next
    case False
    then have k: "bit_len n = Suc (bit_len (n div 2))" by (simp add: bit_len.simps [of n])
    note IH = 1 [OF False]
    have "n div 2 = 0 \<or> bit_len (n div 2) = Suc (bit_len (n div 2) - 1)" by (auto simp: bit_len.simps [of "n div 2"])
    then show ?thesis using IH False unfolding k
      by (auto simp: bit_len.simps [of 0]) (metis div_le_dividend less_eq_div_iff_mult_less_eq mult.commute power_Suc zero_less_numeral)
  qed
qed

lemma round53_near: "2 ^ 53 * round53 n \<le> (2 ^ 53 + 1) * n" "(2 ^ 53 - 1) * n \<le> 2 ^ 53 * round53 n"
proof -
  have "2 ^ 53 * round53 n \<le> (2 ^ 53 + 1) * n \<and> (2 ^ 53 - 1) * n \<le> 2 ^ 53 * round53 n"
  proof (cases "bit_len n \<le> 53")
    case True
    then show ?thesis by (simp add: round53_def)
  next
    case False
    define p where "p = (2::nat) ^ (bit_len n - 53)"
    define lo where "lo = n div p"
    define r where "r = n mod p"
    have n: "n = lo * p + r" "r < p" by (simp add: lo_def r_def) (simp add: r_def p_def)
    have "bit_len 0 \<le> 53" by (subst bit_len.simps) simp
    then have "n \<noteq> 0" using False by (intro notI) simp
    then have "2 ^ (bit_len n - 1) \<le> n" using bit_len_bounds [of n] by simp
    moreover have "bit_len n - 1 = bit_len n - 53 + 52" using False by simp
    then have "2 ^ (bit_len n - 1) = p * 2 ^ 52" unfolding p_def by (simp only: power_add)
    ultimately have big: "p * 2 ^ 52 \<le> n" by simp
    have "round53 n = (if 2 * r > p \<or> 2 * r = p \<and> odd lo then Suc lo else lo) * p"
      using False by (simp add: round53_def Let_def p_def lo_def r_def)
    then consider "round53 n = lo * p" "2 * r \<le> p" | "round53 n = lo * p + p" "p \<le> 2 * r"
      by (fastforce split: if_splits)
    then show ?thesis using n big by cases simp_all
  qed
  then show "2 ^ 53 * round53 n \<le> (2 ^ 53 + 1) * n" "(2 ^ 53 - 1) * n \<le> 2 ^ 53 * round53 n" by auto
qed

lemma margin_delay_bounds:
  assumes "0 \<le> l"
  shows "100 * margin_delay l default_margin \<le> 81 * l" "79 * l \<le> 100 * (margin_delay l default_margin + 1)"
proof -
  define a where "a = round53 (nat l)"
  define b where "b = round53 (a * default_margin)"
  have a: "2 ^ 53 * a \<le> (2 ^ 53 + 1) * nat l" "(2 ^ 53 - 1) * nat l \<le> 2 ^ 53 * a"
    unfolding a_def by (rule round53_near)+
  have b: "2 ^ 53 * b \<le> (2 ^ 53 + 1) * (a * default_margin)" "(2 ^ 53 - 1) * (a * default_margin) \<le> 2 ^ 53 * b"
    unfolding b_def by (rule round53_near)+
  define q where "q = b div 2 ^ 52"
  have d: "margin_delay l default_margin = int q"
    by (simp add: margin_delay_def a_def b_def q_def)
  have up: "100 * q \<le> 81 * nat l" and lo: "79 * nat l \<le> 100 * (q + 1)"
    using a b unfolding q_def by (simp_all add: default_margin_def)
  have "int (100 * q) \<le> int (81 * nat l)" using up by (rule of_nat_mono)
  moreover have "int (79 * nat l) \<le> int (100 * (q + 1))" using lo by (rule of_nat_mono)
  ultimately show "100 * margin_delay l default_margin \<le> 81 * l" "79 * l \<le> 100 * (margin_delay l default_margin + 1)"
    using assms by (simp_all add: d)
qed


lemma time_Until_exact: "now \<le> t \<Longrightarrow> t - now \<le> max_duration \<Longrightarrow> time_Until now t = t - now"
  by (simp add: time_Sub_def max_duration_def min_duration_def)

text \<open>
  C18: when the proactive refresh is due.  For a token that lives longer than the minimum interval of
  10 seconds, the refresh is due before the token expires and not before 79 percent of its remaining
  life; for one that lives shorter, the minimum interval pushes it past the expiry.
\<close>

theorem proactive_refresh_window:
  assumes "\<not> tm_stopped m" and "tm_refreshMargin m = default_margin" and "tm_minRefreshInterval m = 10 * second"
    and "now < te_expiry entry" and "te_expiry entry - now \<le> max_duration"
  shows "\<exists>t. tm_refreshTimer (scheduleProactiveRefresh now entry m) = Some t \<and> tr_status t = TPending \<and>
    tr_job t = JobProactive entry \<and> 79 * (te_expiry entry - now) \<le> 100 * (tr_due t - now + 1) \<and>
    (10 * second < te_expiry entry - now \<longrightarrow> tr_due t < te_expiry entry) \<and>
    (te_expiry entry - now < 10 * second \<longrightarrow> te_expiry entry < tr_due t)"
proof -
  let ?l = "te_expiry entry - now"
  have l: "time_Until now (te_expiry entry) = ?l" using assms(4,5) by (simp add: time_Until_exact)
  have b: "100 * margin_delay ?l default_margin \<le> 81 * ?l" "79 * ?l \<le> 100 * (margin_delay ?l default_margin + 1)"
    using margin_delay_bounds [of ?l] assms(4) by simp_all
  show ?thesis using assms(1-4) b
    by (auto simp: scheduleProactiveRefresh_def l Let_def AfterFunc_def)
qed

theorem proactive_refresh_window_witness:
  "\<exists>t. tm_refreshTimer demo_manager = Some t \<and> tr_due t < 100 + 3600 * second"
proof -
  let ?m = "(NewTokenManager 100 demo_refresher ''/d'' ''ab'' 0 0 0)\<lparr>tm_current := Some
     \<lparr>te_idToken = ''i'', te_refreshToken = ''r'', te_expiry = 100 + 3600 * second, te_obtainedAt = 100\<rparr>\<rparr>"
  let ?e = "\<lparr>te_idToken = ''i'', te_refreshToken = ''r'', te_expiry = 100 + 3600 * second, te_obtainedAt = 100\<rparr>"
  have "tm_refreshTimer demo_manager = tm_refreshTimer (scheduleProactiveRefresh 100 ?e ?m)"
    by (simp add: demo_manager_def SetInitialToken_def startPersistWatchdog_def Let_def)
  moreover have "\<exists>t. tm_refreshTimer (scheduleProactiveRefresh 100 ?e ?m) = Some t \<and> tr_status t = TPending \<and>
    tr_job t = JobProactive ?e \<and> 79 * (te_expiry ?e - 100) \<le> 100 * (tr_due t - 100 + 1) \<and>
    (10 * second < te_expiry ?e - 100 \<longrightarrow> tr_due t < te_expiry ?e) \<and> (te_expiry ?e - 100 < 10 * second \<longrightarrow> te_expiry ?e < tr_due t)"
    by (rule proactive_refresh_window) (simp_all add: NewTokenManager_def max_duration_def second_def)
  ultimately show ?thesis by (auto simp: second_def)
qed

lemma retry_shift: "(if n - 1 > (5::64 word) then 5 else n - 1) \<le> 5"
  by (simp add: not_less)

lemma retry_delay_cases:
  obtains k where "k \<le> 5" "k = unat (if n - 1 > 5 then 5 else n - 1 :: 64 word)"
    "retry_delay n r = (let d = min (second * 2 ^ k) (30 * second) in d div 2 + d div 4 + int r mod (d div 2))"
proof -
  let ?s = "if n - 1 > 5 then 5 else n - 1 :: 64 word"
  have "unat ?s \<le> unat (5 :: 64 word)" using retry_shift [of n] by (simp only: word_le_nat_alt)
  then have "unat ?s \<le> 5" by simp
  then show ?thesis by (intro that [of "unat ?s"]) (auto simp: retry_delay_def Let_def min_def)
qed

text \<open>
  The backoff of retries.  For every value of the retry counter, also after it wrapped around, and
  every random number, the delay lies between three quarters and five quarters of \<open>min (2 ^ k) 30\<close> seconds with
  \<open>k\<close> at most 5: at least 0.75 seconds, and up to (not including) 37.5 seconds.  A scheduled retry is never
  due after the token's expiry.
\<close>

theorem retry_backoff:
  "(\<exists>k. k \<le> 5 \<and> (unat n \<in> {1..6} \<longrightarrow> k = unat n - 1) \<and>
      3 * (second * min (2 ^ k) 30) \<le> 4 * retry_delay n r \<and> 4 * retry_delay n r < 5 * (second * min (2 ^ k) 30)) \<and>
   (tm_stopped m \<or> te_expiry entry \<le> now \<or>
    (\<exists>t. tm_refreshTimer (scheduleRetry now r entry m) = Some t \<and> tr_status t = TPending \<and> tr_due t \<le> te_expiry entry))"
proof -
  obtain k where k: "k \<le> 5" "k = unat (if n - 1 > 5 then 5 else n - 1 :: 64 word)"
    "retry_delay n r = (let d = min (second * 2 ^ k) (30 * second) in d div 2 + d div 4 + int r mod (d div 2))"
    by (rule retry_delay_cases)
  have "3 * (second * min (2 ^ k) 30) \<le> 4 * retry_delay n r \<and> 4 * retry_delay n r < 5 * (second * min (2 ^ k) 30)"
  proof -
    have "k = 0 \<or> k = 1 \<or> k = 2 \<or> k = 3 \<or> k = 4 \<or> k = 5" using k(1) by presburger
    moreover have "0 \<le> int r mod q \<and> int r mod q < q" if "0 < q" for q using that by simp
    ultimately show ?thesis unfolding k(3) by (elim disjE) (simp_all add: second_def Let_def)
  qed
  moreover have "k = unat n - 1" if n: "unat n \<in> {1..6}"
  proof -
    have u: "unat (n - 1) = unat n - 1" using n by (intro unat_minus_one) auto
    then have "\<not> n - 1 > 5" using n by (simp add: word_less_nat_alt) linarith
    then show ?thesis using k(2) u by simp
  qed
  moreover have "tm_stopped m \<or> te_expiry entry \<le> now \<or>
    (\<exists>t. tm_refreshTimer (scheduleRetry now r entry m) = Some t \<and> tr_status t = TPending \<and> tr_due t \<le> te_expiry entry)"
    by (auto simp: scheduleRetry_def Let_def AfterFunc_def time_Sub_def max_duration_def min_duration_def min_def max_def)
  ultimately show ?thesis using k(1) by blast
qed


theorem retry_backoff_witness: "3 * second \<le> 4 * retry_delay 1 7 \<and> 4 * retry_delay 1 7 < 5 * second"
  using retry_backoff [of 1 7 demo_manager "\<lparr>te_idToken = [], te_refreshToken = [], te_expiry = 0, te_obtainedAt = 0\<rparr>" 0]
  by (auto simp: min_def)

end
