(* ===== verification/State.thy ===== *)
theory State
  imports Prelude
begin

text \<open>
  The per-key authentication state machine of \<open>pkg/daemon/state.go\<close>.  A \<open>StateManager\<close> is
  the map from cache keys to entries; each method runs under the manager's lock, so it is
  one function from a manager to a manager.  The interface the server uses is the locale
  \<open>auth_states\<close>, interpreted at the end on these functions.
\<close>

section \<open>Data\<close>

text \<open>
  \<open>StateUnset\<close> is the zero value of the string type \<open>AuthState\<close>, held by a freshly allocated
  entry until the method that allocated it assigns a state.
\<close>

datatype AuthState = StateUnset | StateValid | StateRefreshing | StateNeedsLogin | StateLoginInProgress

primrec AuthState_string :: "AuthState \<Rightarrow> string" where
  "AuthState_string StateUnset = ''''"
| "AuthState_string StateValid = ''VALID''"
| "AuthState_string StateRefreshing = ''REFRESHING''"
| "AuthState_string StateNeedsLogin = ''NEEDS_LOGIN''"
| "AuthState_string StateLoginInProgress = ''LOGIN_IN_PROGRESS''"

definition loginInProgressTTL :: duration where "loginInProgressTTL = 5 * minute"

record stateEntry =
  se_state :: AuthState
  se_loginStarted :: gotime

type_synonym StateManager = "(string, stateEntry) gomap"

definition NewStateManager :: StateManager where "NewStateManager = []"

definition zero_stateEntry :: stateEntry where
  "zero_stateEntry = \<lparr>se_state = StateUnset, se_loginStarted = 0\<rparr>"

text \<open>The test written out three times in the source: a login that has outlived its TTL.\<close>

definition login_expired :: "gotime \<Rightarrow> stateEntry \<Rightarrow> bool" where
  "login_expired now e \<longleftrightarrow>
     se_state e = StateLoginInProgress \<and> \<not> IsZero (se_loginStarted e)
     \<and> time_Since now (se_loginStarted e) > loginInProgressTTL"

section \<open>Operations\<close>

text \<open>The part of \<open>GetState\<close> under the write lock, after the lazy TTL check of the read copy.\<close>

definition GetState_expire :: "string \<Rightarrow> gotime \<Rightarrow> AuthState \<times> gotime \<Rightarrow> StateManager \<Rightarrow> (AuthState \<times> gotime) \<times> StateManager" where
  "GetState_expire cacheKey now seen sm =
     (case gm_get sm cacheKey of
        None \<Rightarrow> (seen, sm)
      | Some entry \<Rightarrow>
          let entry' = (if login_expired now entry
                        then entry\<lparr>se_state := StateNeedsLogin, se_loginStarted := 0\<rparr> else entry)
          in ((se_state entry', se_loginStarted entry'), gm_put cacheKey entry' sm))"

definition GetState :: "string \<Rightarrow> gotime \<Rightarrow> StateManager \<Rightarrow> (AuthState \<times> gotime) \<times> StateManager" where
  "GetState cacheKey now sm =
     (case gm_get sm cacheKey of
        None \<Rightarrow> ((StateNeedsLogin, 0), sm)
      | Some entry \<Rightarrow>
          if login_expired now entry
          then GetState_expire cacheKey now (se_state entry, se_loginStarted entry) sm
          else ((se_state entry, se_loginStarted entry), sm))"

definition SetState :: "string \<Rightarrow> AuthState \<Rightarrow> gotime \<Rightarrow> StateManager \<Rightarrow> StateManager" where
  "SetState cacheKey state now sm =
     (let entry = (case gm_get sm cacheKey of None \<Rightarrow> zero_stateEntry | Some e \<Rightarrow> e);
          entry = entry\<lparr>se_state := state\<rparr>
      in gm_put cacheKey
           (if state = StateLoginInProgress then entry\<lparr>se_loginStarted := now\<rparr>
            else entry\<lparr>se_loginStarted := 0\<rparr>) sm)"

definition BeginLogin :: "string \<Rightarrow> gotime \<Rightarrow> StateManager \<Rightarrow> (bool \<times> gotime) \<times> StateManager" where
  "BeginLogin cacheKey now sm =
     (let entry = (case gm_get sm cacheKey of None \<Rightarrow> zero_stateEntry | Some e \<Rightarrow> e);
          entry = (if login_expired now entry
                   then entry\<lparr>se_state := StateNeedsLogin, se_loginStarted := 0\<rparr> else entry)
      in if se_state entry = StateLoginInProgress
         then ((False, se_loginStarted entry), gm_put cacheKey entry sm)
         else let entry = entry\<lparr>se_state := StateLoginInProgress, se_loginStarted := now\<rparr>
              in ((True, se_loginStarted entry), gm_put cacheKey entry sm))"

definition CancelLogin :: "string \<Rightarrow> StateManager \<Rightarrow> StateManager" where
  "CancelLogin cacheKey sm =
     (case gm_get sm cacheKey of
        None \<Rightarrow> sm
      | Some entry \<Rightarrow>
          if se_state entry = StateLoginInProgress
          then gm_put cacheKey (entry\<lparr>se_state := StateNeedsLogin, se_loginStarted := 0\<rparr>) sm
          else sm)"

definition DeleteEntry :: "string \<Rightarrow> StateManager \<Rightarrow> StateManager" where
  "DeleteEntry cacheKey sm = gm_del cacheKey sm"

definition CompleteLogin :: "string \<Rightarrow> StateManager \<Rightarrow> StateManager" where
  "CompleteLogin cacheKey sm =
     (let entry = (case gm_get sm cacheKey of None \<Rightarrow> zero_stateEntry | Some e \<Rightarrow> e)
      in gm_put cacheKey (entry\<lparr>se_state := StateValid, se_loginStarted := 0\<rparr>) sm)"

definition maxStateEntries :: nat where "maxStateEntries = 1024"

text \<open>
  The third pass of \<open>EvictStale\<close> deletes from the map while ranging over it and returns as
  soon as the bound holds; its first argument is what the range loop has still to visit.
\<close>

fun evict_third_pass :: "StateManager \<Rightarrow> StateManager \<Rightarrow> StateManager" where
  "evict_third_pass [] sm = sm"
| "evict_third_pass ((key, entry) # rest) sm =
     (if se_state entry = StateValid \<or> se_state entry = StateRefreshing
      then let sm' = gm_del key sm
           in if length sm' \<le> maxStateEntries then sm' else evict_third_pass rest sm'
      else evict_third_pass rest sm)"

definition EvictStale :: "gotime \<Rightarrow> StateManager \<Rightarrow> StateManager" where
  "EvictStale now sm =
     (if length sm \<le> maxStateEntries then sm else
      let sm1 = filter (\<lambda>(key, entry). se_state entry \<noteq> StateNeedsLogin) sm
      in if length sm1 \<le> maxStateEntries then sm1 else
      let sm2 = filter (\<lambda>(key, entry). \<not> login_expired now entry) sm1
      in if length sm2 \<le> maxStateEntries then sm2 else evict_third_pass sm2 sm2)"

lemmas state_ops = GetState_def GetState_expire_def SetState_def BeginLogin_def CancelLogin_def
  DeleteEntry_def CompleteLogin_def zero_stateEntry_def Let_def

section \<open>Well-formedness\<close>

text \<open>
  Keys are distinct, no stored entry is unset, and a login start time is recorded exactly
  for the entries in \<open>LOGIN_IN_PROGRESS\<close>.
\<close>

definition wf_entry :: "stateEntry \<Rightarrow> bool" where
  "wf_entry e \<longleftrightarrow> se_state e \<noteq> StateUnset
     \<and> (se_state e = StateLoginInProgress \<longleftrightarrow> se_loginStarted e \<noteq> 0)"

definition wf_states :: "StateManager \<Rightarrow> bool" where
  "wf_states sm \<longleftrightarrow> gm_wf sm \<and> (\<forall>k e. gm_get sm k = Some e \<longrightarrow> wf_entry e)"

lemma wf_states_get: "wf_states sm \<Longrightarrow> gm_get sm k = Some e \<Longrightarrow> wf_entry e"
  by (simp add: wf_states_def)

lemma wf_states_put: "wf_states sm \<Longrightarrow> wf_entry e \<Longrightarrow> wf_states (gm_put k e sm)"
  by (simp add: wf_states_def gm.invar_put)

lemma wf_states_del: "wf_states sm \<Longrightarrow> wf_states (gm_del k sm)"
  by (simp add: wf_states_def gm.invar_del)

lemma wf_states_filter: "wf_states sm \<Longrightarrow> wf_states (filter P sm)"
  by (auto simp: wf_states_def gm_wf_filter gm_get_filter split: option.splits if_splits)

lemma wf_states_Nil [simp]: "wf_states []"
  by (simp add: wf_states_def)

lemma wf_entry_simps [simp]:
  "wf_entry (e\<lparr>se_state := StateNeedsLogin, se_loginStarted := 0\<rparr>)"
  "wf_entry (e\<lparr>se_state := StateValid, se_loginStarted := 0\<rparr>)"
  "wf_entry (e\<lparr>se_state := StateLoginInProgress, se_loginStarted := now\<rparr>) \<longleftrightarrow> now \<noteq> 0"
  by (auto simp: wf_entry_def)

lemma wf_entry_make [simp]:
  "wf_entry \<lparr>se_state = s, se_loginStarted = t\<rparr> \<longleftrightarrow> s \<noteq> StateUnset \<and> (s = StateLoginInProgress \<longleftrightarrow> t \<noteq> 0)"
  by (simp add: wf_entry_def)

lemma wf_GetState: "wf_states sm \<Longrightarrow> wf_states (snd (GetState k now sm))"
  by (auto simp: state_ops wf_states_put wf_states_get split: option.split)

lemma wf_GetState_expire: "wf_states sm \<Longrightarrow> wf_states (snd (GetState_expire k now seen sm))"
  by (auto simp: GetState_expire_def Let_def wf_states_put wf_states_get split: option.split)

lemma wf_SetState: "wf_states sm \<Longrightarrow> now \<noteq> 0 \<Longrightarrow> s \<noteq> StateUnset \<Longrightarrow> wf_states (SetState k s now sm)"
  by (auto simp: state_ops wf_entry_def intro!: wf_states_put split: option.split)

lemma wf_BeginLogin: "wf_states sm \<Longrightarrow> now \<noteq> 0 \<Longrightarrow> wf_states (snd (BeginLogin k now sm))"
  by (auto simp: state_ops intro!: wf_states_put dest: wf_states_get split: option.split)

lemma wf_CancelLogin: "wf_states sm \<Longrightarrow> wf_states (CancelLogin k sm)"
  by (auto simp: state_ops wf_states_put split: option.split)

lemma wf_CompleteLogin: "wf_states sm \<Longrightarrow> wf_states (CompleteLogin k sm)"
  by (auto simp: state_ops wf_entry_def intro!: wf_states_put split: option.split)

lemma wf_DeleteEntry: "wf_states sm \<Longrightarrow> wf_states (DeleteEntry k sm)"
  by (simp add: DeleteEntry_def wf_states_del)

lemma wf_evict_third_pass: "wf_states sm \<Longrightarrow> wf_states (evict_third_pass xs sm)"
  by (induction xs sm rule: evict_third_pass.induct) (auto simp: Let_def wf_states_del)

lemma wf_EvictStale: "wf_states sm \<Longrightarrow> wf_states (EvictStale now sm)"
  by (simp add: EvictStale_def Let_def wf_states_filter wf_evict_third_pass)

lemmas wf_state_ops = wf_GetState wf_GetState_expire wf_SetState wf_BeginLogin wf_CancelLogin wf_CompleteLogin
  wf_DeleteEntry wf_EvictStale

section \<open>Abstract specification\<close>

text \<open>
  What a client can observe of one key: a state and, during a login, when it started.  The
  observation ages: a login in progress is worth \<open>NEEDS_LOGIN\<close> once its TTL has passed.
\<close>

definition age :: "gotime \<Rightarrow> AuthState \<times> gotime \<Rightarrow> AuthState \<times> gotime" where
  "age now v =
     (if fst v = StateLoginInProgress \<and> snd v \<noteq> 0 \<and> now - snd v > loginInProgressTTL
      then (StateNeedsLogin, 0) else v)"

definition view :: "StateManager \<Rightarrow> gotime \<Rightarrow> string \<Rightarrow> AuthState \<times> gotime" where
  "view sm now k =
     (case gm_get sm k of None \<Rightarrow> (StateNeedsLogin, 0) | Some e \<Rightarrow> age now (se_state e, se_loginStarted e))"

lemma TTL_range: "min_duration \<le> loginInProgressTTL" "loginInProgressTTL < max_duration" "0 < loginInProgressTTL"
  by (simp_all add: loginInProgressTTL_def minute_def second_def min_duration_def max_duration_def)

lemma login_expired_iff: "login_expired now e \<longleftrightarrow> age now (se_state e, se_loginStarted e) \<noteq> (se_state e, se_loginStarted e)"
  by (auto simp: login_expired_def age_def IsZero_def time_Sub_gt_iff TTL_range)

lemma age_expired: "login_expired now e \<Longrightarrow> age now (se_state e, se_loginStarted e) = (StateNeedsLogin, 0)"
  by (auto simp: login_expired_def age_def IsZero_def time_Sub_gt_iff TTL_range)

lemma age_not_expired: "\<not> login_expired now e \<Longrightarrow> age now (se_state e, se_loginStarted e) = (se_state e, se_loginStarted e)"
  by (simp add: login_expired_iff)

lemma not_login_expired [simp]: "s \<noteq> StateLoginInProgress \<Longrightarrow> \<not> login_expired now \<lparr>se_state = s, se_loginStarted = t\<rparr>"
  by (simp add: login_expired_def)

lemma age_age: "now \<le> now' \<Longrightarrow> age now' (age now v) = age now' v"
  by (auto simp: age_def)

lemma age_simps [simp]:
  "age now (StateNeedsLogin, t) = (StateNeedsLogin, t)"
  "age now (StateValid, t) = (StateValid, t)"
  "age now (StateRefreshing, t) = (StateRefreshing, t)"
  "age now (StateUnset, t) = (StateUnset, t)"
  "age now (s, 0) = (s, 0)"
  "age now (s, now) = (s, now)"
  using TTL_range by (auto simp: age_def)

text \<open>
  The contract of the state machine.  Each operation is described by what it does to the
  view; the view ages with time.
\<close>

locale auth_states =
  fixes look :: "'s \<Rightarrow> gotime \<Rightarrow> string \<Rightarrow> AuthState \<times> gotime"
    and ok :: "'s \<Rightarrow> bool"
    and getS :: "string \<Rightarrow> gotime \<Rightarrow> 's \<Rightarrow> (AuthState \<times> gotime) \<times> 's"
    and setS :: "string \<Rightarrow> AuthState \<Rightarrow> gotime \<Rightarrow> 's \<Rightarrow> 's"
    and beginL :: "string \<Rightarrow> gotime \<Rightarrow> 's \<Rightarrow> (bool \<times> gotime) \<times> 's"
    and cancelL :: "string \<Rightarrow> 's \<Rightarrow> 's"
    and completeL :: "string \<Rightarrow> 's \<Rightarrow> 's"
    and deleteE :: "string \<Rightarrow> 's \<Rightarrow> 's"
    and evict :: "gotime \<Rightarrow> 's \<Rightarrow> 's"
  assumes look_age: "now \<le> now' \<Longrightarrow> look s now' k = age now' (look s now k)"
    and get_result: "fst (getS k now s) = look s now k"
    and get_look: "now \<le> t \<Longrightarrow> look (snd (getS k now s)) t = look s t"
    and set_look: "look (setS k a now s) now =
          (look s now)(k := (a, if a = StateLoginInProgress then now else 0))"
    and begin_result: "fst (beginL k now s) =
          (if fst (look s now k) = StateLoginInProgress then (False, snd (look s now k)) else (True, now))"
    and begin_look: "look (snd (beginL k now s)) now =
          (if fst (look s now k) = StateLoginInProgress then look s now
           else (look s now)(k := (StateLoginInProgress, now)))"
    and cancel_look: "look (cancelL k s) now =
          (if fst (look s now k) = StateLoginInProgress
           then (look s now)(k := (StateNeedsLogin, 0)) else look s now)"
    and complete_look: "look (completeL k s) now = (look s now)(k := (StateValid, 0))"
    and delete_look: "look (deleteE k s) now = (look s now)(k := (StateNeedsLogin, 0))"
    and evict_look: "ok s \<Longrightarrow> look (evict now s) now k = look s now k \<or>
          fst (look s now k) \<in> {StateValid, StateRefreshing} \<and> look (evict now s) now k = (StateNeedsLogin, 0)"
    and ok_get: "ok s \<Longrightarrow> ok (snd (getS k now s))"
    and ok_set: "ok s \<Longrightarrow> now \<noteq> 0 \<Longrightarrow> a \<noteq> StateUnset \<Longrightarrow> ok (setS k a now s)"
    and ok_begin: "ok s \<Longrightarrow> now \<noteq> 0 \<Longrightarrow> ok (snd (beginL k now s))"
    and ok_cancel: "ok s \<Longrightarrow> ok (cancelL k s)"
    and ok_complete: "ok s \<Longrightarrow> ok (completeL k s)"
    and ok_delete: "ok s \<Longrightarrow> ok (deleteE k s)"
    and ok_evict: "ok s \<Longrightarrow> ok (evict now s)"
begin

lemma begin_again: "fst (look s now k) = StateLoginInProgress \<Longrightarrow> fst (beginL k now s) = (False, snd (look s now k))"
  by (simp add: begin_result)

lemma login_kept_begin:
  assumes "look s now k = (StateLoginInProgress, t)"
  shows "look (snd (beginL k' now s)) now k = (StateLoginInProgress, t)"
  using assms by (auto simp: begin_look)

lemma login_kept_evict:
  assumes "ok s" "look s now k = (StateLoginInProgress, t)"
  shows "look (evict now s) now k = (StateLoginInProgress, t)"
  using evict_look [OF assms(1), of now k] assms(2) by auto

lemma begin_after_cancel:
  "fst (beginL k now (cancelL k s)) = (True, now)"
  by (simp add: begin_result cancel_look)

end

section \<open>The operations implement the contract\<close>

lemma evict_third_pass_get:
  assumes "\<forall>k e. (k, e) \<in> set xs \<longrightarrow> gm_get sm k = Some e \<or> gm_get sm k = None"
  shows "gm_get (evict_third_pass xs sm) k = gm_get sm k \<or>
    gm_get (evict_third_pass xs sm) k = None \<and>
    (\<exists>e. gm_get sm k = Some e \<and> se_state e \<in> {StateValid, StateRefreshing})"
  using assms
proof (induction xs sm rule: evict_third_pass.induct)
  case (1 sm)
  show ?case by simp
next
  case (2 key entry rest sm)
  have rest: "\<forall>k e. (k, e) \<in> set rest \<longrightarrow> gm_get (gm_del key sm) k = Some e \<or> gm_get (gm_del key sm) k = None"
    "\<forall>k e. (k, e) \<in> set rest \<longrightarrow> gm_get sm k = Some e \<or> gm_get sm k = None"
    using "2.prems" by simp_all
  have here: "gm_get sm key = Some entry \<or> gm_get sm key = None" using "2.prems" by simp
  show ?case
  proof (cases "se_state entry = StateValid \<or> se_state entry = StateRefreshing")
    case False
    then show ?thesis using "2.IH"(2) [OF False rest(2)] by simp
  next
    case True
    have "gm_get (evict_third_pass rest (gm_del key sm)) k = gm_get (gm_del key sm) k \<or>
        gm_get (evict_third_pass rest (gm_del key sm)) k = None \<and>
        (\<exists>e. gm_get (gm_del key sm) k = Some e \<and> se_state e \<in> {StateValid, StateRefreshing})"
      if "\<not> length (gm_del key sm) \<le> maxStateEntries"
      using "2.IH"(1) [OF True refl that rest(1)] .
    then show ?thesis using True here by (auto simp: Let_def split: if_splits)
  qed
qed

lemma EvictStale_get:
  assumes "gm_wf sm"
  shows "gm_get (EvictStale now sm) k = gm_get sm k \<or>
    gm_get (EvictStale now sm) k = None \<and>
    (\<exists>e. gm_get sm k = Some e \<and> (login_expired now e \<or> se_state e \<in> {StateNeedsLogin, StateValid, StateRefreshing}))"
proof -
  define sm1 where "sm1 = filter (\<lambda>(key, entry). se_state entry \<noteq> StateNeedsLogin) sm"
  define sm2 where "sm2 = filter (\<lambda>(key, entry). \<not> login_expired now entry) sm1"
  have wf: "gm_wf sm1" "gm_wf sm2" using assms by (simp_all add: sm1_def sm2_def gm_wf_filter)
  then have "\<forall>k e. (k, e) \<in> set sm2 \<longrightarrow> gm_get sm2 k = Some e \<or> gm_get sm2 k = None"
    by (simp add: gm_wf_def)
  note pass3 = evict_third_pass_get [OF this, of k]
  have sm1: "gm_get sm1 k = (case gm_get sm k of None \<Rightarrow> None
      | Some e \<Rightarrow> if se_state e \<noteq> StateNeedsLogin then Some e else None)"
    using assms by (auto simp: sm1_def gm_get_filter split: option.split)
  have sm2: "gm_get sm2 k = (case gm_get sm1 k of None \<Rightarrow> None
      | Some e \<Rightarrow> if login_expired now e then None else Some e)"
    using wf(1) by (auto simp: sm2_def gm_get_filter split: option.split)
  have "EvictStale now sm \<in> {sm, sm1, sm2, evict_third_pass sm2 sm2}"
    by (auto simp: EvictStale_def Let_def sm1_def sm2_def)
  then show ?thesis using pass3 sm1 sm2 by (auto split: option.splits if_splits)
qed

lemma view_EvictStale:
  assumes "wf_states sm"
  shows "view (EvictStale now sm) now k = view sm now k \<or>
    fst (view sm now k) \<in> {StateValid, StateRefreshing} \<and> view (EvictStale now sm) now k = (StateNeedsLogin, 0)"
proof -
  have "gm_wf sm" using assms by (simp add: wf_states_def)
  from EvictStale_get [OF this, of now k] consider
    "gm_get (EvictStale now sm) k = gm_get sm k"
  | e where "gm_get (EvictStale now sm) k = None" "gm_get sm k = Some e" "login_expired now e"
  | e where "gm_get (EvictStale now sm) k = None" "gm_get sm k = Some e"
      "se_state e \<in> {StateNeedsLogin, StateValid, StateRefreshing}"
    by blast
  then show ?thesis
  proof cases
    case 1
    then show ?thesis by (simp add: view_def)
  next
    case 2
    then show ?thesis by (simp add: view_def age_expired)
  next
    case 3
    have "wf_entry e" using assms 3(2) by (rule wf_states_get)
    then show ?thesis using 3 by (auto simp: view_def wf_entry_def)
  qed
qed

lemma view_put: "view (gm_put k e sm) now = (view sm now)(k := age now (se_state e, se_loginStarted e))"
  by (auto simp: view_def)

lemma view_get_Some: "gm_get sm k = Some e \<Longrightarrow> view sm now k = age now (se_state e, se_loginStarted e)"
  by (simp add: view_def)

lemma view_get_None: "gm_get sm k = None \<Longrightarrow> view sm now k = (StateNeedsLogin, 0)"
  by (simp add: view_def)

lemma fun_upd_view_id: "view sm now k = v \<Longrightarrow> (view sm now)(k := v) = view sm now"
  by auto

lemma view_GetState: "now \<le> t \<Longrightarrow> view (snd (GetState k now sm)) t = view sm t"
proof (cases "gm_get sm k")
  case None
  then show ?thesis by (simp add: GetState_def)
next
  case (Some e)
  assume le: "now \<le> t"
  show ?thesis
  proof (cases "login_expired now e")
    case False
    then show ?thesis using Some by (simp add: GetState_def)
  next
    case True
    have "view sm t k = age t (age now (se_state e, se_loginStarted e))"
      using Some le by (simp add: view_get_Some age_age)
    then have "view sm t k = (StateNeedsLogin, 0)" using True by (simp add: age_expired)
    then show ?thesis using Some True
      by (simp add: GetState_def GetState_expire_def Let_def view_put fun_upd_view_id)
  qed
qed

lemma view_GetState_expire: "view (snd (GetState_expire k now seen sm)) now = view sm now"
  by (auto simp: GetState_expire_def Let_def view_put view_get_Some age_expired age_not_expired intro!: fun_upd_view_id split: option.split)

lemma GetState_result: "fst (GetState k now sm) = view sm now k"
  by (auto simp: GetState_def GetState_expire_def Let_def view_def age_expired age_not_expired split: option.split)

lemma view_BeginLogin:
  "fst (BeginLogin k now sm) =
     (if fst (view sm now k) = StateLoginInProgress then (False, snd (view sm now k)) else (True, now))"
  "view (snd (BeginLogin k now sm)) now =
     (if fst (view sm now k) = StateLoginInProgress then view sm now
      else (view sm now)(k := (StateLoginInProgress, now)))"
proof -
  show "fst (BeginLogin k now sm) =
     (if fst (view sm now k) = StateLoginInProgress then (False, snd (view sm now k)) else (True, now))"
  proof (cases "gm_get sm k")
    case None
    then show ?thesis by (simp add: BeginLogin_def Let_def zero_stateEntry_def view_get_None)
  next
    case (Some e)
    have "view sm now k = (if login_expired now e then (StateNeedsLogin, 0) else (se_state e, se_loginStarted e))"
      using Some by (simp add: view_get_Some age_expired age_not_expired)
    then show ?thesis using Some by (simp add: BeginLogin_def Let_def)
  qed
  show "view (snd (BeginLogin k now sm)) now =
     (if fst (view sm now k) = StateLoginInProgress then view sm now
      else (view sm now)(k := (StateLoginInProgress, now)))"
  proof (cases "gm_get sm k")
    case None
    then show ?thesis by (simp add: BeginLogin_def Let_def zero_stateEntry_def view_put view_get_None)
  next
    case (Some e)
    then show ?thesis
      by (cases "login_expired now e")
        (auto simp: BeginLogin_def Let_def view_put view_get_Some age_expired age_not_expired fun_upd_view_id)
  qed
qed

lemma view_CancelLogin: "view (CancelLogin k sm) now =
    (if fst (view sm now k) = StateLoginInProgress then (view sm now)(k := (StateNeedsLogin, 0)) else view sm now)"
proof (cases "gm_get sm k")
  case None
  then show ?thesis by (simp add: CancelLogin_def view_get_None)
next
  case (Some e)
  show ?thesis
  proof (cases "login_expired now e")
    case True
    then have "view sm now k = (StateNeedsLogin, 0)" using Some by (simp add: view_get_Some age_expired)
    then show ?thesis using Some by (simp add: CancelLogin_def view_put fun_upd_view_id)
  next
    case False
    then show ?thesis using Some
      by (simp add: CancelLogin_def view_put view_get_Some age_not_expired)
  qed
qed

lemma view_SetState: "view (SetState k a now sm) now = (view sm now)(k := (a, if a = StateLoginInProgress then now else 0))"
  by (simp add: SetState_def Let_def view_put)

lemma view_CompleteLogin: "view (CompleteLogin k sm) now = (view sm now)(k := (StateValid, 0))"
  by (simp add: CompleteLogin_def Let_def view_put)

lemma view_DeleteEntry: "view (DeleteEntry k sm) now = (view sm now)(k := (StateNeedsLogin, 0))"
  by (auto simp: DeleteEntry_def view_def)

lemma view_age: "now \<le> now' \<Longrightarrow> view sm now' k = age now' (view sm now k)"
  by (auto simp: view_def age_age split: option.split)

interpretation st: auth_states view wf_states GetState SetState BeginLogin CancelLogin CompleteLogin DeleteEntry EvictStale
  by unfold_locales
    (rule view_EvictStale, assumption |
     simp add: view_age GetState_result view_GetState view_SetState view_BeginLogin view_CancelLogin
      view_CompleteLogin view_DeleteEntry wf_state_ops del: age_simps)+

section \<open>Runs of the state machine\<close>

text \<open>
  Every operation is one critical section of the mutex, but for \<open>GetState\<close>, which reads under the read lock and, if the login it saw has expired,
  looks again under the write lock; that second section is an event of its own, for whatever was seen before.  So the runs are the
  interleavings of the operations of all connections.
\<close>

datatype sm_event =
    EvGet string | EvExpire string "AuthState \<times> gotime" | EvSet string AuthState | EvBegin string | EvCancel string
  | EvComplete string | EvDelete string | EvEvict

fun sm_apply :: "sm_event \<Rightarrow> gotime \<Rightarrow> StateManager \<Rightarrow> StateManager" where
  "sm_apply (EvGet k) now sm = snd (GetState k now sm)"
| "sm_apply (EvExpire k seen) now sm = snd (GetState_expire k now seen sm)"
| "sm_apply (EvSet k a) now sm = SetState k a now sm"
| "sm_apply (EvBegin k) now sm = snd (BeginLogin k now sm)"
| "sm_apply (EvCancel k) now sm = CancelLogin k sm"
| "sm_apply (EvComplete k) now sm = CompleteLogin k sm"
| "sm_apply (EvDelete k) now sm = DeleteEntry k sm"
| "sm_apply EvEvict now sm = EvictStale now sm"

fun sm_run :: "(gotime \<times> sm_event) list \<Rightarrow> StateManager \<Rightarrow> StateManager" where
  "sm_run [] sm = sm"
| "sm_run ((now, ev) # evs) sm = sm_run evs (sm_apply ev now sm)"

text \<open>No caller assigns the zero value of \<open>AuthState\<close>.\<close>

fun valid_event :: "sm_event \<Rightarrow> bool" where
  "valid_event (EvSet k a) \<longleftrightarrow> a \<noteq> StateUnset"
| "valid_event _ \<longleftrightarrow> True"

fun ends_login :: "string \<Rightarrow> sm_event \<Rightarrow> bool" where
  "ends_login k (EvSet k' a) \<longleftrightarrow> k' = k"
| "ends_login k (EvCancel k') \<longleftrightarrow> k' = k"
| "ends_login k (EvComplete k') \<longleftrightarrow> k' = k"
| "ends_login k (EvDelete k') \<longleftrightarrow> k' = k"
| "ends_login k _ \<longleftrightarrow> False"

inductive sm_reach :: "StateManager \<Rightarrow> bool" where
  start: "sm_reach NewStateManager"
| step: "sm_reach sm \<Longrightarrow> now \<noteq> 0 \<Longrightarrow> valid_event ev \<Longrightarrow> sm_reach (sm_apply ev now sm)"

lemma wf_sm_apply: "wf_states sm \<Longrightarrow> now \<noteq> 0 \<Longrightarrow> valid_event ev \<Longrightarrow> wf_states (sm_apply ev now sm)"
  by (cases ev) (simp_all add: wf_state_ops)

text \<open>
  Every state the daemon's state machine can reach is well formed: keys are distinct, no
  entry is left unset, and a login start time is recorded exactly while a login is in progress.
\<close>

theorem sm_reach_wf: "sm_reach sm \<Longrightarrow> wf_states sm"
proof (induction rule: sm_reach.induct)
  case start
  show ?case by (simp add: NewStateManager_def)
next
  case (step sm now ev)
  then show ?case by (blast intro: wf_sm_apply)
qed

theorem sm_reach_wf_witness: "wf_states (sm_apply (EvBegin ''ab'') 7 NewStateManager)"
  by (rule sm_reach_wf) (rule sm_reach.step [OF sm_reach.start], simp_all)

lemma login_kept_apply:
  assumes "wf_states sm" "view sm now k = (StateLoginInProgress, t0)" "\<not> ends_login k ev"
  shows "view (sm_apply ev now sm) now k = (StateLoginInProgress, t0)"
proof (cases ev)
  case (EvCancel k')
  then show ?thesis using assms by (auto simp: st.cancel_look)
qed (use assms in \<open>simp_all add: st.get_look view_GetState_expire st.set_look st.login_kept_begin st.complete_look
      st.delete_look st.login_kept_evict\<close>)

lemma age_live: "t \<le> t0 + loginInProgressTTL \<Longrightarrow> age t (StateLoginInProgress, t0) = (StateLoginInProgress, t0)"
  by (simp add: age_def)

lemma login_kept_run:
  assumes "wf_states sm" "view sm now k = (StateLoginInProgress, t0)"
    and "sorted (now # map fst evs @ [t])" "t \<le> t0 + loginInProgressTTL"
    and "\<forall>(u, ev) \<in> set evs. u \<noteq> 0 \<and> valid_event ev \<and> \<not> ends_login k ev"
  shows "view (sm_run evs sm) t k = (StateLoginInProgress, t0)"
  using assms
proof (induction evs arbitrary: sm now)
  case Nil
  then show ?case using st.look_age [of now t sm k] by (simp add: age_live)
next
  case (Cons p evs)
  obtain u ev where p: "p = (u, ev)" by (cases p)
  have u: "now \<le> u" "u \<le> t" "sorted (u # map fst evs @ [t])" using Cons.prems(3) by (auto simp: p)
  have "view sm u k = (StateLoginInProgress, t0)"
    using st.look_age [OF u(1), of sm k] Cons.prems(2,4) u(2) by (simp add: age_live)
  then have "view (sm_apply ev u sm) u k = (StateLoginInProgress, t0)"
    using Cons.prems by (intro login_kept_apply) (auto simp: p)
  moreover have "wf_states (sm_apply ev u sm)" using Cons.prems by (intro wf_sm_apply) (auto simp: p)
  ultimately show ?case using Cons.IH [OF _ _ u(3) Cons.prems(4)] Cons.prems(5) by (simp add: p)
qed

lemma login_granted:
  assumes "fst (fst (BeginLogin k t0 sm))"
  shows "view (snd (BeginLogin k t0 sm)) t0 k = (StateLoginInProgress, t0)"
  using assms by (auto simp: st.begin_result st.begin_look split: if_splits)

text \<open>
  C5: a login is exclusive.  Once \<open>BeginLogin\<close> has granted a login for a key at \<open>t0\<close>, in any state the daemon reaches, let any operations of any
  connections follow, within the five minutes of the TTL and in any order, that do not themselves end the login of that key (by setting, cancelling,
  completing or deleting its entry).  Then until the TTL has passed every further \<open>BeginLogin\<close> for the key is refused with \<open>t0\<close> as
  the start, and \<open>GetState\<close>, which \<open>get-token\<close> asks, reports the login, even if stale entries were evicted in between; and from then on the
  login of a process that has died no longer stands: \<open>GetState\<close> reports that a login is needed and \<open>BeginLogin\<close> grants the next one.
\<close>

theorem login_exclusive:
  assumes "sm_reach sm" and "0 < t0" and "fst (fst (BeginLogin k t0 sm))"
    and "sorted (t0 # map fst evs @ [t])"
    and "\<forall>(u, ev) \<in> set evs. u \<le> t0 + loginInProgressTTL \<and> valid_event ev \<and> \<not> ends_login k ev"
  shows "let sm' = sm_run evs (snd (BeginLogin k t0 sm)) in
    if t \<le> t0 + loginInProgressTTL
    then fst (BeginLogin k t sm') = (False, t0) \<and> fst (GetState k t sm') = (StateLoginInProgress, t0)
    else fst (BeginLogin k t sm') = (True, t) \<and> fst (GetState k t sm') = (StateNeedsLogin, 0)"
proof -
  let ?sm = "sm_run evs (snd (BeginLogin k t0 sm))"
  define u where "u = (if t \<le> t0 + loginInProgressTTL then t else t0 + loginInProgressTTL)"
  have s: "sorted (t0 # map fst evs @ [u])" using assms(4,5) TTL_range(3) by (fastforce simp: u_def sorted_append)
  have "\<forall>(u, ev) \<in> set evs. u \<noteq> 0 \<and> valid_event ev \<and> \<not> ends_login k ev" using assms(2,4,5) by fastforce
  then have v: "view ?sm u k = (StateLoginInProgress, t0)"
    using login_granted [OF assms(3)] assms(2) s sm_reach_wf [OF assms(1)]
    by (intro login_kept_run [of _ t0]) (auto simp: u_def intro: wf_BeginLogin)
  have "u \<le> t" by (simp add: u_def)
  then have "view ?sm t k = (if t \<le> t0 + loginInProgressTTL then (StateLoginInProgress, t0) else (StateNeedsLogin, 0))"
    using view_age [of u t ?sm k] v assms(2) by (simp add: age_def)
  then show ?thesis by (simp add: Let_def st.begin_result st.get_result)
qed

theorem login_exclusive_witness:
  "fst (BeginLogin ''ab'' 60 (sm_run [(20, EvBegin ''ab''), (30, EvComplete ''cd''), (40, EvEvict)]
     (snd (BeginLogin ''ab'' 10 NewStateManager)))) = (False, 10) \<and>
   fst (BeginLogin ''ab'' (10 + 6 * minute) (sm_run [(20, EvBegin ''ab''), (30, EvComplete ''cd''), (40, EvEvict)]
     (snd (BeginLogin ''ab'' 10 NewStateManager)))) = (True, 10 + 6 * minute)"
proof -
  have "fst (fst (BeginLogin ''ab'' 10 NewStateManager))"
    by (simp add: NewStateManager_def BeginLogin_def zero_stateEntry_def login_expired_def)
  note x = login_exclusive [OF sm_reach.start _ this, of "[(20, EvBegin ''ab''), (30, EvComplete ''cd''), (40, EvEvict)]"]
  show ?thesis using x [of 60] x [of "10 + 6 * minute"] by (simp add: Let_def loginInProgressTTL_def minute_def second_def)
qed

text \<open>
  A crashed login cannot block a key for ever.  Once the TTL of the recorded login has passed,
  \<open>GetState\<close> reports \<open>NEEDS_LOGIN\<close> without a start time and the next \<open>BeginLogin\<close> succeeds.
\<close>

theorem login_reopens_after_TTL:
  assumes "gm_get sm k = Some e" and "se_state e = StateLoginInProgress"
    and "se_loginStarted e \<noteq> 0" and "now - se_loginStarted e > loginInProgressTTL"
  shows "fst (GetState k now sm) = (StateNeedsLogin, 0) \<and> fst (BeginLogin k now sm) = (True, now)"
proof -
  have "view sm now k = (StateNeedsLogin, 0)"
    using assms by (simp add: view_get_Some age_def)
  then show ?thesis by (simp add: st.get_result st.begin_result)
qed

theorem login_reopens_after_TTL_witness:
  "fst (GetState ''ab'' (6 * minute) [(''ab'', \<lparr>se_state = StateLoginInProgress, se_loginStarted = second\<rparr>)]) = (StateNeedsLogin, 0) \<and>
   fst (BeginLogin ''ab'' (6 * minute) [(''ab'', \<lparr>se_state = StateLoginInProgress, se_loginStarted = second\<rparr>)]) = (True, 6 * minute)"
  by (rule login_reopens_after_TTL [where e = "\<lparr>se_state = StateLoginInProgress, se_loginStarted = second\<rparr>"])
    (simp_all add: loginInProgressTTL_def minute_def second_def)

section \<open>Eviction\<close>

lemma evict_third_pass_bound:
  assumes "\<And>k e. (k, e) \<in> set sm \<Longrightarrow> se_state e \<in> {StateValid, StateRefreshing} \<Longrightarrow> (k, e) \<in> set xs"
  shows "length (evict_third_pass xs sm) \<le> maxStateEntries \<or>
    (\<forall>(k, e) \<in> set (evict_third_pass xs sm). (k, e) \<in> set sm \<and> se_state e \<notin> {StateValid, StateRefreshing})"
  using assms
proof (induction xs sm rule: evict_third_pass.induct)
  case (1 sm)
  then show ?case by fastforce
next
  case (2 key entry rest sm)
  show ?case
  proof (cases "se_state entry = StateValid \<or> se_state entry = StateRefreshing")
    case False
    then show ?thesis using "2.IH"(2) [OF False] "2.prems" by force
  next
    case True
    have "(k, e) \<in> set rest"
      if "(k, e) \<in> set (gm_del key sm)" "se_state e \<in> {StateValid, StateRefreshing}" for k e
      using "2.prems" [of k e] that by (auto simp: AList.delete_eq)
    then have "\<not> length (gm_del key sm) \<le> maxStateEntries \<Longrightarrow> ?thesis"
      using "2.IH"(1) [OF True refl] True by (auto simp: Let_def AList.delete_eq)
    then show ?thesis using True by (auto simp: Let_def)
  qed
qed

text \<open>
  What \<open>EvictStale\<close> guarantees.  It never changes what a client observes of a key other than
  turning a \<open>VALID\<close> or \<open>REFRESHING\<close> key into \<open>NEEDS_LOGIN\<close> (logins in progress survive), and
  afterwards the map is within its bound or holds live logins only.
\<close>

theorem EvictStale_spec:
  assumes "wf_states sm"
  shows "(view (EvictStale now sm) now k = view sm now k \<or>
          fst (view sm now k) \<in> {StateValid, StateRefreshing} \<and>
          view (EvictStale now sm) now k = (StateNeedsLogin, 0)) \<and>
    (length (EvictStale now sm) \<le> maxStateEntries \<or>
     (\<forall>(key, e) \<in> set (EvictStale now sm). se_state e = StateLoginInProgress \<and> \<not> login_expired now e))"
proof -
  define sm1 where "sm1 = filter (\<lambda>(key, entry). se_state entry \<noteq> StateNeedsLogin) sm"
  define sm2 where "sm2 = filter (\<lambda>(key, entry). \<not> login_expired now entry) sm1"
  have set2: "se_state e \<noteq> StateNeedsLogin \<and> \<not> login_expired now e \<and> se_state e \<noteq> StateUnset"
    if "(key, e) \<in> set sm2" for key e
    using that assms by (auto simp: sm2_def sm1_def wf_states_def wf_entry_def gm_get_in_set)
  have states: "se_state e \<in> {StateLoginInProgress, StateValid, StateRefreshing}"
    if "(key, e) \<in> set sm2" for key e
    using set2 [OF that] by (cases "se_state e") auto
  have "length (evict_third_pass sm2 sm2) \<le> maxStateEntries \<or>
    (\<forall>(key, e) \<in> set (evict_third_pass sm2 sm2). se_state e = StateLoginInProgress \<and> \<not> login_expired now e)"
    using evict_third_pass_bound [of sm2 sm2] set2 states by fastforce
  then have "length (EvictStale now sm) \<le> maxStateEntries \<or>
     (\<forall>(key, e) \<in> set (EvictStale now sm). se_state e = StateLoginInProgress \<and> \<not> login_expired now e)"
    by (simp add: EvictStale_def Let_def sm1_def sm2_def)
  then show ?thesis using st.evict_look [OF assms, of now k] by blast
qed

theorem EvictStale_spec_witness:
  "(view (EvictStale 5 []) 5 ''ab'' = view [] 5 ''ab'' \<or>
      fst (view [] 5 ''ab'') \<in> {StateValid, StateRefreshing} \<and> view (EvictStale 5 []) 5 ''ab'' = (StateNeedsLogin, 0)) \<and>
   (length (EvictStale 5 []) \<le> maxStateEntries \<or>
     (\<forall>(key, e) \<in> set (EvictStale 5 []). se_state e = StateLoginInProgress \<and> \<not> login_expired 5 e))"
  by (rule EvictStale_spec) simp

lemma sm_reach_logins:
  "\<exists>sm. sm_reach sm \<and> length sm = n \<and> set sm \<subseteq> {(replicate i CHR ''a'', \<lparr>se_state = StateLoginInProgress, se_loginStarted = 1\<rparr>) |i. i < n}"
proof (induction n)
  case 0
  show ?case using sm_reach.start by (auto simp: NewStateManager_def)
next
  case (Suc n)
  then obtain sm where sm: "sm_reach sm" "length sm = n"
    "set sm \<subseteq> {(replicate i CHR ''a'', \<lparr>se_state = StateLoginInProgress, se_loginStarted = 1\<rparr>) |i. i < n}"
    by blast
  let ?k = "replicate n CHR ''a''"
  have new: "?k \<notin> fst ` set sm" using sm(3) by (force simp: replicate_eq_replicate)
  have "gm_get sm ?k = None" using new by (simp add: map_of_eq_None_iff)
  then have eq: "sm_apply (EvBegin ?k) 1 sm = sm @ [(?k, \<lparr>se_state = StateLoginInProgress, se_loginStarted = 1\<rparr>)]"
    using new by (simp add: BeginLogin_def Let_def zero_stateEntry_def gm_put_new)
  have "sm_reach (sm_apply (EvBegin ?k) 1 sm)" using sm(1) by (rule sm_reach.step) simp_all
  then have "sm_reach (sm @ [(?k, \<lparr>se_state = StateLoginInProgress, se_loginStarted = 1\<rparr>)])"
    by (simp only: eq)
  then show ?case using sm(2,3) by (intro exI conjI) (assumption, simp, fastforce simp: less_Suc_eq)
qed

text \<open>
  the documented upper bound on tracked keys does not hold.  For every \<open>n\<close> the machine reaches,
  by \<open>BeginLogin\<close> alone, a state of which \<open>EvictStale\<close> keeps \<open>n\<close> entries, because no pass removes
  a login in progress whose TTL has not passed.
\<close>

theorem EvictStale_no_bound: "\<exists>sm. sm_reach sm \<and> length (EvictStale 1 sm) = n"
proof -
  obtain sm where sm: "sm_reach sm" "length sm = n"
    "set sm \<subseteq> {(replicate i CHR ''a'', \<lparr>se_state = StateLoginInProgress, se_loginStarted = 1\<rparr>) |i. i < n}"
    using sm_reach_logins [of n] by blast
  have live: "se_state e = StateLoginInProgress \<and> \<not> login_expired 1 e" if "(key, e) \<in> set sm" for key e
    using that sm(3) by (auto simp: login_expired_iff)
  have "filter (\<lambda>(key, entry). se_state entry \<noteq> StateNeedsLogin) sm = sm"
    "filter (\<lambda>(key, entry). \<not> login_expired 1 entry) sm = sm"
    using live by (auto intro!: filter_True)
  moreover have "evict_third_pass xs sm = sm" if "set xs \<subseteq> set sm" for xs
    using that live by (induction xs sm rule: evict_third_pass.induct) auto
  ultimately have "EvictStale 1 sm = sm" by (simp add: EvictStale_def)
  then show ?thesis using sm(1,2) by auto
qed

end
