(* ===== verification/Server.thy ===== *)
theory Server
  imports TokenManager State
begin

text \<open>
  The daemon's server (\<open>pkg/daemon/server.go\<close>): its state with the token managers, the authentication
  states and the file system, and one function per handler, from the state to the response and the new
  state.  A handler is one step; what the outside contributes to it (clock, provider, disk, process
  attributes) is the record \<open>senv\<close>.  Log lines are not modelled.
\<close>

section \<open>State\<close>

definition maxConcurrentConns :: nat where "maxConcurrentConns = 256"
definition maxTokenManagers :: int where "maxTokenManagers = 256"

record Server =
  sv_runtimeDir :: string
  sv_managers :: "(string, TokenManager) gomap"
  sv_states :: StateManager
  sv_startTime :: gotime
  sv_idleTimeout :: duration
  sv_lastRequest :: int
  sv_uid :: nat
  sv_idleCheckTick :: duration
  sv_shutdown :: bool
  sv_conns :: nat
  sv_managerCount :: int
  sv_nonce :: string
  sv_socketInode :: nat
  sv_listening :: bool
  sv_fs :: vfs

text \<open>\<open>en_now\<close> is the clock when a handler starts, \<open>en_fin\<close> after the refresh it made.\<close>

record senv =
  en_now :: gotime
  en_fin :: gotime
  en_refresh :: "bool \<Rightarrow> OIDCRefresher \<Rightarrow> string \<Rightarrow> go_error + (string \<times> string \<times> gotime)"
  en_load :: faults
  en_persist :: faults
  en_evict :: faults
  en_rand :: nat
  en_rfc3339 :: "gotime \<Rightarrow> string"
  en_pid :: int
  en_exe :: string
  en_logPath :: string

definition refresh_env :: "senv \<Rightarrow> call_env" where
  "refresh_env E = \<lparr>ce_now = en_now E, ce_fin = en_fin E, ce_refresh = en_refresh E, ce_io = en_persist E, ce_rand = en_rand E\<rparr>"

definition NewServer :: "gotime \<Rightarrow> nat \<Rightarrow> string \<Rightarrow> duration \<Rightarrow> duration \<Rightarrow> vfs \<Rightarrow> Server" where
  "NewServer now uid runtimeDir idleTimeout idleCheckTick w =
     \<lparr>sv_runtimeDir = runtimeDir, sv_managers = [], sv_states = NewStateManager, sv_startTime = now,
      sv_idleTimeout = (if idleTimeout < 0 then 0 else idleTimeout), sv_lastRequest = to_Unix now, sv_uid = uid,
      sv_idleCheckTick = (if idleCheckTick \<le> 0 then 30 * second else idleCheckTick), sv_shutdown = False, sv_conns = 0,
      sv_managerCount = 0, sv_nonce = [], sv_socketInode = 0, sv_listening = False, sv_fs = w\<rparr>"

definition set_manager :: "string \<Rightarrow> TokenManager \<Rightarrow> Server \<Rightarrow> Server" where
  "set_manager k m s = s\<lparr>sv_managers := gm_put k m (sv_managers s)\<rparr>"

definition RegisterTokenManager :: "string \<Rightarrow> TokenManager \<Rightarrow> Server \<Rightarrow> Server" where
  "RegisterTokenManager cacheKey m s = set_manager cacheKey m s"

definition set_state :: "string \<Rightarrow> AuthState \<Rightarrow> gotime \<Rightarrow> Server \<Rightarrow> Server" where
  "set_state k a now s = s\<lparr>sv_states := SetState k a now (sv_states s)\<rparr>"

section \<open>Eviction\<close>

definition oldest_manager :: "(string, TokenManager) gomap \<Rightarrow> (string \<times> TokenManager) option" where
  "oldest_manager ms =
     fold (\<lambda>(key, m) oldest.
        case oldest of
          None \<Rightarrow> Some (key, m)
        | Some (ok, om) \<Rightarrow> if LastAccess m < LastAccess om then Some (key, m) else oldest) ms None"

definition evictOldestManagerLocked :: "senv \<Rightarrow> Server \<Rightarrow> bool \<times> Server" where
  "evictOldestManagerLocked E s =
     (case oldest_manager (sv_managers s) of
        None \<Rightarrow> (False, s)
      | Some (oldestKey, oldestTM) \<Rightarrow>
          let w = (case GetToken (en_now E) oldestTM of
                     (None, _) \<Rightarrow> sv_fs s
                   | (Some (idToken, _), tm) \<Rightarrow>
                       snd (PersistToken (en_evict E) (sv_runtimeDir s) oldestKey idToken (CurrentRefreshToken tm) (sv_fs s)))
          in (True, s\<lparr>sv_fs := w, sv_managers := gm_del oldestKey (sv_managers s), sv_managerCount := sv_managerCount s - 1,
                      sv_states := DeleteEntry oldestKey (sv_states s)\<rparr>))"

section \<open>Finding or creating a manager\<close>

definition new_manager :: "senv \<Rightarrow> string \<Rightarrow> string \<Rightarrow> Request \<Rightarrow> TokenManager" where
  "new_manager E dir cacheKey req = NewTokenManager (en_now E) (refresherFromRequest req) dir cacheKey 0 0 0"

definition persisted_expiry :: "gotime \<Rightarrow> string \<Rightarrow> gotime" where
  "persisted_expiry now idToken =
     (if idToken \<noteq> [] then (case parseTokenExpiry idToken of Inl _ \<Rightarrow> now | Inr e \<Rightarrow> e) else now)"

text \<open>\<open>LoadOrStore\<close> under \<open>managerMu\<close>, after the check of the cap.\<close>

definition load_or_store :: "string \<Rightarrow> TokenManager \<Rightarrow> Request \<Rightarrow> Server \<Rightarrow> Server" where
  "load_or_store cacheKey tm req s =
     (case gm_get (sv_managers s) cacheKey of
        Some existing \<Rightarrow> set_manager cacheKey (SetRefresher (refresherFromRequest req) existing) s
      | None \<Rightarrow> (set_manager cacheKey tm s)\<lparr>sv_managerCount := sv_managerCount s + 1\<rparr>)"

text \<open>The result tells whether there is a manager; it is then in the map under the key.\<close>

definition getOrCreateTokenManager :: "senv \<Rightarrow> string \<Rightarrow> Request \<Rightarrow> Server \<Rightarrow> bool \<times> Server" where
  "getOrCreateTokenManager E cacheKey req s =
     (case gm_get (sv_managers s) cacheKey of
        Some existing \<Rightarrow> (True, set_manager cacheKey (SetRefresher (refresherFromRequest req) existing) s)
      | None \<Rightarrow>
          (case LoadPersistedToken (en_load E) (sv_runtimeDir s) cacheKey (sv_fs s) of
             (Inl err, w) \<Rightarrow> (False, s\<lparr>sv_fs := w\<rparr>)
           | (Inr (idToken, refreshToken), w) \<Rightarrow>
               if refreshToken = [] then (False, s\<lparr>sv_fs := w\<rparr>)
               else
                 let tm = SetInitialToken (en_now E) idToken refreshToken (persisted_expiry (en_now E) idToken)
                            (new_manager E (sv_runtimeDir s) cacheKey req);
                     s1 = s\<lparr>sv_fs := w\<rparr>
                 in if sv_managerCount s1 \<ge> maxTokenManagers
                    then (case evictOldestManagerLocked E s1 of
                            (False, s2) \<Rightarrow> (False, s2)
                          | (True, s2) \<Rightarrow> (True, load_or_store cacheKey tm req s2))
                    else (True, load_or_store cacheKey tm req s1)))"

section \<open>Refreshing\<close>

text \<open>\<open>tm.Refresh\<close> on the manager of a key, with the server's disk.\<close>

definition refresh_manager :: "senv \<Rightarrow> string \<Rightarrow> Server \<Rightarrow> (go_error + (string \<times> gotime)) \<times> Server" where
  "refresh_manager E cacheKey s =
     (case gm_get (sv_managers s) cacheKey of
        None \<Rightarrow> (Inl (Err ''no token to refresh''), s)
      | Some m \<Rightarrow>
          let (r, (m', w)) = TM_Refresh (refresh_env E) (m, sv_fs s)
          in (r, (set_manager cacheKey m' s)\<lparr>sv_fs := w\<rparr>))"

definition classifyRefreshError :: "go_error \<Rightarrow> Response" where
  "classifyRefreshError err =
     (let errStr = Error err in
      if contains errStr ''invalid_grant'' \<or> contains errStr ''token has been revoked'' then
        errorCodeResponse ErrCodeTokenRevoked ''Refresh token revoked by server'' ''Run 'kubelogin-daemon login' in a terminal''
      else if contains errStr ''oidc discovery'' \<or> contains errStr ''connection refused'' \<or>
              contains errStr ''no such host'' \<or> contains errStr ''i/o timeout'' then
        errorCodeResponse ErrCodeProviderUnreachable ''OIDC provider unreachable'' ''Check network connectivity and retry''
      else if contains errStr ''refresh'' then
        errorCodeResponse ErrCodeRefreshFailed ''Token refresh failed''
          ''Retry in 10 seconds, or run 'kubelogin-daemon login' if persistent''
      else needsAuthResponse)"

section \<open>Handlers\<close>

definition ago :: "gotime \<Rightarrow> gotime \<Rightarrow> string" where
  "ago now t = seconds_String (round_second (time_Since now t))"

text \<open>\<open>GetToken\<close> on the manager of a key, which records the access.\<close>

definition manager_token :: "senv \<Rightarrow> string \<Rightarrow> Server \<Rightarrow> (string \<times> gotime) option \<times> Server" where
  "manager_token E cacheKey s =
     (case gm_get (sv_managers s) cacheKey of
        None \<Rightarrow> (None, s)
      | Some m \<Rightarrow> (let (r, m') = GetToken (en_now E) m in (r, set_manager cacheKey m' s)))"

definition refresh_and_reply :: "senv \<Rightarrow> string \<Rightarrow> (string \<Rightarrow> gotime \<Rightarrow> Response) \<Rightarrow> Server \<Rightarrow> Response \<times> Server" where
  "refresh_and_reply E cacheKey reply s =
     (let s1 = set_state cacheKey StateRefreshing (en_now E) s in
      case refresh_manager E cacheKey s1 of
        (Inl err, s2) \<Rightarrow> (classifyRefreshError err, set_state cacheKey StateNeedsLogin (en_fin E) s2)
      | (Inr (idToken, expiry), s2) \<Rightarrow> (reply idToken expiry, set_state cacheKey StateValid (en_fin E) s2))"

text \<open>The cached token if it is still good and no refresh is demanded, otherwise a refresh.\<close>

definition serve_token :: "senv \<Rightarrow> Request \<Rightarrow> (string \<times> gotime) option \<Rightarrow> Server \<Rightarrow> Response \<times> Server" where
  "serve_token E req t s =
     (case t of
        Some (idToken, expiry) \<Rightarrow>
          if \<not> en_now E > expiry \<and> \<not> rq_ForceRefresh req
          then (tokenResponse idToken expiry, set_state (rq_CacheKey req) StateValid (en_now E) s)
          else refresh_and_reply E (rq_CacheKey req) tokenResponse s
      | None \<Rightarrow> refresh_and_reply E (rq_CacheKey req) tokenResponse s)"

definition handleGetToken :: "senv \<Rightarrow> Request \<Rightarrow> Server \<Rightarrow> Response \<times> Server" where
  "handleGetToken E req s =
     (let cacheKey = rq_CacheKey req in
      if cacheKey = [] then (errorResponse ''cache_key is required'', s)
      else if \<not> IsValidCacheKey cacheKey then (errorResponse ''invalid cache_key: must be hex string'', s)
      else
        let ((state, loginStarted), sm) = GetState cacheKey (en_now E) (sv_states s);
            s1 = s\<lparr>sv_states := sm\<rparr>
        in if state = StateLoginInProgress then
             ((errorCodeResponse ErrCodeLoginInProgress ''Login is in progress''
                 (''Retry in 5 seconds (login started '' @ ago (en_now E) loginStarted @ '' ago)''))
               \<lparr>rs_Status := ''login-in-progress'', rs_LoginStartedAt := Some loginStarted\<rparr>, s1)
           else
             (case getOrCreateTokenManager E cacheKey req s1 of
                (False, s2) \<Rightarrow> (needsAuthResponse, set_state cacheKey StateNeedsLogin (en_now E) s2)
              | (True, s2) \<Rightarrow>
                  (case manager_token E cacheKey s2 of (t, s3) \<Rightarrow> serve_token E req t s3)))"

definition handleHealth :: "senv \<Rightarrow> Server \<Rightarrow> Response \<times> Server" where
  "handleHealth E s =
     (let up = round_second (time_Since (en_now E) (sv_startTime s));
          resp = (base_response ''ok'')\<lparr>rs_Uptime := seconds_String up, rs_PID := en_pid E, rs_LogPath := en_logPath E,
                    rs_RuntimeDir := sv_runtimeDir s, rs_UptimeSeconds := up, rs_BinaryPath := en_exe E,
                    rs_TokenCount := int (length (sv_managers s))\<rparr>
      in case sv_managers s of
           [] \<Rightarrow> (resp, s)
         | (key, m) # rest \<Rightarrow>
             (case GetToken (en_now E) m of
                (None, m') \<Rightarrow> (resp, s)
              | (Some (t, expiry), m') \<Rightarrow> (resp\<lparr>rs_TokenExpiry := Some expiry\<rparr>, set_manager key m' s)))"

definition maxTokenSize :: nat where "maxTokenSize = 2 ^ 20"

text \<open>The cap check for a new key, and \<open>LoadOrStore\<close>: an existing manager gets the new token and refresher.\<close>

definition make_room :: "senv \<Rightarrow> string \<Rightarrow> Server \<Rightarrow> bool \<times> Server" where
  "make_room E cacheKey s =
     (if gm_get (sv_managers s) cacheKey = None \<and> sv_managerCount s \<ge> maxTokenManagers
      then evictOldestManagerLocked E s else (True, s))"

definition install_token :: "senv \<Rightarrow> Request \<Rightarrow> gotime \<Rightarrow> Server \<Rightarrow> Server" where
  "install_token E req expiry s =
     (let cacheKey = rq_CacheKey req;
          init = SetInitialToken (en_now E) (rq_IDToken req) (rq_RefreshToken req) expiry
      in case gm_get (sv_managers s) cacheKey of
           Some existing \<Rightarrow> set_manager cacheKey (SetRefresher (refresherFromRequest req) (init existing)) s
         | None \<Rightarrow> (set_manager cacheKey (init (new_manager E (sv_runtimeDir s) cacheKey req)) s)
                     \<lparr>sv_managerCount := sv_managerCount s + 1\<rparr>)"

definition handleStoreToken :: "senv \<Rightarrow> Request \<Rightarrow> Server \<Rightarrow> Response \<times> Server" where
  "handleStoreToken E req s =
     (let cacheKey = rq_CacheKey req in
      if cacheKey = [] then (errorResponse ''cache_key is required'', s)
      else if \<not> IsValidCacheKey cacheKey then (errorResponse ''invalid cache_key: must be hex string'', s)
      else if rq_IDToken req = [] then (errorResponse ''id_token is required'', s)
      else if length (rq_IDToken req) > maxTokenSize \<or> length (rq_RefreshToken req) > maxTokenSize
      then (errorResponse ''token too large'', s)
      else case parseTokenExpiry (rq_IDToken req) of
             Inl err \<Rightarrow> (errorResponse (''parse token expiry: '' @ Error err), s)
           | Inr expiry \<Rightarrow>
               (case make_room E cacheKey s of
                  (False, s1) \<Rightarrow> (errorResponse ''too many token managers'', s1)
                | (True, s1) \<Rightarrow>
                    let s2 = install_token E req expiry s1;
                        (pErr, w) = PersistToken (en_persist E) (sv_runtimeDir s2) cacheKey (rq_IDToken req) (rq_RefreshToken req) (sv_fs s2);
                        s3 = s2\<lparr>sv_fs := w, sv_states := CompleteLogin cacheKey (sv_states s2)\<rparr>
                    in (tokenResponse (rq_IDToken req) expiry, s3)))"

definition handleBeginLogin :: "senv \<Rightarrow> Request \<Rightarrow> Server \<Rightarrow> Response \<times> Server" where
  "handleBeginLogin E req s =
     (let cacheKey = rq_CacheKey req in
      if cacheKey = [] then (errorResponse ''cache_key is required'', s)
      else if \<not> IsValidCacheKey cacheKey then (errorResponse ''invalid cache_key: must be hex string'', s)
      else
        let ((ok, loginStarted), sm) = BeginLogin cacheKey (en_now E) (sv_states s);
            s1 = s\<lparr>sv_states := sm\<rparr>
        in if \<not> ok then
             ((base_response ''login-in-progress'')\<lparr>rs_ErrorCode := ErrCodeLoginInProgress,
                rs_Message := ''Login already in progress (started '' @ ago (en_now E) loginStarted @ '' ago)'',
                rs_LoginStartedAt := Some loginStarted\<rparr>, s1)
           else ((base_response ''ok'')\<lparr>rs_Message := ''Login started''\<rparr>, s1))"

definition handleCancelLogin :: "senv \<Rightarrow> Request \<Rightarrow> Server \<Rightarrow> Response \<times> Server" where
  "handleCancelLogin E req s =
     (let cacheKey = rq_CacheKey req in
      if cacheKey = [] then (errorResponse ''cache_key is required'', s)
      else if \<not> IsValidCacheKey cacheKey then (errorResponse ''invalid cache_key: must be hex string'', s)
      else ((base_response ''ok'')\<lparr>rs_Message := ''Login cancelled''\<rparr>,
            s\<lparr>sv_states := CancelLogin cacheKey (sv_states s)\<rparr>))"

text \<open>The answer of \<open>check\<close> from a token found on disk only, if it settles the question.\<close>

definition check_persisted :: "senv \<Rightarrow> Response \<Rightarrow> string \<times> string \<Rightarrow> Response option" where
  "check_persisted E resp toks =
     (let (idToken, refreshToken) = toks;
          expiry = (if idToken \<noteq> [] then (case parseTokenExpiry idToken of Inl _ \<Rightarrow> 0 | Inr e \<Rightarrow> e) else 0)
      in if idToken \<noteq> [] \<or> refreshToken \<noteq> [] then
           (if idToken \<noteq> [] \<and> \<not> en_now E > expiry then
              Some (resp\<lparr>rs_Ready := Some True, rs_State := AuthState_string StateValid, rs_AccessTokenExpiry := Some expiry,
                         rs_RefreshTokenValid := Some (refreshToken \<noteq> [])\<rparr>)
            else if refreshToken \<noteq> [] then
              Some (resp\<lparr>rs_Ready := Some False, rs_State := ''NEEDS_REFRESH'',
                         rs_Message := ''Token expired but refresh token available. Next kubectl call will auto-refresh.'',
                         rs_RefreshTokenValid := Some True\<rparr>)
            else None)
         else None)"

definition check_needs_login :: "Response \<Rightarrow> Response" where
  "check_needs_login resp = resp\<lparr>rs_Ready := Some False, rs_Status := ''error'', rs_ErrorCode := ErrCodeNeedsLogin,
     rs_Message := ''No valid token. Authentication required.'', rs_Action := ''Run 'kubelogin-daemon login' in a terminal''\<rparr>"

definition check_state :: "senv \<Rightarrow> string \<Rightarrow> Response \<Rightarrow> Server \<Rightarrow> Response \<times> Server" where
  "check_state E cacheKey resp0 s =
     (let ((state, loginStarted), sm) = GetState cacheKey (en_now E) (sv_states s);
          s1 = s\<lparr>sv_states := sm\<rparr>;
          resp = resp0\<lparr>rs_State := AuthState_string state, rs_LoginStartedAt := (if IsZero loginStarted then None else Some loginStarted)\<rparr>
      in case state of
           StateValid \<Rightarrow>
             (let (tok, s2) = manager_token E cacheKey s1;
                  expired = (set_state cacheKey StateNeedsLogin (en_now E) s2);
                  failed = (check_needs_login (resp\<lparr>rs_State := AuthState_string StateNeedsLogin\<rparr>), expired)
              in case tok of
                   Some (t, expiry) \<Rightarrow>
                     if \<not> en_now E > expiry
                     then (resp\<lparr>rs_Ready := Some True, rs_AccessTokenExpiry := Some expiry,
                               rs_RefreshTokenValid := Some (case gm_get (sv_managers s2) cacheKey of
                                   None \<Rightarrow> False | Some m \<Rightarrow> CurrentRefreshToken m \<noteq> [])\<rparr>, s2)
                     else failed
                 | None \<Rightarrow> failed)
         | StateNeedsLogin \<Rightarrow> (check_needs_login resp, s1)
         | StateLoginInProgress \<Rightarrow>
             (resp\<lparr>rs_Ready := Some False, rs_Status := ''error'', rs_ErrorCode := ErrCodeLoginInProgress,
                   rs_Message := ''Login in progress (started '' @ ago (en_now E) loginStarted @ '' ago)''\<rparr>, s1)
         | StateRefreshing \<Rightarrow> (resp\<lparr>rs_Ready := Some False, rs_Message := ''Token refresh in progress''\<rparr>, s1)
         | StateUnset \<Rightarrow> (resp, s1))"

definition handleCheck :: "senv \<Rightarrow> Request \<Rightarrow> Server \<Rightarrow> Response \<times> Server" where
  "handleCheck E req s =
     (let cacheKey = rq_CacheKey req in
      if cacheKey \<noteq> [] \<and> \<not> IsValidCacheKey cacheKey then (errorResponse ''invalid cache_key: must be hex string'', s)
      else
        let resp = (base_response ''ok'')\<lparr>rs_DaemonRunning := Some True\<rparr>
        in if cacheKey = [] then
             (resp\<lparr>rs_Ready := Some False, rs_State := AuthState_string StateNeedsLogin, rs_Message := ''No cache key specified'',
                   rs_Action := ''Run 'kubelogin-daemon login' in a terminal''\<rparr>, s)
           else if gm_get (sv_managers s) cacheKey = None then
             (case LoadPersistedToken (en_load E) (sv_runtimeDir s) cacheKey (sv_fs s) of
                (Inl _, w) \<Rightarrow> check_state E cacheKey resp (s\<lparr>sv_fs := w\<rparr>)
              | (Inr toks, w) \<Rightarrow>
                  (case check_persisted E resp toks of
                     Some r \<Rightarrow> (r, s\<lparr>sv_fs := w\<rparr>)
                   | None \<Rightarrow> check_state E cacheKey resp (s\<lparr>sv_fs := w\<rparr>)))
           else check_state E cacheKey resp s)"

definition refreshed_response :: "senv \<Rightarrow> string \<Rightarrow> gotime \<Rightarrow> Response" where
  "refreshed_response E idToken expiry =
     (base_response ''ok'')\<lparr>rs_Refreshed := Some True, rs_Token := idToken, rs_Expiry := expiry,
       rs_Message := ''Token refreshed, expires '' @ en_rfc3339 E expiry\<rparr>"

definition handleRefresh :: "senv \<Rightarrow> Request \<Rightarrow> Server \<Rightarrow> Response \<times> Server" where
  "handleRefresh E req s =
     (let cacheKey = rq_CacheKey req in
      if cacheKey = [] then (errorResponse ''cache_key is required'', s)
      else if \<not> IsValidCacheKey cacheKey then (errorResponse ''invalid cache_key: must be hex string'', s)
      else
        let (found, s1) = (if gm_get (sv_managers s) cacheKey = None then getOrCreateTokenManager E cacheKey req s else (True, s))
        in if \<not> found then
             (errorCodeResponse ErrCodeNeedsLogin ''No token to refresh. Authentication required.''
                ''Run 'kubelogin-daemon login' in a terminal'', s1)
           else
             (case manager_token E cacheKey s1 of
                (Some (t, expiry), s2) \<Rightarrow>
                  if time_Until (en_now E) expiry > 30 * minute
                  then ((base_response ''ok'')\<lparr>rs_Refreshed := Some False,
                          rs_Message := ''Token already valid (expires '' @ en_rfc3339 E expiry @ '')'', rs_Expiry := expiry\<rparr>, s2)
                  else refresh_and_reply E cacheKey (refreshed_response E) s2
              | (None, s2) \<Rightarrow> refresh_and_reply E cacheKey (refreshed_response E) s2))"

section \<open>Shutdown\<close>

definition socket_path :: "Server \<Rightarrow> path" where
  "socket_path s = Path (sv_runtimeDir s) ''sock''"

definition transportCleanup :: "path \<Rightarrow> nat \<Rightarrow> vfs \<Rightarrow> vfs" where
  "transportCleanup p expectedInode w =
     (case file_at w p of
        None \<Rightarrow> w
      | Some n \<Rightarrow> if expectedInode = 0 \<or> n_inode n = expectedInode then os_Remove p w else w)"

definition Shutdown :: "Server \<Rightarrow> Server" where
  "Shutdown s =
     (if sv_shutdown s then s
      else s\<lparr>sv_shutdown := True, sv_listening := False,
             sv_managers := map (\<lambda>(k, m). (k, Stop m)) (sv_managers s),
             sv_fs := os_Remove (Path (sv_runtimeDir s) ''nonce'') (transportCleanup (socket_path s) (sv_socketInode s) (sv_fs s))\<rparr>)"

section \<open>Connections\<close>

text \<open>\<open>verifyPeerUID\<close> on the answer of the kernel (\<open>SO_PEERCRED\<close>).\<close>

definition verifyPeerUID :: "os_error + nat \<Rightarrow> nat \<Rightarrow> go_error option" where
  "verifyPeerUID cred expectedUID =
     (case cred of
        Inl e \<Rightarrow> Some (Wrap ''getsockopt SO_PEERCRED'' (OsErr e))
      | Inr uid \<Rightarrow>
          if uid \<noteq> expectedUID
          then Some (Err (''peer UID '' @ show_nat uid @ '' does not match expected UID '' @ show_nat expectedUID))
          else None)"

definition dispatch :: "senv \<Rightarrow> Request \<Rightarrow> Server \<Rightarrow> Response \<times> Server" where
  "dispatch E req s =
     (let c = rq_Command req in
      if c = ''get-token'' then handleGetToken E req s
      else if c = ''store-token'' then handleStoreToken E req s
      else if c = ''begin-login'' then handleBeginLogin E req s
      else if c = ''cancel-login'' then handleCancelLogin E req s
      else if c = ''check'' then handleCheck E req s
      else if c = ''refresh'' then handleRefresh E req s
      else if c = ''health'' then handleHealth E s
      else if c = ''shutdown'' then (base_response ''ok'', Shutdown s)
      else (errorResponse (''unknown command: '' @ c), s))"

text \<open>No response means that the connection is closed without one.\<close>

definition handleConnection :: "senv \<Rightarrow> os_error + nat \<Rightarrow> string \<Rightarrow> Server \<Rightarrow> Response option \<times> Server" where
  "handleConnection E cred input s =
     (case verifyPeerUID cred (sv_uid s) of
        Some _ \<Rightarrow> (None, s)
      | None \<Rightarrow>
          (case decode_request input of
             Inl err \<Rightarrow> (Some (errorResponse (''invalid request: '' @ Error err)), s)
           | Inr (req, rest) \<Rightarrow>
               if TrimSpace rest \<noteq> [] then (Some (errorResponse ''trailing data after JSON request''), s)
               else if rq_Nonce req \<noteq> sv_nonce s
               then (Some (errorResponse ''invalid nonce: daemon identity verification failed''), s)
               else
                 let s1 = s\<lparr>sv_lastRequest := to_Unix (en_now E)\<rparr>
                 in if rq_Version req \<noteq> ProtocolVersion
                    then (Some ((base_response ''error'')\<lparr>rs_Error := ''unsupported protocol version '' @ show_int (rq_Version req),
                                  rs_PID := en_pid E\<rparr>), s1)
                    else (let (r, s2) = dispatch E req s1 in (Some r, s2))))"

text \<open>The accept loop's semaphore: a connection is taken while a slot is free, and gives it back.\<close>

definition accept_conn :: "Server \<Rightarrow> bool \<times> Server" where
  "accept_conn s = (if sv_conns s < maxConcurrentConns then (True, s\<lparr>sv_conns := Suc (sv_conns s)\<rparr>) else (False, s))"

definition release_conn :: "Server \<Rightarrow> Server" where
  "release_conn s = s\<lparr>sv_conns := sv_conns s - 1\<rparr>"

section \<open>The idle watcher\<close>

text \<open>The refresh of one manager after a wake-up, with its two changes of state.\<close>

definition wake_refresh :: "senv \<Rightarrow> string \<Rightarrow> Server \<Rightarrow> Server" where
  "wake_refresh E cacheKey s =
     (let s1 = set_state cacheKey StateRefreshing (en_now E) s in
      case refresh_manager E cacheKey s1 of
        (Inl _, s2) \<Rightarrow> set_state cacheKey StateNeedsLogin (en_fin E) s2
      | (Inr _, s2) \<Rightarrow> set_state cacheKey StateValid (en_fin E) s2)"

definition refreshExpiredTokensAfterWake :: "(string \<Rightarrow> senv) \<Rightarrow> gotime \<Rightarrow> Server \<Rightarrow> Server" where
  "refreshExpiredTokensAfterWake E now s =
     fold (\<lambda>key s.
        case manager_token ((E key)\<lparr>en_now := now\<rparr>) key s of
          (None, s1) \<Rightarrow> s1
        | (Some (t, expiry), s1) \<Rightarrow> if time_Until now expiry < 10 * minute then wake_refresh (E key) key s1 else s1)
       (gm_keys (sv_managers s)) s"

record watcher =
  wt_lastTick :: gotime
  wt_tickCount :: "64 word"

text \<open>One tick; the first component tells whether the loop goes on.\<close>

definition idleWatcher_tick :: "(string \<Rightarrow> senv) \<Rightarrow> gotime \<Rightarrow> watcher \<times> Server \<Rightarrow> bool \<times> (watcher \<times> Server)" where
  "idleWatcher_tick E now ws =
     (let (wt, s) = ws;
          drift = time_Sub now (wt_lastTick wt);
          wt1 = wt\<lparr>wt_lastTick := now, wt_tickCount := wt_tickCount wt + 1\<rparr>;
          gone = (sv_socketInode s \<noteq> 0 \<and>
            (case file_at (sv_fs s) (socket_path s) of None \<Rightarrow> True | Some n \<Rightarrow> n_inode n \<noteq> sv_socketInode s))
      in if gone then (False, (wt1, Shutdown s))
         else
           let s1 = (if drift > 2 * sv_idleCheckTick s then refreshExpiredTokensAfterWake E now s else s);
               s2 = s1\<lparr>sv_states := EvictStale now (sv_states s1)\<rparr>;
               s3 = (if wt_tickCount wt1 mod 60 = 0
                     then s2\<lparr>sv_fs := cleanupStaleTempFiles (sv_runtimeDir s2) now (sv_fs s2)\<rparr> else s2)
           in if sv_idleTimeout s3 > 0 \<and> time_Since now (time_Unix (sv_lastRequest s3)) > sv_idleTimeout s3
              then (False, (wt1, Shutdown s3)) else (True, (wt1, s3)))"

section \<open>Start-up\<close>

definition RuntimeDir :: "string option \<Rightarrow> nat \<Rightarrow> string" where
  "RuntimeDir xdg uid =
     (case xdg of
        Some (c # dir) \<Rightarrow> (c # dir) @ ''/kubelogin-daemon''
      | _ \<Rightarrow> ''/tmp/kubelogin-daemon-'' @ show_nat uid)"

definition hex_encode :: "string \<Rightarrow> string" where
  "hex_encode b = concat (map (\<lambda>c. [hex_digit (byte_of c div 16), hex_digit (byte_of c mod 16)]) b)"

primrec nonce_stage_msg :: "stage \<Rightarrow> string" where
  "nonce_stage_msg StCreate = ''create nonce temp file''"
| "nonce_stage_msg StChmod = ''chmod nonce temp file''"
| "nonce_stage_msg StWrite = ''write nonce temp file''"
| "nonce_stage_msg StSync = ''fsync nonce temp file''"
| "nonce_stage_msg StClose = ''close nonce temp file''"
| "nonce_stage_msg StRename = ''rename nonce file''"

definition nonce_path :: "string \<Rightarrow> path" where
  "nonce_path dir = Path dir ''nonce''"

definition generateNonce :: "faults \<Rightarrow> go_error + string \<Rightarrow> Server \<Rightarrow> go_error option \<times> Server" where
  "generateNonce io rnd s =
     (case rnd of
        Inl e \<Rightarrow> (Some (Wrap ''generate random nonce'' e), s)
      | Inr b \<Rightarrow>
          let s1 = s\<lparr>sv_nonce := hex_encode b\<rparr>
          in case atomic_write io perm600 (Path (sv_runtimeDir s) (''nonce.tmp.'' @ f_tmp io)) (nonce_path (sv_runtimeDir s))
                    (sv_nonce s1) (sv_fs s1) of
               (Some (st, e), w) \<Rightarrow> (Some (Wrap (nonce_stage_msg st) (OsErr e)), s1\<lparr>sv_fs := w\<rparr>)
             | (None, w) \<Rightarrow>
                 (case setPrivatePermissions io (nonce_path (sv_runtimeDir s)) w of
                    (Some e, w') \<Rightarrow> (Some (Wrap ''set nonce file permissions'' (OsErr e)), s1\<lparr>sv_fs := w'\<rparr>)
                  | (None, w') \<Rightarrow> (None, s1\<lparr>sv_fs := w'\<rparr>)))"

text \<open>\<open>setPrivatePermissions\<close> on a directory.\<close>

definition setPrivateDir :: "faults \<Rightarrow> string \<Rightarrow> vfs \<Rightarrow> os_error option \<times> vfs" where
  "setPrivateDir io dir w =
     (case f_harden io of
        Some e \<Rightarrow> (Some e, w)
      | None \<Rightarrow>
          (case gm_get (vf_dirs w) dir of
             None \<Rightarrow> (Some ENOENT, w)
           | Some n \<Rightarrow> (None, w\<lparr>vf_dirs := gm_put dir (n\<lparr>n_perm := perm700\<rparr>) (vf_dirs w)\<rparr>)))"

text \<open>\<open>net.Listen("unix", ...)\<close> creates the socket file; it fails when the path is taken.\<close>

definition transportListen :: "faults \<Rightarrow> path \<Rightarrow> vfs \<Rightarrow> os_error + (nat \<times> vfs)" where
  "transportListen io p w =
     (if file_at w p \<noteq> None then Inl EADDRINUSE
      else case f_create io of
             Some e \<Rightarrow> Inl e
           | None \<Rightarrow> Inr (f_inode io, set_files (gm_put p
               \<lparr>n_kind = Socket, n_data = [], n_perm = 493, n_synced = True, n_uid = f_uid io, n_mtime = f_now io, n_inode = f_inode io\<rparr>
               (vf_files w)) w))"

text \<open>Closing the listener after a failed start.\<close>

definition abort_start :: "Server \<Rightarrow> Server" where
  "abort_start s = s\<lparr>sv_listening := False, sv_fs := transportCleanup (socket_path s) 0 (sv_fs s)\<rparr>"

text \<open>
  \<open>ListenAndServe\<close> up to its accept loop.  \<open>alive\<close> tells which socket, by inode, a process listens on;
  \<open>io1\<close> are the answers for the directory and the bind, \<open>io2\<close> for the socket's mode, \<open>io3\<close> for the nonce.
\<close>

definition ListenAndServe_setup ::
  "(nat \<Rightarrow> bool) \<Rightarrow> faults \<Rightarrow> faults \<Rightarrow> faults \<Rightarrow> go_error + string \<Rightarrow> gotime \<Rightarrow> Server \<Rightarrow> go_error option \<times> Server" where
  "ListenAndServe_setup alive io1 io2 io3 rnd now s =
     (let dir = sv_runtimeDir s; sock = socket_path s in
      if (case gm_get (vf_dirs (sv_fs s)) dir of None \<Rightarrow> False | Some n \<Rightarrow> n_kind n = Symlink)
      then (Some (Err (''runtime dir '' @ dir @ '' is a symlink (possible attack, refusing to start)'')), s)
      else
        let (mk, w1) = os_Mkdir io1 dir (sv_fs s) in
        if mk \<noteq> None \<and> mk \<noteq> Some EEXIST then (Some (Wrap ''create runtime dir'' (OsErr (the mk))), s\<lparr>sv_fs := w1\<rparr>)
        else if (case file_at w1 sock of None \<Rightarrow> False | Some n \<Rightarrow> alive (n_inode n))
        then (Some (Err ''another daemon is already listening''), s\<lparr>sv_fs := w1\<rparr>)
        else
          let w2 = transportCleanup sock 0 w1 in
          (case transportListen io1 sock w2 of
             Inl e \<Rightarrow> (Some (Wrap ''bind'' (OsErr e)), s\<lparr>sv_fs := w2\<rparr>)
           | Inr (inode, w3) \<Rightarrow>
               let s1 = s\<lparr>sv_listening := True, sv_socketInode := inode, sv_fs := w3\<rparr> in
               (case setPrivateDir io1 dir w3 of
                  (Some e, w4) \<Rightarrow> (Some (Wrap ''set runtime dir permissions'' (OsErr e)), abort_start (s1\<lparr>sv_fs := w4\<rparr>))
                | (None, w4) \<Rightarrow>
                    (case validateRuntimeDirSecurity (sv_uid s) dir (gm_get (vf_dirs w4) dir) of
                       Some e \<Rightarrow> (Some (Wrap ''runtime dir security check'' e), abort_start (s1\<lparr>sv_fs := w4\<rparr>))
                     | None \<Rightarrow>
                         (case (if inode \<noteq> 0 then setPrivatePermissions io2 sock w4 else (None, w4)) of
                            (Some e, w5) \<Rightarrow> (Some (Wrap ''set socket permissions'' (OsErr e)), abort_start (s1\<lparr>sv_fs := w5\<rparr>))
                          | (None, w5) \<Rightarrow>
                              (case generateNonce io3 rnd (s1\<lparr>sv_fs := cleanupStaleTempFiles dir now w5\<rparr>) of
                                 (Some e, s2) \<Rightarrow> (Some (Wrap ''generate nonce'' e), abort_start s2)
                               | (None, s2) \<Rightarrow> (None, s2)))))))"

end
