(* ===== verification/ServerInv.thy ===== *)
theory ServerInv
  imports Server
begin

text \<open>
  The invariant of the server and its preservation by every handler, timer callback and tick of the
  watcher: the managers and their count, the states, and the configuration of each manager.
\<close>

section \<open>Invariant\<close>

definition manager_ok :: "string \<Rightarrow> string \<Rightarrow> TokenManager \<Rightarrow> bool" where
  "manager_ok dir k m \<longleftrightarrow> IsValidCacheKey k \<and> tm_persistDir m = dir \<and> tm_cacheKey m = k \<and> tm_current m \<noteq> None \<and>
     tm_refreshMargin m = default_margin \<and> tm_minRefreshInterval m = 10 * second"

definition sv_inv :: "Server \<Rightarrow> bool" where
  "sv_inv s \<longleftrightarrow> gm_wf (sv_managers s) \<and> sv_managerCount s = int (length (sv_managers s)) \<and>
     sv_managerCount s \<le> maxTokenManagers \<and> wf_states (sv_states s) \<and>
     (\<forall>k m. gm_get (sv_managers s) k = Some m \<longrightarrow> manager_ok (sv_runtimeDir s) k m)"

lemma sv_inv_put:
  assumes "sv_inv s" "gm_get (sv_managers s) k \<noteq> None" "manager_ok (sv_runtimeDir s) k m"
  shows "sv_inv (set_manager k m s)"
  using assms gm.length_put_old [of "sv_managers s" k m] gm.invar_put [of "sv_managers s"]
  by (auto simp: sv_inv_def set_manager_def)

lemma sv_inv_new:
  assumes "sv_inv s" "gm_get (sv_managers s) k = None" "sv_managerCount s < maxTokenManagers" "manager_ok (sv_runtimeDir s) k m"
  shows "sv_inv ((set_manager k m s)\<lparr>sv_managerCount := sv_managerCount s + 1\<rparr>)"
  using assms gm.length_put_new [of "sv_managers s" k m] gm.invar_put [of "sv_managers s"]
  by (auto simp: sv_inv_def set_manager_def)

lemma sv_inv_states: "sv_inv s \<Longrightarrow> wf_states sm \<Longrightarrow> sv_inv (s\<lparr>sv_states := sm\<rparr>)"
  by (simp add: sv_inv_def)

lemma sv_inv_wf: "sv_inv s \<Longrightarrow> wf_states (sv_states s)"
  by (simp add: sv_inv_def)

lemma sv_inv_fs [simp]: "sv_inv (s\<lparr>sv_fs := w\<rparr>) \<longleftrightarrow> sv_inv s" "sv_inv (s\<lparr>sv_lastRequest := n\<rparr>) \<longleftrightarrow> sv_inv s"
  by (simp_all add: sv_inv_def)

lemma sv_inv_set_state: "sv_inv s \<Longrightarrow> now \<noteq> 0 \<Longrightarrow> a \<noteq> StateUnset \<Longrightarrow> sv_inv (set_state k a now s)"
  unfolding set_state_def by (blast intro: sv_inv_states wf_SetState sv_inv_wf)

lemma set_state_simps [simp]:
  "sv_managers (set_state k a now s) = sv_managers s" "sv_runtimeDir (set_state k a now s) = sv_runtimeDir s"
  "sv_fs (set_state k a now s) = sv_fs s" "sv_managerCount (set_state k a now s) = sv_managerCount s"
  by (simp_all add: set_state_def)

section \<open>Managers\<close>

lemma manager_ok_ops:
  assumes "manager_ok dir k m"
  shows "manager_ok dir k (SetRefresher r m)" "manager_ok dir k (snd (GetToken now m))"
    "manager_ok dir k (SetInitialToken now i rt e m)" "manager_ok dir k (fst (snd (TM_Refresh E (m, w))))" "manager_ok dir k (Stop m)"
  using assms
  by (auto simp: manager_ok_def SetRefresher_def GetToken_def SetInitialToken_def TM_Refresh_def Stop_def
      scheduleProactiveRefresh_def startPersistWatchdog_def Let_def split: option.split sum.split prod.split)

lemma manager_ok_new:
  "IsValidCacheKey k \<Longrightarrow> manager_ok dir k (SetInitialToken now i rt e (new_manager E dir k req))"
  by (simp add: manager_ok_def new_manager_def NewTokenManager_def SetInitialToken_def scheduleProactiveRefresh_def
      startPersistWatchdog_def Let_def)

lemma manager_ok_job:
  assumes "manager_ok dir k m"
  shows "manager_ok dir k (fst (run_job E j (m, w)))"
proof -
  have r: "manager_ok dir k (fst (refresh_callback E re (m, w)))" for re
    using assms manager_ok_ops(4) [OF assms, of E w]
    by (auto simp: refresh_callback_def manager_ok_def scheduleRetry_def Let_def split: prod.splits sum.splits option.splits)
  have "manager_ok dir k (fst (persistWatchdogCallback E (m, w)))"
    using assms by (simp add: persistWatchdogCallback_def case_prod_beta manager_ok_def)
  with r have "manager_ok dir k (fst (case j of JobProactive entry \<Rightarrow> refresh_callback E (\<lambda>m. Some entry) (m, w)
      | JobRetry n d \<Rightarrow> refresh_callback E tm_current (m, w) | JobWatchdog \<Rightarrow> persistWatchdogCallback E (m, w)))"
    by (simp split: job.split)
  then show ?thesis by (simp add: run_job_def case_prod_beta manager_ok_def)
qed

lemma sv_inv_manager: "sv_inv s \<Longrightarrow> gm_get (sv_managers s) k = Some m \<Longrightarrow> manager_ok (sv_runtimeDir s) k m"
  by (simp add: sv_inv_def)

section \<open>Helpers of the handlers\<close>

lemma inv_manager_token: "sv_inv s \<Longrightarrow> sv_inv (snd (manager_token E k s))"
  using manager_ok_ops(2) [OF sv_inv_manager]
  by (auto simp: manager_token_def case_prod_beta split: option.split intro!: sv_inv_put)

lemma inv_refresh_manager: "sv_inv s \<Longrightarrow> sv_inv (snd (refresh_manager E k s))"
  using manager_ok_ops(4) [OF sv_inv_manager]
  by (auto simp: refresh_manager_def case_prod_beta Let_def split: option.split intro!: sv_inv_put)

lemma inv_refresh_and_reply:
  assumes "sv_inv s" "en_now E \<noteq> 0" "en_fin E \<noteq> 0"
  shows "sv_inv (snd (refresh_and_reply E k reply s))"
proof -
  have "sv_inv (snd (refresh_manager E k (set_state k StateRefreshing (en_now E) s)))"
    by (intro inv_refresh_manager sv_inv_set_state assms) simp
  then show ?thesis using assms(3)
    by (auto simp: refresh_and_reply_def Let_def split: prod.split sum.split intro: sv_inv_set_state)
qed

lemma oldest_manager_Some:
  assumes "oldest_manager ms = Some (k, m)"
  shows "(k, m) \<in> set ms" "\<forall>(k', m') \<in> set ms. LastAccess m \<le> LastAccess m'"
proof -
  let ?step = "\<lambda>(key, m) oldest. case oldest of None \<Rightarrow> Some (key, m)
        | Some (ok, om) \<Rightarrow> if LastAccess m < LastAccess om then Some (key, m) else oldest"
  have "case fold ?step ms acc of
      None \<Rightarrow> ms = [] \<and> acc = None
    | Some (k, m) \<Rightarrow> ((k, m) \<in> set ms \<or> acc = Some (k, m)) \<and> (\<forall>(k', m') \<in> set ms. LastAccess m \<le> LastAccess m') \<and>
        (\<forall>k' m'. acc = Some (k', m') \<longrightarrow> LastAccess m \<le> LastAccess m')" for acc
    by (induction ms arbitrary: acc) (fastforce split: option.splits prod.splits if_splits)+
  from this [of None] assms show "(k, m) \<in> set ms" "\<forall>(k', m') \<in> set ms. LastAccess m \<le> LastAccess m'"
    by (auto simp: oldest_manager_def)
qed

lemma oldest_manager_None: "oldest_manager ms = None \<longleftrightarrow> ms = []"
proof -
  let ?step = "\<lambda>(key, m) oldest. case oldest of None \<Rightarrow> Some (key, m)
        | Some (ok, om) \<Rightarrow> if LastAccess m < LastAccess om then Some (key, m) else oldest"
  have "fold ?step ms acc = None \<longleftrightarrow> ms = [] \<and> acc = None" for acc
    by (induction ms arbitrary: acc) (auto split: option.splits)
  then show ?thesis by (simp add: oldest_manager_def)
qed

lemma inv_evict:
  assumes "sv_inv s" "evictOldestManagerLocked E s = (b, s')"
  shows "sv_inv s'" "b \<Longrightarrow> sv_managerCount s' < maxTokenManagers" "sv_runtimeDir s' = sv_runtimeDir s"
    "\<And>k. gm_get (sv_managers s) k = None \<Longrightarrow> gm_get (sv_managers s') k = None"
proof -
  have "sv_inv s' \<and> (b \<longrightarrow> sv_managerCount s' < maxTokenManagers) \<and> sv_runtimeDir s' = sv_runtimeDir s \<and>
    (\<forall>k. gm_get (sv_managers s) k = None \<longrightarrow> gm_get (sv_managers s') k = None)"
  proof (cases "oldest_manager (sv_managers s)")
    case None
    then show ?thesis using assms by (auto simp: evictOldestManagerLocked_def)
  next
    case (Some p)
    obtain k m where p: "p = (k, m)" by (cases p)
    have wf: "gm_wf (sv_managers s)" using assms(1) by (simp add: sv_inv_def)
    have get: "gm_get (sv_managers s) k \<noteq> None"
      using oldest_manager_Some(1) [of "sv_managers s" k m] Some p gm_get_in_set [OF wf, of k m] by simp
    have len: "Suc (length (gm_del k (sv_managers s))) = length (sv_managers s)"
      using gm.length_del_present [OF wf get] by simp
    have "gm_wf (gm_del k (sv_managers s))" using gm.invar_del [OF wf] .
    then show ?thesis
      using assms Some p len wf_DeleteEntry by (auto simp: evictOldestManagerLocked_def Let_def sv_inv_def split: if_splits)
  qed
  then show "sv_inv s'" "b \<Longrightarrow> sv_managerCount s' < maxTokenManagers" "sv_runtimeDir s' = sv_runtimeDir s"
    "\<And>k. gm_get (sv_managers s) k = None \<Longrightarrow> gm_get (sv_managers s') k = None" by auto
qed

lemma inv_load_or_store:
  assumes "sv_inv s" "sv_managerCount s < maxTokenManagers" "manager_ok (sv_runtimeDir s) k tm"
  shows "sv_inv (load_or_store k tm req s)" "gm_get (sv_managers (load_or_store k tm req s)) k \<noteq> None"
  using assms sv_inv_new manager_ok_ops(1) [OF sv_inv_manager, of s k]
  by (auto simp: load_or_store_def split: option.split intro!: sv_inv_put) (simp_all add: set_manager_def)

lemma inv_getOrCreate:
  assumes "sv_inv s" "IsValidCacheKey k" "getOrCreateTokenManager E k req s = (b, s')"
  shows "sv_inv s'" "b \<Longrightarrow> gm_get (sv_managers s') k \<noteq> None"
proof -
  have "sv_inv s' \<and> (b \<longrightarrow> gm_get (sv_managers s') k \<noteq> None)"
  proof (cases "gm_get (sv_managers s) k")
    case (Some m)
    then show ?thesis using assms sv_inv_put [OF assms(1), of k] manager_ok_ops(1) [OF sv_inv_manager [OF assms(1) Some]]
      by (auto simp: getOrCreateTokenManager_def) (auto simp: set_manager_def)
  next
    case None
    obtain r w where load: "LoadPersistedToken (en_load E) (sv_runtimeDir s) k (sv_fs s) = (r, w)"
      by (cases "LoadPersistedToken (en_load E) (sv_runtimeDir s) k (sv_fs s)")
    show ?thesis
    proof (cases "\<exists>i rt. r = Inr (i, rt) \<and> rt \<noteq> []")
      case False
      then show ?thesis using assms None load by (auto simp: getOrCreateTokenManager_def split: sum.splits)
    next
      case True
      then obtain i rt where r: "r = Inr (i, rt)" "rt \<noteq> []" by blast
      let ?tm = "SetInitialToken (en_now E) i rt (persisted_expiry (en_now E) i) (new_manager E (sv_runtimeDir s) k req)"
      have ok: "manager_ok (sv_runtimeDir s) k ?tm" using assms(2) by (rule manager_ok_new)
      have inv: "sv_inv (s\<lparr>sv_fs := w\<rparr>)" using assms(1) by simp
      show ?thesis
      proof (cases "sv_managerCount s \<ge> maxTokenManagers")
        case False
        then show ?thesis using assms(3) None load r inv_load_or_store [OF inv, of k ?tm req] ok
          by (auto simp: getOrCreateTokenManager_def Let_def)
      next
        case True
        obtain c s2 where ev: "evictOldestManagerLocked E (s\<lparr>sv_fs := w\<rparr>) = (c, s2)"
          by (cases "evictOldestManagerLocked E (s\<lparr>sv_fs := w\<rparr>)")
        note e = inv_evict [OF inv ev]
        have "c \<Longrightarrow> sv_inv (load_or_store k ?tm req s2) \<and> gm_get (sv_managers (load_or_store k ?tm req s2)) k \<noteq> None"
          using inv_load_or_store [OF e(1) e(2), of k ?tm req] ok e(3) by simp
        then show ?thesis using assms(3) None load r True ev e(1)
          by (cases c) (auto simp: getOrCreateTokenManager_def Let_def)
      qed
    qed
  qed
  then show "sv_inv s'" "b \<Longrightarrow> gm_get (sv_managers s') k \<noteq> None" by auto
qed

section \<open>Handlers\<close>

text \<open>The environments considered: the clock is past year 1.\<close>

definition env_ok :: "senv \<Rightarrow> bool" where
  "env_ok E \<longleftrightarrow> en_now E \<noteq> 0 \<and> en_fin E \<noteq> 0"

lemma inv_GetState: "sv_inv s \<Longrightarrow> sv_inv (s\<lparr>sv_states := snd (GetState k now (sv_states s))\<rparr>)"
  by (simp add: sv_inv_states sv_inv_wf wf_GetState)

lemma inv_handleGetToken:
  assumes "sv_inv s" "env_ok E"
  shows "sv_inv (snd (handleGetToken E req s))"
proof -
  let ?k = "rq_CacheKey req" and ?s1 = "s\<lparr>sv_states := snd (GetState (rq_CacheKey req) (en_now E) (sv_states s))\<rparr>"
  have s1: "sv_inv ?s1" using assms(1) by (rule inv_GetState)
  obtain b s2 where g: "getOrCreateTokenManager E ?k req ?s1 = (b, s2)" by (cases "getOrCreateTokenManager E ?k req ?s1")
  obtain t s3 where tok: "manager_token E ?k s2 = (t, s3)" by (cases "manager_token E ?k s2")
  show ?thesis
  proof (cases "IsValidCacheKey ?k")
    case False
    then show ?thesis using assms(1) by (simp add: handleGetToken_def Let_def)
  next
    case True
    have s2: "sv_inv s2" using inv_getOrCreate(1) [OF s1 True g] .
    have s3: "sv_inv s3" using inv_manager_token [OF s2, of E ?k] tok by simp
    show ?thesis
      using assms s1 s2 s3 g tok
      by (auto simp: handleGetToken_def serve_token_def Let_def case_prod_beta env_ok_def split: option.split bool.split
          intro!: sv_inv_set_state inv_refresh_and_reply)
  qed
qed

lemma inv_make_room:
  assumes "sv_inv s" "make_room E k s = (room, s1)"
  shows "sv_inv s1" "sv_runtimeDir s1 = sv_runtimeDir s"
    "room \<Longrightarrow> gm_get (sv_managers s1) k = None \<Longrightarrow> sv_managerCount s1 < maxTokenManagers"
  using assms inv_evict [OF assms(1), of E room s1] by (auto simp: make_room_def split: if_splits)

lemma inv_install:
  assumes "sv_inv s" "IsValidCacheKey (rq_CacheKey req)"
    and "gm_get (sv_managers s) (rq_CacheKey req) = None \<Longrightarrow> sv_managerCount s < maxTokenManagers"
  shows "sv_inv (install_token E req expiry s)"
  using sv_inv_new [OF assms(1) _ assms(3) manager_ok_new [OF assms(2)]] sv_inv_put [OF assms(1)]
    manager_ok_ops(1,3) sv_inv_manager [OF assms(1)]
  by (auto simp: install_token_def Let_def split: option.split)

lemma inv_handleStoreToken:
  assumes "sv_inv s" "env_ok E"
  shows "sv_inv (snd (handleStoreToken E req s))"
proof -
  obtain room s1 where r: "make_room E (rq_CacheKey req) s = (room, s1)" by (cases "make_room E (rq_CacheKey req) s")
  note s1 = inv_make_room [OF assms(1) r]
  have "room \<Longrightarrow> IsValidCacheKey (rq_CacheKey req) \<Longrightarrow> sv_inv (install_token E req expiry s1)" for expiry
    using s1 by (intro inv_install) auto
  then show ?thesis using assms(1) r s1(1)
    by (auto simp: handleStoreToken_def Let_def case_prod_beta split: sum.split bool.split
        intro!: sv_inv_states wf_CompleteLogin dest: sv_inv_wf)
qed

lemma inv_handleLogins:
  assumes "sv_inv s" "env_ok E"
  shows "sv_inv (snd (handleBeginLogin E req s))" "sv_inv (snd (handleCancelLogin E req s))"
  using assms wf_BeginLogin [OF sv_inv_wf, of s "en_now E" "rq_CacheKey req"] wf_CancelLogin [OF sv_inv_wf]
  by (auto simp: handleBeginLogin_def handleCancelLogin_def Let_def case_prod_beta env_ok_def intro!: sv_inv_states)

lemma inv_check_state:
  assumes "sv_inv s" "env_ok E"
  shows "sv_inv (snd (check_state E k resp s))"
proof -
  let ?s1 = "s\<lparr>sv_states := snd (GetState k (en_now E) (sv_states s))\<rparr>"
  have "sv_inv ?s1" using assms(1) by (rule inv_GetState)
  moreover have "sv_inv (snd (manager_token E k ?s1))" using calculation by (rule inv_manager_token)
  ultimately show ?thesis using assms(2)
    by (auto simp: check_state_def Let_def case_prod_beta env_ok_def split: AuthState.split option.split intro!: sv_inv_set_state)
qed

lemma inv_handleCheck:
  assumes "sv_inv s" "env_ok E"
  shows "sv_inv (snd (handleCheck E req s))"
  using assms by (auto simp: handleCheck_def Let_def split: option.split sum.split prod.split intro!: inv_check_state)

lemma inv_handleRefresh:
  assumes "sv_inv s" "env_ok E"
  shows "sv_inv (snd (handleRefresh E req s))"
proof -
  let ?k = "rq_CacheKey req"
  obtain b s1 where r: "(if gm_get (sv_managers s) ?k = None then getOrCreateTokenManager E ?k req s else (True, s)) = (b, s1)" by fastforce
  have s1: "IsValidCacheKey ?k \<Longrightarrow> sv_inv s1"
    using r assms(1) inv_getOrCreate(1) [OF assms(1), of ?k E req b s1] by (auto split: if_splits)
  obtain t s2 where tok: "manager_token E ?k s1 = (t, s2)" by (cases "manager_token E ?k s1")
  have "IsValidCacheKey ?k \<Longrightarrow> sv_inv s2" using inv_manager_token [OF s1, of E ?k] tok by simp
  then show ?thesis
    using assms s1 r tok unfolding handleRefresh_def Let_def
    by (auto simp: env_ok_def split: option.split intro!: inv_refresh_and_reply)
qed

lemma inv_handleHealth:
  assumes "sv_inv s"
  shows "sv_inv (snd (handleHealth E s))"
proof (cases "sv_managers s")
  case Nil
  then show ?thesis using assms by (simp add: handleHealth_def Let_def)
next
  case (Cons p rest)
  obtain k m where p: "p = (k, m)" by (cases p)
  then have "gm_get (sv_managers s) k = Some m" using Cons by simp
  then show ?thesis using assms manager_ok_ops(2) [OF sv_inv_manager, of s k m "en_now E"] Cons p
    by (auto simp: handleHealth_def Let_def split: prod.splits option.splits intro!: sv_inv_put)
qed

lemma map_of_Stop: "gm_get (map (\<lambda>(k, m). (k, Stop m)) ms) k = map_option Stop (gm_get ms k)"
  by (induction ms) auto

lemma inv_Shutdown: "sv_inv s \<Longrightarrow> sv_inv (Shutdown s)"
proof -
  have "fst \<circ> (\<lambda>(k :: string, m). (k, Stop m)) = fst" by auto
  then show "sv_inv s \<Longrightarrow> sv_inv (Shutdown s)"
    by (auto simp: Shutdown_def sv_inv_def gm_wf_def map_of_Stop manager_ok_ops(5))
qed

lemma inv_dispatch: "sv_inv s \<Longrightarrow> env_ok E \<Longrightarrow> sv_inv (snd (dispatch E req s))"
  by (simp add: dispatch_def Let_def inv_handleGetToken inv_handleStoreToken inv_handleLogins inv_handleCheck inv_handleRefresh
      inv_handleHealth inv_Shutdown)

lemma inv_handleConnection:
  assumes "sv_inv s" "env_ok E"
  shows "sv_inv (snd (handleConnection E cred input s))"
  using assms inv_dispatch [of "s\<lparr>sv_lastRequest := to_Unix (en_now E)\<rparr>" E]
  by (auto simp: handleConnection_def Let_def case_prod_beta split: option.split sum.split)

section \<open>The watcher\<close>

lemma inv_wake_refresh:
  assumes "sv_inv s" "env_ok E"
  shows "sv_inv (wake_refresh E k s)"
proof -
  have "sv_inv (snd (refresh_manager E k (set_state k StateRefreshing (en_now E) s)))"
    using assms by (intro inv_refresh_manager sv_inv_set_state) (auto simp: env_ok_def)
  then show ?thesis using assms(2)
    by (auto simp: wake_refresh_def Let_def env_ok_def split: prod.split sum.split intro: sv_inv_set_state)
qed

lemma inv_wake_refreshes:
  assumes "sv_inv s" "\<And>k. env_ok (E k)"
  shows "sv_inv (refreshExpiredTokensAfterWake E now s)"
proof -
  have "sv_inv (fold (\<lambda>key s. case manager_token ((E key)\<lparr>en_now := now\<rparr>) key s of
          (None, s1) \<Rightarrow> s1
        | (Some (t, expiry), s1) \<Rightarrow> if time_Until now expiry < 10 * minute then wake_refresh (E key) key s1 else s1) keys s')"
    if "sv_inv s'" for keys s'
    using that
  proof (induction keys arbitrary: s')
    case Nil
    then show ?case by simp
  next
    case (Cons key keys)
    have "sv_inv (snd (manager_token ((E key)\<lparr>en_now := now\<rparr>) key s'))" using Cons.prems by (rule inv_manager_token)
    then show ?case using Cons.IH assms(2)
      by (auto split: prod.split option.split intro!: Cons.IH inv_wake_refresh)
  qed
  then show ?thesis using assms(1) by (simp add: refreshExpiredTokensAfterWake_def)
qed

lemma inv_tick:
  assumes "sv_inv s" "\<And>k. env_ok (E k)" "now \<noteq> 0"
  shows "sv_inv (snd (snd (idleWatcher_tick E now (wt, s))))"
proof -
  define s1 where "s1 = (if time_Sub now (wt_lastTick wt) > 2 * sv_idleCheckTick s then refreshExpiredTokensAfterWake E now s else s)"
  have "sv_inv s1" using assms inv_wake_refreshes by (simp add: s1_def)
  then have "sv_inv (s1\<lparr>sv_states := EvictStale now (sv_states s1)\<rparr>)"
    by (simp add: sv_inv_states sv_inv_wf wf_EvictStale)
  then show ?thesis using assms(1)
    unfolding idleWatcher_tick_def by (auto simp: Let_def s1_def [symmetric] intro!: inv_Shutdown)
qed

section \<open>Reachable states\<close>

text \<open>
  A daemon at work: connections, ticks of the watcher, and callbacks of the managers' timers, in any
  order.
\<close>

inductive srv_step :: "Server \<Rightarrow> Server \<Rightarrow> bool" where
  conn: "srv_step s (snd (handleConnection E cred input s))" if "env_ok E"
| tick: "srv_step s (snd (snd (idleWatcher_tick E now (wt, s))))" if "\<And>k. env_ok (E k)" "now \<noteq> 0"
| timer: "srv_step s ((set_manager k m' s)\<lparr>sv_fs := w\<rparr>)"
    if "gm_get (sv_managers s) k = Some m" "run_job E j (m, sv_fs s) = (m', w)"

inductive srv_reach :: "Server \<Rightarrow> bool" where
  start: "srv_reach ((NewServer now uid dir idle tick w)\<lparr>sv_nonce := n, sv_socketInode := i, sv_listening := True\<rparr>)"
| step: "srv_reach s \<Longrightarrow> srv_step s s' \<Longrightarrow> srv_reach s'"

lemma inv_srv_step: "srv_step s s' \<Longrightarrow> sv_inv s \<Longrightarrow> sv_inv s'"
proof (induction rule: srv_step.induct)
  case (timer s k m E j m' w)
  have "manager_ok (sv_runtimeDir s) k m'"
    using manager_ok_job [OF sv_inv_manager [OF timer(3,1)], of E j "sv_fs s"] timer(2) by simp
  then show ?case using timer by (simp add: sv_inv_put)
qed (simp_all add: inv_handleConnection inv_tick)

text \<open>
  C2: the invariant of the daemon.  Whatever connections, ticks and timer callbacks arrive, the cap on
  token managers holds and the counter equals their number; every key is a valid cache key whose manager
  has a token and writes to its own file in the runtime directory; and the states are well formed.
\<close>

theorem srv_reach_inv:
  assumes "srv_reach s"
  shows "sv_managerCount s = int (length (sv_managers s)) \<and> length (sv_managers s) \<le> 256 \<and> gm_wf (sv_managers s) \<and>
    wf_states (sv_states s) \<and>
    (\<forall>k m. gm_get (sv_managers s) k = Some m \<longrightarrow>
       IsValidCacheKey k \<and> tm_cacheKey m = k \<and> tm_persistDir m = sv_runtimeDir s \<and> tm_current m \<noteq> None)"
proof -
  have "sv_inv s" using assms
  proof (induction rule: srv_reach.induct)
    case (start now uid dir idle tick w n i)
    show ?case by (simp add: sv_inv_def NewServer_def NewStateManager_def maxTokenManagers_def)
  qed (blast intro: inv_srv_step)
  then show ?thesis by (auto simp: sv_inv_def maxTokenManagers_def manager_ok_def)
qed

text \<open>A server and an environment for examples: the directory of \<open>one_dir\<close>, an unreachable provider.\<close>

definition demo_senv :: "gotime \<Rightarrow> senv" where
  "demo_senv now = \<lparr>en_now = now, en_fin = now, en_refresh = (\<lambda>_ _ _. Inl (Err ''oidc discovery'')),
     en_load = no_faults ''1'', en_persist = no_faults ''2'', en_evict = no_faults ''3'', en_rand = 0,
     en_rfc3339 = (\<lambda>_. []), en_pid = 1, en_exe = [], en_logPath = []\<rparr>"

definition demo_server :: Server where
  "demo_server = (NewServer 5 1000 ''/d'' 0 0 one_dir)\<lparr>sv_nonce := ''aa'', sv_socketInode := 9, sv_listening := True\<rparr>"

theorem srv_reach_inv_witness:
  "let s = snd (handleConnection (demo_senv 7) (Inr 1000) ''{}'' demo_server)
   in sv_managerCount s = int (length (sv_managers s)) \<and> length (sv_managers s) \<le> 256 \<and> wf_states (sv_states s)"
proof -
  have "srv_reach (snd (handleConnection (demo_senv 7) (Inr 1000) ''{}'' demo_server))"
    unfolding demo_server_def by (rule srv_reach.step [OF srv_reach.start srv_step.conn]) (simp add: env_ok_def demo_senv_def)
  from srv_reach_inv [OF this] show ?thesis by (simp add: Let_def)
qed

end
