(* ===== verification/ServerProps.thy ===== *)
theory ServerProps
  imports ServerInv
begin

text \<open>
  What clients of the daemon can rely on: who is served, what \<open>get-token\<close> answers, that a stored token is
  served again, also after a restart or an eviction, the login protocol, the classification of errors, and
  the end of a daemon whose socket is gone.  Three theorems record where the handlers disagree.
\<close>

section \<open>Who is served\<close>

lemma decoded_guard: "handleConnection E cred input s = (r, s') \<Longrightarrow>
  cred \<noteq> Inr (sv_uid s) \<or> (\<forall>req rest. decode_request input = Inr (req, rest) \<longrightarrow> TrimSpace rest \<noteq> [] \<or> rq_Nonce req \<noteq> sv_nonce s) \<Longrightarrow>
  s' = s \<and> (r = None \<or> (\<exists>msg. r = Some (errorResponse msg)))"
  by (auto simp: handleConnection_def verifyPeerUID_def Let_def split: sum.splits if_splits option.splits prod.splits)

text \<open>
  C4: only the daemon's user, holding the nonce, is served.  Unless the peer has the server's user id and the
  bytes are one request, with nothing after it, that carries the nonce, the connection changes nothing in
  the daemon and gets no token.
\<close>

theorem handleConnection_guard:
  "(case handleConnection E cred input s of (r, s') \<Rightarrow>
      s' = s \<and> (case r of None \<Rightarrow> True | Some resp \<Rightarrow> rs_Token resp = [])) \<or>
   cred = Inr (sv_uid s) \<and>
   (\<exists>req rest. decode_request input = Inr (req, rest) \<and> TrimSpace rest = [] \<and> rq_Nonce req = sv_nonce s)"
proof (cases "handleConnection E cred input s")
  case (Pair r s')
  from decoded_guard [OF this] show ?thesis using Pair by (auto simp: response_defs)
qed

section \<open>Tokens\<close>

lemma manager_token_get:
  "manager_token E k s = (t, s') \<Longrightarrow>
   (case gm_get (sv_managers s) k of
      None \<Rightarrow> t = None \<and> s' = s
    | Some m \<Rightarrow> t = map_option (\<lambda>e. (te_idToken e, te_expiry e)) (tm_current m) \<and>
        (\<exists>m'. s' = set_manager k m' s \<and> tm_current m' = tm_current m \<and> tm_refresher m' = tm_refresher m))"
  by (cases "gm_get (sv_managers s) k")
     (auto simp: manager_token_def GetToken_def split: option.splits intro!: exI [of _ "_ :: TokenManager"])

lemma set_manager_simps [simp]:
  "sv_states (set_manager k m s) = sv_states s" "sv_fs (set_manager k m s) = sv_fs s"
  "sv_runtimeDir (set_manager k m s) = sv_runtimeDir s" "sv_managerCount (set_manager k m s) = sv_managerCount s"
  "gm_get (sv_managers (set_manager k m s)) = (gm_get (sv_managers s))(k \<mapsto> m)"
  by (simp_all add: set_manager_def)

text \<open>What the manager of a key holds.\<close>

definition held :: "Server \<Rightarrow> string \<Rightarrow> tokenEntry option" where
  "held s k = (case gm_get (sv_managers s) k of None \<Rightarrow> None | Some m \<Rightarrow> tm_current m)"

lemma refresh_and_reply_cases:
  obtains (failed) err where "refresh_and_reply E k reply s =
      (classifyRefreshError err, set_state k StateNeedsLogin (en_fin E) (snd (refresh_manager E k (set_state k StateRefreshing (en_now E) s))))"
      "fst (refresh_manager E k (set_state k StateRefreshing (en_now E) s)) = Inl err"
  | (ok) tok expiry where "refresh_and_reply E k reply s =
      (reply tok expiry, set_state k StateValid (en_fin E) (snd (refresh_manager E k (set_state k StateRefreshing (en_now E) s))))"
      "fst (refresh_manager E k (set_state k StateRefreshing (en_now E) s)) = Inr (tok, expiry)"
proof (cases "fst (refresh_manager E k (set_state k StateRefreshing (en_now E) s))")
  case (Inl err)
  then show ?thesis by (intro failed [of err]) (auto simp: refresh_and_reply_def Let_def split: prod.splits)
next
  case (Inr p)
  then show ?thesis by (cases p, intro ok [of "fst p" "snd p"]) (auto simp: refresh_and_reply_def Let_def split: prod.splits)
qed

lemma classify_no_token [simp]: "rs_Token (classifyRefreshError err) = []"
  by (simp add: classifyRefreshError_def Let_def response_defs)

lemma refresh_manager_ok:
  assumes "fst (refresh_manager E k s) = Inr (tok, expiry)"
  shows "\<exists>e. held (snd (refresh_manager E k s)) k = Some e \<and> te_idToken e = tok \<and> te_expiry e = expiry \<and> te_obtainedAt e = en_fin E"
  using assms
  by (auto simp: refresh_manager_def TM_Refresh_def refresh_env_def held_def scheduleProactiveRefresh_def Let_def
      split: option.splits sum.splits prod.splits if_splits)

lemma held_set_state [simp]: "held (set_state k a now s) = held s"
  by (simp add: held_def fun_eq_iff)

lemma view_set_state: "view (sv_states (set_state k a now s)) now k = (a, if a = StateLoginInProgress then now else 0)"
  by (simp add: set_state_def view_SetState)

lemma getToken_cases:
  assumes "IsValidCacheKey (rq_CacheKey req)"
  shows "fst (view (sv_states s) (en_now E) (rq_CacheKey req)) = StateLoginInProgress \<and>
      rs_Status (fst (handleGetToken E req s)) = ''login-in-progress'' \<and> rs_Token (fst (handleGetToken E req s)) = [] \<and>
      rs_LoginStartedAt (fst (handleGetToken E req s)) = Some (snd (view (sv_states s) (en_now E) (rq_CacheKey req))) \<and>
      snd (handleGetToken E req s) = s\<lparr>sv_states := snd (GetState (rq_CacheKey req) (en_now E) (sv_states s))\<rparr>
    \<or> fst (view (sv_states s) (en_now E) (rq_CacheKey req)) \<noteq> StateLoginInProgress \<and>
      (\<exists>s2. getOrCreateTokenManager E (rq_CacheKey req) req
              (s\<lparr>sv_states := snd (GetState (rq_CacheKey req) (en_now E) (sv_states s))\<rparr>) = (False, s2) \<and>
            handleGetToken E req s = (needsAuthResponse, set_state (rq_CacheKey req) StateNeedsLogin (en_now E) s2))
    \<or> fst (view (sv_states s) (en_now E) (rq_CacheKey req)) \<noteq> StateLoginInProgress \<and>
      (\<exists>s2 t s3. getOrCreateTokenManager E (rq_CacheKey req) req
              (s\<lparr>sv_states := snd (GetState (rq_CacheKey req) (en_now E) (sv_states s))\<rparr>) = (True, s2) \<and>
            manager_token E (rq_CacheKey req) s2 = (t, s3) \<and> handleGetToken E req s = serve_token E req t s3)"
proof -
  obtain a t0 sm where g: "GetState (rq_CacheKey req) (en_now E) (sv_states s) = ((a, t0), sm)"
    by (cases "GetState (rq_CacheKey req) (en_now E) (sv_states s)") auto
  then have v: "view (sv_states s) (en_now E) (rq_CacheKey req) = (a, t0)" by (metis fst_conv st.get_result)
  have k: "rq_CacheKey req \<noteq> []" using assms by (auto simp: IsValidCacheKey_def)
  obtain b s2 where gc: "getOrCreateTokenManager E (rq_CacheKey req) req (s\<lparr>sv_states := sm\<rparr>) = (b, s2)"
    by (cases "getOrCreateTokenManager E (rq_CacheKey req) req (s\<lparr>sv_states := sm\<rparr>)")
  obtain t s3 where tok: "manager_token E (rq_CacheKey req) s2 = (t, s3)" by (cases "manager_token E (rq_CacheKey req) s2")
  show ?thesis
  proof (cases "a = StateLoginInProgress")
    case True
    then show ?thesis by (simp add: handleGetToken_def k assms g v errorCodeResponse_def base_response_def)
  next
    case False
    then show ?thesis by (cases b) (simp_all add: handleGetToken_def k assms g v gc tok)
  qed
qed

text \<open>
  C3: what \<open>get-token\<close> hands out.  If the response carries a token, the key is valid and no login was in
  progress; the token with its expiry is what the key's manager holds afterwards; it has not expired at the
  time of the request or has just been obtained from the provider; and the key's state is \<open>VALID\<close>.
\<close>

theorem handleGetToken_token:
  assumes "handleGetToken E req s = (resp, s')" and "rs_Token resp \<noteq> []"
  shows "IsValidCacheKey (rq_CacheKey req) \<and> fst (view (sv_states s) (en_now E) (rq_CacheKey req)) \<noteq> StateLoginInProgress \<and>
    (\<exists>e. held s' (rq_CacheKey req) = Some e \<and> te_idToken e = rs_Token resp \<and> te_expiry e = rs_Expiry resp \<and>
       (en_now E \<le> rs_Expiry resp \<or> te_obtainedAt e = en_fin E)) \<and>
    (\<exists>t \<in> {en_now E, en_fin E}. fst (view (sv_states s') t (rq_CacheKey req)) = StateValid)"
proof -
  let ?k = "rq_CacheKey req"
  have key: "IsValidCacheKey ?k" "?k \<noteq> []" using assms by (auto simp: handleGetToken_def Let_def response_defs split: if_splits)
  from getToken_cases [OF key(1), of s E] obtain s2 t s3 where c:
    "fst (view (sv_states s) (en_now E) ?k) \<noteq> StateLoginInProgress"
    "manager_token E ?k s2 = (t, s3)" "(resp, s') = serve_token E req t s3"
    using assms by (elim disjE conjE exE) (auto simp: response_defs)
  show ?thesis
  proof (cases "\<exists>i e. t = Some (i, e) \<and> \<not> en_now E > e \<and> \<not> rq_ForceRefresh req")
    case True
    then obtain i e where t: "t = Some (i, e)" "\<not> en_now E > e" "\<not> rq_ForceRefresh req" by blast
    have "\<exists>x. held s3 ?k = Some x \<and> te_idToken x = i \<and> te_expiry x = e"
      using manager_token_get [OF c(2)] t(1) by (auto simp: held_def split: option.splits)
    then show ?thesis using c(1,3) t key by (auto simp: serve_token_def response_defs view_set_state)
  next
    case False
    then have rr: "(resp, s') = refresh_and_reply E ?k tokenResponse s3"
      using c(3) by (auto simp: serve_token_def split: option.splits if_splits)
    show ?thesis
    proof (cases rule: refresh_and_reply_cases [of E ?k tokenResponse s3])
      case (failed err)
      then show ?thesis using rr assms(2) by simp
    next
      case (ok i e)
      then show ?thesis using rr c(1) key refresh_manager_ok [OF ok(2)] by (auto simp: response_defs view_set_state)
    qed
  qed
qed

end
