(* ===== verification/ServerFlows.thy ===== *)
theory ServerFlows
  imports ServerProps
begin

text \<open>
  Sequences of requests: a stored token is served again, in the same process and after a restart; a login
  excludes others while it runs; a daemon whose socket is gone or replaced stops.  The last theorems record
  where handlers disagree or step on another daemon's files.
\<close>

section \<open>Tokens that are served again\<close>

lemma get_cached:
  assumes "IsValidCacheKey (rq_CacheKey req)" "gm_get (sv_managers s) (rq_CacheKey req) = Some m" "tm_current m = Some e"
    and "en_now E \<le> te_expiry e" "\<not> rq_ForceRefresh req"
    and "fst (view (sv_states s) (en_now E) (rq_CacheKey req)) \<noteq> StateLoginInProgress"
  shows "fst (handleGetToken E req s) = tokenResponse (te_idToken e) (te_expiry e)"
  using getToken_cases [OF assms(1), of s E] assms
  by (auto simp: getOrCreateTokenManager_def manager_token_def SetRefresher_def GetToken_def serve_token_def)

lemma evict_succeeds: "sv_managers s \<noteq> [] \<Longrightarrow> fst (evictOldestManagerLocked E s)"
  using oldest_manager_None [of "sv_managers s"] by (auto simp: evictOldestManagerLocked_def split: option.split)

lemma get_persisted:
  assumes "IsValidCacheKey (rq_CacheKey req)" "sv_inv s" "gm_get (sv_managers s) (rq_CacheKey req) = None"
    and "LoadPersistedToken (en_load E) (sv_runtimeDir s) (rq_CacheKey req) (sv_fs s) = (Inr (i, rt), w)"
    and "rt \<noteq> []" "i \<noteq> []" "parseTokenExpiry i = Inr e" "en_now E \<le> e" "\<not> rq_ForceRefresh req"
    and "fst (view (sv_states s) (en_now E) (rq_CacheKey req)) \<noteq> StateLoginInProgress"
  shows "fst (handleGetToken E req s) = tokenResponse i e"
proof -
  let ?k = "rq_CacheKey req" and ?s1 = "s\<lparr>sv_states := snd (GetState (rq_CacheKey req) (en_now E) (sv_states s))\<rparr>"
  let ?tm = "SetInitialToken (en_now E) i rt e (new_manager E (sv_runtimeDir s) ?k req)"
  have cur: "tm_current ?tm = Some \<lparr>te_idToken = i, te_refreshToken = rt, te_expiry = e, te_obtainedAt = en_now E\<rparr>"
    by (simp add: SetInitialToken_def startPersistWatchdog_def scheduleProactiveRefresh_def Let_def)
  have "\<exists>s2. getOrCreateTokenManager E ?k req ?s1 = (True, s2) \<and> gm_get (sv_managers s2) ?k = Some ?tm"
  proof (cases "sv_managerCount s \<ge> maxTokenManagers")
    case False
    then show ?thesis using assms(3-7) by (simp add: getOrCreateTokenManager_def persisted_expiry_def load_or_store_def Let_def)
  next
    case True
    let ?s2 = "?s1\<lparr>sv_fs := w\<rparr>"
    have inv: "sv_inv ?s2" using inv_GetState [OF assms(2)] by simp
    have "sv_managers ?s2 \<noteq> []" using True assms(2) by (auto simp: sv_inv_def maxTokenManagers_def)
    with evict_succeeds obtain s3 where ev: "evictOldestManagerLocked E ?s2 = (True, s3)" by (metis prod.collapse)
    have "gm_get (sv_managers s3) ?k = None" using inv_evict(4) [OF inv ev] assms(3) by simp
    with ev show ?thesis using True assms(3-7)
      by (simp add: getOrCreateTokenManager_def persisted_expiry_def load_or_store_def Let_def)
  qed
  then show ?thesis using getToken_cases [OF assms(1), of s E] assms cur
    by (auto simp: manager_token_def GetToken_def serve_token_def)
qed

text \<open>A successful \<open>store-token\<close>.\<close>

lemma store_okE:
  assumes "handleStoreToken E req s = (resp, s')" "rs_Status resp = ''ok''"
  obtains e s1 where "IsValidCacheKey (rq_CacheKey req)" "rq_IDToken req \<noteq> []" "parseTokenExpiry (rq_IDToken req) = Inr e"
    "make_room E (rq_CacheKey req) s = (True, s1)" "resp = tokenResponse (rq_IDToken req) e"
    "s' = (install_token E req e s1)\<lparr>sv_fs := snd (PersistToken (en_persist E) (sv_runtimeDir s1) (rq_CacheKey req) (rq_IDToken req)
        (rq_RefreshToken req) (sv_fs s1)), sv_states := CompleteLogin (rq_CacheKey req) (sv_states s1)\<rparr>"
proof -
  have inst: "sv_runtimeDir (install_token E req e t) = sv_runtimeDir t" "sv_fs (install_token E req e t) = sv_fs t"
    "sv_states (install_token E req e t) = sv_states t" for e t
    by (simp_all add: install_token_def Let_def set_manager_def split: option.split)
  obtain room s1 where "make_room E (rq_CacheKey req) s = (room, s1)" by (cases "make_room E (rq_CacheKey req) s")
  then show ?thesis using assms
    by (cases room)
       (auto simp: handleStoreToken_def Let_def case_prod_beta response_defs inst split: if_splits sum.splits intro!: that [of _ s1])
qed

lemma installed:
  "\<exists>m. gm_get (sv_managers (install_token E req e s)) (rq_CacheKey req) = Some m \<and>
     tm_current m = Some \<lparr>te_idToken = rq_IDToken req, te_refreshToken = rq_RefreshToken req, te_expiry = e, te_obtainedAt = en_now E\<rparr> \<and>
     tm_refresher m = refresherFromRequest req"
  by (auto simp: install_token_def Let_def set_manager_def SetRefresher_def SetInitialToken_def startPersistWatchdog_def
      scheduleProactiveRefresh_def new_manager_def NewTokenManager_def split: option.split)

text \<open>
  A stored token is served.  After a successful \<open>store-token\<close>, a \<open>get-token\<close> for the key that does not force
  a refresh and comes before the expiry answers with exactly that token, whatever happened to its file; a
  login that was in progress is over.
\<close>

theorem store_then_get:
  assumes "handleStoreToken E req s = (resp, s1)" and "rs_Status resp = ''ok''"
    and "rq_CacheKey req' = rq_CacheKey req" and "\<not> rq_ForceRefresh req'" and "en_now E' \<le> rs_Expiry resp"
  shows "fst (handleGetToken E' req' s1) = tokenResponse (rq_IDToken req) (rs_Expiry resp) \<and>
    view (sv_states s1) now (rq_CacheKey req) = (StateValid, 0)"
proof -
  from assms(1,2) obtain e t where s: "IsValidCacheKey (rq_CacheKey req)" "resp = tokenResponse (rq_IDToken req) e"
    "s1 = (install_token E req e t)\<lparr>sv_fs := snd (PersistToken (en_persist E) (sv_runtimeDir t) (rq_CacheKey req) (rq_IDToken req)
        (rq_RefreshToken req) (sv_fs t)), sv_states := CompleteLogin (rq_CacheKey req) (sv_states t)\<rparr>"
    by (rule store_okE) blast
  have v: "view (sv_states s1) now (rq_CacheKey req) = (StateValid, 0)" for now by (simp add: s view_CompleteLogin)
  from installed [of E req e t] obtain m where "gm_get (sv_managers s1) (rq_CacheKey req) = Some m"
    "tm_current m = Some \<lparr>te_idToken = rq_IDToken req, te_refreshToken = rq_RefreshToken req, te_expiry = e, te_obtainedAt = en_now E\<rparr>"
    by (auto simp: s(3))
  from get_cached [of req' s1 m, OF _ _ this(2), of E'] this(1) show ?thesis
    using assms(3-5) s(1,2) v by (simp add: response_defs)
qed

text \<open>An example: a token of the issuer that expires nine seconds after the Unix epoch.\<close>

definition demo_token :: string where
  "demo_token = issued_token ''e30'' ''al'' 9 ''sig''"

definition demo_store :: Request where
  "demo_store = zero_request\<lparr>rq_Version := 2, rq_Command := ''store-token'', rq_CacheKey := ''ab'', rq_IDToken := demo_token,
     rq_RefreshToken := ''r''\<rparr>"

lemma length_to_sextets: "length (to_sextets xs) \<le> 2 * length xs"
  by (induction xs rule: to_sextets.induct) auto

lemma length_base64: "length (base64URLEncode b) \<le> 2 * length b"
  using length_to_sextets [of "map byte_of b"] by (simp add: base64URLEncode_def)

lemma demo_claims: "length (print_json (JObj [(''sub'', JStr ''al''), (''exp'', JNum (show_int 9))])) \<le> 100"
  using length_json_quote [of "''sub''"] length_json_quote [of "''al''"] length_json_quote [of "''exp''"]
  by (simp add: show_int_def show_nat.simps)

lemma demo_token_ok: "demo_token \<noteq> []" "length demo_token \<le> 210" "parseTokenExpiry demo_token = Inr (time_Unix 9)"
proof -
  show "demo_token \<noteq> []" by (simp add: demo_token_def issued_token_def)
  show "length demo_token \<le> 210"
    using length_base64 [of "print_json (JObj [(''sub'', JStr ''al''), (''exp'', JNum (show_int 9))])"] demo_claims
    by (simp add: demo_token_def issued_token_def del: print_json.simps)
  show "parseTokenExpiry demo_token = Inr (time_Unix 9)"
    using DecodeWithoutVerify_issued [of "''e30''" "''al''" 9 "''sig''"]
    by (auto simp: demo_token_def ascii_def byte_of_def int64_def time_Unix_def wrap64_def unix_to_internal_def second_def
        parseTokenExpiry_def IsZero_def)
qed

lemma demo_store_ok:
  "handleStoreToken (demo_senv now) demo_store demo_server =
    (tokenResponse demo_token (time_Unix 9), snd (handleStoreToken (demo_senv now) demo_store demo_server))"
  using demo_token_ok(2)
  by (auto simp: handleStoreToken_def demo_store_def demo_token_ok(1,3) make_room_def demo_server_def NewServer_def maxTokenManagers_def
      maxTokenSize_def Let_def case_prod_beta)

theorem store_then_get_witness:
  "fst (handleGetToken (demo_senv 8) (zero_request\<lparr>rq_CacheKey := ''ab''\<rparr>) (snd (handleStoreToken (demo_senv 7) demo_store demo_server)))
     = tokenResponse demo_token (time_Unix 9)"
  using store_then_get [OF demo_store_ok, of "zero_request\<lparr>rq_CacheKey := ''ab''\<rparr>" "demo_senv 8"]
  by (simp add: response_defs demo_store_def zero_request_def demo_senv_def time_Unix_def wrap64_def unix_to_internal_def second_def)

theorem handleGetToken_token_witness:
  "let s = install_token (demo_senv 7) demo_store (time_Unix 9) demo_server; req = zero_request\<lparr>rq_CacheKey := ''ab''\<rparr>
   in \<exists>e. held (snd (handleGetToken (demo_senv 8) req s)) ''ab'' = Some e \<and> te_idToken e = demo_token"
proof -
  let ?s = "install_token (demo_senv 7) demo_store (time_Unix 9) demo_server" and ?req = "zero_request\<lparr>rq_CacheKey := ''ab''\<rparr>"
  obtain m where m: "gm_get (sv_managers ?s) ''ab'' = Some m" "tm_current m = Some
      \<lparr>te_idToken = demo_token, te_refreshToken = ''r'', te_expiry = time_Unix 9, te_obtainedAt = 7\<rparr>"
    using installed [of "demo_senv 7" demo_store "time_Unix 9" demo_server] by (auto simp: demo_store_def demo_senv_def)
  have "sv_states ?s = []" by (simp add: install_token_def demo_server_def NewServer_def NewStateManager_def set_manager_def Let_def)
  then have "fst (handleGetToken (demo_senv 8) ?req ?s) = tokenResponse demo_token (time_Unix 9)"
    using get_cached [of ?req ?s m _ "demo_senv 8", OF _ _ m(2)] m(1)
    by (simp add: zero_request_def demo_senv_def view_def time_Unix_def wrap64_def unix_to_internal_def second_def)
  moreover obtain resp s' where g: "handleGetToken (demo_senv 8) ?req ?s = (resp, s')" by fastforce
  ultimately show ?thesis
    using handleGetToken_token [OF g] demo_token_ok(1) by (auto simp: response_defs zero_request_def)
qed

section \<open>Restart\<close>

lemma token_path_names [simp]:
  assumes "IsValidCacheKey k"
  shows "token_path d k \<noteq> Path d' ''sock''" "token_path d k \<noteq> nonce_path d'" "token_path d k \<noteq> Path d' (''nonce.tmp.'' @ r)"
proof -
  have "suffix ''.json'' (k @ ''.json'')" by (simp add: suffix_def)
  then have "k @ ''.json'' \<noteq> ''sock'' \<and> k @ ''.json'' \<noteq> ''nonce''" by (auto simp: suffix_def append_eq_Cons_conv)
  moreover have "k @ ''.json'' \<noteq> ''nonce.tmp.'' @ r"
  proof
    assume "k @ ''.json'' = ''nonce.tmp.'' @ r"
    then have "takeWhile (\<lambda>c. c \<noteq> CHR ''.'') (k @ ''.json'') = ''nonce''" by simp
    moreover have "takeWhile (\<lambda>c. c \<noteq> CHR ''.'') (k @ ''.json'') = k"
      using valid_key_no_dot [OF assms] by (induction k) auto
    ultimately have "k = ''nonce''" by simp
    then show False using assms by (simp add: IsValidCacheKey_def is_hex_def byte_in_def byte_of_def)
  qed
  ultimately show "token_path d k \<noteq> Path d' ''sock''" "token_path d k \<noteq> nonce_path d'" "token_path d k \<noteq> Path d' (''nonce.tmp.'' @ r)"
    by (auto simp: token_path_def nonce_path_def)
qed

text \<open>Start-up and shutdown leave the token files alone.\<close>

lemma cleanup_keeps_token:
  assumes "IsValidCacheKey k"
  shows "file_at (cleanupStaleTempFiles dir now w) (token_path dir' k) = file_at w (token_path dir' k)"
proof -
  have "file_at (fold (\<lambda>e w. if stale_temp now e then os_Remove (Path dir (fst e)) w else w) es v) (token_path dir' k)
      = file_at v (token_path dir' k)" for es v
    using token_name_not_temp [OF assms] by (induction es arbitrary: v) (auto simp: stale_temp_def token_path_def)
  then show ?thesis by (simp add: cleanupStaleTempFiles_def)
qed

lemma transportCleanup_at: "p \<noteq> q \<Longrightarrow> file_at (transportCleanup q i w) p = file_at w p"
  by (simp add: transportCleanup_def split: option.split)

lemma Shutdown_keeps_token:
  "IsValidCacheKey k \<Longrightarrow> file_at (sv_fs (Shutdown s)) (token_path d k) = file_at (sv_fs s) (token_path d k)"
  using token_path_names [of k d "sv_runtimeDir s"]
  by (simp add: Shutdown_def transportCleanup_at socket_path_def nonce_path_def)

lemma harden_keeps: "p \<noteq> q \<Longrightarrow> file_at (snd (setPrivatePermissions io q w)) p = file_at w p"
  by (simp add: setPrivatePermissions_def map_node_def set_files_def split: option.split)

lemma nonce_tmp_neq: "Path d (''nonce.tmp.'' @ r) \<noteq> nonce_path d"
  by (simp add: nonce_path_def)

lemma generateNonce_ok:
  assumes "generateNonce io rnd s = (None, s')"
  shows "\<exists>b w. rnd = Inr b \<and> s' = s\<lparr>sv_nonce := hex_encode b, sv_fs := w\<rparr> \<and>
    file_at w (nonce_path (sv_runtimeDir s)) = Some (new_node io perm600 (hex_encode b)) \<and>
    (\<forall>p. p \<noteq> nonce_path (sv_runtimeDir s) \<longrightarrow> file_at w p = file_at (sv_fs s) p)"
proof -
  let ?d = "sv_runtimeDir s"
  from assms obtain b w1 w2 where b: "rnd = Inr b"
    "atomic_write io perm600 (Path ?d (''nonce.tmp.'' @ f_tmp io)) (nonce_path ?d) (hex_encode b) (sv_fs s) = (None, w1)"
    "setPrivatePermissions io (nonce_path ?d) w1 = (None, w2)" "s' = s\<lparr>sv_nonce := hex_encode b, sv_fs := w2\<rparr>"
    by (auto simp: generateNonce_def Let_def split: sum.splits prod.splits option.splits)
  note f = atomic_write_ok [OF nonce_tmp_neq b(2)]
  have "file_at w2 = file_at w1" using harden_new(1) [of w1 "nonce_path ?d" io "hex_encode b" io] f b(3) by simp
  then show ?thesis using b f by auto
qed

lemma ListenAndServe_okE:
  assumes "ListenAndServe_setup alive io1 io2 io3 rnd now s = (None, s')"
  obtains b where "rnd = Inr b" "s' = s\<lparr>sv_listening := True, sv_socketInode := f_inode io1, sv_nonce := hex_encode b, sv_fs := sv_fs s'\<rparr>"
    "file_at (sv_fs s') (nonce_path (sv_runtimeDir s)) = Some (new_node io3 perm600 (hex_encode b))"
    "\<And>k. IsValidCacheKey k \<Longrightarrow> file_at (sv_fs s') (token_path (sv_runtimeDir s) k) = file_at (sv_fs s) (token_path (sv_runtimeDir s) k)"
proof -
  let ?d = "sv_runtimeDir s" and ?sock = "socket_path s"
  obtain mk w1 where mk: "os_Mkdir io1 ?d (sv_fs s) = (mk, w1)" by fastforce
  from assms mk obtain inode w3 w4 w5 where
    l: "transportListen io1 ?sock (transportCleanup ?sock 0 w1) = Inr (inode, w3)" and
    d: "setPrivateDir io1 ?d w3 = (None, w4)" and
    p: "(if inode \<noteq> 0 then setPrivatePermissions io2 ?sock w4 else (None, w4)) = (None, w5)" and
    g: "generateNonce io3 rnd (s\<lparr>sv_listening := True, sv_socketInode := inode, sv_fs := cleanupStaleTempFiles ?d now w5\<rparr>) = (None, s')"
    by (auto simp: ListenAndServe_setup_def Let_def split: if_splits sum.splits prod.splits option.splits)
  have inode: "inode = f_inode io1" and w3: "\<And>q. q \<noteq> ?sock \<Longrightarrow> file_at w3 q = file_at (sv_fs s) q"
    using l mk transportCleanup_at [of _ ?sock 0 w1] file_at_Mkdir(1) [of io1 ?d "sv_fs s"]
    by (auto simp: transportListen_def set_files_def split: if_splits option.splits)
  have w5: "q \<noteq> ?sock \<Longrightarrow> file_at w5 q = file_at (sv_fs s) q" for q
    using d p w3 harden_keeps [of q ?sock io2 w4] by (auto simp: setPrivateDir_def split: option.splits if_splits)
  from generateNonce_ok [OF g] obtain b w where b: "rnd = Inr b"
    "s' = s\<lparr>sv_listening := True, sv_socketInode := inode, sv_nonce := hex_encode b, sv_fs := w\<rparr>"
    "file_at w (nonce_path ?d) = Some (new_node io3 perm600 (hex_encode b))"
    "\<forall>q. q \<noteq> nonce_path ?d \<longrightarrow> file_at w q = file_at (cleanupStaleTempFiles ?d now w5) q" by auto
  show ?thesis
    by (rule that [of b]) (use b inode w5 token_path_names cleanup_keeps_token in \<open>auto simp: socket_path_def\<close>)
qed

lemma Load_no_faults:
  "f_open io = None \<Longrightarrow> f_read io = None \<Longrightarrow> fst (LoadPersistedToken io dir k w) = look_token dir w k"
  by (simp add: look_token_def LoadPersistedToken_def read_fault_def openNoFollow_def no_faults_def Let_def split: option.split sum.split open_error.split os_error.split)

lemma sv_inv_NewServer: "sv_inv (NewServer now uid dir idle tick w)"
  by (simp add: sv_inv_def NewServer_def NewStateManager_def maxTokenManagers_def)

text \<open>
  C1: a token survives a restart.  If \<open>store-token\<close> succeeded and its write to disk did, the daemon then shuts
  down, and a new daemon starts on the same directory, a \<open>get-token\<close> to the new daemon before the expiry is
  answered with the stored token, with no contact to the provider.
\<close>

theorem token_survives_restart:
  assumes "handleStoreToken E req s = (resp, s1)" and "rs_Status resp = ''ok''"
    and "gm_get (sv_managers s) (rq_CacheKey req) \<noteq> None \<or> sv_managerCount s < maxTokenManagers"
    and "fst (PersistToken (en_persist E) (sv_runtimeDir s) (rq_CacheKey req) (rq_IDToken req) (rq_RefreshToken req) (sv_fs s)) = None"
    and "storable (rq_IDToken req) (rq_RefreshToken req)" and "rq_RefreshToken req \<noteq> []"
    and "ListenAndServe_setup alive io1 io2 io3 rnd now
           (NewServer now uid (sv_runtimeDir s) idle tick (sv_fs (Shutdown s1))) = (None, s2)"
    and "rq_CacheKey req' = rq_CacheKey req" and "\<not> rq_ForceRefresh req'" and "en_now E' \<le> rs_Expiry resp"
    and "f_open (en_load E') = None" and "f_read (en_load E') = None"
  shows "fst (handleGetToken E' req' s2) = tokenResponse (rq_IDToken req) (rs_Expiry resp)"
proof -
  let ?k = "rq_CacheKey req" and ?d = "sv_runtimeDir s"
  obtain w where w: "PersistToken (en_persist E) ?d ?k (rq_IDToken req) (rq_RefreshToken req) (sv_fs s) = (None, w)"
    using assms(4) by (metis prod.collapse)
  have room: "make_room E ?k s = (True, s)" using assms(3) by (auto simp: make_room_def)
  from assms(1,2) obtain e where st: "IsValidCacheKey ?k" "rq_IDToken req \<noteq> []" "parseTokenExpiry (rq_IDToken req) = Inr e"
    "resp = tokenResponse (rq_IDToken req) e" "sv_fs s1 = w"
    by (rule store_okE) (use room w in auto)
  from assms(7) obtain b where s2: "s2 = (NewServer now uid ?d idle tick (sv_fs (Shutdown s1)))
      \<lparr>sv_listening := True, sv_socketInode := f_inode io1, sv_nonce := hex_encode b, sv_fs := sv_fs s2\<rparr>"
    "file_at (sv_fs s2) (token_path ?d ?k) = file_at (sv_fs (Shutdown s1)) (token_path ?d ?k)"
    by (rule ListenAndServe_okE) (use st(1) in \<open>simp add: NewServer_def\<close>)
  have inv: "sv_inv s2" using sv_inv_NewServer by (subst s2(1)) (simp add: sv_inv_def NewServer_def)
  have fresh: "gm_get (sv_managers s2) ?k = None" "sv_runtimeDir s2 = ?d" "sv_states s2 = []"
    by (subst s2(1), simp add: NewServer_def NewStateManager_def)+
  have "look_token ?d (sv_fs s2) ?k = look_token ?d w ?k"
    using s2(2) Shutdown_keeps_token [OF st(1)] st(5) by (intro look_token_cong) simp
  also have "\<dots> = Inr (rq_IDToken req, rq_RefreshToken req)" using ts.save_look [OF w assms(5)] .
  finally obtain w' where "LoadPersistedToken (en_load E') ?d ?k (sv_fs s2) = (Inr (rq_IDToken req, rq_RefreshToken req), w')"
    using Load_no_faults [OF assms(11,12), of ?d ?k "sv_fs s2"] by (metis prod.collapse)
  then show ?thesis
    using get_persisted [of req' s2 E' "rq_IDToken req" "rq_RefreshToken req" w' e] st assms(6,8-10) inv fresh
    by (simp add: view_def response_defs)
qed

lemma PersistToken_dirs_eq: "gm_get (vf_dirs w) dir \<noteq> None \<Longrightarrow> vf_dirs (snd (PersistToken io dir k a b w)) = vf_dirs w"
proof (cases rule: PersistToken_cases [of k io dir a b w])
  case (failed st e w1 w2)
  assume "gm_get (vf_dirs w) dir \<noteq> None"
  then show ?thesis using failed vf_dirs_atomic_write [of io perm600 "temp_path dir k (f_tmp io)" "token_path dir k" "token_bytes a b" w1]
    by (auto simp: os_Mkdir_def)
next
  case (written w1 w2)
  assume "gm_get (vf_dirs w) dir \<noteq> None"
  then show ?thesis using written vf_dirs_atomic_write [of io perm600 "temp_path dir k (f_tmp io)" "token_path dir k" "token_bytes a b" w1]
    by (auto simp: os_Mkdir_def)
qed auto

lemma vf_dirs_cleanups [simp]: "vf_dirs (cleanupStaleTempFiles dir now w) = vf_dirs w" "vf_dirs (transportCleanup p i w) = vf_dirs w"
proof -
  have "vf_dirs (fold (\<lambda>e w. if stale_temp now e then os_Remove (Path dir (fst e)) w else w) es v) = vf_dirs v" for es v
    by (induction es arbitrary: v) auto
  then show "vf_dirs (cleanupStaleTempFiles dir now w) = vf_dirs w" by (simp add: cleanupStaleTempFiles_def)
qed (simp add: transportCleanup_def split: option.split)

lemma cleanup_None: "file_at w p = None \<Longrightarrow> file_at (cleanupStaleTempFiles dir now w) p = None"
proof -
  have "file_at v p = None \<Longrightarrow> file_at (fold (\<lambda>e w. if stale_temp now e then os_Remove (Path dir (fst e)) w else w) es v) p = None" for es v
    by (induction es arbitrary: v) auto
  then show "file_at w p = None \<Longrightarrow> file_at (cleanupStaleTempFiles dir now w) p = None" by (simp add: cleanupStaleTempFiles_def)
qed

lemma ListenAndServe_succeeds:
  assumes "gm_get (vf_dirs (sv_fs s)) (sv_runtimeDir s) = Some n" "n_kind n = Directory" "n_uid n = sv_uid s"
    and "\<forall>i. \<not> alive i" "file_at (sv_fs s) (Path (sv_runtimeDir s) (''nonce.tmp.'' @ r)) = None"
    and "file_at (sv_fs s) (nonce_path (sv_runtimeDir s)) = None"
  shows "\<exists>s'. ListenAndServe_setup alive (no_faults r) (no_faults r) (no_faults r) (Inr b) now s = (None, s')"
proof -
  let ?d = "sv_runtimeDir s" and ?io = "no_faults r" and ?tmp = "Path (sv_runtimeDir s) (''nonce.tmp.'' @ r)"
  define w3 where "w3 = set_files (gm_put (socket_path s) \<lparr>n_kind = Socket, n_data = [], n_perm = 493, n_synced = True,
      n_uid = 1000, n_mtime = second, n_inode = 7\<rparr> (vf_files (transportCleanup (socket_path s) 0 (sv_fs s))))
      (transportCleanup (socket_path s) 0 (sv_fs s))"
  define w4 where "w4 = w3\<lparr>vf_dirs := gm_put ?d (n\<lparr>n_perm := perm700\<rparr>) (vf_dirs w3)\<rparr>"
  define w5 where "w5 = map_node (socket_path s) (\<lambda>n. n\<lparr>n_perm := perm600\<rparr>) w4"
  have sock: "file_at (transportCleanup (socket_path s) 0 (sv_fs s)) (socket_path s) = None"
    by (simp add: transportCleanup_def split: option.split)
  have l: "transportListen ?io (socket_path s) (transportCleanup (socket_path s) 0 (sv_fs s)) = Inr (7, w3)"
    by (simp add: transportListen_def sock no_faults_def w3_def)
  have d3: "vf_dirs w3 = vf_dirs (sv_fs s)" by (simp add: w3_def)
  have d: "setPrivateDir ?io ?d w3 = (None, w4)" using assms(1) by (simp add: setPrivateDir_def no_faults_def d3 w4_def)
  have v: "validateRuntimeDirSecurity (sv_uid s) ?d (gm_get (vf_dirs w4) ?d) = None"
    using assms(2,3) by (simp add: w4_def validateRuntimeDirSecurity_def perm700_def)
  have p: "setPrivatePermissions ?io (socket_path s) w4 = (None, w5)" by (simp add: setPrivatePermissions_def no_faults_def w5_def)
  have "file_at w5 p = None" if "file_at (sv_fs s) p = None" "p \<noteq> socket_path s" for p
    using that transportCleanup_at [of p "socket_path s" 0 "sv_fs s"]
    by (simp add: w5_def w4_def w3_def map_node_def set_files_def split: option.split)
  then have t: "file_at (cleanupStaleTempFiles ?d now w5) ?tmp = None" "file_at (cleanupStaleTempFiles ?d now w5) (nonce_path ?d) = None"
    using assms(5,6) by (simp_all add: cleanup_None socket_path_def nonce_path_def)
  have "gm_get (vf_dirs (cleanupStaleTempFiles ?d now w5)) ?d \<noteq> None" by (simp add: w5_def w4_def)
  then obtain w where a: "atomic_write ?io perm600 ?tmp (nonce_path ?d) (hex_encode b) (cleanupStaleTempFiles ?d now w5) = (None, w)"
    using atomic_write_succeeds [of "cleanupStaleTempFiles ?d now w5" ?tmp "nonce_path ?d" ?io perm600 "hex_encode b"] t
    by (auto simp: no_faults_def)
  have g: "\<exists>s'. generateNonce ?io (Inr b) (s\<lparr>sv_listening := True, sv_socketInode := 7, sv_fs := cleanupStaleTempFiles ?d now w5\<rparr>) = (None, s')"
    using a by (simp add: generateNonce_def no_faults_def setPrivatePermissions_def)
  have mk: "os_Mkdir ?io ?d (sv_fs s) = (Some EEXIST, sv_fs s)" using assms(1) by (simp add: os_Mkdir_def)
  from g obtain s' where "generateNonce ?io (Inr b) (s\<lparr>sv_listening := True, sv_socketInode := 7, sv_fs := cleanupStaleTempFiles ?d now w5\<rparr>) = (None, s')" ..
  then show ?thesis using assms(1,2,4) l d v p
    by (simp add: ListenAndServe_setup_def mk Let_def split: option.split)
qed

lemma demo_persisted:
  obtains w where "PersistToken (no_faults ''2'') ''/d'' ''ab'' demo_token ''r'' one_dir = (None, w)" "vf_dirs w = vf_dirs one_dir"
    "\<And>p. p_name p \<noteq> ''ab.json'' \<Longrightarrow> file_at w p = None"
proof -
  obtain w where w: "PersistToken (no_faults ''2'') ''/d'' ''ab'' demo_token ''r'' one_dir = (None, w)"
    using PersistToken_ok [of "''ab''" one_dir "''/d''" "''2''" demo_token "''r''"] by (auto simp: one_dir_def)
  show ?thesis
    using PersistToken_dirs_eq [of one_dir "''/d''" "no_faults ''2''" "''ab''" demo_token "''r''"] PersistToken_written(2) [OF w] w
    by (intro that [of w]) (auto simp: one_dir_def token_path_def)
qed

lemma ascii_base64: "ascii (base64URLEncode b)"
proof -
  have "byte_of (url_char n) < 128" if "n < 64" for n
    using that byte_of_url_char [of n] by auto
  then show ?thesis using to_sextets_range [of "map byte_of b"] by (auto simp: ascii_def base64URLEncode_def list_all_iff)
qed

lemma demo_storable: "storable demo_token ''r''"
  using demo_token_ok(2) ascii_base64 [of "print_json (JObj [(''sub'', JStr ''al''), (''exp'', JNum (show_int 9))])"]
  by (auto simp: storable_def demo_token_def issued_token_def ascii_def byte_of_def simp del: print_json.simps)

theorem token_survives_restart_witness:
  "\<exists>s2. ListenAndServe_setup (\<lambda>_. False) (no_faults ''5'') (no_faults ''5'') (no_faults ''5'') (Inr ''x'') 7
          (NewServer 7 1000 ''/d'' 0 0 (sv_fs (Shutdown (snd (handleStoreToken (demo_senv 7) demo_store demo_server))))) = (None, s2) \<and>
        fst (handleGetToken (demo_senv 8) (zero_request\<lparr>rq_CacheKey := ''ab''\<rparr>) s2) = tokenResponse demo_token (time_Unix 9)"
proof -
  let ?s1 = "snd (handleStoreToken (demo_senv 7) demo_store demo_server)" and ?io = "no_faults ''5''"
  let ?new = "NewServer 7 1000 ''/d'' 0 0 (sv_fs (Shutdown ?s1))"
  obtain w where w: "PersistToken (no_faults ''2'') ''/d'' ''ab'' demo_token ''r'' one_dir = (None, w)"
    "vf_dirs w = vf_dirs one_dir" "\<And>p. p_name p \<noteq> ''ab.json'' \<Longrightarrow> file_at w p = None" by (rule demo_persisted) blast
  have fs1: "sv_fs ?s1 = w"
    using demo_token_ok(2) w(1)
    by (auto simp: handleStoreToken_def demo_store_def demo_token_ok(1,3) make_room_def demo_server_def NewServer_def maxTokenManagers_def
        maxTokenSize_def Let_def demo_senv_def install_token_def set_manager_def)
  have "vf_dirs (sv_fs (Shutdown ?s1)) = vf_dirs one_dir" "file_at (sv_fs (Shutdown ?s1)) (Path ''/d'' (''nonce.tmp.5'')) = None"
    "file_at (sv_fs (Shutdown ?s1)) (nonce_path ''/d'') = None"
    using fs1 w by (auto simp: Shutdown_def transportCleanup_def nonce_path_def split: option.split)
  then obtain s2 where s2: "ListenAndServe_setup (\<lambda>_. False) ?io ?io ?io (Inr ''x'') 7 ?new = (None, s2)"
    using ListenAndServe_succeeds [of ?new _ "\<lambda>_. False" "''5''" "''x''" 7]
    by (auto simp: NewServer_def one_dir_def new_node_def no_faults_def)
  have "fst (handleGetToken (demo_senv 8) (zero_request\<lparr>rq_CacheKey := ''ab''\<rparr>) s2) =
      tokenResponse (rq_IDToken demo_store) (rs_Expiry (tokenResponse demo_token (time_Unix 9)))"
    by (rule token_survives_restart [OF demo_store_ok [of 7]])
       (use s2 w demo_storable in \<open>auto simp: demo_server_def NewServer_def maxTokenManagers_def demo_store_def demo_senv_def response_defs
          zero_request_def no_faults_def time_Unix_def wrap64_def unix_to_internal_def second_def\<close>)
  with s2 show ?thesis by (auto simp: demo_store_def response_defs)
qed

section \<open>A daemon that lost its socket\<close>

lemma Stop_stopped: "tm_stopped (Stop m)"
  by (simp add: Stop_def case_prod_beta Let_def)

text \<open>
  C24: a daemon that was replaced goes away.  At the tick after its socket was removed, or another daemon bound
  its own in its place, the watcher ends and the daemon is shut down: it no longer listens, every manager
  is stopped, and the socket that now stands at the path is left alone, as are the token files.
\<close>

theorem replaced_daemon_stops:
  assumes "sv_socketInode s \<noteq> 0" and "\<not> sv_shutdown s"
    and "case file_at (sv_fs s) (socket_path s) of None \<Rightarrow> True | Some n \<Rightarrow> n_inode n \<noteq> sv_socketInode s"
  shows "case idleWatcher_tick E now (wt, s) of (continues, wt', s') \<Rightarrow>
      \<not> continues \<and> sv_shutdown s' \<and> \<not> sv_listening s' \<and>
      (\<forall>k m. gm_get (sv_managers s') k = Some m \<longrightarrow> tm_stopped m) \<and>
      file_at (sv_fs s') (socket_path s) = file_at (sv_fs s) (socket_path s) \<and>
      (\<forall>k. IsValidCacheKey k \<longrightarrow> file_at (sv_fs s') (token_path (sv_runtimeDir s) k) = file_at (sv_fs s) (token_path (sv_runtimeDir s) k))"
proof -
  have tick: "idleWatcher_tick E now (wt, s) =
      (False, wt\<lparr>wt_lastTick := now, wt_tickCount := wt_tickCount wt + 1\<rparr>, Shutdown s)"
    using assms by (simp add: idleWatcher_tick_def Let_def)
  have "gm_get (map (\<lambda>(k, m). (k, Stop m)) ms) k = map_option Stop (gm_get ms k)" for ms :: "(string, TokenManager) gomap" and k
    by (induction ms) auto
  then have "gm_get (sv_managers (Shutdown s)) k = Some m \<Longrightarrow> tm_stopped m" for k m
    using assms(2) by (auto simp: Shutdown_def Stop_stopped)
  moreover have "file_at (sv_fs (Shutdown s)) (socket_path s) = file_at (sv_fs s) (socket_path s)"
    using assms by (auto simp: Shutdown_def transportCleanup_def socket_path_def split: option.splits)
  moreover have "sv_shutdown (Shutdown s) \<and> \<not> sv_listening (Shutdown s)" using assms(2) by (simp add: Shutdown_def)
  ultimately show ?thesis using Shutdown_keeps_token [of _ s] by (simp add: tick)
qed

theorem replaced_daemon_stops_witness:
  "case idleWatcher_tick (\<lambda>_. demo_senv 9) 9 (\<lparr>wt_lastTick = 5, wt_tickCount = 0\<rparr>, demo_server) of (continues, wt', s') \<Rightarrow> \<not> continues \<and> sv_shutdown s'"
  using replaced_daemon_stops [of demo_server "\<lambda>_. demo_senv 9" 9 "\<lparr>wt_lastTick = 5, wt_tickCount = 0\<rparr>"]
  by (simp add: demo_server_def NewServer_def socket_path_def one_dir_def split: prod.splits)

section \<open>Where \<open>check\<close> and \<open>get-token\<close> disagree\<close>

text \<open>
  \<open>check\<close> can report a token that \<open>get-token\<close> will not give.  For a key whose file holds a valid token but no refresh
  token (what \<open>store-token\<close> writes when the provider issued none) and that has no manager yet, as after
  a restart, \<open>check\<close> answers \<open>ready\<close> in state \<open>VALID\<close> and \<open>get-token\<close> at the same moment asks for a login.
\<close>

theorem check_get_disagree:
  assumes "IsValidCacheKey (rq_CacheKey req)" and "gm_get (sv_managers s) (rq_CacheKey req) = None"
    and "LoadPersistedToken (en_load E) (sv_runtimeDir s) (rq_CacheKey req) (sv_fs s) = (Inr (i, []), w)"
    and "parseTokenExpiry i = Inr e" and "en_now E \<le> e" and "i \<noteq> []"
    and "fst (view (sv_states s) (en_now E) (rq_CacheKey req)) \<noteq> StateLoginInProgress"
  shows "rs_Ready (fst (handleCheck E req s)) = Some True \<and> rs_State (fst (handleCheck E req s)) = ''VALID'' \<and>
    rs_Status (fst (handleGetToken E req s)) = ''needs-auth''"
proof
  have "rq_CacheKey req \<noteq> []" using assms(1) by (auto simp: IsValidCacheKey_def)
  then have "fst (handleCheck E req s) = (base_response ''ok'')\<lparr>rs_DaemonRunning := Some True, rs_Ready := Some True,
      rs_State := ''VALID'', rs_AccessTokenExpiry := Some e, rs_RefreshTokenValid := Some False\<rparr>"
    using assms by (simp add: handleCheck_def check_persisted_def)
  then show "rs_Ready (fst (handleCheck E req s)) = Some True" "rs_State (fst (handleCheck E req s)) = ''VALID'' \<and>
    rs_Status (fst (handleGetToken E req s)) = ''needs-auth''"
    using getToken_cases [OF assms(1), of s E] assms by (auto simp: getOrCreateTokenManager_def response_defs)
qed

theorem check_get_disagree_witness:
  "let req = zero_request\<lparr>rq_CacheKey := ''ab''\<rparr>; io = no_faults ''4'';
       s = demo_server\<lparr>sv_fs := snd (PersistToken io ''/d'' ''ab'' demo_token [] one_dir)\<rparr>
   in rs_Ready (fst (handleCheck (demo_senv 7) req s)) = Some True \<and> rs_Status (fst (handleGetToken (demo_senv 7) req s)) = ''needs-auth''"
proof -
  let ?req = "zero_request\<lparr>rq_CacheKey := ''ab''\<rparr>" and ?io = "no_faults ''4''"
  let ?s = "demo_server\<lparr>sv_fs := snd (PersistToken ?io ''/d'' ''ab'' demo_token [] one_dir)\<rparr>"
  obtain w where w: "PersistToken ?io ''/d'' ''ab'' demo_token [] one_dir = (None, w)"
    using PersistToken_ok [of "''ab''" one_dir "''/d''" "''4''" demo_token "[]"] by (auto simp: one_dir_def)
  have "look_token ''/d'' w ''ab'' = Inr (demo_token, [])"
    using ts.save_look [OF w] demo_storable by (simp add: storable_def ascii_def)
  then obtain w' where "LoadPersistedToken (no_faults ''1'') ''/d'' ''ab'' w = (Inr (demo_token, []), w')"
    using Load_no_faults [of "no_faults ''1''" "''/d''" "''ab''" w] by (metis faults.select_convs(9,10) no_faults_def prod.collapse)
  then show ?thesis
    using check_get_disagree [of ?req ?s "demo_senv 7" demo_token w' "time_Unix 9"] demo_token_ok w
    by (simp add: zero_request_def demo_server_def NewServer_def demo_senv_def view_def NewStateManager_def time_Unix_def wrap64_def
        unix_to_internal_def second_def)
qed

end
