(* ===== verification/LoginLock.thy ===== *)
theory LoginLock
  imports ServerFlows
begin

text \<open>
  The login protocol of the daemon, for requests served one after the other: while a login for a key without a token runs, nobody else starts one and
  \<open>get-token\<close> callers are told to wait, whatever other requests are served.  Then what breaks the lock: a refresh, and a \<open>get-token\<close> that
  is served at the same time.
\<close>

section \<open>The lock\<close>

definition login_held :: "string \<Rightarrow> gotime \<Rightarrow> Server \<Rightarrow> bool" where
  "login_held k t0 s \<longleftrightarrow> gm_get (sv_managers s) k = None \<and>
     gm_get (sv_states s) k = Some \<lparr>se_state = StateLoginInProgress, se_loginStarted = t0\<rparr>"

lemma held_live: "t \<le> t0 + loginInProgressTTL \<Longrightarrow>
    \<not> login_expired t \<lparr>se_state = StateLoginInProgress, se_loginStarted = t0\<rparr>"
  using login_expired_iff [of t "\<lparr>se_state = StateLoginInProgress, se_loginStarted = t0\<rparr>"] by (simp add: age_def)

lemma held_view: "login_held k t0 s \<Longrightarrow> t \<le> t0 + loginInProgressTTL \<Longrightarrow> view (sv_states s) t k = (StateLoginInProgress, t0)"
  by (simp add: login_held_def view_def age_def)

lemma held_fs [simp]:
  "login_held k t0 (s\<lparr>sv_fs := w\<rparr>) = login_held k t0 s" "login_held k t0 (s\<lparr>sv_managerCount := n\<rparr>) = login_held k t0 s"
  "login_held k t0 (s\<lparr>sv_lastRequest := l\<rparr>) = login_held k t0 s"
  by (simp_all add: login_held_def)

lemma lock_set_state: "login_held k t0 s \<Longrightarrow> k' \<noteq> k \<Longrightarrow> login_held k t0 (set_state k' a now s)"
  by (simp add: login_held_def set_state_def SetState_def Let_def)

lemma held_set_manager: "login_held k t0 s \<Longrightarrow> k' \<noteq> k \<Longrightarrow> login_held k t0 (set_manager k' m s)"
  by (simp add: login_held_def)

lemma held_GetState:
  assumes "login_held k t0 s" "now \<le> t0 + loginInProgressTTL"
  shows "login_held k t0 (s\<lparr>sv_states := snd (GetState k' now (sv_states s))\<rparr>)"
  using assms held_live by (auto simp: login_held_def state_ops split: option.split)

lemma held_states_other: "login_held k t0 s \<Longrightarrow> k' \<noteq> k \<Longrightarrow> gm_get sm k = gm_get (sv_states s) k \<Longrightarrow> login_held k t0 (s\<lparr>sv_states := sm\<rparr>)"
  by (simp add: login_held_def)

lemma held_evict: "login_held k t0 s \<Longrightarrow> login_held k t0 (snd (evictOldestManagerLocked E s))"
proof (cases "oldest_manager (sv_managers s)")
  case None
  assume "login_held k t0 s"
  then show ?thesis using None by (simp add: evictOldestManagerLocked_def)
next
  case (Some p)
  assume h: "login_held k t0 s"
  obtain k' m where p: "p = (k', m)" by (cases p)
  have "k' \<noteq> k" using oldest_manager_Some(1) [of "sv_managers s" k' m] Some p h
    by (force simp: login_held_def map_of_eq_None_iff)
  then show ?thesis using h Some p by (simp add: evictOldestManagerLocked_def login_held_def DeleteEntry_def Let_def)
qed

lemma held_load_or_store: "login_held k t0 s \<Longrightarrow> k' \<noteq> k \<Longrightarrow> login_held k t0 (load_or_store k' tm req s)"
  by (auto simp: load_or_store_def held_set_manager split: option.split)

lemma held_getOrCreate:
  assumes "login_held k t0 s" "k' \<noteq> k"
  shows "login_held k t0 (snd (getOrCreateTokenManager E k' req s))"
proof -
  obtain r w where l: "LoadPersistedToken (en_load E) (sv_runtimeDir s) k' (sv_fs s) = (r, w)" by fastforce
  obtain b s2 where e: "evictOldestManagerLocked E (s\<lparr>sv_fs := w\<rparr>) = (b, s2)" by fastforce
  have "login_held k t0 s2" using held_evict [of k t0 "s\<lparr>sv_fs := w\<rparr>" E] assms(1) e by simp
  then show ?thesis using assms l e
    by (cases b) (auto simp: getOrCreateTokenManager_def Let_def held_set_manager held_load_or_store split: option.split sum.split)
qed

lemma held_manager_token: "login_held k t0 s \<Longrightarrow> login_held k t0 (snd (manager_token E k' s))"
  by (cases "k' = k") (auto simp: manager_token_def case_prod_beta login_held_def split: option.split)

lemma held_refresh_manager: "login_held k t0 s \<Longrightarrow> login_held k t0 (snd (refresh_manager E k' s))"
  by (cases "k' = k") (auto simp: refresh_manager_def case_prod_beta Let_def login_held_def split: option.split)

lemma held_refresh_and_reply: "login_held k t0 s \<Longrightarrow> k' \<noteq> k \<Longrightarrow> login_held k t0 (snd (refresh_and_reply E k' reply s))"
  using held_refresh_manager [of k t0 "set_state k' StateRefreshing (en_now E) s" E k']
  by (auto simp: refresh_and_reply_def Let_def lock_set_state split: prod.split sum.split)

lemma held_serve_token: "login_held k t0 s \<Longrightarrow> rq_CacheKey req \<noteq> k \<Longrightarrow> login_held k t0 (snd (serve_token E req t s))"
  by (auto simp: serve_token_def lock_set_state held_refresh_and_reply split: option.split)

section \<open>Handlers keep it\<close>

lemma held_handleGetToken:
  assumes "login_held k t0 s" "en_now E \<le> t0 + loginInProgressTTL"
  shows "login_held k t0 (snd (handleGetToken E req s))"
proof (cases "IsValidCacheKey (rq_CacheKey req)")
  case False
  then show ?thesis using assms(1) by (simp add: handleGetToken_def Let_def)
next
  case True
  let ?s1 = "s\<lparr>sv_states := snd (GetState (rq_CacheKey req) (en_now E) (sv_states s))\<rparr>"
  have s1: "login_held k t0 ?s1" using held_GetState [OF assms] .
  show ?thesis
  proof (cases "rq_CacheKey req = k")
    case key: True
    then show ?thesis using getToken_cases [OF True, of s E] held_view [OF assms] s1 by auto
  next
    case False
    note gc = held_getOrCreate [OF s1 False, of E req]
    from getToken_cases [OF True, of s E] show ?thesis
    proof (elim disjE conjE exE)
      fix s2 assume "getOrCreateTokenManager E (rq_CacheKey req) req ?s1 = (False, s2)"
        "handleGetToken E req s = (needsAuthResponse, set_state (rq_CacheKey req) StateNeedsLogin (en_now E) s2)"
      then show ?thesis using gc False by (simp add: lock_set_state)
    next
      fix s2 t s3 assume "getOrCreateTokenManager E (rq_CacheKey req) req ?s1 = (True, s2)"
        "manager_token E (rq_CacheKey req) s2 = (t, s3)" "handleGetToken E req s = serve_token E req t s3"
      then show ?thesis using gc False held_manager_token [of k t0 s2 E "rq_CacheKey req"] by (simp add: held_serve_token)
    qed (use s1 in simp)
  qed
qed

lemma held_handleStoreToken:
  assumes "login_held k t0 s" "rq_CacheKey req \<noteq> k"
  shows "login_held k t0 (snd (handleStoreToken E req s))"
proof -
  obtain b s1 where m: "make_room E (rq_CacheKey req) s = (b, s1)" by fastforce
  then have "login_held k t0 s1" using assms(1) held_evict [of k t0 s E] by (auto simp: make_room_def split: if_splits)
  then have "login_held k t0 (install_token E req e s1)" for e
    using assms(2) by (auto simp: install_token_def Let_def held_set_manager split: option.split)
  then show ?thesis using assms m \<open>login_held k t0 s1\<close>
    by (cases b) (auto simp: handleStoreToken_def Let_def case_prod_beta CompleteLogin_def split: sum.split
        intro!: held_states_other [of _ _ _ "rq_CacheKey req"])
qed

lemma held_handleLogins:
  assumes "login_held k t0 s" "en_now E \<le> t0 + loginInProgressTTL"
  shows "login_held k t0 (snd (handleBeginLogin E req s))"
    and "rq_CacheKey req \<noteq> k \<Longrightarrow> login_held k t0 (snd (handleCancelLogin E req s))"
  using assms held_live [OF assms(2)]
  by (auto simp: handleBeginLogin_def handleCancelLogin_def login_held_def state_ops split: option.splits)

lemma held_check_state:
  assumes "login_held k t0 s" "en_now E \<le> t0 + loginInProgressTTL"
  shows "login_held k t0 (snd (check_state E k' resp s))"
proof -
  obtain a l sm where g: "GetState k' (en_now E) (sv_states s) = ((a, l), sm)" by (metis prod.collapse)
  let ?s1 = "s\<lparr>sv_states := sm\<rparr>"
  obtain t s2 where m: "manager_token E k' ?s1 = (t, s2)" by fastforce
  have s1: "login_held k t0 ?s1" using held_GetState [OF assms, of k'] g by simp
  then have s2: "login_held k t0 s2" using held_manager_token [of k t0 ?s1 E k'] m by simp
  have "k' = k \<Longrightarrow> a = StateLoginInProgress" using held_view [OF assms] GetState_result [of k "en_now E" "sv_states s"] g by simp
  then have "k' \<noteq> k" if "a = StateValid" using that by auto
  then show ?thesis using s1 s2
    by (cases a) (auto simp: check_state_def g m Let_def lock_set_state split: option.split)
qed

lemma held_handleCheck:
  assumes "login_held k t0 s" "en_now E \<le> t0 + loginInProgressTTL"
  shows "login_held k t0 (snd (handleCheck E req s))"
proof -
  obtain r w where "LoadPersistedToken (en_load E) (sv_runtimeDir s) (rq_CacheKey req) (sv_fs s) = (r, w)" by fastforce
  then show ?thesis using assms held_check_state [of k t0 "s\<lparr>sv_fs := w\<rparr>" E "rq_CacheKey req"] held_check_state [OF assms, of "rq_CacheKey req"]
    by (auto simp: handleCheck_def Let_def split: sum.split option.split)
qed

lemma held_handleRefresh:
  assumes "login_held k t0 s" "rq_CacheKey req \<noteq> k"
  shows "login_held k t0 (snd (handleRefresh E req s))"
proof -
  obtain b s1 where g: "(if gm_get (sv_managers s) (rq_CacheKey req) = None then getOrCreateTokenManager E (rq_CacheKey req) req s
      else (True, s)) = (b, s1)" by fastforce
  obtain t s2 where m: "manager_token E (rq_CacheKey req) s1 = (t, s2)" by fastforce
  have "login_held k t0 s1" using held_getOrCreate [OF assms, of E req] assms(1) g by (auto split: if_splits)
  moreover from this have "login_held k t0 s2" using held_manager_token [of k t0 s1 E "rq_CacheKey req"] m by simp
  ultimately show ?thesis using assms g m
    by (auto simp: handleRefresh_def Let_def held_refresh_and_reply split: option.split)
qed

lemma held_handleHealth: "login_held k t0 s \<Longrightarrow> login_held k t0 (snd (handleHealth E s))"
  by (cases "sv_managers s") (auto simp: handleHealth_def Let_def login_held_def split: prod.split option.split)

lemma held_Shutdown: "login_held k t0 s \<Longrightarrow> login_held k t0 (Shutdown s)"
  by (auto simp: Shutdown_def login_held_def map_of_eq_None_iff image_iff)

text \<open>The requests that may end the login of a key: to store a token, to cancel, and to refresh.\<close>

definition ends_login_req :: "string \<Rightarrow> Request \<Rightarrow> bool" where
  "ends_login_req k req \<longleftrightarrow> rq_CacheKey req = k \<and> rq_Command req \<in> {''store-token'', ''cancel-login'', ''refresh''}"

lemma held_dispatch:
  assumes "login_held k t0 s" "en_now E \<le> t0 + loginInProgressTTL" "\<not> ends_login_req k req"
  shows "login_held k t0 (snd (dispatch E req s))"
  using assms
  by (auto simp: dispatch_def Let_def ends_login_req_def held_handleGetToken held_handleStoreToken held_handleLogins held_handleCheck
      held_handleRefresh held_handleHealth held_Shutdown)

definition serve_all :: "(senv \<times> Request) list \<Rightarrow> Server \<Rightarrow> Server" where
  "serve_all rs s = fold (\<lambda>(E, req) s. snd (dispatch E req s)) rs s"

lemma held_serve_all:
  assumes "login_held k t0 s" "\<forall>(E, req) \<in> set rs. en_now E \<le> t0 + loginInProgressTTL \<and> \<not> ends_login_req k req"
  shows "login_held k t0 (serve_all rs s)"
  using assms by (induction rs arbitrary: s) (auto simp: serve_all_def held_dispatch)

text \<open>
  The login lock, in a daemon that serves one request at a time.  Once \<open>begin-login\<close> for a key without a manager succeeded, and until the five
  minutes of the TTL have passed or the key is refreshed, cancelled or given a token, every \<open>get-token\<close> for it is told that a login is in
  progress and when it began, and every further \<open>begin-login\<close> is refused, whatever other requests are served meanwhile.
\<close>

theorem login_lock:
  assumes "handleBeginLogin E0 req0 s = (resp0, s0)" and "rs_Status resp0 = ''ok''" and "gm_get (sv_managers s) (rq_CacheKey req0) = None"
    and "\<forall>(E, req) \<in> set rs. en_now E \<le> en_now E0 + loginInProgressTTL \<and> \<not> ends_login_req (rq_CacheKey req0) req"
    and "rq_CacheKey req = rq_CacheKey req0" and "en_now E \<le> en_now E0 + loginInProgressTTL"
  shows "rs_Status (fst (handleGetToken E req (serve_all rs s0))) = ''login-in-progress'' \<and>
    rs_LoginStartedAt (fst (handleGetToken E req (serve_all rs s0))) = Some (en_now E0) \<and>
    rs_Status (fst (handleBeginLogin E req (serve_all rs s0))) = ''login-in-progress''"
proof -
  let ?k = "rq_CacheKey req0" and ?t0 = "en_now E0"
  have key: "IsValidCacheKey ?k" "?k \<noteq> []" and "login_held ?k ?t0 s0"
    using assms(1-3) by (auto simp: handleBeginLogin_def login_held_def state_ops response_defs split: if_splits option.splits)
  from held_serve_all [OF this(3) assms(4)] have h: "login_held ?k ?t0 (serve_all rs s0)" .
  have "fst (BeginLogin ?k (en_now E) (sv_states (serve_all rs s0))) = (False, ?t0)"
    using h held_live [OF assms(6)] by (simp add: login_held_def state_ops)
  then have "rs_Status (fst (handleBeginLogin E req (serve_all rs s0))) = ''login-in-progress''"
    using key assms(5) by (auto simp: handleBeginLogin_def response_defs Let_def split: prod.splits)
  then show ?thesis
    using getToken_cases [of req "serve_all rs s0" E] held_view [OF h assms(6)] key assms(5) by auto
qed

theorem login_lock_witness:
  "let s0 = snd (handleBeginLogin (demo_senv 7) (zero_request\<lparr>rq_CacheKey := ''ab''\<rparr>) demo_server);
       s1 = serve_all [(demo_senv 8, demo_store\<lparr>rq_CacheKey := ''cd''\<rparr>)] s0
   in rs_Status (fst (handleGetToken (demo_senv 9) (zero_request\<lparr>rq_CacheKey := ''ab''\<rparr>) s1)) = ''login-in-progress''"
proof -
  let ?req = "zero_request\<lparr>rq_CacheKey := ''ab''\<rparr>"
  have "handleBeginLogin (demo_senv 7) ?req demo_server = ((base_response ''ok'')\<lparr>rs_Message := ''Login started''\<rparr>,
      snd (handleBeginLogin (demo_senv 7) ?req demo_server))"
    by (simp add: handleBeginLogin_def zero_request_def demo_server_def NewServer_def NewStateManager_def state_ops login_expired_def)
  from login_lock [OF this, of "[(demo_senv 8, demo_store\<lparr>rq_CacheKey := ''cd''\<rparr>)]" ?req "demo_senv 9"]
  show ?thesis
    by (simp add: response_defs demo_server_def NewServer_def ends_login_req_def demo_store_def zero_request_def demo_senv_def
        loginInProgressTTL_def minute_def second_def)
qed

section \<open>What breaks it\<close>

text \<open>
  A \<open>refresh\<close> breaks the lock.  For a key that has a manager whose token ends within 30 minutes, a \<open>refresh\<close> request
  overwrites the login in progress, whether or not the refresh succeeds: another \<open>begin-login\<close> is then accepted
  while the first login still runs.
\<close>

theorem refresh_breaks_login:
  assumes "IsValidCacheKey (rq_CacheKey req)" and "gm_get (sv_managers s) (rq_CacheKey req) = Some m" and "tm_current m = Some e"
    and "te_expiry e - en_now E \<le> 30 * minute" and "rq_CacheKey req' = rq_CacheKey req" and "en_now E' = en_fin E"
  shows "rs_Status (fst (handleBeginLogin E' req' (snd (handleRefresh E req s)))) = ''ok''"
proof -
  let ?k = "rq_CacheKey req"
  have k: "?k \<noteq> []" using assms(1) by (auto simp: IsValidCacheKey_def)
  let ?s2 = "set_manager ?k (m\<lparr>tm_lastAccess := to_Unix (en_now E)\<rparr>) s"
  have "\<not> time_Until (en_now E) (te_expiry e) > 30 * minute"
    using time_Sub_gt_iff [of "30 * minute" "te_expiry e" "en_now E"] assms(4) by (simp add: minute_def second_def min_duration_def max_duration_def)
  then have r: "handleRefresh E req s = refresh_and_reply E ?k (refreshed_response E) ?s2"
    using assms(1-3) k by (simp add: handleRefresh_def manager_token_def GetToken_def Let_def)
  have "fst (view (sv_states (snd (handleRefresh E req s))) (en_fin E) ?k) \<noteq> StateLoginInProgress"
    unfolding r by (cases rule: refresh_and_reply_cases [of E ?k "refreshed_response E" ?s2]) (simp_all add: view_set_state)
  then have "fst (BeginLogin ?k (en_fin E) (sv_states (snd (handleRefresh E req s)))) = (True, en_fin E)"
    by (simp add: view_BeginLogin(1))
  then show ?thesis using assms(1,5,6) k by (auto simp: handleBeginLogin_def response_defs Let_def split: prod.splits)
qed

theorem refresh_breaks_login_witness:
  "let req = zero_request\<lparr>rq_CacheKey := ''ab''\<rparr>; s = install_token (demo_senv 7) demo_store 1000 demo_server;
       s1 = snd (handleBeginLogin (demo_senv 8) req s); s2 = snd (handleRefresh (demo_senv 9) req s1)
   in rs_Status (fst (handleBeginLogin (demo_senv 8) req s)) = ''ok'' \<and> rs_Status (fst (handleBeginLogin (demo_senv 9) req s2)) = ''ok''"
proof -
  let ?req = "zero_request\<lparr>rq_CacheKey := ''ab''\<rparr>" and ?s = "install_token (demo_senv 7) demo_store 1000 demo_server"
  let ?s1 = "snd (handleBeginLogin (demo_senv 8) ?req ?s)"
  obtain m where m: "gm_get (sv_managers ?s) ''ab'' = Some m"
    "tm_current m = Some \<lparr>te_idToken = demo_token, te_refreshToken = ''r'', te_expiry = 1000, te_obtainedAt = 7\<rparr>"
    using installed [of "demo_senv 7" demo_store 1000 demo_server] by (auto simp: demo_store_def demo_senv_def)
  have "sv_states ?s = []" by (simp add: install_token_def demo_server_def NewServer_def NewStateManager_def set_manager_def Let_def)
  then have b: "rs_Status (fst (handleBeginLogin (demo_senv 8) ?req ?s)) = ''ok''" "sv_managers ?s1 = sv_managers ?s"
    by (simp_all add: handleBeginLogin_def zero_request_def state_ops login_expired_def response_defs)
  have "rs_Status (fst (handleBeginLogin (demo_senv 9) ?req (snd (handleRefresh (demo_senv 9) ?req ?s1)))) = ''ok''"
    using refresh_breaks_login [of ?req ?s1 m _ "demo_senv 9" ?req "demo_senv 9", OF _ _ m(2)] m(1) b(2)
    by (simp add: zero_request_def demo_senv_def minute_def second_def)
  with b show ?thesis by (simp add: Let_def)
qed

text \<open>
  \<open>handleGetToken\<close> holds no lock from its look at the state machine to its own assignment of the state.  What it does after the look, as a
  step of its own:
\<close>

definition get_token_rest :: "senv \<Rightarrow> Request \<Rightarrow> Server \<Rightarrow> Response \<times> Server" where
  "get_token_rest E req s =
     (case getOrCreateTokenManager E (rq_CacheKey req) req s of
        (False, s2) \<Rightarrow> (needsAuthResponse, set_state (rq_CacheKey req) StateNeedsLogin (en_now E) s2)
      | (True, s2) \<Rightarrow> (case manager_token E (rq_CacheKey req) s2 of (t, s3) \<Rightarrow> serve_token E req t s3))"

definition no_login :: "string \<Rightarrow> StateManager \<Rightarrow> bool" where
  "no_login k sm \<longleftrightarrow> (case gm_get sm k of None \<Rightarrow> True | Some e \<Rightarrow> se_state e \<noteq> StateLoginInProgress)"

lemma no_login_set_state: "a \<noteq> StateLoginInProgress \<Longrightarrow> no_login k (sv_states (set_state k a now s))"
  by (simp add: no_login_def set_state_def SetState_def Let_def)

lemma no_login_GetState: "fst (fst (GetState k now sm)) \<noteq> StateLoginInProgress \<Longrightarrow> no_login k (snd (GetState k now sm))"
  by (auto simp: no_login_def state_ops split: option.splits if_splits)

lemma no_login_begin:
  assumes "no_login k (sv_states s)" "IsValidCacheKey k" "rq_CacheKey req = k"
  shows "rs_Status (fst (handleBeginLogin E req s)) = ''ok''"
    "gm_get (sv_states (snd (handleBeginLogin E req s))) k = Some \<lparr>se_state = StateLoginInProgress, se_loginStarted = en_now E\<rparr>"
proof -
  have "k \<noteq> []" using assms(2) by (auto simp: IsValidCacheKey_def)
  then show "rs_Status (fst (handleBeginLogin E req s)) = ''ok''"
    "gm_get (sv_states (snd (handleBeginLogin E req s))) k = Some \<lparr>se_state = StateLoginInProgress, se_loginStarted = en_now E\<rparr>"
    using assms by (auto simp: handleBeginLogin_def no_login_def state_ops login_expired_def response_defs split: option.splits)
qed

lemma no_login_refresh_and_reply: "no_login k (sv_states (snd (refresh_and_reply E k reply s)))"
  by (cases rule: refresh_and_reply_cases [of E k reply s]) (simp_all add: no_login_set_state)

lemma no_login_rest: "no_login (rq_CacheKey req) (sv_states (snd (get_token_rest E req s)))"
  by (auto simp: get_token_rest_def serve_token_def no_login_set_state no_login_refresh_and_reply split: prod.split option.split bool.split)

text \<open>
  C33: two logins at once.  A \<open>get-token\<close> request that has found no login under way, and has not finished when a \<open>begin-login\<close> for
  the same key is served on another connection, undoes it: whatever \<open>get-token\<close> finds next, it ends by assigning a state of its own, and
  the next \<open>begin-login\<close> is granted too, while the first login, granted with \<open>ok\<close> and within its time, still runs.
\<close>

theorem get_token_race:
  assumes "IsValidCacheKey (rq_CacheKey req)" and "rq_CacheKey req' = rq_CacheKey req"
    and "GetState (rq_CacheKey req) (en_now E) (sv_states s) = ((state, started), sm)" and "state \<noteq> StateLoginInProgress"
    and "handleBeginLogin E' req' (s\<lparr>sv_states := sm\<rparr>) = (resp', s')"
    and "get_token_rest E req s' = (resp, s'')"
  shows "handleGetToken E req s = get_token_rest E req (s\<lparr>sv_states := sm\<rparr>) \<and>
    rs_Status resp' = ''ok'' \<and> gm_get (sv_states s') (rq_CacheKey req) = Some \<lparr>se_state = StateLoginInProgress, se_loginStarted = en_now E'\<rparr> \<and>
    rs_Status (fst (handleBeginLogin E'' req' s'')) = ''ok''"
proof -
  have k: "rq_CacheKey req \<noteq> []" using assms(1) by (auto simp: IsValidCacheKey_def)
  have "no_login (rq_CacheKey req) sm" using no_login_GetState [of "rq_CacheKey req" "en_now E" "sv_states s"] assms(3,4) by simp
  with no_login_begin [of "rq_CacheKey req" "s\<lparr>sv_states := sm\<rparr>" req' E'] assms(1,2,5)
  have "rs_Status resp' = ''ok''" "gm_get (sv_states s') (rq_CacheKey req) = Some \<lparr>se_state = StateLoginInProgress, se_loginStarted = en_now E'\<rparr>"
    by simp_all
  moreover have "rs_Status (fst (handleBeginLogin E'' req' s'')) = ''ok''"
    using no_login_rest [of req E s'] assms(1,2,6) by (intro no_login_begin) simp_all
  moreover have "handleGetToken E req s = get_token_rest E req (s\<lparr>sv_states := sm\<rparr>)"
    using assms(1,3,4) k by (simp add: handleGetToken_def get_token_rest_def Let_def)
  ultimately show ?thesis by simp
qed

theorem get_token_race_witness:
  "let req = zero_request\<lparr>rq_CacheKey := ''ab''\<rparr>; s' = snd (handleBeginLogin (demo_senv 8) req demo_server);
       s'' = snd (get_token_rest (demo_senv 7) req s')
   in rs_Status (fst (handleBeginLogin (demo_senv 8) req demo_server)) = ''ok'' \<and> rs_Status (fst (handleBeginLogin (demo_senv 9) req s'')) = ''ok''"
proof -
  let ?req = "zero_request\<lparr>rq_CacheKey := ''ab''\<rparr>"
  have "GetState ''ab'' 7 (sv_states demo_server) = ((StateNeedsLogin, 0), sv_states demo_server)"
    by (simp add: demo_server_def NewServer_def NewStateManager_def GetState_def)
  moreover have "demo_server\<lparr>sv_states := sv_states demo_server\<rparr> = demo_server" by simp
  ultimately show ?thesis
    using get_token_race [of ?req ?req "demo_senv 7" demo_server StateNeedsLogin 0 "sv_states demo_server" "demo_senv 8" _ _ _ _ "demo_senv 9",
        OF _ _ _ _ prod.collapse [symmetric] prod.collapse [symmetric]]
    by (simp add: zero_request_def demo_senv_def)
qed

end
