(* ===== verification/Log.thy ===== *)
theory Log
  imports Persist
begin

text \<open>
  The daemon's logger (\<open>pkg/daemon/log.go\<close>): the redaction of tokens in every line, with a structural reference
  definition, and the log file with its rotation.
\<close>

section \<open>Redaction\<close>

text \<open>\<open>strings.Index\<close>\<close>

fun str_Index :: "string \<Rightarrow> string \<Rightarrow> nat option" where
  "str_Index [] sub = (if sub = [] then Some 0 else None)"
| "str_Index (c # cs) sub = (if prefix sub (c # cs) then Some 0 else map_option Suc (str_Index cs sub))"

definition jwt_char :: "char \<Rightarrow> bool" where
  "jwt_char c \<longleftrightarrow> byte_of c \<ge> 65 \<and> byte_of c \<le> 90 \<or> byte_of c \<ge> 97 \<and> byte_of c \<le> 122 \<or> byte_of c \<ge> 48 \<and> byte_of c \<le> 57 \<or>
     c = CHR ''-'' \<or> c = CHR ''_'' \<or> c = CHR ''.''"

text \<open>The inner loop of \<open>sanitize\<close>.\<close>

function scan_end :: "string \<Rightarrow> nat \<Rightarrow> nat" where
  "scan_end result fin = (if fin < length result \<and> jwt_char (result ! fin) then scan_end result (fin + 1) else fin)"
  by pat_completeness auto
termination by (relation "measure (\<lambda>(result, fin). length result - fin)") auto

declare scan_end.simps [simp del]

lemma scan_end_eq: "scan_end result i = i + length (takeWhile jwt_char (drop i result))"
proof (induction result i rule: scan_end.induct)
  case (1 result i)
  show ?case
  proof (cases "i < length result")
    case True
    then have "drop i result = result ! i # drop (Suc i) result" by (simp add: Cons_nth_drop_Suc)
    then show ?thesis using 1 True by (subst scan_end.simps) auto
  next
    case False
    then show ?thesis by (subst scan_end.simps) auto
  qed
qed

lemma scan_end_bounds: "fin \<le> scan_end result fin" "fin \<le> length result \<Longrightarrow> scan_end result fin \<le> length result"
  using length_takeWhile_le [of jwt_char "drop fin result"] by (simp_all add: scan_end_eq)

lemma str_Index_Some: "str_Index s sub = Some i \<Longrightarrow> \<exists>r. s = take i s @ sub @ r \<and> i + length sub \<le> length s"
proof (induction s arbitrary: i)
  case Nil
  then show ?case by (simp split: if_splits)
next
  case (Cons c cs)
  show ?case
  proof (cases "prefix sub (c # cs)")
    case True
    then have "i = 0" using Cons.prems by simp
    with True show ?thesis by (auto simp: prefix_def dest: arg_cong [where f = length])
  next
    case False
    then obtain j where j: "str_Index cs sub = Some j" "i = Suc j" using Cons.prems by auto
    from Cons.IH [OF j(1)] obtain r where "cs = take j cs @ sub @ r" "j + length sub \<le> length cs" by blast
    then show ?thesis using j(2) by auto
  qed
qed

text \<open>The outer loop: the text so far and the offset of what is still to be scanned.\<close>

function sanitize_loop :: "string \<Rightarrow> nat \<Rightarrow> string" where
  "sanitize_loop result offset =
     (if offset < length result then
        (case str_Index (drop offset result) ''eyJ'' of
           None \<Rightarrow> result
         | Some i \<Rightarrow>
             let idx = i + offset;
                 fin = scan_end result (idx + 3)
             in if fin - idx > 10
                then sanitize_loop (take idx result @ ''[REDACTED]'' @ drop fin result) (idx + 10)
                else sanitize_loop result fin)
      else result)"
  by pat_completeness auto
termination
proof (relation "measure (\<lambda>(result, offset). length result - offset)")
  fix result :: string and offset i idx fin
  assume *: "offset < length result" "str_Index (drop offset result) ''eyJ'' = Some i" "idx = i + offset" "fin = scan_end result (idx + 3)"
  from str_Index_Some [OF *(2)] have "idx + 3 \<le> length result" using *(1,3) by auto
  then have "idx + 3 \<le> fin" "fin \<le> length result" using scan_end_bounds *(4) by auto
  then show "((take idx result @ ''[REDACTED]'' @ drop fin result, idx + 10), result, offset) \<in> measure (\<lambda>(result, offset). length result - offset)"
    "((result, fin), result, offset) \<in> measure (\<lambda>(result, offset). length result - offset)"
    using *(1,3) by auto
qed simp

declare sanitize_loop.simps [simp del]

definition sanitize :: "string \<Rightarrow> string" where
  "sanitize s = sanitize_loop s 0"

subsection \<open>Reference definition\<close>

text \<open>Left to right: a run that starts with \<open>eyJ\<close> and has more than ten characters is replaced, everything else is kept.\<close>

function redact :: "string \<Rightarrow> string" where
  "redact s =
     (case s of
        [] \<Rightarrow> []
      | c # cs \<Rightarrow>
          if prefix ''eyJ'' s
          then let run = takeWhile jwt_char (drop 3 s) in (if length run > 7 then ''[REDACTED]'' else ''eyJ'' @ run) @ redact (drop (3 + length run) s)
          else c # redact cs)"
  by pat_completeness auto
termination by (relation "measure length") auto

declare redact.simps [simp del]

lemma redact_Nil [simp]: "redact [] = []"
  by (simp add: redact.simps)

lemma redact_skip: "\<not> prefix ''eyJ'' (c # cs) \<Longrightarrow> redact (c # cs) = c # redact cs"
  by (subst redact.simps) auto

lemma takeWhile_run: "list_all jwt_char run \<Longrightarrow> \<not> jwt_char (hd (r @ ''!'')) \<Longrightarrow> takeWhile jwt_char (run @ r) = run"
  by (cases r) (auto simp: list_all_iff)

lemma redact_hit:
  assumes "\<not> jwt_char (hd (r @ ''!''))" "list_all jwt_char run"
  shows "redact (''eyJ'' @ run @ r) = (if length run > 7 then ''[REDACTED]'' else ''eyJ'' @ run) @ redact r"
  by (subst redact.simps) (simp add: Let_def takeWhile_run [OF assms(2,1)] eval_nat_numeral)

lemma takeWhile_split: "s = takeWhile P s @ dropWhile P s" "\<not> P (hd (dropWhile P s @ [x]))" if "\<not> P x"
  using that hd_dropWhile [of P s] by (auto simp: hd_append)

lemma not_jwt_bang [simp]: "\<not> jwt_char (CHR ''!'')" "\<not> jwt_char (CHR ''['')" "\<not> jwt_char (CHR '']'')"
  by (simp_all add: jwt_char_def byte_of_def)

text \<open>Induction along the scan: a text is empty, begins with another character, or with a run of \<open>eyJ\<close>.\<close>

lemma redact_induct [case_names Nil skip hit]:
  assumes "P []" "\<And>c cs. \<not> prefix ''eyJ'' (c # cs) \<Longrightarrow> P cs \<Longrightarrow> P (c # cs)"
    and "\<And>run r. list_all jwt_char run \<Longrightarrow> \<not> jwt_char (hd (r @ ''!'')) \<Longrightarrow> P r \<Longrightarrow> P (''eyJ'' @ run @ r)"
  shows "P s"
proof (induction s rule: length_induct)
  case (1 s)
  show ?case
  proof (cases "prefix ''eyJ'' s")
    case True
    then obtain t where t: "s = ''eyJ'' @ t" by (auto simp: prefix_def)
    let ?r = "dropWhile jwt_char t"
    have "length ?r < length s" using t length_dropWhile_le [of jwt_char t] by simp
    then have "P (''eyJ'' @ takeWhile jwt_char t @ ?r)"
      using 1 takeWhile_split(2) [of jwt_char "CHR ''!''" t] by (intro assms(3)) (auto simp: list_all_iff dest: set_takeWhileD)
    then show ?thesis using t by simp
  next
    case False
    then show ?thesis using 1 assms(1,2) by (cases s) auto
  qed
qed

lemma str_Index_None: "str_Index s ''eyJ'' = None \<Longrightarrow> redact s = s"
proof (induction s)
  case (Cons c cs)
  then have "\<not> prefix ''eyJ'' (c # cs)" "str_Index cs ''eyJ'' = None" by (auto split: if_splits simp del: prefix_code)
  then show ?case using Cons.IH by (simp add: redact_skip del: prefix_code)
qed simp

lemma redact_Index: "str_Index s ''eyJ'' = Some i \<Longrightarrow> redact s = take i s @ redact (drop i s)"
proof (induction s arbitrary: i)
  case Nil
  then show ?case by simp
next
  case (Cons c cs)
  show ?case
  proof (cases "prefix ''eyJ'' (c # cs)")
    case True
    then show ?thesis using Cons.prems by (simp del: prefix_code)
  next
    case False
    then obtain j where "str_Index cs ''eyJ'' = Some j" "i = Suc j" using Cons.prems by (auto simp del: prefix_code)
    then show ?thesis using Cons.IH False by (simp add: redact_skip del: prefix_code)
  qed
qed

lemma loop_redact: "sanitize_loop (p @ s) (length p) = p @ redact s"
proof (induction s arbitrary: p rule: length_induct)
  case (1 s)
  show ?case
  proof (cases "str_Index s ''eyJ''")
    case None
    then show ?thesis by (subst sanitize_loop.simps) (simp add: str_Index_None)
  next
    case (Some i)
    from str_Index_Some [OF Some] obtain t where t: "s = take i s @ ''eyJ'' @ t" and i: "i + 3 \<le> length s" by auto
    define run r where "run = takeWhile jwt_char t" and "r = dropWhile jwt_char t"
    have s: "s = take i s @ ''eyJ'' @ run @ r" using t by (simp add: run_def r_def)
    have d: "drop i s = ''eyJ'' @ run @ r" using arg_cong [OF s, of "drop i"] i by simp
    have run: "list_all jwt_char run" "\<not> jwt_char (hd (r @ ''!''))"
      using takeWhile_split(2) [of jwt_char "CHR ''!''" t] by (auto simp: run_def r_def list_all_iff dest: set_takeWhileD)
    have len: "length s = i + 3 + length run + length r" using arg_cong [OF s, of length] i by simp
    have d3: "drop (i + 3) s = run @ r" using arg_cong [OF d, of "drop 3"] by (simp add: add.commute)
    then have e: "scan_end (p @ s) (i + length p + 3) = i + length p + 3 + length run"
      using takeWhile_run [OF run] by (simp add: scan_end_eq add.commute add.left_commute)
    have dr: "drop (i + 3 + length run) s = r" using arg_cong [OF d3, of "drop (length run)"] by (simp add: algebra_simps)
    have red: "redact s = take i s @ (if length run > 7 then ''[REDACTED]'' else ''eyJ'' @ run) @ redact r"
      using redact_Index [OF Some] redact_hit [OF run(2,1)] d by simp
    have pos: "length p < length (p @ s)" using len by simp
    show ?thesis
    proof (cases "length run > 7")
      case True
      have "sanitize_loop (p @ s) (length p) = sanitize_loop ((p @ take i s @ ''[REDACTED]'') @ r) (i + length p + 10)"
        using pos Some True e dr len by (subst sanitize_loop.simps) (simp add: Let_def algebra_simps)
      moreover have "i + length p + 10 = length (p @ take i s @ ''[REDACTED]'')" using len by simp
      ultimately show ?thesis using 1 [rule_format, of r "p @ take i s @ ''[REDACTED]''"] len True red by simp
    next
      case False
      have "sanitize_loop (p @ s) (length p) = sanitize_loop ((p @ take i s @ ''eyJ'' @ run) @ r) (i + length p + 3 + length run)"
        using pos Some False e len s by (subst sanitize_loop.simps) (simp add: Let_def algebra_simps)
      moreover have "i + length p + 3 + length run = length (p @ take i s @ ''eyJ'' @ run)" using len by simp
      ultimately show ?thesis using 1 [rule_format, of r "p @ take i s @ ''eyJ'' @ run"] len False red by simp
    qed
  qed
qed

subsection \<open>What redaction guarantees\<close>

lemma prefix_redact: "CHR ''['' \<notin> set w \<Longrightarrow> prefix w (redact s) \<Longrightarrow> prefix w s"
proof (induction s arbitrary: w rule: redact_induct)
  case Nil
  then show ?case by simp
next
  case (skip c cs)
  then show ?case by (cases w) (auto simp: redact_skip [OF skip(1)])
next
  case (hit run r)
  show ?case
  proof (cases "length run > 7")
    case True
    then have "prefix w (''[REDACTED]'' @ redact r)" using hit(5) redact_hit [OF hit(2,1)] by simp
    then show ?thesis using hit(4) by (cases w) auto
  next
    case False
    then have "prefix w ((''eyJ'' @ run) @ redact r)" using hit(5) redact_hit [OF hit(2,1)] by simp
    then consider "prefix w (''eyJ'' @ run)" | v where "w = (''eyJ'' @ run) @ v" "prefix v (redact r)"
      by (auto simp only: prefix_append)
    then show ?thesis
    proof cases
      case 1
      then show ?thesis by (metis append_assoc prefix_append)
    next
      case 2
      then show ?thesis using hit(3) [of v] hit(4) by auto
    qed
  qed
qed

lemma redact_head: "\<not> jwt_char (hd (r @ ''!'')) \<Longrightarrow> \<not> jwt_char (hd (redact r @ ''!''))"
proof (cases r)
  case (Cons c cs)
  assume "\<not> jwt_char (hd (r @ ''!''))"
  moreover from this have "\<not> prefix ''eyJ'' r" using Cons by (auto simp: jwt_char_def byte_of_def)
  ultimately show ?thesis using Cons by (simp add: redact_skip)
qed simp

lemma redact_idem: "redact (redact s) = redact s"
proof (induction s rule: redact_induct)
  case (skip c cs)
  have "\<not> prefix ''eyJ'' (c # redact cs)"
    using prefix_redact [of "''eyJ''" "c # cs"] skip(1) by (auto simp: redact_skip [OF skip(1)])
  then show ?case using skip by (simp add: redact_skip)
next
  case (hit run r)
  note h = redact_hit [OF redact_head [OF hit(2)] hit(1)]
  show ?case
  proof (cases "length run > 7")
    case True
    have "redact (''[REDACTED]'' @ t) = ''[REDACTED]'' @ redact t" for t by (simp add: redact_skip)
    then show ?thesis using True hit(3) redact_hit [OF hit(2,1)] by simp
  next
    case False
    then show ?thesis using h hit(3) redact_hit [OF hit(2,1)] by simp
  qed
qed simp

lemma contains_split:
  assumes "contains (u @ v) tok" "list_all P tok" "\<not> P (hd (v @ [x]))"
  shows "contains u tok \<or> contains v tok"
proof -
  from assms(1) obtain a b where ab: "u @ v = a @ tok @ b" by (auto simp: contains_iff)
  show ?thesis
  proof (cases "length u \<ge> length (a @ tok)")
    case True
    then have "take (length u) (a @ tok @ b) = a @ tok @ take (length u - length (a @ tok)) b" by simp
    then have "u = a @ tok @ take (length u - length (a @ tok)) b" using ab by (metis append_eq_conv_conj)
    then show ?thesis by (metis contains_iff)
  next
    case short: False
    show ?thesis
    proof (cases "length u \<le> length a")
      case True
      have "v = drop (length u) a @ tok @ b" using arg_cong [OF ab, of "drop (length u)"] True by simp
      then show ?thesis by (metis contains_iff)
    next
      case False
      let ?n = "length u - length a"
      have n: "?n < length tok" using short False by auto
      have "v = drop (length u) (a @ tok @ b)" using ab by (metis append_eq_conv_conj)
      then have "v = drop ?n tok @ b" using n False by simp
      then have "hd (v @ [x]) = tok ! ?n" using n by (simp add: hd_append hd_drop_conv_nth)
      then show ?thesis using assms(2,3) n by (simp add: list_all_length)
    qed
  qed
qed

lemma contains_length: "contains s tok \<Longrightarrow> length tok \<le> length s"
  by (auto simp: contains_iff)

lemma redact_no_token:
  assumes "prefix ''eyJ'' tok" "list_all jwt_char tok" "length tok > 10"
  shows "\<not> contains (redact s) tok"
proof (induction s rule: redact_induct)
  case Nil
  show ?case using assms(3) by auto
next
  case (skip c cs)
  have "\<not> prefix tok (c # redact cs)"
    using prefix_redact [of "''eyJ''" "c # cs"] prefix_order.trans [OF assms(1)] skip(1) by (fastforce simp: redact_skip [OF skip(1)])
  then show ?case using skip by (simp add: redact_skip)
next
  case (hit run r)
  have "\<not> contains (u @ redact r) tok" if "length u \<le> 10" for u
    using contains_split [OF _ assms(2) redact_head [OF hit(2)], of u] contains_length [of u tok] hit(3) assms(3) that by auto
  then show ?case using redact_hit [OF hit(2,1)] by (simp del: contains.simps append.simps)
qed

text \<open>
  C37: the loop of \<open>sanitize\<close>, which edits the text in place and moves an offset over it, terminates on every
  text and computes the left-to-right replacement: every maximal run that starts with \<open>eyJ\<close> and has more than ten
  characters becomes the marker, and nothing else changes.
\<close>

theorem sanitize_eq_redact: "sanitize s = redact s"
  using loop_redact [of "[]" s] by (simp add: sanitize_def)

text \<open>
  No token reaches the log.  Whatever the message is, the sanitized text contains no string of token
  characters that starts with \<open>eyJ\<close> and has more than ten characters, also none put together by the replacements;
  and sanitizing again changes nothing.
\<close>

theorem sanitize_no_token:
  "\<not> (prefix ''eyJ'' tok \<and> list_all jwt_char tok \<and> length tok > 10 \<and> contains (sanitize s) tok) \<and> sanitize (sanitize s) = sanitize s"
  using redact_no_token [of tok s] redact_idem [of s] loop_redact [of "[]"] by (auto simp: sanitize_def)

section \<open>The log file\<close>

definition MaxLogSize :: nat where "MaxLogSize = 2 ^ 20"

datatype log_file = Stderr | LogFile

record Logger =
  lg_file :: log_file
  lg_path :: path
  lg_verbose :: bool

text \<open>What a logger writes to: the file system and the process's standard error.\<close>

type_synonym log_out = "vfs \<times> string"

definition path_string :: "path \<Rightarrow> string" where
  "path_string p = p_dir p @ ''/'' @ p_name p"

definition path_error :: "string \<Rightarrow> string \<Rightarrow> os_error \<Rightarrow> go_error" where
  "path_error op p e = Err (op @ '' '' @ p @ '': '' @ os_msg e)"

text \<open>\<open>os.OpenFile\<close> with \<open>O_CREATE|O_NOFOLLOW\<close>; the flag tells \<open>O_TRUNC\<close> from \<open>O_APPEND\<close>.\<close>

definition openLogFileNoFollow :: "faults \<Rightarrow> path \<Rightarrow> bool \<Rightarrow> vfs \<Rightarrow> os_error + vfs" where
  "openLogFileNoFollow io p trunc w =
     (case file_at w p of
        Some n \<Rightarrow>
          if n_kind n = Symlink then Inl ELOOP
          else (case f_open io of
                  Some e \<Rightarrow> Inl e
                | None \<Rightarrow> Inr (if trunc then map_node p (\<lambda>n. n\<lparr>n_data := [], n_synced := False\<rparr>) w else w))
      | None \<Rightarrow>
          (case f_create io of
             Some e \<Rightarrow> Inl e
           | None \<Rightarrow> Inr (set_files (gm_put p \<lparr>n_kind = Regular, n_data = [], n_perm = perm600, n_synced = False,
               n_uid = f_uid io, n_mtime = f_now io, n_inode = f_inode io\<rparr> (vf_files w)) w)))"

definition NewLogger :: "faults \<Rightarrow> string \<Rightarrow> bool \<Rightarrow> vfs \<Rightarrow> (go_error + Logger) \<times> vfs" where
  "NewLogger io dir verbose w =
     (if (case gm_get (vf_dirs w) dir of None \<Rightarrow> False | Some n \<Rightarrow> n_kind n = Symlink)
      then (Inl (Err (''log dir '' @ dir @ '' is a symlink (refusing to write)'')), w)
      else
        let (mk, w1) = os_Mkdir io dir w; p = Path dir ''daemon.log'' in
        if mk \<noteq> None \<and> mk \<noteq> Some EEXIST then (Inl (Wrap ''create log dir'' (path_error ''mkdir'' dir (the mk))), w1)
        else if (case file_at w1 p of None \<Rightarrow> False | Some n \<Rightarrow> n_kind n = Symlink)
        then (Inl (Err (''log file '' @ path_string p @ '' is a symlink (refusing to write)'')), w1)
        else (case openLogFileNoFollow io p False w1 of
                Inl e \<Rightarrow> (Inl (Wrap ''open log file'' (path_error ''open'' (path_string p) e)), w1)
              | Inr w2 \<Rightarrow> (Inr \<lparr>lg_file = LogFile, lg_path = p, lg_verbose = verbose\<rparr>, w2)))"

definition NewStderrLogger :: "bool \<Rightarrow> Logger" where
  "NewStderrLogger verbose = \<lparr>lg_file = Stderr, lg_path = Path [] [], lg_verbose = verbose\<rparr>"

definition backup_path :: "path \<Rightarrow> path" where
  "backup_path p = Path (p_dir p) (p_name p @ ''.1'')"

text \<open>\<open>fmt.Fprint\<close> on the logger's file; a failed write to the file is reported on standard error.\<close>

definition log_print :: "faults \<Rightarrow> string \<Rightarrow> Logger \<Rightarrow> log_out \<Rightarrow> os_error option \<times> log_out" where
  "log_print io s lg out =
     (let (w, err) = out in
      case lg_file lg of
        Stderr \<Rightarrow> (None, (w, err @ s))
      | LogFile \<Rightarrow> (let (e, w') = f_Write io (lg_path lg) s w in (e, (w', err))))"

text \<open>The rotation, when the file has outgrown its limit; \<open>f_read\<close> is the answer of \<open>Stat\<close>.\<close>

definition rotate_log :: "faults \<Rightarrow> string \<Rightarrow> Logger \<Rightarrow> log_out \<Rightarrow> Logger \<times> log_out" where
  "rotate_log io ts lg out =
     (let (w, err) = out; p = lg_path lg; backup = backup_path p;
          err1 = (case f_close io of None \<Rightarrow> err
                  | Some e \<Rightarrow> err @ ''kubelogin-daemon: log close before rotate failed: '' @ Error (path_error ''close'' (path_string p) e) @ [CHR 0x0A]);
          w2 = snd (os_Rename io p backup (os_Remove backup w))
      in if (case file_at w2 p of None \<Rightarrow> False | Some n \<Rightarrow> n_kind n = Symlink)
         then (lg\<lparr>lg_file := Stderr\<rparr>,
               (w2, err1 @ ''kubelogin-daemon: log path '' @ path_string p @ '' is a symlink after rotation (refusing)'' @ [CHR 0x0A]))
         else (case openLogFileNoFollow io p True w2 of
                 Inl e \<Rightarrow> (lg\<lparr>lg_file := Stderr\<rparr>,
                   (w2, err1 @ ''kubelogin-daemon: failed to rotate log '' @ path_string p @ '': '' @ Error (path_error ''open'' (path_string p) e) @ [CHR 0x0A]))
               | Inr w3 \<Rightarrow>
                   (lg, snd (log_print io (ts @ '' [INFO] log rotated (previous log: '' @ path_string backup @ '')'' @ [CHR 0x0A]) lg (w3, err1)))))"

definition log_line :: "string \<Rightarrow> string \<Rightarrow> string \<Rightarrow> string" where
  "log_line ts level msg = ts @ '' ['' @ level @ ''] '' @ sanitize msg @ [CHR 0x0A]"

definition log_write :: "faults \<Rightarrow> string \<Rightarrow> string \<Rightarrow> string \<Rightarrow> Logger \<Rightarrow> log_out \<Rightarrow> Logger \<times> log_out" where
  "log_write io ts level msg lg out =
     (let (lg1, out1) =
        (if lg_file lg = Stderr then (lg, out)
         else case file_at (fst out) (lg_path lg) of
                None \<Rightarrow> (lg, out)
              | Some n \<Rightarrow> if f_read io = None \<and> length (n_data n) > MaxLogSize then rotate_log io ts lg out else (lg, out));
          (e, (w, err)) = log_print io (log_line ts level msg) lg1 out1
      in case e of
           None \<Rightarrow> (lg1, (w, err))
         | Some e \<Rightarrow> (lg1, (w, err @ ''kubelogin-daemon: log write failed: '' @ Error (path_error ''write'' (path_string (lg_path lg1)) e) @ [CHR 0x0A])))"

definition Infof :: "faults \<Rightarrow> string \<Rightarrow> string \<Rightarrow> Logger \<Rightarrow> log_out \<Rightarrow> Logger \<times> log_out" where
  "Infof io ts msg lg out = (if lg_verbose lg then log_write io ts ''INFO'' msg lg out else (lg, out))"

definition Warnf :: "faults \<Rightarrow> string \<Rightarrow> string \<Rightarrow> Logger \<Rightarrow> log_out \<Rightarrow> Logger \<times> log_out" where
  "Warnf io ts msg lg out = log_write io ts ''WARN'' msg lg out"

definition log_Errorf :: "faults \<Rightarrow> string \<Rightarrow> string \<Rightarrow> Logger \<Rightarrow> log_out \<Rightarrow> Logger \<times> log_out" where
  "log_Errorf io ts msg lg out = log_write io ts ''ERROR'' msg lg out"

text \<open>A logger on standard error has no path and nothing to close.\<close>

definition FilePath :: "Logger \<Rightarrow> string" where
  "FilePath lg = (if lg_path lg = Path [] [] then [] else path_string (lg_path lg))"

definition Logger_Close :: "faults \<Rightarrow> Logger \<Rightarrow> go_error option" where
  "Logger_Close io lg =
     (if lg_file lg = Stderr then None else map_option (path_error ''close'' (path_string (lg_path lg))) (f_close io))"

lemma backup_neq [simp]: "backup_path p \<noteq> p" "p \<noteq> backup_path p"
  by (cases p; simp add: backup_path_def)+

lemma no_faults_simps [simp]:
  "f_create (no_faults t) = None" "f_write (no_faults t) = None" "f_close (no_faults t) = None" "f_rename (no_faults t) = None"
  "f_open (no_faults t) = None" "f_read (no_faults t) = None"
  by (simp_all add: no_faults_def)

lemma file_at_map_node: "file_at (map_node p f w) = (case file_at w p of None \<Rightarrow> file_at w | Some n \<Rightarrow> (file_at w)(p \<mapsto> f n))"
  by (auto simp: map_node_def set_files_def split: option.split)

lemma log_print_ok: "lg_file lg = LogFile \<Longrightarrow> log_print (no_faults t) s lg (w, err) =
    (None, (map_node (lg_path lg) (\<lambda>n. n\<lparr>n_data := n_data n @ s, n_synced := False\<rparr>) w, err))"
  by (simp add: log_print_def f_Write_def)

lemma rotate_log_ok:
  assumes "lg_file lg = LogFile" "file_at w (lg_path lg) = Some n"
  obtains w' n' where "rotate_log (no_faults t) ts lg (w, err) = (lg, (w', err))"
    "file_at w' = (file_at w)(backup_path (lg_path lg) \<mapsto> n, lg_path lg \<mapsto> n')"
    "n_data n' = ts @ '' [INFO] log rotated (previous log: '' @ path_string (backup_path (lg_path lg)) @ '')'' @ [CHR 0x0A]"
proof -
  let ?p = "lg_path lg" and ?b = "backup_path (lg_path lg)"
  let ?hdr = "ts @ '' [INFO] log rotated (previous log: '' @ path_string ?b @ '')'' @ [CHR 0x0A]"
  let ?fresh = "\<lparr>n_kind = Regular, n_data = [], n_perm = perm600, n_synced = False, n_uid = f_uid (no_faults t),
      n_mtime = f_now (no_faults t), n_inode = f_inode (no_faults t)\<rparr>"
  define w2 where "w2 = snd (os_Rename (no_faults t) ?p ?b (os_Remove ?b w))"
  have w2: "file_at w2 = (file_at w)(?b \<mapsto> n, ?p := None)"
    using assms(2) by (auto simp: w2_def os_Rename_def set_files_def)
  define w3 where "w3 = set_files (gm_put ?p ?fresh (vf_files w2)) w2"
  have op: "openLogFileNoFollow (no_faults t) ?p True w2 = Inr w3" by (simp add: openLogFileNoFollow_def w2 w3_def)
  have w3: "file_at w3 = (file_at w)(?b \<mapsto> n, ?p \<mapsto> ?fresh)" using w2 by (simp add: w3_def set_files_def)
  have "rotate_log (no_faults t) ts lg (w, err) = (lg, (map_node ?p (\<lambda>n. n\<lparr>n_data := n_data n @ ?hdr, n_synced := False\<rparr>) w3, err))"
    using op w2 by (simp add: rotate_log_def w2_def [symmetric] log_print_ok [OF assms(1)] Let_def)
  then show ?thesis by (rule that [where n' = "?fresh\<lparr>n_data := ?hdr, n_synced := False\<rparr>"]) (simp_all add: file_at_map_node w3)
qed

text \<open>
  The log stays small and rotation loses nothing.  When no call fails, a line is appended to a log of at most a
  mebibyte; a larger log first becomes the backup, byte for byte, and a fresh log gets the note of the rotation
  and the line.  No other file changes.
\<close>

theorem log_write_spec:
  assumes "lg_file lg = LogFile" and "file_at w (lg_path lg) = Some n" and "n_kind n = Regular" and "io = no_faults t"
  shows "case log_write io ts level msg lg (w, err) of (lg', w', err') \<Rightarrow>
    lg' = lg \<and> err' = err \<and> (\<forall>q. q \<noteq> lg_path lg \<and> q \<noteq> backup_path (lg_path lg) \<longrightarrow> file_at w' q = file_at w q) \<and>
    (if length (n_data n) \<le> MaxLogSize
     then map_option n_data (file_at w' (lg_path lg)) = Some (n_data n @ log_line ts level msg) \<and>
          file_at w' (backup_path (lg_path lg)) = file_at w (backup_path (lg_path lg))
     else map_option n_data (file_at w' (lg_path lg)) =
            Some (ts @ '' [INFO] log rotated (previous log: '' @ path_string (backup_path (lg_path lg)) @ '')'' @ [CHR 0x0A] @ log_line ts level msg) \<and>
          map_option n_data (file_at w' (backup_path (lg_path lg))) = Some (n_data n))"
proof (cases "length (n_data n) \<le> MaxLogSize")
  case True
  then have "log_write io ts level msg lg (w, err) = (lg,
      (map_node (lg_path lg) (\<lambda>n. n\<lparr>n_data := n_data n @ log_line ts level msg, n_synced := False\<rparr>) w, err))"
    using assms by (simp add: log_write_def log_print_ok)
  then show ?thesis using True assms(2) by (simp add: file_at_map_node)
next
  case False
  obtain w' n' where r: "rotate_log (no_faults t) ts lg (w, err) = (lg, (w', err))"
    "file_at w' = (file_at w)(backup_path (lg_path lg) \<mapsto> n, lg_path lg \<mapsto> n')"
    "n_data n' = ts @ '' [INFO] log rotated (previous log: '' @ path_string (backup_path (lg_path lg)) @ '')'' @ [CHR 0x0A]"
    using rotate_log_ok [OF assms(1,2)] by blast
  have "log_write io ts level msg lg (w, err) = (lg,
      (map_node (lg_path lg) (\<lambda>n. n\<lparr>n_data := n_data n @ log_line ts level msg, n_synced := False\<rparr>) w', err))"
    using False assms r(1) by (simp add: log_write_def log_print_ok)
  then show ?thesis using False r(2,3) by (simp add: file_at_map_node)
qed

theorem log_write_spec_witness:
  "let p = Path ''/d'' ''daemon.log''; lg = \<lparr>lg_file = LogFile, lg_path = p, lg_verbose = True\<rparr>;
       w = one_dir\<lparr>vf_files := [(p, new_node (no_faults ''1'') perm600 ''old'')]\<rparr>
   in map_option n_data (file_at (fst (snd (log_write (no_faults ''2'') ''T'' ''WARN'' ''m'' lg (w, [])))) p)
        = Some (''old'' @ log_line ''T'' ''WARN'' ''m'')"
  using log_write_spec [where lg = "\<lparr>lg_file = LogFile, lg_path = Path ''/d'' ''daemon.log'', lg_verbose = True\<rparr>"
      and w = "one_dir\<lparr>vf_files := [(Path ''/d'' ''daemon.log'', new_node (no_faults ''1'') perm600 ''old'')]\<rparr>"
      and n = "new_node (no_faults ''1'') perm600 ''old''" and io = "no_faults ''2''" and t = "''2''" and ts = "''T''"
      and level = "''WARN''" and msg = "''m''" and err = "[]"]
  by (auto simp: new_node_def MaxLogSize_def Let_def split: prod.splits)

end
