(* ===== verification/Shim.thy ===== *)
theory Shim
  imports LoginLock Log
begin

text \<open>
  The client side (\<open>pkg/shim\<close>): requests with the nonce, the retry loop of \<open>get-token\<close> with its deadline, starting the
  daemon, and the filters of the foreground login.  The rest of the world (the daemon, other shims, the
  scheduler) is an environment that answers each interaction from the whole history and may change the
  file system in between.
\<close>

section \<open>The world of a shim\<close>

datatype send_error = ConnRefused | NoSuchFile | SendFailed go_error

primrec send_msg :: "send_error \<Rightarrow> go_error" where
  "send_msg ConnRefused = Err ''connection refused''"
| "send_msg NoSuchFile = Err ''no such file or directory''"
| "send_msg (SendFailed e) = e"

text \<open>An event records when the interaction began.\<close>

datatype shim_event =
    EvSend gotime Request duration duration
  | EvProbe gotime
  | EvSleep gotime duration
  | EvFork gotime "string list"
  | EvKill gotime int

record shim_sys =
  ss_now :: gotime
  ss_fs :: vfs
  ss_trace :: "shim_event list"

text \<open>
  The environment: each answer comes with the time it took and the file system it leaves.  \<open>se_io\<close> are the
  answers of the operating system to the shim's own calls.
\<close>

record shim_env =
  se_answer :: "shim_sys \<Rightarrow> Request \<Rightarrow> duration \<Rightarrow> duration \<Rightarrow> (send_error + Response) \<times> duration \<times> vfs"
  se_probe :: "shim_sys \<Rightarrow> bool \<times> duration \<times> vfs"
  se_sleep :: "shim_sys \<Rightarrow> duration \<Rightarrow> duration \<times> vfs"
  se_rand :: "shim_sys \<Rightarrow> int \<Rightarrow> int"
  se_io :: "shim_sys \<Rightarrow> faults"
  se_executable :: "go_error option"
  se_evalsymlinks :: "go_error option"
  se_start :: "shim_sys \<Rightarrow> go_error option"
  se_kill :: "int \<Rightarrow> bool"
  se_getpid :: int
  se_environ :: "(string, string) gomap"

definition advance :: "shim_event \<Rightarrow> duration \<Rightarrow> vfs \<Rightarrow> shim_sys \<Rightarrow> shim_sys" where
  "advance ev d w s = s\<lparr>ss_now := ss_now s + d, ss_fs := w, ss_trace := ss_trace s @ [ev]\<rparr>"

section \<open>Requests\<close>

definition readDaemonNonce :: "faults \<Rightarrow> string \<Rightarrow> vfs \<Rightarrow> string" where
  "readDaemonNonce io runtimeDir w =
     (case file_at w (nonce_path runtimeDir) of
        None \<Rightarrow> []
      | Some n \<Rightarrow>
          if n_kind n = Symlink then []
          else if f_open io \<noteq> None then []
          else TrimSpace (if f_read io = None then take 1024 (n_data n) else []))"

text \<open>Dial, write, read: \<open>dial\<close> bounds the connection, \<open>limit\<close> what follows it.\<close>

definition exchange :: "shim_env \<Rightarrow> string \<Rightarrow> Request \<Rightarrow> duration \<Rightarrow> duration \<Rightarrow> shim_sys \<Rightarrow> (send_error + Response) \<times> shim_sys" where
  "exchange E runtimeDir req dial limit s =
     (let req = req\<lparr>rq_Nonce := readDaemonNonce (se_io E s) runtimeDir (ss_fs s)\<rparr>;
          (r, d, w) = se_answer E s req dial limit
      in (r, advance (EvSend (ss_now s) req dial limit) d w s))"

definition sendRequest :: "shim_env \<Rightarrow> string \<Rightarrow> Request \<Rightarrow> shim_sys \<Rightarrow> (send_error + Response) \<times> shim_sys" where
  "sendRequest E runtimeDir req s = exchange E runtimeDir req (5 * second) (30 * second) s"

definition sendRequestWithTimeout :: "shim_env \<Rightarrow> string \<Rightarrow> Request \<Rightarrow> duration \<Rightarrow> shim_sys \<Rightarrow> (send_error + Response) \<times> shim_sys" where
  "sendRequestWithTimeout E runtimeDir req timeout s = exchange E runtimeDir req timeout timeout s"

definition sendShutdown :: "shim_env \<Rightarrow> string \<Rightarrow> shim_sys \<Rightarrow> go_error option \<times> shim_sys" where
  "sendShutdown E runtimeDir s =
     (let (r, s1) = exchange E runtimeDir (zero_request\<lparr>rq_Version := ProtocolVersion, rq_Command := ''shutdown''\<rparr>) (2 * second) (5 * second) s
      in case r of
           Inl e \<Rightarrow> (Some (send_msg e), s1)
         | Inr resp \<Rightarrow> if rs_Status resp \<noteq> ''ok'' then (Some (Err (''shutdown rejected: '' @ rs_Status resp)), s1) else (None, s1))"

definition StoreToken :: "shim_env \<Rightarrow> string \<Rightarrow> string \<Rightarrow> Request \<Rightarrow> string \<Rightarrow> string \<Rightarrow> shim_sys \<Rightarrow> (send_error + Response) \<times> shim_sys" where
  "StoreToken E runtimeDir cacheKey req idToken refreshToken s =
     sendRequest E runtimeDir (req\<lparr>rq_Version := ProtocolVersion, rq_Command := ''store-token'', rq_CacheKey := cacheKey,
       rq_IDToken := idToken, rq_RefreshToken := refreshToken\<rparr>) s"

definition plain_request :: "string \<Rightarrow> string \<Rightarrow> Request" where
  "plain_request command cacheKey = zero_request\<lparr>rq_Version := ProtocolVersion, rq_Command := command, rq_CacheKey := cacheKey\<rparr>"

definition SendBeginLogin :: "shim_env \<Rightarrow> string \<Rightarrow> string \<Rightarrow> shim_sys \<Rightarrow> (send_error + Response) \<times> shim_sys" where
  "SendBeginLogin E runtimeDir cacheKey s = sendRequest E runtimeDir (plain_request ''begin-login'' cacheKey) s"

definition SendCancelLogin :: "shim_env \<Rightarrow> string \<Rightarrow> string \<Rightarrow> shim_sys \<Rightarrow> (send_error + Response) \<times> shim_sys" where
  "SendCancelLogin E runtimeDir cacheKey s = sendRequest E runtimeDir (plain_request ''cancel-login'' cacheKey) s"

definition SendCheck :: "shim_env \<Rightarrow> string \<Rightarrow> string \<Rightarrow> shim_sys \<Rightarrow> (send_error + Response) \<times> shim_sys" where
  "SendCheck E runtimeDir cacheKey s = sendRequest E runtimeDir (plain_request ''check'' cacheKey) s"

definition SendRefresh :: "shim_env \<Rightarrow> string \<Rightarrow> string \<Rightarrow> Request \<Rightarrow> shim_sys \<Rightarrow> (send_error + Response) \<times> shim_sys" where
  "SendRefresh E runtimeDir cacheKey providerReq s =
     sendRequest E runtimeDir (providerReq\<lparr>rq_Version := ProtocolVersion, rq_Command := ''refresh'', rq_CacheKey := cacheKey\<rparr>) s"

definition SendHealth :: "shim_env \<Rightarrow> string \<Rightarrow> shim_sys \<Rightarrow> (send_error + Response) \<times> shim_sys" where
  "SendHealth E runtimeDir s = sendRequest E runtimeDir (plain_request ''health'' []) s"

section \<open>Starting the daemon\<close>

definition probe_alive :: "shim_env \<Rightarrow> shim_sys \<Rightarrow> bool \<times> shim_sys" where
  "probe_alive E s = (let (b, d, w) = se_probe E s in (b, advance (EvProbe (ss_now s)) d w s))"

definition sleep :: "shim_env \<Rightarrow> duration \<Rightarrow> shim_sys \<Rightarrow> shim_sys" where
  "sleep E d s = (let (d', w) = se_sleep E s d in advance (EvSleep (ss_now s) d) d' w s)"

text \<open>The polls that are left, and the number the caller asked for, which the message names.\<close>

fun wait_polls :: "shim_env \<Rightarrow> string \<Rightarrow> nat \<Rightarrow> nat \<Rightarrow> duration \<Rightarrow> duration \<Rightarrow> shim_sys \<Rightarrow> go_error option \<times> shim_sys" where
  "wait_polls E addr 0 maxRetries minDelay maxDelay s =
     (Some (Err (''daemon at '' @ addr @ '' not ready after '' @ show_nat maxRetries @ '' retries'')), s)"
| "wait_polls E addr (Suc n) maxRetries minDelay maxDelay s =
     (let delay = (if maxDelay > minDelay then minDelay + se_rand E s (maxDelay - minDelay) else minDelay);
          (alive, s1) = probe_alive E (sleep E delay s)
      in if alive then (None, s1) else wait_polls E addr n maxRetries minDelay maxDelay s1)"

definition waitForReady :: "shim_env \<Rightarrow> string \<Rightarrow> nat \<Rightarrow> duration \<Rightarrow> duration \<Rightarrow> shim_sys \<Rightarrow> go_error option \<times> shim_sys" where
  "waitForReady E addr maxRetries minDelay maxDelay s = wait_polls E addr maxRetries maxRetries minDelay maxDelay s"

definition envWhitelist :: "string list" where
  "envWhitelist = [''HOME'', ''USER'', ''LOGNAME'', ''PATH'', ''SHELL'', ''XDG_RUNTIME_DIR'', ''USERPROFILE'', ''LOCALAPPDATA'', ''TEMP'', ''TMP'',
     ''SystemRoot'', ''APPDATA'', ''HOMEDRIVE'', ''HOMEPATH'', ''LANG'', ''LC_ALL'', ''LC_CTYPE'', ''HTTPS_PROXY'', ''HTTP_PROXY'', ''NO_PROXY'',
     ''https_proxy'', ''http_proxy'', ''no_proxy'']"

definition sanitizedEnv :: "(string, string) gomap \<Rightarrow> string list" where
  "sanitizedEnv environ =
     concat (map (\<lambda>key. case gm_get environ key of None \<Rightarrow> [] | Some val \<Rightarrow> [key @ ''='' @ val]) envWhitelist)"

primrec kind_type :: "node_kind \<Rightarrow> string" where
  "kind_type Regular = ''----------''"
| "kind_type Directory = ''d---------''"
| "kind_type Symlink = ''L---------''"
| "kind_type Socket = ''S---------''"

definition cleanupStaleUnixSocket :: "string \<Rightarrow> vfs \<Rightarrow> go_error option \<times> vfs" where
  "cleanupStaleUnixSocket runtimeDir w =
     (let socketPath = Path runtimeDir ''sock'' in
      case file_at w socketPath of
        None \<Rightarrow> (None, w)
      | Some info \<Rightarrow>
          if n_kind info = Symlink
          then (Some (Err (''socket path '' @ path_string socketPath @ '' is a symlink (refusing to remove)'')), w)
          else if n_kind info \<noteq> Socket
          then (Some (Err (''socket path is not a socket (type: '' @ kind_type (n_kind info) @ '')'')), w)
          else (None, os_Remove socketPath w))"

definition starting_dir :: "string \<Rightarrow> string" where
  "starting_dir runtimeDir = runtimeDir @ ''/.starting''"

definition on_fs :: "(vfs \<Rightarrow> 'a \<times> vfs) \<Rightarrow> shim_sys \<Rightarrow> 'a \<times> shim_sys" where
  "on_fs f s = (let (a, w) = f (ss_fs s) in (a, s\<lparr>ss_fs := w\<rparr>))"

text \<open>\<open>os.Remove\<close> on the guard directory.\<close>

definition remove_dir :: "string \<Rightarrow> shim_sys \<Rightarrow> shim_sys" where
  "remove_dir d s = s\<lparr>ss_fs := (ss_fs s)\<lparr>vf_dirs := gm_del d (vf_dirs (ss_fs s))\<rparr>\<rparr>"

text \<open>The part after the label \<open>forkDaemon\<close>; the guard is removed on return.\<close>

definition fork_daemon :: "shim_env \<Rightarrow> string \<Rightarrow> shim_sys \<Rightarrow> go_error option \<times> shim_sys" where
  "fork_daemon E runtimeDir s =
     (let (r, s') =
        (case (se_executable E, se_evalsymlinks E) of
           (Some e, _) \<Rightarrow> (Some (Wrap ''find executable'' e), s)
         | (None, Some e) \<Rightarrow> (Some (Wrap ''eval symlinks'' e), s)
         | (None, None) \<Rightarrow>
             let s1 = advance (EvFork (ss_now s) (sanitizedEnv (se_environ E))) 0 (ss_fs s) s in
             (case se_start E s of
                Some e \<Rightarrow> (Some (Wrap ''start daemon process'' e), s)
              | None \<Rightarrow>
                  (case waitForReady E (path_string (Path runtimeDir ''sock'')) 5 (100 * millisecond) (500 * millisecond) s1 of
                     (Some e, s2) \<Rightarrow> (Some (Wrap ''daemon did not start'' e), s2)
                   | (None, s2) \<Rightarrow> (None, s2))))
      in (r, remove_dir (starting_dir runtimeDir) s'))"

definition autoStartDaemonCommon :: "shim_env \<Rightarrow> string \<Rightarrow> shim_sys \<Rightarrow> go_error option \<times> shim_sys" where
  "autoStartDaemonCommon E runtimeDir s =
     (let addr = path_string (Path runtimeDir ''sock'');
          starting = starting_dir runtimeDir;
          wait = waitForReady E addr 10 (100 * millisecond) (500 * millisecond);
          (alive, s1) = probe_alive E s
      in if alive then (None, s1)
         else case on_fs (cleanupStaleUnixSocket runtimeDir) s1 of
                (Some e, s2) \<Rightarrow> (Some e, s2)
              | (None, s2) \<Rightarrow>
                  (case on_fs (os_Mkdir (se_io E s2) runtimeDir) s2 of
                     (mk, s3) \<Rightarrow>
                       if mk \<noteq> None \<and> mk \<noteq> Some EEXIST
                       then (Some (Wrap (''create runtime dir '' @ runtimeDir) (path_error ''mkdir'' runtimeDir (the mk))), s3)
                       else
                         (case on_fs (os_Mkdir (se_io E s3) starting) s3 of
                            (None, s4) \<Rightarrow> fork_daemon E runtimeDir s4
                          | (Some e, s4) \<Rightarrow>
                              if e \<noteq> EEXIST then (Some (Wrap (''auto-start guard: mkdir '' @ starting) (path_error ''mkdir'' starting e)), s4)
                              else
                                (case gm_get (vf_dirs (ss_fs s4)) starting of
                                   Some info \<Rightarrow>
                                     if time_Since (ss_now s4) (n_mtime info) > 10 * second then
                                       (let s5 = remove_dir starting s4 in
                                        case on_fs (os_Mkdir (se_io E s5) starting) s5 of
                                          (Some mkErr, s6) \<Rightarrow> wait s6
                                        | (None, s6) \<Rightarrow> fork_daemon E runtimeDir s6)
                                     else wait s4
                                 | None \<Rightarrow> wait s4))))"

definition AutoStartDaemon :: "shim_env \<Rightarrow> string \<Rightarrow> shim_sys \<Rightarrow> go_error option \<times> shim_sys" where
  "AutoStartDaemon E runtimeDir s = autoStartDaemonCommon E runtimeDir s"

section \<open>The retry loop of get-token\<close>

definition getTokenTimeout :: duration where "getTokenTimeout = 12 * second"

text \<open>
  The attempts that are left, whether the daemon was started, and the error of the last attempt.
\<close>

fun get_attempts :: "shim_env \<Rightarrow> string \<Rightarrow> Request \<Rightarrow> gotime \<Rightarrow> nat \<Rightarrow> bool \<Rightarrow> send_error option \<Rightarrow> shim_sys \<Rightarrow> (go_error + Response) \<times> shim_sys" where
  "get_attempts E dir req deadline 0 autoStarted err s =
     (Inl (Wrap ''connect after auto-start'' (case err of None \<Rightarrow> Err [] | Some e \<Rightarrow> send_msg e)), s)"
| "get_attempts E dir req deadline (Suc n) autoStarted err s =
     (let remaining = time_Until (ss_now s) deadline in
      if remaining \<le> 0 then (Inl (Err ''get-token deadline exceeded''), s)
      else case sendRequestWithTimeout E dir req remaining s of
             (Inr resp, s1) \<Rightarrow> (Inr resp, s1)
           | (Inl (SendFailed e), s1) \<Rightarrow> (Inl (Wrap ''connect to daemon'' e), s1)
           | (Inl e, s1) \<Rightarrow>
               if \<not> autoStarted then
                 (case AutoStartDaemon E dir s1 of
                    (Some startErr, s2) \<Rightarrow> (Inl (Wrap ''auto-start daemon failed'' startErr), s2)
                  | (None, s2) \<Rightarrow> get_attempts E dir req deadline n True (Some e) s2)
               else get_attempts E dir req deadline n autoStarted (Some e) (sleep E (200 * millisecond) s1))"

text \<open>The polls for the end of the old daemon: whether it is gone.\<close>

fun poll_gone :: "shim_env \<Rightarrow> nat \<Rightarrow> shim_sys \<Rightarrow> bool \<times> shim_sys" where
  "poll_gone E 0 s = (False, s)"
| "poll_gone E (Suc n) s =
     (let (alive, s1) = probe_alive E (sleep E (100 * millisecond) s) in if \<not> alive then (True, s1) else poll_gone E n s1)"

text \<open>Killing the old daemon when it did not go; the result is the error to return.\<close>

definition kill_old :: "shim_env \<Rightarrow> int \<Rightarrow> go_error option \<Rightarrow> shim_sys \<Rightarrow> go_error option \<times> shim_sys" where
  "kill_old E oldPID shutdownErr s =
     (if oldPID > 0 \<and> oldPID \<noteq> se_getpid E then
        (None, if se_kill E oldPID then sleep E (200 * millisecond) (advance (EvKill (ss_now s) oldPID) 0 (ss_fs s) s) else s)
      else case shutdownErr of
             Some e \<Rightarrow> (Some (Wrap ''version mismatch: shutdown failed and no PID available'' e), s)
           | None \<Rightarrow> (None, s))"

definition restart_daemon :: "shim_env \<Rightarrow> string \<Rightarrow> Request \<Rightarrow> gotime \<Rightarrow> Response \<Rightarrow> shim_sys \<Rightarrow> (go_error + Response) \<times> shim_sys" where
  "restart_daemon E dir req deadline resp s =
     (let (shutdownErr, s1) = sendShutdown E dir s;
          (daemonGone, s2) = poll_gone E 6 s1;
          (kErr, s3) = (if \<not> daemonGone then kill_old E (rs_PID resp) shutdownErr s2 else (None, s2))
      in case kErr of
           Some e \<Rightarrow> (Inl e, s3)
         | None \<Rightarrow>
             if time_Until (ss_now s3) deadline \<le> 0 then (Inl (Err ''get-token deadline exceeded after version mismatch restart''), s3)
             else (case AutoStartDaemon E dir s3 of
                     (Some e, s4) \<Rightarrow> (Inl (Wrap ''restart daemon after version mismatch'' e), s4)
                   | (None, s4) \<Rightarrow>
                       (let rem = time_Until (ss_now s4) deadline in
                        if rem \<le> 0 then (Inl (Err ''get-token deadline exceeded after restart''), s4)
                        else case sendRequestWithTimeout E dir req rem s4 of
                               (Inl e, s5) \<Rightarrow> (Inl (Wrap ''connect after restart'' (send_msg e)), s5)
                             | (Inr r, s5) \<Rightarrow> (Inr r, s5))))"

definition GetTokenFromDaemon :: "shim_env \<Rightarrow> string \<Rightarrow> string \<Rightarrow> Request \<Rightarrow> shim_sys \<Rightarrow> (go_error + Response) \<times> shim_sys" where
  "GetTokenFromDaemon E runtimeDir cacheKey req0 s =
     (let req = req0\<lparr>rq_Version := ProtocolVersion, rq_Command := ''get-token'', rq_CacheKey := cacheKey\<rparr>;
          deadline = ss_now s + getTokenTimeout
      in case get_attempts E runtimeDir req deadline 3 False None s of
           (Inl e, s1) \<Rightarrow> (Inl e, s1)
         | (Inr resp, s1) \<Rightarrow>
             if rs_Status resp = ''error'' \<and> rs_DaemonVersion resp \<noteq> ProtocolVersion
             then restart_daemon E runtimeDir req deadline resp s1
             else (Inr resp, s1))"

section \<open>The foreground login\<close>

record AuthOptions =
  ao_SkipOpenBrowser :: bool
  ao_AuthenticationTimeout :: int
  ao_ListenAddress :: "string list"
  ao_BrowserCommand :: string
  ao_LocalServerCertFile :: string
  ao_LocalServerKeyFile :: string
  ao_OpenURLAfterAuthentication :: string
  ao_AuthRequestExtraParams :: "(string, string) gomap"
  ao_TLSConfig :: TLSClientConfig

definition blockedAuthCodeParams :: "string list" where
  "blockedAuthCodeParams = [''scope'', ''client_id'', ''client_secret'', ''redirect_uri'', ''grant_type'', ''code'',
     ''code_verifier'', ''refresh_token'', ''response_type'']"

definition filterBlockedOAuthParams :: "(string, string) gomap \<Rightarrow> (string, string) gomap" where
  "filterBlockedOAuthParams extraParams =
     (if extraParams = [] then extraParams
      else fold (\<lambda>(k, v) filtered. if ToLower k \<in> set blockedAuthCodeParams then filtered else gm_put k v filtered) extraParams [])"

definition blockedHeaders :: "string list" where
  "blockedHeaders = [''authorization'', ''host'', ''cookie'']"

definition filterBlockedRequestHeaders :: "(string, string) gomap \<Rightarrow> (string, string) gomap" where
  "filterBlockedRequestHeaders headers =
     (if headers = [] then headers
      else fold (\<lambda>(k, v) filtered. if ToLower k \<in> set blockedHeaders then filtered else gm_put k v filtered) headers [])"

record DeviceOption =
  do_SkipOpenBrowser :: bool
  do_BrowserCommand :: string

record BrowserOption =
  bo_SkipOpenBrowser :: bool
  bo_BrowserCommand :: string
  bo_BindAddress :: "string list"
  bo_AuthenticationTimeout :: duration
  bo_LocalServerCertFile :: string
  bo_LocalServerKeyFile :: string
  bo_OpenURLAfterAuthentication :: string
  bo_AuthRequestExtraParams :: "(string, string) gomap"

definition device_option :: "AuthOptions \<Rightarrow> DeviceOption" where
  "device_option opts = \<lparr>do_SkipOpenBrowser = ao_SkipOpenBrowser opts, do_BrowserCommand = ao_BrowserCommand opts\<rparr>"

definition browser_option :: "AuthOptions \<Rightarrow> BrowserOption" where
  "browser_option opts =
     \<lparr>bo_SkipOpenBrowser = ao_SkipOpenBrowser opts, bo_BrowserCommand = ao_BrowserCommand opts,
      bo_BindAddress = (if ao_ListenAddress opts \<noteq> [] then ao_ListenAddress opts else [''127.0.0.1:8000'', ''127.0.0.1:18000'']),
      bo_AuthenticationTimeout = (if ao_AuthenticationTimeout opts > 0 then wrap64 (ao_AuthenticationTimeout opts * second) else 180 * second),
      bo_LocalServerCertFile = ao_LocalServerCertFile opts, bo_LocalServerKeyFile = ao_LocalServerKeyFile opts,
      bo_OpenURLAfterAuthentication = ao_OpenURLAfterAuthentication opts,
      bo_AuthRequestExtraParams = filterBlockedOAuthParams (ao_AuthRequestExtraParams opts)\<rparr>"

text \<open>The client factory and the two flows are parameters.\<close>

record ('c, 't) auth_flows =
  af_New :: "Provider \<Rightarrow> TLSClientConfig \<Rightarrow> go_error + 'c"
  af_DeviceCode :: "DeviceOption \<Rightarrow> 'c \<Rightarrow> go_error + 't"
  af_AuthCode :: "BrowserOption \<Rightarrow> 'c \<Rightarrow> go_error + 't"

definition PerformAuth :: "('c, 't) auth_flows \<Rightarrow> Provider \<Rightarrow> string \<Rightarrow> AuthOptions \<Rightarrow> go_error + 't" where
  "PerformAuth F provider grantType opt =
     (case af_New F (provider\<lparr>pv_RequestHeaders := filterBlockedRequestHeaders (pv_RequestHeaders provider)\<rparr>) (ao_TLSConfig opt) of
        Inl e \<Rightarrow> Inl (Wrap ''create OIDC client'' e)
      | Inr c \<Rightarrow>
          if grantType = ''device-code'' then af_DeviceCode F (device_option opt) c
          else if grantType = ''authcode-browser'' then af_AuthCode F (browser_option opt) c
          else Inl (Err (''unsupported grant type for initial auth: '' @ grantType)))"

text \<open>The two block lists of the login are those of the refresher.\<close>

lemma login_filters_agree: "filterBlockedRequestHeaders = filterRequestHeaders" "set blockedAuthCodeParams = set blockedOAuthParams"
  by (auto simp: fun_eq_iff filterBlockedRequestHeaders_def filterRequestHeaders_def isBlockedRequestHeader_def blockedHeaders_def
      blockedRequestHeaders_def blockedAuthCodeParams_def blockedOAuthParams_def)

section \<open>Bounds of the loop\<close>

text \<open>What a run may do: how often it sends \<open>get-token\<close> and \<open>shutdown\<close> and nothing else, within which limits, and how often it forks and kills.\<close>

fun is_get :: "shim_event \<Rightarrow> bool" where
  "is_get (EvSend t rq dial limit) \<longleftrightarrow> rq_Command rq = ''get-token''"
| "is_get _ \<longleftrightarrow> False"

fun is_fork :: "shim_event \<Rightarrow> bool" where
  "is_fork (EvFork t env) \<longleftrightarrow> True"
| "is_fork _ \<longleftrightarrow> False"

fun is_kill :: "shim_event \<Rightarrow> bool" where
  "is_kill (EvKill t pid) \<longleftrightarrow> True"
| "is_kill _ \<longleftrightarrow> False"

fun is_shutdown :: "shim_event \<Rightarrow> bool" where
  "is_shutdown (EvSend t rq dial limit) \<longleftrightarrow> rq_Command rq = ''shutdown''"
| "is_shutdown _ \<longleftrightarrow> False"

fun timely :: "gotime \<Rightarrow> shim_event \<Rightarrow> bool" where
  "timely deadline (EvSend t rq dial limit) \<longleftrightarrow>
     (if rq_Command rq = ''get-token'' then 0 < dial \<and> t + dial \<le> deadline \<and> limit = dial
      else rq_Command rq = ''shutdown'' \<and> dial = 2 * second \<and> limit = 5 * second)"
| "timely deadline _ \<longleftrightarrow> True"

definition within :: "gotime \<Rightarrow> nat \<Rightarrow> nat \<Rightarrow> nat \<Rightarrow> nat \<Rightarrow> shim_sys \<Rightarrow> shim_sys \<Rightarrow> bool" where
  "within deadline gets forks kills shutdowns s s' \<longleftrightarrow>
     (\<exists>evs. ss_trace s' = ss_trace s @ evs \<and> list_all (timely deadline) evs \<and> length (filter is_get evs) \<le> gets \<and>
        length (filter is_fork evs) \<le> forks \<and> length (filter is_kill evs) \<le> kills \<and>
        length (filter is_shutdown evs) \<le> shutdowns)"

lemma within_refl [simp]: "ss_trace s' = ss_trace s \<Longrightarrow> within D g f k h s s'"
  by (simp add: within_def)

lemma within_trans: "within D g f k h s s' \<Longrightarrow> within D g' f' k' h' s' s'' \<Longrightarrow> within D (g + g') (f + f') (k + k') (h + h') s s''"
  unfolding within_def by (elim exE conjE) (auto intro!: exI [of _ "_ @ _"])

lemma within_mono: "within D g f k h s s' \<Longrightarrow> g \<le> g' \<Longrightarrow> f \<le> f' \<Longrightarrow> k \<le> k' \<Longrightarrow> h \<le> h' \<Longrightarrow> within D g' f' k' h' s s'"
  unfolding within_def by (meson order_trans)

lemma within_then: "within D 0 0 0 0 s s' \<Longrightarrow> within D g f k h s' s'' \<Longrightarrow> within D g f k h s s''"
  using within_trans [of D 0 0 0 0 s s' g f k h s''] by simp

lemma within_before: "within D g f k h s s' \<Longrightarrow> within D 0 0 0 0 s' s'' \<Longrightarrow> within D g f k h s s''"
  using within_trans [of D g f k h s s' 0 0 0 0 s''] by simp

lemma within_advance: "timely D ev \<Longrightarrow> within D (if is_get ev then 1 else 0) (if is_fork ev then 1 else 0) (if is_kill ev then 1 else 0) (if is_shutdown ev then 1 else 0) s (advance ev d w s)"
  by (auto simp: within_def advance_def)

lemma within_probe: "within D 0 0 0 0 s (snd (probe_alive E s))"
  using within_advance [of D "EvProbe (ss_now s)" s] by (simp add: probe_alive_def case_prod_beta)

lemma within_sleep: "within D 0 0 0 0 s (sleep E d s)"
  using within_advance [of D "EvSleep (ss_now s) d" s] by (simp add: sleep_def case_prod_beta)

lemma within_sleep_probe: "within D 0 0 0 0 s (snd (probe_alive E (sleep E d s)))"
  by (rule within_then [OF within_sleep within_probe])

lemma within_polls: "within D 0 0 0 0 s (snd (wait_polls E addr n m lo hi s))"
  by (induction n arbitrary: s) (auto simp: Let_def case_prod_beta intro: within_sleep_probe within_then [OF within_sleep_probe])

lemma within_wait: "within D 0 0 0 0 s (snd (waitForReady E addr n lo hi s))"
  by (simp add: waitForReady_def within_polls)

lemma on_fs_trace [simp]: "ss_trace (snd (on_fs f s)) = ss_trace s" "ss_trace (remove_dir d s) = ss_trace s"
  by (simp_all add: on_fs_def remove_dir_def case_prod_beta)

lemma within_remove_dir: "within D g f k h s s' \<Longrightarrow> within D g f k h s (remove_dir d s')"
  by (auto simp: within_def)

lemma within_fork: "within D 0 1 0 0 s (snd (fork_daemon E dir s))"
proof -
  have "within D 0 1 0 0 s (advance (EvFork (ss_now s) env) 0 w s)" for env w
    using within_advance [of D "EvFork (ss_now s) env" s] by simp
  then have "within D 0 1 0 0 s (snd (waitForReady E addr n lo hi (advance (EvFork (ss_now s) env) 0 w s)))" for addr n lo hi env w
    by (rule within_before [OF _ within_wait])
  then show ?thesis
    by (auto simp: fork_daemon_def Let_def case_prod_beta split: option.split prod.split intro!: within_remove_dir)
qed

lemma within_trace: "ss_trace s1 = ss_trace s \<Longrightarrow> within D g f k h s1 s' \<Longrightarrow> within D g f k h s s'"
  by (simp add: within_def)

lemma within_autostart: "within D 0 1 0 0 s (snd (AutoStartDaemon E dir s))"
proof -
  obtain b s1 where p: "probe_alive E s = (b, s1)" by fastforce
  obtain c s2 where c: "on_fs (cleanupStaleUnixSocket dir) s1 = (c, s2)" by fastforce
  obtain mk s3 where m: "on_fs (os_Mkdir (se_io E s2) dir) s2 = (mk, s3)" by fastforce
  obtain g s4 where g: "on_fs (os_Mkdir (se_io E s3) (starting_dir dir)) s3 = (g, s4)" by fastforce
  let ?s5 = "remove_dir (starting_dir dir) s4"
  obtain h s6 where h: "on_fs (os_Mkdir (se_io E ?s5) (starting_dir dir)) ?s5 = (h, s6)" by fastforce
  have t: "ss_trace s2 = ss_trace s1" "ss_trace s3 = ss_trace s1" "ss_trace s4 = ss_trace s1" "ss_trace s6 = ss_trace s1"
    using on_fs_trace(1) [of "cleanupStaleUnixSocket dir" s1] on_fs_trace(1) [of "os_Mkdir (se_io E s2) dir" s2]
      on_fs_trace(1) [of "os_Mkdir (se_io E s3) (starting_dir dir)" s3] on_fs_trace(1) [of "os_Mkdir (se_io E ?s5) (starting_dir dir)" ?s5]
    by (simp_all add: c m g h)
  have w: "within D 0 1 0 0 s1 (snd (waitForReady E a n lo hi s'))" if "ss_trace s' = ss_trace s1" for a n lo hi s'
    by (rule within_trace [OF that]) (rule within_mono [OF within_wait], simp_all)
  have f: "within D 0 1 0 0 s1 (snd (fork_daemon E dir s'))" if "ss_trace s' = ss_trace s1" for s'
    by (rule within_trace [OF that within_fork])
  have "within D 0 1 0 0 s1 (snd (AutoStartDaemon E dir s))"
    by (cases b; cases c; cases g; cases h; cases "gm_get (vf_dirs (ss_fs s4)) (starting_dir dir)")
       (simp_all add: AutoStartDaemon_def autoStartDaemonCommon_def Let_def p c m g h t w f del: One_nat_def)
  then show ?thesis using within_then [OF within_probe [of D s E]] p by simp
qed

lemma time_Until_pos: "0 < time_Until now D \<Longrightarrow> now + time_Until now D \<le> D"
  by (auto simp: time_Sub_def min_duration_def max_duration_def)

lemma within_get:
  assumes "0 < time_Until (ss_now s) D" "rq_Command req = ''get-token''"
  shows "within D 1 0 0 0 s (snd (sendRequestWithTimeout E dir req (time_Until (ss_now s) D) s))"
  using within_advance [of D "EvSend (ss_now s) (req\<lparr>rq_Nonce := readDaemonNonce (se_io E s) dir (ss_fs s)\<rparr>)
      (time_Until (ss_now s) D) (time_Until (ss_now s) D)" s] time_Until_pos [OF assms(1)] assms
  by (simp add: sendRequestWithTimeout_def exchange_def Let_def case_prod_beta)

lemma within_attempts:
  assumes "rq_Command req = ''get-token''"
  shows "within D n (if started then 0 else 1) 0 0 s (snd (get_attempts E dir req D n started err s))"
proof (induction n arbitrary: started err s)
  case 0
  show ?case by simp
next
  case (Suc n)
  let ?rem = "time_Until (ss_now s) D" and ?f = "if started then 0 else 1 :: nat"
  obtain r s1 where r: "sendRequestWithTimeout E dir req ?rem s = (r, s1)" by fastforce
  obtain a s2 where a: "AutoStartDaemon E dir s1 = (a, s2)" by fastforce
  let ?s3 = "sleep E (200 * millisecond) s1"
  show ?case
  proof (cases "?rem \<le> 0")
    case True
    then show ?thesis by simp
  next
    case False
    then have s1: "within D 1 0 0 0 s s1" using within_get [of D s req E dir] assms r by simp
    have s2: "within D 1 1 0 0 s s2" using within_trans [OF s1 within_autostart [of D s1 E dir]] a by simp
    have s3: "within D 1 0 0 0 s ?s3" using within_before [OF s1 within_sleep] .
    have stop: "within D (Suc n) ?f 0 0 s s1" by (rule within_mono [OF s1]) simp_all
    have "within D (Suc n) 1 0 0 s (snd (get_attempts E dir req D n True e s2))" for e
      using within_trans [OF s2 Suc.IH [where started = True and err = e and s = s2]] by simp
    moreover have "within D (Suc n) ?f 0 0 s (snd (get_attempts E dir req D n started e ?s3))" for e
      using within_trans [OF s3 Suc.IH [where started = started and err = e and s = ?s3]] by simp
    moreover have "within D (Suc n) 1 0 0 s s2" by (rule within_mono [OF s2]) simp_all
    ultimately show ?thesis using False stop
      by (cases started; cases a) (auto simp: Let_def r a split: sum.split send_error.split)
  qed
qed

lemma within_shutdown: "within D 0 0 0 1 s (snd (sendShutdown E dir s))"
  using within_advance [of D "EvSend (ss_now s) (zero_request\<lparr>rq_Version := ProtocolVersion, rq_Command := ''shutdown'',
      rq_Nonce := readDaemonNonce (se_io E s) dir (ss_fs s)\<rparr>) (2 * second) (5 * second)" s]
  by (simp add: sendShutdown_def exchange_def Let_def case_prod_beta zero_request_def split: sum.split)

lemma within_gone: "within D 0 0 0 0 s (snd (poll_gone E n s))"
  by (induction n arbitrary: s) (auto simp: Let_def case_prod_beta intro: within_sleep_probe within_then [OF within_sleep_probe])

lemma within_kill: "within D 0 0 1 0 s (snd (kill_old E pid err s))"
proof -
  have "within D 0 0 1 0 s (advance (EvKill (ss_now s) pid) 0 (ss_fs s) s)"
    using within_advance [of D "EvKill (ss_now s) pid" s] by simp
  then have "within D 0 0 1 0 s (sleep E d (advance (EvKill (ss_now s) pid) 0 (ss_fs s) s))" for d
    by (rule within_before [OF _ within_sleep])
  then show ?thesis by (simp add: kill_old_def split: option.split)
qed

lemma within_restart:
  assumes "rq_Command req = ''get-token''"
  shows "within D 1 1 1 1 s (snd (restart_daemon E dir req D resp s))"
proof -
  obtain e1 s1 where a: "sendShutdown E dir s = (e1, s1)" by fastforce
  obtain g s2 where b: "poll_gone E 6 s1 = (g, s2)" by fastforce
  obtain k s3 where c: "(if \<not> g then kill_old E (rs_PID resp) e1 s2 else (None, s2)) = (k, s3)" by fastforce
  obtain e4 s4 where d: "AutoStartDaemon E dir s3 = (e4, s4)" by fastforce
  obtain r s5 where e: "sendRequestWithTimeout E dir req (time_Until (ss_now s4) D) s4 = (r, s5)" by fastforce
  have "within D 0 0 0 1 s s2"
    using within_before [OF within_shutdown [of D s E dir] within_gone [of D "snd (sendShutdown E dir s)" E 6]] a b by simp
  moreover have "within D 0 0 1 0 s2 s3" using c within_kill [of D s2 E "rs_PID resp" e1] by (cases g) auto
  ultimately have s3: "within D 0 0 1 1 s s3" using within_trans by fastforce
  then have s4: "within D 0 1 1 1 s s4" using within_trans [OF s3 within_autostart [of D s3 E dir]] d by simp
  have s5: "within D 1 1 1 1 s s5" if "0 < time_Until (ss_now s4) D"
    using within_trans [OF s4 within_get [OF that assms, of E dir]] e by simp
  have "within D 1 1 1 1 s s3" "within D 1 1 1 1 s s4" by (rule within_mono [OF s3], simp_all) (rule within_mono [OF s4], simp_all)
  then show ?thesis using s5
    by (cases k; cases e4; cases r) (auto simp: restart_daemon_def a b c d e Let_def)
qed

text \<open>
  C36: \<open>get-token\<close> ends and stays within its budget.  Whatever the daemon, other processes and the clock do, the call makes at most four
  \<open>get-token\<close> requests, starts a daemon at most twice, kills at most one process, and sends besides at most one request, the \<open>shutdown\<close> to a
  daemon of another version.  Every \<open>get-token\<close> request is begun before the deadline of twelve seconds, with what is left of it as the limit of the
  connection and of the exchange.  The \<open>shutdown\<close> does not look at the deadline: it may begin after it, with limits of its own of two
  seconds for the connection and five for the exchange.
\<close>

theorem GetTokenFromDaemon_budget:
  "\<exists>evs. ss_trace (snd (GetTokenFromDaemon E dir key req s)) = ss_trace s @ evs \<and>
     list_all (timely (ss_now s + 12 * second)) evs \<and> length (filter is_get evs) \<le> 4 \<and>
     length (filter is_fork evs) \<le> 2 \<and> length (filter is_kill evs) \<le> 1 \<and> length (filter is_shutdown evs) \<le> 1"
proof -
  let ?req = "req\<lparr>rq_Version := ProtocolVersion, rq_Command := ''get-token'', rq_CacheKey := key\<rparr>" and ?D = "ss_now s + getTokenTimeout"
  obtain r s1 where a: "get_attempts E dir ?req ?D 3 False None s = (r, s1)" by fastforce
  have s1: "within ?D 3 1 0 0 s s1" using within_attempts [of ?req ?D 3 False s E dir None] a by simp
  have "within ?D 4 2 1 1 s s1" by (rule within_mono [OF s1]) simp_all
  moreover have "within ?D 4 2 1 1 s (snd (restart_daemon E dir ?req ?D resp s1))" for resp
    using within_trans [OF s1 within_restart [of ?req ?D s1 E dir resp]] by (simp add: numeral_2_eq_2)
  ultimately have "within ?D 4 2 1 1 s (snd (GetTokenFromDaemon E dir key req s))"
    by (auto simp: GetTokenFromDaemon_def Let_def a split: sum.split)
  then show ?thesis by (simp add: within_def getTokenTimeout_def)
qed

section \<open>A replaced daemon and its successor\<close>

text \<open>A health request without a nonce, on the wire and back.\<close>

definition demo_health :: Request where
  "demo_health = zero_request\<lparr>rq_Version := 2, rq_Command := ''health'', rq_Nonce := []\<rparr>"

lemma demo_health_decode: "decode_request (encode_request demo_health) = Inr (demo_health, [CHR 0x0A])"
proof -
  have ok: "wire_ok demo_health" "sort_maps demo_health = demo_health"
    by (simp_all add: wire_ok_def sort_maps_def demo_health_def zero_request_def zero_tls_def ascii_def byte_of_def int64_def ascii_map_def gm_wf_def)
  have ints: "show_int 2 = ''2''" "show_int 0 = ''0''"
    by (simp_all add: show_int_def show_nat.simps char_of_eq byte_of_def)
  have "length (encode_request demo_health) \<le> 2 ^ 20"
    using length_json_quote [of "''version''"] length_json_quote [of "''command''"] length_json_quote [of "''health''"]
      length_json_quote [of "''tls_config''"] length_json_quote [of "''CACertFilename''"] length_json_quote [of "''CACertData''"]
      length_json_quote [of "''SkipTLSVerify''"] length_json_quote [of "''Renegotiation''"]
    by (simp add: encode_request_def request_members_def demo_health_def zero_request_def zero_tls_def omit_string_def omit_strings_def omit_map_def
        omit_bool_def tls_json_def strings_json_def ints)
  from decode_encode_ok [OF ok(1) this] show ?thesis by (simp only: ok(2))
qed

text \<open>
  C40: the end of a replaced daemon locks out its successor.  When the tick of a daemon finds that another daemon has
  bound the socket, its shutdown removes the nonce file, which by then is the successor's: whatever
  a shim reads is empty, and the successor, whose nonce is not, rejects every request that carries it, without a
  token and without any change.  Nothing writes the file again while the successor runs.
\<close>

theorem ghost_locks_out_successor:
  assumes "sv_socketInode g \<noteq> 0" and "\<not> sv_shutdown g"
    and "file_at (sv_fs g) (socket_path g) = Some n" and "n_inode n \<noteq> sv_socketInode g"
    and "idleWatcher_tick E now (wt, g) = (b, wt', g')"
    and "sv_runtimeDir live = sv_runtimeDir g" and "sv_nonce live \<noteq> []"
    and "decode_request input = Inr (req, rest)" and "rq_Nonce req = readDaemonNonce io (sv_runtimeDir live) (sv_fs g')"
  shows "snd (handleConnection E' cred input live) = live \<and>
    (case fst (handleConnection E' cred input live) of None \<Rightarrow> True | Some resp \<Rightarrow> rs_Status resp = ''error'' \<and> rs_Token resp = [])"
proof -
  have "g' = Shutdown g" using assms(1-5) by (simp add: idleWatcher_tick_def Let_def)
  then have "file_at (sv_fs g') (nonce_path (sv_runtimeDir live)) = None"
    using assms(2,6) by (simp add: Shutdown_def nonce_path_def)
  then have "rq_Nonce req = []" using assms(9) by (simp add: readDaemonNonce_def)
  then have "rq_Nonce req \<noteq> sv_nonce live" using assms(7) by simp
  moreover obtain r s' where r: "handleConnection E' cred input live = (r, s')" by fastforce
  ultimately have "s' = live \<and> (r = None \<or> (\<exists>msg. r = Some (errorResponse msg)))"
    using decoded_guard [OF r] assms(8) by simp
  then show ?thesis using r by (auto simp: response_defs)
qed

theorem ghost_locks_out_successor_witness:
  "let sock = Path ''/d'' ''sock''; w = one_dir\<lparr>vf_files := [(sock, (new_node (no_faults ''1'') perm600 [])\<lparr>n_kind := Socket\<rparr>)]\<rparr>;
       ghost = demo_server\<lparr>sv_fs := w\<rparr>; live = demo_server\<lparr>sv_nonce := ''bb'', sv_socketInode := 7\<rparr>;
       ghost' = snd (snd (idleWatcher_tick (\<lambda>_. demo_senv 9) 9 (\<lparr>wt_lastTick = 5, wt_tickCount = 0\<rparr>, ghost)));
       req = zero_request\<lparr>rq_Version := 2, rq_Command := ''health'', rq_Nonce := readDaemonNonce (no_faults []) ''/d'' (sv_fs ghost')\<rparr>
   in snd (handleConnection (demo_senv 9) (Inr 1000) (encode_request req) live) = live"
proof -
  let ?sock = "Path ''/d'' ''sock''" and ?n = "(new_node (no_faults ''1'') perm600 [])\<lparr>n_kind := Socket\<rparr>"
  let ?ghost = "demo_server\<lparr>sv_fs := one_dir\<lparr>vf_files := [(?sock, ?n)]\<rparr>\<rparr>" and ?live = "demo_server\<lparr>sv_nonce := ''bb'', sv_socketInode := 7\<rparr>"
  let ?req = "zero_request\<lparr>rq_Version := 2, rq_Command := ''health'', rq_Nonce := []\<rparr>"
  obtain b wt' g' where tick: "idleWatcher_tick (\<lambda>_. demo_senv 9) 9 (\<lparr>wt_lastTick = 5, wt_tickCount = 0\<rparr>, ?ghost) = (b, wt', g')"
    using prod_cases3 by blast
  have facts: "sv_socketInode ?ghost = 9" "\<not> sv_shutdown ?ghost" "socket_path ?ghost = ?sock" "sv_runtimeDir ?ghost = ''/d''" "n_inode ?n = 7"
    by (simp_all add: demo_server_def NewServer_def socket_path_def new_node_def no_faults_def)
  then have "g' = Shutdown ?ghost" using tick by (simp add: idleWatcher_tick_def Let_def)
  then have "readDaemonNonce (no_faults []) ''/d'' (sv_fs g') = []"
    using facts by (simp add: readDaemonNonce_def Shutdown_def nonce_path_def)
  moreover have dec: "decode_request (encode_request ?req) = Inr (?req, [CHR 0x0A])"
    using demo_health_decode by (simp add: demo_health_def)
  moreover have "snd (handleConnection (demo_senv 9) (Inr 1000) (encode_request ?req) ?live) = ?live"
    using ghost_locks_out_successor [OF _ _ _ _ tick _ _ dec, of ?n ?live "no_faults []"] facts calculation(1)
    by (simp add: demo_server_def NewServer_def zero_request_def)
  ultimately show ?thesis using tick by (simp add: Let_def)
qed

end
