(* ===== verification/ExecArgs.thy ===== *)
theory ExecArgs
  imports Shim
begin

text \<open>
  The configuration of the command line (\<open>main.go\<close>): the flags in the exec section of a kubeconfig
  (\<open>parseExecArgs\<close>), grant types and PKCE methods, the merge of flags with the kubeconfig, and the cache key.
  What a list of arguments means is stated for lists written with any mix of the styles
  \<open>--flag=value\<close>, \<open>--flag value\<close>, single dashes and bare boolean flags.
\<close>

section \<open>Names of methods\<close>

definition parsePKCEMethod :: "string \<Rightarrow> PKCEMethod" where
  "parsePKCEMethod s = (if s = ''S256'' then PKCEMethodS256 else if s = '''' then PKCEMethodAuto else PKCEMethodNo)"

definition mapGrantType :: "string \<Rightarrow> go_error + string" where
  "mapGrantType gt =
     (if gt = ''device-code'' \<or> gt = ''authcode-browser'' then Inr gt
      else if gt = ''auto'' then Inr ''device-code''
      else if gt = ''authcode'' then Inr ''authcode-browser''
      else if gt = ''authcode-keyboard'' then Inr ''device-code''
      else if gt = ''password'' then
        Inl (Err ''grant-type 'password' (ROPC) is not supported by kubelogin-daemon; use grant-type 'device-code' or upstream kubelogin for ROPC'')
      else if gt = ''client-credentials'' then
        Inl (Err ''grant-type 'client-credentials' is not supported by kubelogin-daemon; use upstream kubelogin for client-credentials flows'')
      else Inr gt)"

text \<open>
  \<open>fmt.Sscanf(s, "%d", &n)\<close>: white space, which must not hold a line break, a sign, then digits; what follows them is
  not read.  Underscores are taken as digits by the scanner and refused by the conversion.
\<close>

definition int_digit :: "char \<Rightarrow> bool" where
  "int_digit c \<longleftrightarrow> 48 \<le> byte_of c \<and> byte_of c \<le> 57"

definition dec_value :: "string \<Rightarrow> int" where
  "dec_value ds = foldl (\<lambda>n c. 10 * n + (int (byte_of c) - 48)) 0 ds"

definition parseIntSafe :: "string \<Rightarrow> int option" where
  "parseIntSafe s =
     (let body = trim_left s;
          blanks = take (length s - length body) s;
          (neg, ds0) = (case body of c # cs \<Rightarrow> if c = CHR ''-'' then (True, cs) else if c = CHR ''+'' then (False, cs) else (False, body) | [] \<Rightarrow> (False, []));
          ds = takeWhile (\<lambda>c. int_digit c \<or> c = CHR ''_'') ds0;
          n = (if neg then - dec_value ds else dec_value ds)
      in if CHR 0x0A \<in> set blanks \<or> ds = [] \<or> CHR ''_'' \<in> set ds \<or> \<not> int64 n then None else Some n)"

section \<open>The exec section\<close>

record parsedOIDCConfig =
  pc_issuerURL :: string
  pc_clientID :: string
  pc_clientSecret :: string
  pc_extraScopes :: "string list"
  pc_grantType :: string
  pc_useAccessToken :: bool
  pc_username :: string
  pc_extraParams :: "(string, string) gomap"
  pc_requestHeaders :: "(string, string) gomap"
  pc_skipOpenBrowser :: bool
  pc_listenAddress :: "string list"
  pc_browserCommand :: string
  pc_authenticationTimeoutSec :: int
  pc_localServerCertFile :: string
  pc_localServerKeyFile :: string
  pc_openURLAfterAuthentication :: string
  pc_redirectURLHostname :: string
  pc_forceRefresh :: bool
  pc_tokenCacheDir :: string
  pc_tokenCacheStorage :: string
  pc_redirectURL :: string
  pc_pkceMethod :: PKCEMethod
  pc_caCertFilename :: "string list"
  pc_caCertData :: "string list"
  pc_skipTLSVerify :: bool
  pc_renegotiation :: int

definition zero_config :: parsedOIDCConfig where
  "zero_config = \<lparr>pc_issuerURL = [], pc_clientID = [], pc_clientSecret = [], pc_extraScopes = [], pc_grantType = [],
     pc_useAccessToken = False, pc_username = [], pc_extraParams = [], pc_requestHeaders = [], pc_skipOpenBrowser = False,
     pc_listenAddress = [], pc_browserCommand = [], pc_authenticationTimeoutSec = 0, pc_localServerCertFile = [],
     pc_localServerKeyFile = [], pc_openURLAfterAuthentication = [], pc_redirectURLHostname = [], pc_forceRefresh = False,
     pc_tokenCacheDir = [], pc_tokenCacheStorage = [], pc_redirectURL = [], pc_pkceMethod = PKCEMethodAuto,
     pc_caCertFilename = [], pc_caCertData = [], pc_skipTLSVerify = False, pc_renegotiation = 0\<rparr>"

definition boolFlags :: "string list" where
  "boolFlags = [''--skip-open-browser'', ''-skip-open-browser'', ''--force-refresh'', ''-force-refresh'',
     ''--oidc-use-access-token'', ''-oidc-use-access-token'', ''--oidc-use-pkce'', ''-oidc-use-pkce'',
     ''--insecure-skip-tls-verify'', ''-insecure-skip-tls-verify'', ''--tls-renegotiation-once'', ''-tls-renegotiation-once'',
     ''--tls-renegotiation-freely'', ''-tls-renegotiation-freely'']"

text \<open>\<open>strings.Split\<close> on one character.\<close>

fun split_on :: "char \<Rightarrow> string \<Rightarrow> string list" where
  "split_on c [] = [[]]"
| "split_on c (x # xs) = (if x = c then [] # split_on c xs else (case split_on c xs of [] \<Rightarrow> [[x]] | w # ws \<Rightarrow> (x # w) # ws))"

definition scopes_of :: "string \<Rightarrow> string list" where
  "scopes_of val = filter (\<lambda>s. s \<noteq> []) (map TrimSpace (split_on (CHR '','') val))"

definition add_pair :: "string \<Rightarrow> (string, string) gomap \<Rightarrow> (string, string) gomap" where
  "add_pair val m =
     (case IndexByte val (CHR ''='') of
        Some eqIdx \<Rightarrow> gm_put (take eqIdx val) (drop (eqIdx + 1) val) m
      | None \<Rightarrow> gm_put val [] m)"

text \<open>The \<open>switch\<close> of the loop.\<close>

definition apply_flag :: "string \<Rightarrow> string \<Rightarrow> parsedOIDCConfig \<Rightarrow> parsedOIDCConfig" where
  "apply_flag key val cfg =
     (if key = ''--oidc-issuer-url'' then cfg\<lparr>pc_issuerURL := val\<rparr>
      else if key = ''--oidc-client-id'' then cfg\<lparr>pc_clientID := val\<rparr>
      else if key = ''--oidc-client-secret'' then cfg\<lparr>pc_clientSecret := val\<rparr>
      else if key = ''--oidc-extra-scope'' then
        (if val \<noteq> [] then cfg\<lparr>pc_extraScopes := pc_extraScopes cfg @ scopes_of val\<rparr> else cfg)
      else if key = ''--grant-type'' then cfg\<lparr>pc_grantType := val\<rparr>
      else if key = ''--oidc-use-access-token'' then cfg\<lparr>pc_useAccessToken := val \<noteq> ''false''\<rparr>
      else if key = ''--skip-open-browser'' then cfg\<lparr>pc_skipOpenBrowser := val \<noteq> ''false''\<rparr>
      else if key = ''--listen-address'' then
        (if val \<noteq> [] then cfg\<lparr>pc_listenAddress := pc_listenAddress cfg @ [val]\<rparr> else cfg)
      else if key = ''--browser-command'' then cfg\<lparr>pc_browserCommand := val\<rparr>
      else if key = ''--authentication-timeout-sec'' then
        (if val \<noteq> [] then (case parseIntSafe val of Some n \<Rightarrow> cfg\<lparr>pc_authenticationTimeoutSec := n\<rparr> | None \<Rightarrow> cfg) else cfg)
      else if key = ''--local-server-cert'' then cfg\<lparr>pc_localServerCertFile := val\<rparr>
      else if key = ''--local-server-key'' then cfg\<lparr>pc_localServerKeyFile := val\<rparr>
      else if key = ''--open-url-after-authentication'' then cfg\<lparr>pc_openURLAfterAuthentication := val\<rparr>
      else if key = ''--force-refresh'' then cfg\<lparr>pc_forceRefresh := val \<noteq> ''false''\<rparr>
      else if key = ''--token-cache-dir'' then cfg\<lparr>pc_tokenCacheDir := val\<rparr>
      else if key = ''--token-cache-storage'' then cfg\<lparr>pc_tokenCacheStorage := val\<rparr>
      else if key = ''--username'' then cfg\<lparr>pc_username := val\<rparr>
      else if key = ''--oidc-auth-request-extra-params'' \<or> key = ''--oidc-extra-param'' then
        (if val \<noteq> [] then cfg\<lparr>pc_extraParams := add_pair val (pc_extraParams cfg)\<rparr> else cfg)
      else if key = ''--oidc-request-header'' then
        (if val \<noteq> [] then cfg\<lparr>pc_requestHeaders := add_pair val (pc_requestHeaders cfg)\<rparr> else cfg)
      else if key = ''--certificate-authority'' then
        (if val \<noteq> [] then cfg\<lparr>pc_caCertFilename := pc_caCertFilename cfg @ [val]\<rparr> else cfg)
      else if key = ''--certificate-authority-data'' then
        (if val \<noteq> [] then cfg\<lparr>pc_caCertData := pc_caCertData cfg @ [val]\<rparr> else cfg)
      else if key = ''--insecure-skip-tls-verify'' then cfg\<lparr>pc_skipTLSVerify := val \<noteq> ''false''\<rparr>
      else if key = ''--tls-renegotiation-once'' then (if val \<noteq> ''false'' then cfg\<lparr>pc_renegotiation := 1\<rparr> else cfg)
      else if key = ''--tls-renegotiation-freely'' then (if val \<noteq> ''false'' then cfg\<lparr>pc_renegotiation := 2\<rparr> else cfg)
      else if key = ''--oidc-redirect-url'' then cfg\<lparr>pc_redirectURL := val\<rparr>
      else if key = ''--oidc-pkce-method'' then cfg\<lparr>pc_pkceMethod := parsePKCEMethod val\<rparr>
      else if key = ''--oidc-use-pkce'' then (if val \<noteq> ''false'' then cfg\<lparr>pc_pkceMethod := PKCEMethodS256\<rparr> else cfg)
      else if key = ''--oidc-redirect-url-hostname'' then cfg\<lparr>pc_redirectURLHostname := val\<rparr>
      else cfg)"

definition double_dash :: "string \<Rightarrow> string" where
  "double_dash arg = (if \<not> prefix ''--'' arg \<and> length arg > 2 then CHR ''-'' # arg else arg)"

text \<open>The loop, on the arguments that are left.\<close>

fun parse_from :: "string list \<Rightarrow> parsedOIDCConfig \<Rightarrow> parsedOIDCConfig" where
  "parse_from [] cfg = cfg"
| "parse_from (arg0 # rest) cfg =
     (if \<not> prefix ''-'' arg0 then parse_from rest cfg
      else
        let arg = double_dash arg0 in
        case IndexByte arg (CHR ''='') of
          Some eqIdx \<Rightarrow> parse_from rest (apply_flag (take eqIdx arg) (drop (eqIdx + 1) arg) cfg)
        | None \<Rightarrow>
            if arg \<in> set boolFlags then
              (case rest of
                 [] \<Rightarrow> parse_from [] (apply_flag arg [] cfg)
               | next # rest' \<Rightarrow>
                   if ToLower next = ''true'' \<or> ToLower next = ''false'' then parse_from rest' (apply_flag arg (ToLower next) cfg)
                   else parse_from rest (apply_flag arg [] cfg))
            else
              (case rest of
                 [] \<Rightarrow> parse_from [] (apply_flag arg [] cfg)
               | next # rest' \<Rightarrow> parse_from rest' (apply_flag arg next cfg)))"

definition parseExecArgs :: "string list \<Rightarrow> parsedOIDCConfig" where
  "parseExecArgs args = parse_from args zero_config"

section \<open>What arguments mean\<close>

text \<open>One flag as it may be written, with one or two dashes: joined to its value, before it, or bare.\<close>

datatype flag_item = Positional string | Joined string string | Separate string string | Bare string

primrec render_item :: "flag_item \<Rightarrow> string list" where
  "render_item (Positional a) = [a]"
| "render_item (Joined k v) = [k @ ''='' @ v]"
| "render_item (Separate k v) = [k, v]"
| "render_item (Bare k) = [k]"

definition flag_name :: "string \<Rightarrow> bool" where
  "flag_name k \<longleftrightarrow> prefix ''-'' k \<and> length k > 2 \<and> CHR ''='' \<notin> set k"

primrec item_ok :: "flag_item \<Rightarrow> bool" where
  "item_ok (Positional a) \<longleftrightarrow> \<not> prefix ''-'' a"
| "item_ok (Joined k v) \<longleftrightarrow> flag_name k"
| "item_ok (Separate k v) \<longleftrightarrow> flag_name k \<and> (double_dash k \<in> set boolFlags \<longrightarrow> ToLower v \<in> {''true'', ''false''})"
| "item_ok (Bare k) \<longleftrightarrow> flag_name k \<and> double_dash k \<in> set boolFlags"

text \<open>A bare flag must not be followed by an argument that reads as its value.\<close>

fun items_ok :: "flag_item list \<Rightarrow> bool" where
  "items_ok [] \<longleftrightarrow> True"
| "items_ok (it # its) \<longleftrightarrow> item_ok it \<and> items_ok its \<and>
     (case it of Bare k \<Rightarrow> (case concat (map render_item its) of [] \<Rightarrow> True | a # as \<Rightarrow> ToLower a \<notin> {''true'', ''false''}) | _ \<Rightarrow> True)"

primrec item_effect :: "flag_item \<Rightarrow> parsedOIDCConfig \<Rightarrow> parsedOIDCConfig" where
  "item_effect (Positional a) cfg = cfg"
| "item_effect (Joined k v) cfg = apply_flag (double_dash k) v cfg"
| "item_effect (Separate k v) cfg = apply_flag (double_dash k) (if double_dash k \<in> set boolFlags then ToLower v else v) cfg"
| "item_effect (Bare k) cfg = apply_flag (double_dash k) [] cfg"

lemma double_dash_joined: "flag_name k \<Longrightarrow> double_dash (k @ ''='' @ v) = double_dash k @ ''='' @ v"
proof -
  assume k: "flag_name k"
  then have "prefix ''--'' (k @ ''='' @ v) \<longleftrightarrow> prefix ''--'' k"
    by (cases k; cases "tl k") (auto simp: flag_name_def)
  then show ?thesis using k by (simp add: double_dash_def flag_name_def)
qed

lemma flag_name_dashes: "flag_name k \<Longrightarrow> CHR ''='' \<notin> set (double_dash k) \<and> prefix ''-'' k"
  by (auto simp: flag_name_def double_dash_def)

lemma parse_item:
  assumes "item_ok it" "case it of Bare k \<Rightarrow> (case rest of [] \<Rightarrow> True | a # as \<Rightarrow> ToLower a \<notin> {''true'', ''false''}) | _ \<Rightarrow> True"
  shows "parse_from (render_item it @ rest) cfg = parse_from rest (item_effect it cfg)"
proof (cases it)
  case (Positional a)
  then show ?thesis using assms(1) by simp
next
  case (Joined k v)
  then have k: "flag_name k" using assms(1) by simp
  have "prefix ''-'' (k @ ''='' @ v)" using flag_name_dashes [OF k] by (auto simp: prefix_def)
  then show ?thesis using Joined k flag_name_dashes [OF k] double_dash_joined [OF k, of v]
      IndexByte_append [of "CHR ''=''" "double_dash k" v] by simp
next
  case (Separate k v)
  then have k: "flag_name k" using assms(1) by simp
  have i: "IndexByte (double_dash k) (CHR ''='') = None" using flag_name_dashes [OF k] by simp
  show ?thesis using Separate k assms(1) flag_name_dashes [OF k] by (auto simp: Let_def i)
next
  case (Bare k)
  then have k: "flag_name k" using assms(1) by simp
  have i: "IndexByte (double_dash k) (CHR ''='') = None" using flag_name_dashes [OF k] by simp
  show ?thesis using Bare k assms flag_name_dashes [OF k] by (cases rest) (auto simp: Let_def i)
qed

lemma parse_items: "items_ok items \<Longrightarrow> parse_from (concat (map render_item items)) cfg = fold item_effect items cfg"
proof (induction items arbitrary: cfg)
  case Nil
  then show ?case by simp
next
  case (Cons it its)
  then show ?case using parse_item [of it "concat (map render_item its)" cfg] by simp
qed

text \<open>
  What exec arguments mean.  For a list of arguments written in any mix of styles, the result is that of
  applying the flags in order, each with its value: single and double dashes, joined and separate values, and values
  that begin with a dash are all read alike; a bare boolean flag is on; words that are no flags are skipped.
\<close>

theorem parseExecArgs_meaning:
  assumes "items_ok items"
  shows "parseExecArgs (concat (map render_item items)) = fold item_effect items zero_config"
  using parse_items [OF assms] by (simp add: parseExecArgs_def)

theorem parseExecArgs_meaning_witness:
  "parseExecArgs [''get-token'', ''-oidc-client-id'', ''k8s'', ''--oidc-client-secret'', ''-s'', ''--skip-open-browser'', ''--oidc-issuer-url=u'']
     = zero_config\<lparr>pc_clientID := ''k8s'', pc_clientSecret := ''-s'', pc_skipOpenBrowser := True, pc_issuerURL := ''u''\<rparr>"
  using parseExecArgs_meaning [of "[Positional ''get-token'', Separate ''-oidc-client-id'' ''k8s'', Separate ''--oidc-client-secret'' ''-s'',
      Bare ''--skip-open-browser'', Joined ''--oidc-issuer-url'' ''u'']"]
  by (simp add: flag_name_def double_dash_def boolFlags_def apply_flag_def zero_config_def lower_char_def byte_of_def)

section \<open>The kubeconfig\<close>

text \<open>
  A loaded kubeconfig, as the types of \<open>clientcmd/api\<close>: \<open>None\<close> is a nil pointer.  The fields the program never looks at
  are kept together in one opaque field of each record, so that it can be said that they stay as they are.
\<close>

record exec_config =
  ec_APIVersion :: string
  ec_Command :: string
  ec_Args :: "string list"
  ec_InteractiveMode :: string
  ec_rest :: string

record auth_info =
  ai_Exec :: "exec_config option"
  ai_rest :: string

record kube_context =
  cx_Cluster :: string
  cx_AuthInfo :: string
  cx_rest :: string

record kubeconfig =
  kc_CurrentContext :: string
  kc_Contexts :: "(string, kube_context option) gomap"
  kc_Clusters :: "(string, string) gomap"
  kc_AuthInfos :: "(string, auth_info option) gomap"
  kc_rest :: string

text \<open>\<open>filepath.Base\<close>\<close>

definition filepath_Base :: "string \<Rightarrow> string" where
  "filepath_Base p =
     (if p = [] then ''.''
      else let q = rev (dropWhile (\<lambda>c. c = CHR ''/'') (rev p)); b = rev (takeWhile (\<lambda>c. c \<noteq> CHR ''/'') (rev q))
           in if q = [] then ''/'' else b)"

definition TrimSuffix :: "string \<Rightarrow> string \<Rightarrow> string" where
  "TrimSuffix s suf = (if suffix suf s then take (length s - length suf) s else s)"

text \<open>\<open>%q\<close>, for text without bytes outside ASCII.\<close>

definition quote_char :: "char \<Rightarrow> string" where
  "quote_char c =
     (if c = CHR 0x22 \<or> c = CHR 0x5C then [CHR 0x5C, c]
      else if c = CHR 0x07 then [CHR 0x5C, CHR ''a''] else if c = CHR 0x08 then [CHR 0x5C, CHR ''b'']
      else if c = CHR 0x0C then [CHR 0x5C, CHR ''f''] else if c = CHR 0x0A then [CHR 0x5C, CHR ''n'']
      else if c = CHR 0x0D then [CHR 0x5C, CHR ''r''] else if c = CHR 0x09 then [CHR 0x5C, CHR ''t'']
      else if c = CHR 0x0B then [CHR 0x5C, CHR ''v'']
      else if byte_of c < 32 \<or> byte_of c = 127 then [CHR 0x5C, CHR ''x'', hex_digit (byte_of c div 16), hex_digit (byte_of c mod 16)]
      else [c])"

definition go_quote :: "string \<Rightarrow> string" where
  "go_quote s = [CHR 0x22] @ concat (map quote_char s) @ [CHR 0x22]"

definition parseOIDCFromKubeconfig :: "go_error + kubeconfig \<Rightarrow> string \<Rightarrow> go_error + parsedOIDCConfig" where
  "parseOIDCFromKubeconfig load contextName0 =
     (case load of
        Inl e \<Rightarrow> Inl (Wrap ''load kubeconfig'' e)
      | Inr config \<Rightarrow>
          let contextName = (if contextName0 = [] then kc_CurrentContext config else contextName0) in
          if contextName = [] then Inl (Err ''no current context in kubeconfig'')
          else case gm_get (kc_Contexts config) contextName of
                 Some (Some ctx) \<Rightarrow>
                   (let user = cx_AuthInfo ctx in
                    case gm_get (kc_AuthInfos config) user of
                      Some (Some userObj) \<Rightarrow>
                        (case ai_Exec userObj of
                           None \<Rightarrow> Inl (Err (''user '' @ go_quote user @ '' does not use exec credential plugin''))
                         | Some ex \<Rightarrow>
                             let base = TrimSuffix (filepath_Base (ec_Command ex)) ''.exe'' in
                             if base \<noteq> ''kubelogin-daemon'' \<and> base \<noteq> ''kubelogin'' \<and> base \<noteq> ''kubectl-oidc_login''
                             then Inl (Err (''context uses exec command '' @ go_quote base @
                               '', expected kubelogin-daemon or kubelogin (use --oidc-issuer-url/--oidc-client-id flags or --context to select the right context)''))
                             else Inr (parseExecArgs (ec_Args ex)))
                    | _ \<Rightarrow> Inl (Err (''user '' @ go_quote user @ '' not found in kubeconfig'')))
               | _ \<Rightarrow> Inl (Err (''context '' @ go_quote contextName @ '' not found in kubeconfig'')))"

section \<open>Flags and cache keys\<close>

record oidcFlags =
  of_contextName :: string
  of_issuerURL :: string
  of_clientID :: string
  of_clientSecret :: string
  of_extraScopes :: "string list"
  of_extraParams :: "(string, string) gomap"
  of_requestHeaders :: "(string, string) gomap"
  of_username :: string
  of_grantType :: string
  of_useAccessToken :: bool
  of_redirectURL :: string
  of_pkceMethod :: PKCEMethod
  of_tlsConfig :: TLSClientConfig
  of_skipOpenBrowser :: bool
  of_listenAddress :: "string list"
  of_browserCommand :: string
  of_authenticationTimeoutSec :: int
  of_localServerCertFile :: string
  of_localServerKeyFile :: string
  of_openURLAfterAuthentication :: string
  of_redirectURLHostname :: string
  of_tokenCacheStorage :: string

definition or_else :: "'a list \<Rightarrow> 'a list \<Rightarrow> 'a list" where
  "or_else xs ys = (if xs = [] then ys else xs)"

text \<open>\<open>changed\<close> tells whether \<open>--oidc-use-access-token\<close> was given on the command line.\<close>

definition merge_flags :: "bool \<Rightarrow> parsedOIDCConfig \<Rightarrow> oidcFlags \<Rightarrow> oidcFlags" where
  "merge_flags changed p f =
     f\<lparr>of_issuerURL := or_else (of_issuerURL f) (pc_issuerURL p),
       of_clientID := or_else (of_clientID f) (pc_clientID p),
       of_clientSecret := or_else (of_clientSecret f) (pc_clientSecret p),
       of_extraScopes := or_else (of_extraScopes f) (pc_extraScopes p),
       of_grantType := (if of_grantType f = ''auto'' \<and> pc_grantType p \<noteq> [] then pc_grantType p else of_grantType f),
       of_useAccessToken := (if \<not> changed then pc_useAccessToken p else of_useAccessToken f),
       of_username := or_else (of_username f) (pc_username p),
       of_extraParams := or_else (of_extraParams f) (pc_extraParams p),
       of_requestHeaders := or_else (of_requestHeaders f) (pc_requestHeaders p),
       of_redirectURL := or_else (of_redirectURL f) (pc_redirectURL p),
       of_pkceMethod := (if of_pkceMethod f = PKCEMethodAuto then pc_pkceMethod p else of_pkceMethod f),
       of_tlsConfig := (if tls_CACertFilename (of_tlsConfig f) = [] \<and> tls_CACertData (of_tlsConfig f) = []
          then \<lparr>tls_CACertFilename = pc_caCertFilename p, tls_CACertData = pc_caCertData p, tls_SkipTLSVerify = pc_skipTLSVerify p,
                tls_Renegotiation = pc_renegotiation p\<rparr>
          else of_tlsConfig f),
       of_skipOpenBrowser := (of_skipOpenBrowser f \<or> pc_skipOpenBrowser p),
       of_listenAddress := or_else (of_listenAddress f) (pc_listenAddress p),
       of_browserCommand := or_else (of_browserCommand f) (pc_browserCommand p),
       of_authenticationTimeoutSec := (if of_authenticationTimeoutSec f = 0 \<and> pc_authenticationTimeoutSec p > 0
          then pc_authenticationTimeoutSec p else of_authenticationTimeoutSec f),
       of_localServerCertFile := or_else (of_localServerCertFile f) (pc_localServerCertFile p),
       of_localServerKeyFile := or_else (of_localServerKeyFile f) (pc_localServerKeyFile p),
       of_openURLAfterAuthentication := or_else (of_openURLAfterAuthentication f) (pc_openURLAfterAuthentication p),
       of_redirectURLHostname := or_else (of_redirectURLHostname f) (pc_redirectURLHostname p),
       of_tokenCacheStorage := or_else (of_tokenCacheStorage f) (pc_tokenCacheStorage p)\<rparr>"

definition resolveFromKubeconfig :: "go_error + kubeconfig \<Rightarrow> bool \<Rightarrow> oidcFlags \<Rightarrow> go_error + oidcFlags" where
  "resolveFromKubeconfig load changed f =
     (if of_issuerURL f \<noteq> [] \<and> of_clientID f \<noteq> [] then Inr f
      else case parseOIDCFromKubeconfig load (of_contextName f) of
             Inl e \<Rightarrow> Inl (Wrap ''read kubeconfig'' e)
           | Inr p \<Rightarrow> Inr (merge_flags changed p f))"

definition validate :: "oidcFlags \<Rightarrow> go_error option" where
  "validate f =
     (if of_issuerURL f = [] \<or> of_clientID f = []
      then Some (Err ''OIDC issuer URL and client ID are required (provide via kubeconfig or --oidc-issuer-url/--oidc-client-id)'') else None)"

record cache_Key =
  ck_Provider :: Provider
  ck_TLSClientConfig :: TLSClientConfig
  ck_Username :: string
  ck_AuthRequestExtraParams :: "(string, string) gomap"

definition flags_key :: "oidcFlags \<Rightarrow> cache_Key" where
  "flags_key f =
     \<lparr>ck_Provider = \<lparr>pv_IssuerURL = of_issuerURL f, pv_ClientID = of_clientID f, pv_ClientSecret = of_clientSecret f,
        pv_ExtraScopes = of_extraScopes f, pv_RedirectURL = of_redirectURL f, pv_PKCEMethod = of_pkceMethod f,
        pv_UseAccessToken = of_useAccessToken f, pv_RequestHeaders = of_requestHeaders f\<rparr>,
      ck_TLSClientConfig = of_tlsConfig f, ck_Username = of_username f, ck_AuthRequestExtraParams = of_extraParams f\<rparr>"

text \<open>\<open>computeChecksum\<close>: the SHA-256 digest, in hexadecimal, of an encoding of the key; the encoder and the hash are
  parameters.  \<open>gob\<close> stands for one run of the encoder: it writes a map in the order the iteration takes that time, so two calls on the same key
  may be given different functions.\<close>

definition computeChecksum :: "(cache_Key \<Rightarrow> go_error + string) \<Rightarrow> (string \<Rightarrow> string) \<Rightarrow> cache_Key \<Rightarrow> go_error + string" where
  "computeChecksum gob sha256 key =
     (case gob key of Inl e \<Rightarrow> Inl (Wrap ''could not encode the key'' e) | Inr b \<Rightarrow> Inr (hex_encode (sha256 b)))"

definition buildCacheKey :: "(cache_Key \<Rightarrow> go_error + string) \<Rightarrow> (string \<Rightarrow> string) \<Rightarrow> oidcFlags \<Rightarrow> go_error + string" where
  "buildCacheKey gob sha256 f = computeChecksum gob sha256 (flags_key f)"

text \<open>What the flag library delivers to \<open>get-token\<close>.\<close>

record get_flags =
  gf_issuerURL :: string
  gf_clientID :: string
  gf_clientSecret :: string
  gf_extraScopes :: "string list"
  gf_extraParams :: "(string, string) gomap"
  gf_requestHeaders :: "(string, string) gomap"
  gf_username :: string
  gf_grantType :: string
  gf_useAccessToken :: bool
  gf_forceRefresh :: bool
  gf_certificateAuthority :: "string list"
  gf_certificateAuthorityData :: "string list"
  gf_insecureSkipTLSVerify :: bool
  gf_tlsRenegotiationOnce :: bool
  gf_tlsRenegotiationFreely :: bool
  gf_redirectURL :: string
  gf_pkceMethod :: string
  gf_usePKCE :: bool

definition get_tls :: "get_flags \<Rightarrow> TLSClientConfig" where
  "get_tls g = \<lparr>tls_CACertFilename = gf_certificateAuthority g, tls_CACertData = gf_certificateAuthorityData g,
     tls_SkipTLSVerify = gf_insecureSkipTLSVerify g,
     tls_Renegotiation = (if gf_tlsRenegotiationFreely g then 2 else if gf_tlsRenegotiationOnce g then 1 else 0)\<rparr>"

definition get_token_key :: "get_flags \<Rightarrow> cache_Key" where
  "get_token_key g =
     \<lparr>ck_Provider = \<lparr>pv_IssuerURL = gf_issuerURL g, pv_ClientID = gf_clientID g, pv_ClientSecret = gf_clientSecret g,
        pv_ExtraScopes = gf_extraScopes g, pv_RedirectURL = gf_redirectURL g,
        pv_PKCEMethod = (if gf_usePKCE g then PKCEMethodS256 else parsePKCEMethod (gf_pkceMethod g)),
        pv_UseAccessToken = gf_useAccessToken g, pv_RequestHeaders = gf_requestHeaders g\<rparr>,
      ck_TLSClientConfig = get_tls g, ck_Username = gf_username g, ck_AuthRequestExtraParams = gf_extraParams g\<rparr>"

definition get_token_request :: "get_flags \<Rightarrow> Request" where
  "get_token_request g =
     zero_request\<lparr>rq_IssuerURL := gf_issuerURL g, rq_ClientID := gf_clientID g, rq_ClientSecret := gf_clientSecret g,
       rq_ExtraScopes := gf_extraScopes g, rq_ExtraParams := gf_extraParams g, rq_Username := gf_username g,
       rq_UseAccessToken := gf_useAccessToken g, rq_GrantType := gf_grantType g, rq_RequestHeaders := gf_requestHeaders g,
       rq_RedirectURL := gf_redirectURL g, rq_ForceRefresh := gf_forceRefresh g, rq_TLSConfig := get_tls g\<rparr>"

section \<open>Consistency of cache keys\<close>

lemma hex_digit_is_hex: "n < 16 \<Longrightarrow> is_hex (hex_digit n)"
  by (auto simp: is_hex_def hex_digit_def byte_in_def byte_of_def)

lemma hex_encode_hex: "list_all is_hex (hex_encode b)" "length (hex_encode b) = 2 * length b"
proof -
  have "byte_of c div 16 < 16" for c by (rule less_mult_imp_div_less) simp
  then show "list_all is_hex (hex_encode b)" by (auto simp: hex_encode_def list_all_iff hex_digit_is_hex)
  show "length (hex_encode b) = 2 * length b" by (induction b) (simp_all add: hex_encode_def)
qed

text \<open>
  C38: every computed cache key is one the daemon accepts: with a hash of 32 bytes it consists of 64 hexadecimal
  digits, so that it is also safe as a file name.
\<close>

theorem computeChecksum_valid:
  assumes "computeChecksum gob sha256 key = Inr k" and "\<And>b. length (sha256 b) = 32"
  shows "IsValidCacheKey k \<and> length k = 64"
proof -
  from assms(1) obtain b where k: "k = hex_encode (sha256 b)" by (auto simp: computeChecksum_def split: sum.splits)
  then have "length k = 64" using hex_encode_hex(2) [of "sha256 b"] assms(2) by simp
  then show ?thesis using hex_encode_hex(1) [of "sha256 b"] k by (auto simp: IsValidCacheKey_def)
qed

theorem computeChecksum_valid_witness:
  "IsValidCacheKey (hex_encode (replicate 32 (CHR ''x'')))"
  using computeChecksum_valid [of "\<lambda>_. Inr []" "\<lambda>_. replicate 32 (CHR ''x'')" undefined "hex_encode (replicate 32 (CHR ''x''))"]
  by (simp add: computeChecksum_def)

text \<open>What the flag library and the daemon's own parser deliver for one list of arguments, when they agree on every flag.\<close>

definition flags_agree :: "get_flags \<Rightarrow> parsedOIDCConfig \<Rightarrow> bool" where
  "flags_agree g p \<longleftrightarrow> gf_issuerURL g = pc_issuerURL p \<and> gf_clientID g = pc_clientID p \<and> gf_clientSecret g = pc_clientSecret p \<and>
     gf_extraScopes g = pc_extraScopes p \<and> gf_extraParams g = pc_extraParams p \<and> gf_requestHeaders g = pc_requestHeaders p \<and>
     gf_username g = pc_username p \<and> gf_useAccessToken g = pc_useAccessToken p \<and>
     gf_certificateAuthority g = pc_caCertFilename p \<and> gf_certificateAuthorityData g = pc_caCertData p \<and>
     gf_insecureSkipTLSVerify g = pc_skipTLSVerify p \<and> gf_redirectURL g = pc_redirectURL p \<and>
     (if gf_tlsRenegotiationFreely g then 2 else if gf_tlsRenegotiationOnce g then 1 else 0) = pc_renegotiation p \<and>
     (if gf_usePKCE g then PKCEMethodS256 else parsePKCEMethod (gf_pkceMethod g)) = pc_pkceMethod p"

text \<open>The flags of \<open>login\<close>, \<open>check\<close> and \<open>refresh\<close> when none is given; the three differ in the default of the grant type.\<close>

definition default_flags :: "string \<Rightarrow> string \<Rightarrow> oidcFlags" where
  "default_flags context grantType = \<lparr>of_contextName = context, of_issuerURL = [], of_clientID = [], of_clientSecret = [], of_extraScopes = [],
     of_extraParams = [], of_requestHeaders = [], of_username = [], of_grantType = grantType, of_useAccessToken = False, of_redirectURL = [],
     of_pkceMethod = PKCEMethodAuto, of_tlsConfig = zero_tls, of_skipOpenBrowser = False, of_listenAddress = [], of_browserCommand = [],
     of_authenticationTimeoutSec = 0, of_localServerCertFile = [], of_localServerKeyFile = [], of_openURLAfterAuthentication = [],
     of_redirectURLHostname = [], of_tokenCacheStorage = []\<rparr>"

text \<open>
  \<open>login\<close>, \<open>check\<close> and \<open>refresh\<close> find the token \<open>get-token\<close> uses.  Run without flags, they read the exec section of the
  kubeconfig and compute the cache key that \<open>get-token\<close> computes from the same arguments, for every encoder and
  hash, provided the flag library and the daemon's parser agree on the flags; no field of the key is lost.
\<close>

theorem cache_keys_consistent:
  assumes "parseOIDCFromKubeconfig load context = Inr p" and "flags_agree g p"
    and "resolveFromKubeconfig load False (default_flags context grantType) = Inr f"
  shows "buildCacheKey gob sha256 f = computeChecksum gob sha256 (get_token_key g)"
proof -
  have "f = merge_flags False p (default_flags context grantType)"
    using assms(1,3) by (simp add: resolveFromKubeconfig_def default_flags_def)
  then have "flags_key f = get_token_key g"
    using assms(2) by (simp add: flags_key_def get_token_key_def get_tls_def merge_flags_def default_flags_def or_else_def flags_agree_def zero_tls_def)
  then show ?thesis by (simp add: buildCacheKey_def)
qed

text \<open>An example: a kubeconfig whose only user runs the daemon.\<close>

definition demo_kubeconfig :: kubeconfig where
  "demo_kubeconfig = \<lparr>kc_CurrentContext = ''c'', kc_Contexts = [(''c'', Some \<lparr>cx_Cluster = ''k'', cx_AuthInfo = ''u'', cx_rest = []\<rparr>)],
     kc_Clusters = [(''k'', [])],
     kc_AuthInfos = [(''u'', Some \<lparr>ai_Exec = Some \<lparr>ec_APIVersion = ''client.authentication.k8s.io/v1'', ec_Command = ''/bin/kubelogin'',
        ec_Args = [''get-token'', ''--oidc-issuer-url=i'', ''--oidc-client-id'', ''k8s''], ec_InteractiveMode = [], ec_rest = []\<rparr>, ai_rest = []\<rparr>)],
     kc_rest = []\<rparr>"

definition demo_get_flags :: get_flags where
  "demo_get_flags = \<lparr>gf_issuerURL = ''i'', gf_clientID = ''k8s'', gf_clientSecret = [], gf_extraScopes = [], gf_extraParams = [],
     gf_requestHeaders = [], gf_username = [], gf_grantType = ''auto'', gf_useAccessToken = False, gf_forceRefresh = False,
     gf_certificateAuthority = [], gf_certificateAuthorityData = [], gf_insecureSkipTLSVerify = False, gf_tlsRenegotiationOnce = False,
     gf_tlsRenegotiationFreely = False, gf_redirectURL = [], gf_pkceMethod = [], gf_usePKCE = False\<rparr>"

lemma demo_parse:
  "parseOIDCFromKubeconfig (Inr demo_kubeconfig) [] = Inr (zero_config\<lparr>pc_issuerURL := ''i'', pc_clientID := ''k8s''\<rparr>)"
  by (simp add: parseOIDCFromKubeconfig_def demo_kubeconfig_def filepath_Base_def TrimSuffix_def suffix_def parseExecArgs_def double_dash_def
      boolFlags_def apply_flag_def zero_config_def)

theorem cache_keys_consistent_witness:
  "\<exists>f. resolveFromKubeconfig (Inr demo_kubeconfig) False (default_flags [] ''auto'') = Inr f \<and>
       buildCacheKey (\<lambda>_. Inr ''b'') (\<lambda>_. ''h'') f = computeChecksum (\<lambda>_. Inr ''b'') (\<lambda>_. ''h'') (get_token_key demo_get_flags)"
proof -
  let ?f = "merge_flags False (zero_config\<lparr>pc_issuerURL := ''i'', pc_clientID := ''k8s''\<rparr>) (default_flags [] ''auto'')"
  have r: "resolveFromKubeconfig (Inr demo_kubeconfig) False (default_flags [] ''auto'') = Inr ?f"
    using demo_parse by (simp add: resolveFromKubeconfig_def default_flags_def)
  have "flags_agree demo_get_flags (zero_config\<lparr>pc_issuerURL := ''i'', pc_clientID := ''k8s''\<rparr>)"
    by (simp add: flags_agree_def demo_get_flags_def zero_config_def parsePKCEMethod_def)
  from cache_keys_consistent [OF demo_parse this r] r show ?thesis by blast
qed

text \<open>
  The agreement can fail: the daemon's parser takes the last of the two renegotiation flags, \<open>get-token\<close> the stronger one.
\<close>

lemma renegotiation_order:
  assumes "gf_tlsRenegotiationFreely g"
  shows "\<not> flags_agree g (parseExecArgs [''--tls-renegotiation-freely'', ''--tls-renegotiation-once''])"
  using assms by (simp add: flags_agree_def parseExecArgs_def double_dash_def boolFlags_def apply_flag_def zero_config_def lower_char_def byte_of_def)

end
