(* ===== verification/Cli.thy ===== *)
theory Cli
  imports ExecArgs
begin

text \<open>
  The commands \<open>get-token\<close>, \<open>login\<close>, \<open>check\<close> and \<open>refresh\<close> of \<open>main.go\<close> as sequences of interactions with the daemon, in the
  world of \<open>Shim\<close>: their results are what the user sees, and the trace shows what was asked of the daemon.
  Warnings on standard error that do not end a command are not modelled.
\<close>

section \<open>Environment and results\<close>

datatype cli_result =
    Credential string string gotime
  | Printed string
  | JsonOut bool "(string \<times> json) list"
  | NotReady string
  | UserError string

text \<open>
  What the commands use besides the shim: the encoder and hash of cache keys, the formatting of times, the
  environment variable with the API version, the flows, what happens while the user logs in, whether they
  interrupt it, and the search for the process behind a socket.
\<close>

record ('c, 't) cli_env =
  cl_shim :: shim_env
  cl_gob :: "cache_Key \<Rightarrow> go_error + string"
  cl_sha256 :: "string \<Rightarrow> string"
  cl_rfc3339 :: "gotime \<Rightarrow> string"
  cl_execInfo :: string
  cl_flows :: "('c, 't) auth_flows"
  cl_wait :: "shim_sys \<Rightarrow> duration \<times> vfs"
  cl_interrupted :: "shim_sys \<Rightarrow> bool"
  cl_findPID :: "shim_sys \<Rightarrow> int"
  cl_killError :: "int \<Rightarrow> go_error option"

record TokenSet =
  ts_IDToken :: string
  ts_RefreshToken :: string

section \<open>get-token\<close>

definition v1beta1 :: string where "v1beta1 = ''client.authentication.k8s.io/v1beta1''"
definition v1 :: string where "v1 = ''client.authentication.k8s.io/v1''"

definition exec_info_member :: "string \<times> json \<Rightarrow> bool \<times> string \<Rightarrow> bool \<times> string" where
  "exec_info_member m st =
     (case select_field [''apiVersion''] (fst m) of
        None \<Rightarrow> st
      | Some f \<Rightarrow> (let (b, v) = store_string (snd m) (snd st) in (fst st \<or> b, v)))"

definition exec_api_version :: "string \<Rightarrow> string" where
  "exec_api_version envInfo =
     (if envInfo = [] then v1
      else case json_parse envInfo of
             Inr (JObj ms) \<Rightarrow>
               (case fold exec_info_member ms (False, []) of
                  (bad, ver) \<Rightarrow> if \<not> bad \<and> ver \<noteq> [] then ver else v1)
           | _ \<Rightarrow> v1)"

text \<open>\<open>generateExecCredential\<close>: the version, token and expiry that are written, or an error.\<close>

definition generateExecCredential :: "string \<Rightarrow> string \<Rightarrow> gotime \<Rightarrow> go_error + (string \<times> string \<times> gotime)" where
  "generateExecCredential apiVersion token expiry =
     (if apiVersion = v1beta1 \<or> apiVersion = [] then Inr (v1beta1, token, expiry)
      else if apiVersion = v1 then Inr (v1, token, expiry)
      else Inl (Err (''unknown apiVersion: '' @ apiVersion)))"

definition writeExecCredential :: "string \<Rightarrow> string \<Rightarrow> gotime \<Rightarrow> cli_result" where
  "writeExecCredential envInfo token expiry =
     (case generateExecCredential (exec_api_version envInfo) token expiry of
        Inl e \<Rightarrow> UserError (''generate ExecCredential: '' @ Error e)
      | Inr (v, t, x) \<Rightarrow> Credential v t x)"

definition runGetToken :: "('c, 't) cli_env \<Rightarrow> string \<Rightarrow> string \<Rightarrow> Request \<Rightarrow> shim_sys \<Rightarrow> cli_result \<times> shim_sys" where
  "runGetToken C runtimeDir cacheKey req s =
     (case GetTokenFromDaemon (cl_shim C) runtimeDir cacheKey req s of
        (Inl err, s1) \<Rightarrow> (UserError ''Not authenticated. Run 'kubelogin-daemon login' to log in.'', s1)
      | (Inr resp, s1) \<Rightarrow>
          (if rs_Status resp = ''ok'' then writeExecCredential (cl_execInfo C) (rs_Token resp) (rs_Expiry resp)
           else if rs_Status resp = ''needs-auth'' then UserError ''Not authenticated. Run 'kubelogin-daemon login' to log in.''
           else if rs_Status resp = ''login-in-progress'' then UserError ''Login in progress. Wait a moment and retry.''
           else if rs_Status resp = ''error'' then
             (if rs_ErrorCode resp = ErrCodeTokenRevoked \<or> rs_ErrorCode resp = ErrCodeRefreshFailed
              then UserError ''Session expired. Run 'kubelogin-daemon login' to re-authenticate.''
              else UserError ''Not authenticated. Run 'kubelogin-daemon login' to log in.'')
           else UserError ''Not authenticated. Run 'kubelogin-daemon login' to log in.'', s1))"

section \<open>A healthy daemon\<close>

definition getDaemonPID :: "shim_env \<Rightarrow> string \<Rightarrow> shim_sys \<Rightarrow> int \<times> shim_sys" where
  "getDaemonPID E runtimeDir s =
     (case SendHealth E runtimeDir s of (Inl _, s1) \<Rightarrow> (0, s1) | (Inr resp, s1) \<Rightarrow> (rs_PID resp, s1))"

definition killDaemonProcess :: "('c, 't) cli_env \<Rightarrow> string \<Rightarrow> shim_sys \<Rightarrow> go_error option \<times> shim_sys" where
  "killDaemonProcess C runtimeDir s =
     (let (pid0, s1) = getDaemonPID (cl_shim C) runtimeDir s;
          pid = (if pid0 \<le> 0 then cl_findPID C s1 else pid0)
      in if pid \<le> 0 then (Some (Err ''could not determine daemon PID''), s1)
         else if pid = se_getpid (cl_shim C)
         then (Some (Err (''refusing to kill own process (PID '' @ show_int pid @ '')'')), s1)
         else case cl_killError C pid of
                Some e \<Rightarrow> (Some (Wrap (''kill process '' @ show_int pid) e), s1)
              | None \<Rightarrow> (None, advance (EvKill (ss_now s1) pid) 0 (ss_fs s1) s1))"

text \<open>The loop that waits for the transport to go away.\<close>

fun wait_gone :: "shim_env \<Rightarrow> nat \<Rightarrow> shim_sys \<Rightarrow> shim_sys" where
  "wait_gone E 0 s = s"
| "wait_gone E (Suc n) s =
     (let (alive, s1) = probe_alive E s in if \<not> alive then s1 else wait_gone E n (sleep E (200 * millisecond) s1))"

definition ensureHealthyDaemon :: "('c, 't) cli_env \<Rightarrow> string \<Rightarrow> shim_sys \<Rightarrow> go_error option \<times> shim_sys" where
  "ensureHealthyDaemon C runtimeDir s =
     (case SendHealth (cl_shim C) runtimeDir s of
        (Inl _, s1) \<Rightarrow> AutoStartDaemon (cl_shim C) runtimeDir s1
      | (Inr resp, s1) \<Rightarrow>
          if rs_Status resp = ''ok'' then (None, s1)
          else
            let (_, s2) = killDaemonProcess C runtimeDir s1
            in AutoStartDaemon (cl_shim C) runtimeDir (wait_gone (cl_shim C) 10 s2))"

section \<open>login\<close>

definition no_connect :: cli_result where
  "no_connect = UserError ''Cannot connect to background service. Try again.''"

definition no_start :: cli_result where
  "no_start = UserError ''Cannot start background service. Check that kubelogin-daemon is installed correctly.''"

text \<open>The begin of a login, which cancels a stuck one and at last restarts the daemon; \<open>Inl\<close> ends the command.\<close>

definition begin_login :: "('c, 't) cli_env \<Rightarrow> string \<Rightarrow> string \<Rightarrow> shim_sys \<Rightarrow> (cli_result + Response) \<times> shim_sys" where
  "begin_login C runtimeDir cacheKey s =
     (let E = cl_shim C in
      case SendBeginLogin E runtimeDir cacheKey s of
        (Inl _, s1) \<Rightarrow> (Inl no_connect, s1)
      | (Inr r1, s1) \<Rightarrow>
          if rs_Status r1 \<noteq> ''login-in-progress'' then (Inr r1, s1)
          else
            let (_, s2) = SendCancelLogin E runtimeDir cacheKey s1 in
            (case SendBeginLogin E runtimeDir cacheKey s2 of
               (Inl _, s3) \<Rightarrow> (Inl no_connect, s3)
             | (Inr r2, s3) \<Rightarrow>
                 if rs_Status r2 \<noteq> ''login-in-progress'' then (Inr r2, s3)
                 else
                   let (_, s4) = sendShutdown E runtimeDir s3;
                       s5 = sleep E (300 * millisecond) s4
                   in (case AutoStartDaemon E runtimeDir s5 of
                         (Some _, s6) \<Rightarrow> (Inl no_start, s6)
                       | (None, s6) \<Rightarrow>
                           (case SendBeginLogin E runtimeDir cacheKey s6 of
                              (Inl _, s7) \<Rightarrow> (Inl no_connect, s7)
                            | (Inr r3, s7) \<Rightarrow> (Inr r3, s7)))))"

definition login_provider :: "oidcFlags \<Rightarrow> Provider" where
  "login_provider f = \<lparr>pv_IssuerURL = of_issuerURL f, pv_ClientID = of_clientID f, pv_ClientSecret = of_clientSecret f,
     pv_ExtraScopes = of_extraScopes f, pv_RedirectURL = of_redirectURL f, pv_PKCEMethod = PKCEMethodAuto,
     pv_UseAccessToken = of_useAccessToken f, pv_RequestHeaders = of_requestHeaders f\<rparr>"

definition login_options :: "oidcFlags \<Rightarrow> string \<Rightarrow> AuthOptions" where
  "login_options f mappedGrant = \<lparr>ao_SkipOpenBrowser = (of_skipOpenBrowser f \<or> mappedGrant = ''device-code''),
     ao_AuthenticationTimeout = of_authenticationTimeoutSec f, ao_ListenAddress = of_listenAddress f,
     ao_BrowserCommand = of_browserCommand f, ao_LocalServerCertFile = of_localServerCertFile f,
     ao_LocalServerKeyFile = of_localServerKeyFile f, ao_OpenURLAfterAuthentication = of_openURLAfterAuthentication f,
     ao_AuthRequestExtraParams = of_extraParams f, ao_TLSConfig = of_tlsConfig f\<rparr>"

definition flags_request :: "oidcFlags \<Rightarrow> Request" where
  "flags_request f =
     zero_request\<lparr>rq_IssuerURL := of_issuerURL f, rq_ClientID := of_clientID f, rq_ClientSecret := of_clientSecret f,
       rq_ExtraScopes := of_extraScopes f, rq_ExtraParams := of_extraParams f, rq_Username := of_username f,
       rq_UseAccessToken := of_useAccessToken f, rq_GrantType := of_grantType f, rq_RequestHeaders := of_requestHeaders f,
       rq_RedirectURL := of_redirectURL f, rq_TLSConfig := of_tlsConfig f\<rparr>"

text \<open>\<open>StoreToken\<close>, accepted only with status \<open>ok\<close>.\<close>

definition try_store :: "shim_env \<Rightarrow> string \<Rightarrow> string \<Rightarrow> Request \<Rightarrow> TokenSet \<Rightarrow> shim_sys \<Rightarrow> Response option \<times> shim_sys" where
  "try_store E runtimeDir cacheKey req ts s =
     (case StoreToken E runtimeDir cacheKey req (ts_IDToken ts) (ts_RefreshToken ts) s of
        (Inl _, s1) \<Rightarrow> (None, s1)
      | (Inr resp, s1) \<Rightarrow> (if rs_Status resp = ''ok'' then Some resp else None, s1))"

definition login_stored :: "('c, TokenSet) cli_env \<Rightarrow> Response \<Rightarrow> cli_result" where
  "login_stored C resp = Printed (''Login successful. Token expires '' @ cl_rfc3339 C (rs_Expiry resp) @ [CHR 0x0A])"

definition store_login :: "('c, TokenSet) cli_env \<Rightarrow> string \<Rightarrow> string \<Rightarrow> Request \<Rightarrow> TokenSet \<Rightarrow> shim_sys \<Rightarrow> cli_result \<times> shim_sys" where
  "store_login C runtimeDir cacheKey req ts s =
     (let E = cl_shim C in
      case try_store E runtimeDir cacheKey req ts s of
        (Some resp, s1) \<Rightarrow> (login_stored C resp, s1)
      | (None, s1) \<Rightarrow>
          let (_, s2) = killDaemonProcess C runtimeDir s1 in
          (case AutoStartDaemon E runtimeDir (wait_gone E 10 s2) of
             (Some _, s3) \<Rightarrow> (UserError ''Login succeeded but failed to save token: cannot restart daemon.'', s3)
           | (None, s3) \<Rightarrow>
               (case try_store E runtimeDir cacheKey req ts s3 of
                  (Some resp, s4) \<Rightarrow> (login_stored C resp, s4)
                | (None, s4) \<Rightarrow> (UserError ''Login succeeded but failed to save token after daemon restart.'', s4))))"

text \<open>While the user logs in, time passes; an interrupt cancels the login with the daemon and the context of the flow.\<close>

definition during_login :: "('c, 't) cli_env \<Rightarrow> string \<Rightarrow> string \<Rightarrow> shim_sys \<Rightarrow> shim_sys" where
  "during_login C runtimeDir cacheKey s =
     (let (d, w) = cl_wait C s;
          s1 = s\<lparr>ss_now := ss_now s + d, ss_fs := w\<rparr>
      in if cl_interrupted C s then snd (SendCancelLogin (cl_shim C) runtimeDir cacheKey s1) else s1)"

definition after_begin :: "('c, TokenSet) cli_env \<Rightarrow> oidcFlags \<Rightarrow> string \<Rightarrow> string \<Rightarrow> shim_sys \<Rightarrow> cli_result \<times> shim_sys" where
  "after_begin C f runtimeDir cacheKey s =
     (let E = cl_shim C in
      case mapGrantType (of_grantType f) of
        Inl _ \<Rightarrow>
          (UserError (''Unsupported grant type '' @ go_quote (of_grantType f) @ ''. Use 'device-code' or 'authcode-browser'.''),
           snd (SendCancelLogin E runtimeDir cacheKey s))
      | Inr mappedGrant \<Rightarrow>
          let s1 = during_login C runtimeDir cacheKey s in
          (case PerformAuth (cl_flows C) (login_provider f) mappedGrant (login_options f mappedGrant) of
             Inl err \<Rightarrow>
               (if cl_interrupted C s then UserError [] else UserError (''Authentication failed: '' @ Error err),
                snd (SendCancelLogin E runtimeDir cacheKey s1))
           | Inr tokenSet \<Rightarrow> store_login C runtimeDir cacheKey (flags_request f) tokenSet s1))"

definition runLogin :: "('c, TokenSet) cli_env \<Rightarrow> string \<Rightarrow> oidcFlags \<Rightarrow> shim_sys \<Rightarrow> cli_result \<times> shim_sys" where
  "runLogin C runtimeDir f s =
     (case buildCacheKey (cl_gob C) (cl_sha256 C) f of
        Inl _ \<Rightarrow> (UserError ''Invalid OIDC configuration. Check kubeconfig or provide --oidc-issuer-url and --oidc-client-id.'', s)
      | Inr cacheKey \<Rightarrow>
          (case ensureHealthyDaemon C runtimeDir s of
             (Some _, s1) \<Rightarrow> (no_start, s1)
           | (None, s1) \<Rightarrow>
               (case begin_login C runtimeDir cacheKey s1 of
                  (Inl r, s2) \<Rightarrow> (r, s2)
                | (Inr _, s2) \<Rightarrow> after_begin C f runtimeDir cacheKey s2)))"

section \<open>check and refresh\<close>

definition opt_true :: "bool option \<Rightarrow> bool" where
  "opt_true b \<longleftrightarrow> b = Some True"

text \<open>The health check with automatic start that precedes both.\<close>

definition reach_daemon :: "shim_env \<Rightarrow> string \<Rightarrow> shim_sys \<Rightarrow> bool \<times> shim_sys" where
  "reach_daemon E runtimeDir s =
     (case SendHealth E runtimeDir s of
        (Inr _, s1) \<Rightarrow> (True, s1)
      | (Inl _, s1) \<Rightarrow> (case AutoStartDaemon E runtimeDir s1 of (None, s2) \<Rightarrow> (True, s2) | (Some _, s2) \<Rightarrow> (False, s2)))"

definition check_text :: "('c, 't) cli_env \<Rightarrow> Response \<Rightarrow> cli_result" where
  "check_text C resp =
     (if opt_true (rs_Ready resp)
      then Printed (''Token is valid'' @ (case rs_AccessTokenExpiry resp of None \<Rightarrow> [] | Some t \<Rightarrow> '' (expires '' @ cl_rfc3339 C t @ '')'') @ [CHR 0x0A])
      else NotReady (''Not ready: '' @ rs_State resp @ [CHR 0x0A] @
        (if rs_Message resp \<noteq> [] then ''  '' @ rs_Message resp @ [CHR 0x0A] else []) @
        (if rs_Action resp \<noteq> [] then ''  Action: '' @ rs_Action resp @ [CHR 0x0A] else [])))"

text \<open>The objects \<open>check --json\<close> writes, in the order of the encoder, and whether the exit code is 0.\<close>

definition outputCheckJSON :: "bool \<Rightarrow> string \<Rightarrow> string \<Rightarrow> string \<Rightarrow> string \<Rightarrow> bool option \<Rightarrow> cli_result" where
  "outputCheckJSON ready state errorCode message action daemonRunning =
     JsonOut ready (sort_key fst
       ([(''ready'', JBool ready), (''state'', JStr state), (''daemon_running'', JBool (case daemonRunning of Some b \<Rightarrow> b | None \<Rightarrow> True))] @
        (if errorCode \<noteq> [] then [(''error'', JStr errorCode)] else []) @ (if message \<noteq> [] then [(''message'', JStr message)] else []) @
        (if action \<noteq> [] then [(''action'', JStr action)] else [])))"

definition check_json :: "('c, 't) cli_env \<Rightarrow> Response \<Rightarrow> cli_result" where
  "check_json C resp =
     JsonOut (opt_true (rs_Ready resp)) (sort_key fst
       ([(''ready'', JBool (opt_true (rs_Ready resp))), (''state'', JStr (rs_State resp)), (''daemon_running'', JBool (opt_true (rs_DaemonRunning resp)))] @
        (case rs_AccessTokenExpiry resp of None \<Rightarrow> [] | Some t \<Rightarrow> [(''access_token_expires'', JStr (cl_rfc3339 C t))]) @
        (case rs_RefreshTokenValid resp of None \<Rightarrow> [] | Some b \<Rightarrow> [(''refresh_token_valid'', JBool b)]) @
        (if rs_ErrorCode resp \<noteq> [] then [(''error'', JStr (rs_ErrorCode resp))] else []) @
        (if rs_Message resp \<noteq> [] then [(''message'', JStr (rs_Message resp))] else []) @
        (if rs_Action resp \<noteq> [] then [(''action'', JStr (rs_Action resp))] else []) @
        (case rs_LoginStartedAt resp of None \<Rightarrow> [] | Some t \<Rightarrow> [(''login_started_at'', JStr (cl_rfc3339 C t))])))"

definition run_login_hint :: string where
  "run_login_hint = ''Run 'kubelogin-daemon login'' @ [CHR 0x27]"

definition runCheck :: "('c, 't) cli_env \<Rightarrow> string \<Rightarrow> bool \<Rightarrow> oidcFlags \<Rightarrow> shim_sys \<Rightarrow> cli_result \<times> shim_sys" where
  "runCheck C runtimeDir jsonOutput f s =
     (case buildCacheKey (cl_gob C) (cl_sha256 C) f of
        Inl _ \<Rightarrow>
          (if jsonOutput then outputCheckJSON False ''NEEDS_LOGIN'' ''CONFIG_ERROR'' ''Failed to compute cache key'' ''Check OIDC configuration'' None
           else UserError ''Invalid OIDC configuration. Check kubeconfig or provide --oidc-issuer-url and --oidc-client-id.'', s)
      | Inr cacheKey \<Rightarrow>
          (case reach_daemon (cl_shim C) runtimeDir s of
             (False, s1) \<Rightarrow>
               (if jsonOutput then outputCheckJSON False ''NEEDS_LOGIN'' ''DAEMON_START_FAILED'' ''Cannot start background service''
                  run_login_hint (Some False)
                else UserError ''Cannot start background service. Run 'kubelogin-daemon login' to authenticate.'', s1)
           | (True, s1) \<Rightarrow>
               (case SendCheck (cl_shim C) runtimeDir cacheKey s1 of
                  (Inl _, s2) \<Rightarrow>
                    (if jsonOutput then outputCheckJSON False ''NEEDS_LOGIN'' ''DAEMON_START_FAILED'' ''Cannot reach background service''
                       run_login_hint (Some False)
                     else UserError ''Cannot connect to background service. Run 'kubelogin-daemon login' to authenticate.'', s2)
                | (Inr resp, s2) \<Rightarrow> (if jsonOutput then check_json C resp else check_text C resp, s2))))"

definition refresh_text :: "('c, 't) cli_env \<Rightarrow> bool \<Rightarrow> Response \<Rightarrow> cli_result" where
  "refresh_text C quiet resp =
     (if rs_Status resp = ''ok'' then
        Printed (if quiet then [] else if opt_true (rs_Refreshed resp) then ''Token refreshed. Expires '' @ cl_rfc3339 C (rs_Expiry resp) @ [CHR 0x0A]
                 else rs_Message resp @ [CHR 0x0A])
      else if rs_Status resp = ''error'' then
        (if rs_ErrorCode resp = ErrCodeNeedsLogin \<or> rs_ErrorCode resp = ''TOKEN_EXPIRED'' \<or> rs_ErrorCode resp = ErrCodeTokenRevoked
         then UserError ''Session expired. Run 'kubelogin-daemon login' to re-authenticate.''
         else UserError (''Refresh failed: '' @ rs_Error resp))
      else UserError ''Unexpected error. Try again or run 'kubelogin-daemon login'.'')"

definition runRefresh :: "('c, 't) cli_env \<Rightarrow> string \<Rightarrow> bool \<Rightarrow> oidcFlags \<Rightarrow> shim_sys \<Rightarrow> cli_result \<times> shim_sys" where
  "runRefresh C runtimeDir quiet f s =
     (case buildCacheKey (cl_gob C) (cl_sha256 C) f of
        Inl _ \<Rightarrow> (UserError ''Invalid OIDC configuration. Check kubeconfig or provide --oidc-issuer-url and --oidc-client-id.'', s)
      | Inr cacheKey \<Rightarrow>
          (case reach_daemon (cl_shim C) runtimeDir s of
             (False, s1) \<Rightarrow> (UserError ''Cannot start background service. Run 'kubelogin-daemon login' to authenticate.'', s1)
           | (True, s1) \<Rightarrow>
               (case SendRefresh (cl_shim C) runtimeDir cacheKey (flags_request f) s1 of
                  (Inl _, s2) \<Rightarrow> (UserError ''Cannot connect to background service. Try again or run 'kubelogin-daemon login'.'', s2)
                | (Inr resp, s2) \<Rightarrow> (refresh_text C quiet resp, s2))))"

section \<open>Events of a command\<close>

definition emits :: "(shim_event \<Rightarrow> bool) \<Rightarrow> shim_sys \<Rightarrow> shim_sys \<Rightarrow> bool" where
  "emits Q s s' \<longleftrightarrow> (\<exists>evs. ss_trace s' = ss_trace s @ evs \<and> list_all Q evs)"

lemma emits_refl [simp]: "ss_trace s' = ss_trace s \<Longrightarrow> emits Q s s'"
  by (simp add: emits_def)

lemma emits_trans: "emits Q s s' \<Longrightarrow> emits Q s' s'' \<Longrightarrow> emits Q s s''"
  unfolding emits_def by (elim exE conjE) (auto intro!: exI [of _ "_ @ _"])

lemma emits_advance: "Q ev \<Longrightarrow> emits Q s (advance ev d w s)"
  by (auto simp: emits_def advance_def)

lemma emits_from: "ss_trace s1 = ss_trace s \<Longrightarrow> emits Q s1 s' \<Longrightarrow> emits Q s s'"
  by (simp add: emits_def)

lemma emits_remove_dir: "emits Q s s' \<Longrightarrow> emits Q s (remove_dir d s')"
  by (auto simp: emits_def)

text \<open>What starting, stopping and watching a daemon may emit, for any set of events that has these.\<close>

locale housekeeping =
  fixes Q :: "shim_event \<Rightarrow> bool"
  assumes probe: "Q (EvProbe t)"
    and sleeping: "Q (EvSleep t d)"
    and forking: "Q (EvFork t env)"
    and killing: "Q (EvKill t pid)"
    and asking: "rq_Command rq \<in> {''health'', ''shutdown''} \<Longrightarrow> Q (EvSend t rq dial limit)"
begin

lemma e_probe: "emits Q s (snd (probe_alive E s))"
  using emits_advance [of Q, OF probe] by (simp add: probe_alive_def case_prod_beta)

lemma e_sleep: "emits Q s (sleep E d s)"
  using emits_advance [of Q, OF sleeping] by (simp add: sleep_def case_prod_beta)

lemma e_sleep_probe: "emits Q s (snd (probe_alive E (sleep E d s)))"
  by (rule emits_trans [OF e_sleep e_probe])

lemma e_polls: "emits Q s (snd (wait_polls E addr n m lo hi s))"
  by (induction n arbitrary: s) (auto simp: Let_def case_prod_beta intro: e_sleep_probe emits_trans [OF e_sleep_probe])

lemma e_wait: "emits Q s (snd (waitForReady E addr n lo hi s))"
  by (simp add: waitForReady_def e_polls)

lemma e_fork: "emits Q s (snd (fork_daemon E dir s))"
proof -
  have "emits Q s (snd (waitForReady E addr n lo hi (advance (EvFork (ss_now s) env) 0 w s)))" for addr n lo hi env w
    by (rule emits_trans [OF emits_advance [of Q, OF forking] e_wait])
  then show ?thesis
    by (auto simp: fork_daemon_def Let_def case_prod_beta split: option.split prod.split intro!: emits_remove_dir)
qed

lemma e_autostart: "emits Q s (snd (AutoStartDaemon E dir s))"
proof -
  obtain b s1 where p: "probe_alive E s = (b, s1)" by fastforce
  obtain c s2 where c: "on_fs (cleanupStaleUnixSocket dir) s1 = (c, s2)" by fastforce
  obtain mk s3 where m: "on_fs (os_Mkdir (se_io E s2) dir) s2 = (mk, s3)" by fastforce
  obtain g s4 where g: "on_fs (os_Mkdir (se_io E s3) (starting_dir dir)) s3 = (g, s4)" by fastforce
  let ?s5 = "remove_dir (starting_dir dir) s4"
  obtain h s6 where h: "on_fs (os_Mkdir (se_io E ?s5) (starting_dir dir)) ?s5 = (h, s6)" by fastforce
  have t: "ss_trace s2 = ss_trace s1" "ss_trace s3 = ss_trace s1" "ss_trace s4 = ss_trace s1" "ss_trace s6 = ss_trace s1"
    using on_fs_trace(1) [of "cleanupStaleUnixSocket dir" s1] on_fs_trace(1) [of "os_Mkdir (se_io E s2) dir" s2]
      on_fs_trace(1) [of "os_Mkdir (se_io E s3) (starting_dir dir)" s3] on_fs_trace(1) [of "os_Mkdir (se_io E ?s5) (starting_dir dir)" ?s5]
    by (simp_all add: c m g h)
  have w: "emits Q s1 (snd (waitForReady E a n lo hi s'))" if "ss_trace s' = ss_trace s1" for a n lo hi s'
    by (rule emits_from [OF that e_wait])
  have f: "emits Q s1 (snd (fork_daemon E dir s'))" if "ss_trace s' = ss_trace s1" for s'
    by (rule emits_from [OF that e_fork])
  have "emits Q s1 (snd (AutoStartDaemon E dir s))"
    by (cases b; cases c; cases g; cases h; cases "gm_get (vf_dirs (ss_fs s4)) (starting_dir dir)")
       (simp_all add: AutoStartDaemon_def autoStartDaemonCommon_def Let_def p c m g h t w f)
  then show ?thesis using emits_trans [OF e_probe [of s E]] p by simp
qed

lemma e_health: "emits Q s (snd (SendHealth E dir s))"
proof -
  let ?rq = "(plain_request ''health'' [])\<lparr>rq_Nonce := readDaemonNonce (se_io E s) dir (ss_fs s)\<rparr>"
  have "Q (EvSend t ?rq a b)" for t a b by (rule asking) (simp add: plain_request_def zero_request_def)
  from emits_advance [of Q, OF this] show ?thesis by (simp add: SendHealth_def sendRequest_def exchange_def Let_def case_prod_beta)
qed

lemma e_shutdown: "emits Q s (snd (sendShutdown E dir s))"
proof -
  let ?rq = "(zero_request\<lparr>rq_Version := ProtocolVersion, rq_Command := ''shutdown''\<rparr>)\<lparr>rq_Nonce := readDaemonNonce (se_io E s) dir (ss_fs s)\<rparr>"
  have "Q (EvSend t ?rq a b)" for t a b by (rule asking) (simp add: zero_request_def)
  from emits_advance [of Q, OF this] show ?thesis by (simp add: sendShutdown_def exchange_def Let_def case_prod_beta split: sum.split)
qed

lemma e_kill: "emits Q s (snd (killDaemonProcess C dir s))"
proof -
  obtain r s1 where h: "SendHealth (cl_shim C) dir s = (r, s1)" by fastforce
  then have s1: "emits Q s s1" using e_health [of s "cl_shim C" dir] by simp
  then have "emits Q s (advance (EvKill (ss_now s1) pid) 0 (ss_fs s1) s1)" for pid
    by (rule emits_trans [OF _ emits_advance [of Q, OF killing]])
  then show ?thesis using s1 h
    by (cases r) (simp_all add: killDaemonProcess_def getDaemonPID_def Let_def split: option.split)
qed

lemma e_gone: "emits Q s (wait_gone E n s)"
proof (induction n arbitrary: s)
  case 0
  show ?case by simp
next
  case (Suc n)
  obtain b s1 where p: "probe_alive E s = (b, s1)" by fastforce
  then have s1: "emits Q s s1" using e_probe [of s E] by simp
  then show ?case using p emits_trans [OF emits_trans [OF s1 e_sleep] Suc.IH] by simp
qed

lemma e_restart: "emits Q s (snd (AutoStartDaemon E dir (wait_gone E n (snd (killDaemonProcess C dir s)))))"
  by (rule emits_trans [OF emits_trans [OF e_kill e_gone] e_autostart])

lemma e_ensure: "emits Q s (snd (ensureHealthyDaemon C dir s))"
proof -
  obtain r s1 where h: "SendHealth (cl_shim C) dir s = (r, s1)" by fastforce
  then have s1: "emits Q s s1" using e_health [of s "cl_shim C" dir] by simp
  show ?thesis using h s1 emits_trans [OF s1 e_autostart] emits_trans [OF s1 e_restart [where C = C]]
    by (cases r) (simp_all add: ensureHealthyDaemon_def case_prod_beta Let_def)
qed

end

text \<open>A request of the login protocol.\<close>

fun login_event :: "shim_event \<Rightarrow> bool" where
  "login_event (EvSend t rq dial limit) \<longleftrightarrow> rq_Command rq \<in> {''begin-login'', ''cancel-login'', ''store-token''}"
| "login_event _ \<longleftrightarrow> False"

interpretation hk: housekeeping "\<lambda>ev. \<not> login_event ev"
  by unfold_locales auto

section \<open>No login is left open\<close>

text \<open>Whether, after some events, a login of a key was begun and neither cancelled nor given its token.\<close>

fun login_step :: "string \<Rightarrow> shim_event \<Rightarrow> bool \<Rightarrow> bool" where
  "login_step k (EvSend t rq dial limit) b =
     (if rq_CacheKey rq \<noteq> k then b
      else if rq_Command rq = ''begin-login'' then True
      else if rq_Command rq = ''cancel-login'' \<or> rq_Command rq = ''store-token'' then False
      else b)"
| "login_step k _ b = b"

definition login_open :: "string \<Rightarrow> shim_sys \<Rightarrow> bool" where
  "login_open k s = fold (login_step k) (ss_trace s) False"

lemma login_step_quiet: "\<not> login_event ev \<Longrightarrow> login_step k ev b = b"
  by (cases ev) auto

lemma open_quiet:
  assumes "emits (\<lambda>ev. \<not> login_event ev) s s'"
  shows "login_open k s' = login_open k s"
proof -
  have "list_all (\<lambda>ev. \<not> login_event ev) evs \<Longrightarrow> fold (login_step k) evs b = b" for evs b
    by (induction evs arbitrary: b) (simp_all add: login_step_quiet)
  then show ?thesis using assms by (auto simp: emits_def login_open_def)
qed

lemma open_cancel: "\<not> login_open k (snd (SendCancelLogin E dir k s))"
  by (simp add: login_open_def SendCancelLogin_def sendRequest_def exchange_def advance_def plain_request_def zero_request_def Let_def case_prod_beta)

text \<open>The request by which a token is stored, as the last event.\<close>

definition stored :: "string \<Rightarrow> TokenSet \<Rightarrow> shim_sys \<Rightarrow> bool" where
  "stored k ts s \<longleftrightarrow> (\<exists>evs t rq dial limit. ss_trace s = evs @ [EvSend t rq dial limit] \<and> rq_Command rq = ''store-token'' \<and>
     rq_CacheKey rq = k \<and> rq_IDToken rq = ts_IDToken ts \<and> rq_RefreshToken rq = ts_RefreshToken ts)"

lemma stored_closed: "stored k ts s \<Longrightarrow> \<not> login_open k s"
  by (auto simp: stored_def login_open_def)

lemma try_store_stored: "try_store E dir k req ts s = (r, s') \<Longrightarrow> stored k ts s'"
proof -
  have "ss_trace (snd (StoreToken E dir k req i rt s)) = ss_trace s @ [EvSend (ss_now s) (req\<lparr>rq_Version := ProtocolVersion,
      rq_Command := ''store-token'', rq_CacheKey := k, rq_IDToken := i, rq_RefreshToken := rt,
      rq_Nonce := readDaemonNonce (se_io E s) dir (ss_fs s)\<rparr>) (5 * second) (30 * second)]" for i rt
    by (simp add: StoreToken_def sendRequest_def exchange_def advance_def Let_def case_prod_beta)
  then have "stored k ts (snd (StoreToken E dir k req (ts_IDToken ts) (ts_RefreshToken ts) s))"
    by (auto simp: stored_def)
  moreover assume "try_store E dir k req ts s = (r, s')"
  ultimately show ?thesis by (auto simp: try_store_def split: prod.splits sum.splits)
qed

lemma store_login_closed:
  assumes "store_login C dir k req ts s = (r, s')"
  shows "\<not> login_open k s' \<and> (\<forall>t. r = Printed t \<longrightarrow> stored k ts s')"
proof -
  let ?E = "cl_shim C"
  obtain r1 s1 where a: "try_store ?E dir k req ts s = (r1, s1)" by fastforce
  note s1 = try_store_stored [OF a]
  obtain e2 s2 where b: "killDaemonProcess C dir s1 = (e2, s2)" by fastforce
  obtain e3 s3 where c: "AutoStartDaemon ?E dir (wait_gone ?E 10 s2) = (e3, s3)" by fastforce
  obtain r4 s4 where d: "try_store ?E dir k req ts s3 = (r4, s4)" by fastforce
  note s4 = try_store_stored [OF d]
  have "login_open k s3 = login_open k s1"
    using open_quiet [OF hk.e_restart [where C = C and E = "cl_shim C" and dir = dir and n = 10 and s = s1], of k] b c by simp
  then have "\<not> login_open k s1" "\<not> login_open k s3" "\<not> login_open k s4" using stored_closed s1 s4 by auto
  then show ?thesis using assms a b c d s1 s4
    by (cases r1; cases e3; cases r4) (auto simp: store_login_def Let_def)
qed

lemma after_begin_closed:
  assumes "after_begin C f dir k s = (r, s')"
  shows "\<not> login_open k s' \<and>
    (\<forall>t. r = Printed t \<longrightarrow> (\<exists>grant ts. mapGrantType (of_grantType f) = Inr grant \<and>
        PerformAuth (cl_flows C) (login_provider f) grant (login_options f grant) = Inr ts \<and> stored k ts s'))"
proof (cases "mapGrantType (of_grantType f)")
  case (Inl e)
  then show ?thesis using assms open_cancel by (auto simp: after_begin_def Let_def)
next
  case (Inr grant)
  show ?thesis
  proof (cases "PerformAuth (cl_flows C) (login_provider f) grant (login_options f grant)")
    case Inl': (Inl err)
    then show ?thesis using assms Inr open_cancel by (auto simp: after_begin_def Let_def split: if_splits)
  next
    case Inr': (Inr ts)
    then have "store_login C dir k (flags_request f) ts (during_login C dir k s) = (r, s')"
      using assms Inr by (simp add: after_begin_def Let_def)
    from store_login_closed [OF this] show ?thesis using Inr Inr' by auto
  qed
qed

lemma begin_login_error: "begin_login C dir k s = (Inl r, s') \<Longrightarrow> r = no_connect \<or> r = no_start"
  by (auto simp: begin_login_def Let_def split: prod.splits sum.splits if_splits option.splits)

lemma runLogin_closed:
  assumes "runLogin C dir f s = (r, s')" and "buildCacheKey (cl_gob C) (cl_sha256 C) f = Inr k"
  shows "(\<not> login_open k s' \<or> r = no_connect \<or> r = no_start) \<and>
    (\<forall>t. r = Printed t \<longrightarrow> (\<exists>grant ts. mapGrantType (of_grantType f) = Inr grant \<and>
        PerformAuth (cl_flows C) (login_provider f) grant (login_options f grant) = Inr ts \<and> stored k ts s'))"
proof -
  obtain e s1 where a: "ensureHealthyDaemon C dir s = (e, s1)" by fastforce
  obtain b s2 where b: "begin_login C dir k s1 = (b, s2)" by fastforce
  have err: "no_start \<noteq> Printed t" "no_connect \<noteq> Printed t" for t by (simp_all add: no_start_def no_connect_def)
  show ?thesis
  proof (cases e)
    case (Some x)
    then show ?thesis using assms(1,2) a err by (simp add: runLogin_def)
  next
    case None
    show ?thesis
    proof (cases b)
      case (Inl x)
      then show ?thesis using assms(1,2) a b None begin_login_error [of C dir k s1 x s2]
        by (auto simp: runLogin_def no_start_def no_connect_def)
    next
      case (Inr resp)
      then have "after_begin C f dir k s2 = (r, s')" using assms(1,2) a b None by (simp add: runLogin_def)
      from after_begin_closed [OF this] show ?thesis by blast
    qed
  qed
qed


text \<open>An example: a daemon that answers \<open>ok\<close> to everything and a flow that obtains the token of \<open>ServerFlows\<close>.\<close>

definition demo_shim_env :: shim_env where
  "demo_shim_env = \<lparr>se_answer = (\<lambda>s rq dial limit. (Inr ((base_response ''ok'')\<lparr>rs_Expiry := 9\<rparr>), 1, ss_fs s)),
     se_probe = (\<lambda>s. (True, 1, ss_fs s)), se_sleep = (\<lambda>s d. (d, ss_fs s)), se_rand = (\<lambda>s n. 0), se_io = (\<lambda>s. no_faults ''1''),
     se_executable = None, se_evalsymlinks = None, se_start = (\<lambda>s. None), se_kill = (\<lambda>p. True), se_getpid = 1, se_environ = []\<rparr>"

definition demo_cli :: "(unit, TokenSet) cli_env" where
  "demo_cli = \<lparr>cl_shim = demo_shim_env, cl_gob = (\<lambda>_. Inr ''b''), cl_sha256 = (\<lambda>_. ''h''), cl_rfc3339 = (\<lambda>_. ''T''), cl_execInfo = [],
     cl_flows = \<lparr>af_New = (\<lambda>_ _. Inr ()), af_DeviceCode = (\<lambda>_ _. Inr \<lparr>ts_IDToken = demo_token, ts_RefreshToken = ''r''\<rparr>),
       af_AuthCode = (\<lambda>_ _. Inl (Err []))\<rparr>,
     cl_wait = (\<lambda>s. (1, ss_fs s)), cl_interrupted = (\<lambda>s. False), cl_findPID = (\<lambda>s. 0), cl_killError = (\<lambda>p. None)\<rparr>"

definition demo_reply :: Response where
  "demo_reply = (base_response ''ok'')\<lparr>rs_Expiry := 9\<rparr>"

lemma demo_exchange: "\<exists>s'. exchange demo_shim_env dir rq a b s = (Inr demo_reply, s')"
  by (simp add: exchange_def demo_shim_env_def demo_reply_def Let_def)

lemma demo_cli_simps:
  "cl_shim demo_cli = demo_shim_env" "cl_gob demo_cli = (\<lambda>_. Inr ''b'')" "cl_sha256 demo_cli = (\<lambda>_. ''h'')"
  "PerformAuth (cl_flows demo_cli) p ''device-code'' opt = Inr \<lparr>ts_IDToken = demo_token, ts_RefreshToken = ''r''\<rparr>"
  by (simp_all add: demo_cli_def PerformAuth_def)

lemma demo_login_any:
  assumes "cl_shim C = demo_shim_env" and k: "buildCacheKey (cl_gob C) (cl_sha256 C) f = Inr k"
    and "mapGrantType (of_grantType f) = Inr grant"
    and "PerformAuth (cl_flows C) (login_provider f) grant (login_options f grant) = Inr ts"
  shows "fst (runLogin C dir f s) = login_stored C demo_reply"
proof -
  have ok: "rs_Status demo_reply = ''ok''" by (simp add: demo_reply_def base_response_def)
  obtain s1 where h: "ensureHealthyDaemon C dir s = (None, s1)"
    using demo_exchange [of dir "plain_request ''health'' []" "5 * second" "30 * second" s] ok assms(1)
    by (auto simp: ensureHealthyDaemon_def SendHealth_def sendRequest_def)
  obtain s2 where b: "begin_login C dir k s1 = (Inr demo_reply, s2)"
    using demo_exchange [of dir "plain_request ''begin-login'' k" "5 * second" "30 * second" s1] ok assms(1)
    by (auto simp: begin_login_def SendBeginLogin_def sendRequest_def Let_def)
  let ?s3 = "during_login C dir k s2"
  have "fst (store_login C dir k req ts ?s3) = login_stored C demo_reply" for req
    using demo_exchange [of dir _ "5 * second" "30 * second" ?s3] ok assms(1)
    by (auto simp: store_login_def try_store_def StoreToken_def sendRequest_def Let_def split: prod.split sum.split) (metis Pair_inject sum.inject(2) sum.distinct(1))+
  then show ?thesis using k h b assms(3,4) by (simp add: runLogin_def after_begin_def Let_def)
qed

lemma demo_login: "fst (runLogin demo_cli dir (default_flags [] ''auto'') s) = login_stored demo_cli demo_reply"
  by (rule demo_login_any [where k = "hex_encode ''h''" and grant = "''device-code''"])
    (simp_all add: buildCacheKey_def computeChecksum_def demo_cli_simps default_flags_def mapGrantType_def)


end
