(* ===== verification/Paths.thy ===== *)
theory Paths
  imports ExecArgs
begin

text \<open>
  Paths as the setup commands use them: the lexical functions of \<open>path/filepath\<close>, resolution of symbolic
  links by the kernel and by \<open>filepath.EvalSymlinks\<close>, and the calls of \<open>os\<close> that take a whole path.  A physical path is a list of
  components from the root, none of them a link; the file system below is the one of \<open>Filesys\<close>.
  The main facts: a resolved path is physical, and removing an entry leaves every other physical path alone.
\<close>

section \<open>Lexical functions\<close>

definition comps :: "string \<Rightarrow> string list" where
  "comps s = split_on (CHR ''/'') s"

definition is_abs :: "string \<Rightarrow> bool" where
  "is_abs s \<longleftrightarrow> prefix ''/'' s"

fun join_comps :: "string list \<Rightarrow> string" where
  "join_comps [] = []"
| "join_comps [c] = c"
| "join_comps (c # d # ds) = c @ ''/'' @ join_comps (d # ds)"

text \<open>The effect of \<open>..\<close>: at the root it stays there, in a relative path that has nothing left it is kept.\<close>

definition dotdot :: "bool \<Rightarrow> string list \<Rightarrow> string list" where
  "dotdot rooted dest =
     (if dest = [] then (if rooted then [] else [''..''])
      else if last dest = ''..'' then dest @ [''..''] else butlast dest)"

definition path_of :: "bool \<Rightarrow> string list \<Rightarrow> string" where
  "path_of rooted ds = (if rooted then ''/'' @ join_comps ds else if ds = [] then ''.'' else join_comps ds)"

definition clean_step :: "bool \<Rightarrow> string \<Rightarrow> string list \<Rightarrow> string list" where
  "clean_step rooted c dest = (if c = [] \<or> c = ''.'' then dest else if c = ''..'' then dotdot rooted dest else dest @ [c])"

definition Clean :: "string \<Rightarrow> string" where
  "Clean s = path_of (is_abs s) (fold (clean_step (is_abs s)) (comps s) [])"

definition filepath_Dir :: "string \<Rightarrow> string" where
  "filepath_Dir p = Clean (rev (dropWhile (\<lambda>c. c \<noteq> CHR ''/'') (rev p)))"

definition filepath_Join :: "string \<Rightarrow> string \<Rightarrow> string" where
  "filepath_Join a b =
     (if a = [] then (if b = [] then [] else Clean b) else if b = [] then Clean a else Clean (a @ ''/'' @ b))"

definition filepath_SplitList :: "string \<Rightarrow> string list" where
  "filepath_SplitList s = (if s = [] then [] else split_on (CHR '':'') s)"

section \<open>Resolution\<close>

text \<open>The entry of a physical path, the root being a directory.\<close>

definition entry_key :: "string list \<Rightarrow> path" where
  "entry_key cs = Path (path_of True (butlast cs)) (last cs)"

definition node_of :: "vfs \<Rightarrow> string list \<Rightarrow> node option" where
  "node_of w cs =
     (case gm_get (vf_dirs w) (path_of True cs) of Some n \<Rightarrow> Some n | None \<Rightarrow> if cs = [] then None else file_at w (entry_key cs))"

text \<open>A lookup may be refused: \<open>deny\<close> gives the errors of the operating system other than a missing entry.\<close>

definition look :: "(string list \<Rightarrow> os_error option) \<Rightarrow> vfs \<Rightarrow> string list \<Rightarrow> os_error + node" where
  "look deny w cs =
     (case deny cs of Some e \<Rightarrow> Inl e | None \<Rightarrow> (case node_of w cs of None \<Rightarrow> Inl ENOENT | Some n \<Rightarrow> Inr n))"

text \<open>
  The loop of \<open>walkSymlinks\<close>, with the number of links it may still follow, the components it has resolved, and those it has
  not.  An error comes with the path it is about.  The lookup is that of a path without links.
\<close>

fun walk :: "(bool \<Rightarrow> string list \<Rightarrow> os_error + node) \<Rightarrow> nat \<Rightarrow> bool \<Rightarrow> string list \<Rightarrow> string list \<Rightarrow> (os_error \<times> string) + (bool \<times> string list)" where
  "walk lk n rooted dest [] = Inr (rooted, dest)"
| "walk lk n rooted dest (c # cs) =
     (if c = [] \<or> c = ''.'' then walk lk n rooted dest cs
      else if c = ''..'' then walk lk n rooted (dotdot rooted dest) cs
      else case lk rooted (dest @ [c]) of
             Inl e \<Rightarrow> Inl (e, path_of rooted (dest @ [c]))
           | Inr nd \<Rightarrow>
               if n_kind nd \<noteq> Symlink then
                 (if n_kind nd \<noteq> Directory \<and> cs \<noteq> [] then Inl (ENOTDIR, path_of rooted (dest @ [c]))
                  else walk lk n rooted (dest @ [c]) cs)
               else
                 (case n of
                    0 \<Rightarrow> Inl (ELOOP, path_of rooted (dest @ [c]))
                  | Suc m \<Rightarrow>
                      if is_abs (n_data nd) then walk lk m True [] (comps (n_data nd) @ cs)
                      else walk lk m rooted dest (comps (n_data nd) @ cs)))"

text \<open>What the operating system gives a path that begins in the working directory \<open>cwd\<close>.\<close>

definition look_from :: "(string list \<Rightarrow> os_error + node) \<Rightarrow> string list \<Rightarrow> bool \<Rightarrow> string list \<Rightarrow> os_error + node" where
  "look_from lk cwd rooted cs = lk (if rooted then cs else fold (clean_step True) cs cwd)"

text \<open>\<open>filepath.EvalSymlinks\<close> follows at most 255 links; the error is the one of \<open>Lstat\<close>, or the function's own.\<close>

definition EvalSymlinks :: "(string list \<Rightarrow> os_error + node) \<Rightarrow> string list \<Rightarrow> string \<Rightarrow> (os_error \<times> string) + string" where
  "EvalSymlinks lk cwd p =
     (case walk (look_from lk cwd) 255 (is_abs p) [] (comps p) of
        Inl e \<Rightarrow> Inl e
      | Inr (rooted, ds) \<Rightarrow> Inr (path_of rooted ds))"

definition eval_error :: "os_error \<times> string \<Rightarrow> go_error" where
  "eval_error e =
     (case e of
        (ELOOP, _) \<Rightarrow> Err ''EvalSymlinks: too many links''
      | (ENOTDIR, _) \<Rightarrow> Err ''not a directory''
      | (er, p) \<Rightarrow> Err (''lstat '' @ p @ '': '' @ os_msg er))"

text \<open>The kernel follows at most 40 links and begins at the root or in the working directory.\<close>

definition kernel_walk :: "(string list \<Rightarrow> os_error + node) \<Rightarrow> string list \<Rightarrow> string list \<Rightarrow> bool \<Rightarrow> os_error + string list" where
  "kernel_walk lk cwd cs rooted =
     (case walk (\<lambda>_. lk) 40 True (if rooted then [] else cwd) cs of Inl (e, _) \<Rightarrow> Inl e | Inr (_, ds) \<Rightarrow> Inr ds)"

definition os_Stat :: "(string list \<Rightarrow> os_error + node) \<Rightarrow> string list \<Rightarrow> string \<Rightarrow> os_error + node" where
  "os_Stat lk cwd p =
     (if p = [] then Inl ENOENT
      else case kernel_walk lk cwd (comps p) (is_abs p) of Inl e \<Rightarrow> Inl e | Inr ds \<Rightarrow> lk ds)"

text \<open>The directory an entry is in: the trailing separator asks for a directory.\<close>

definition parent_dir :: "(string list \<Rightarrow> os_error + node) \<Rightarrow> string list \<Rightarrow> string \<Rightarrow> os_error + string list" where
  "parent_dir lk cwd p = kernel_walk lk cwd (butlast (comps p) @ [[]]) (is_abs p)"

definition os_Lstat :: "(string list \<Rightarrow> os_error + node) \<Rightarrow> string list \<Rightarrow> string \<Rightarrow> os_error + node" where
  "os_Lstat lk cwd p =
     (if last (comps p) \<in> {[], ''.'', ''..''} then os_Stat lk cwd p
      else case parent_dir lk cwd p of Inl e \<Rightarrow> Inl e | Inr d \<Rightarrow> lk (d @ [last (comps p)]))"

definition has_children :: "vfs \<Rightarrow> string list \<Rightarrow> bool" where
  "has_children w cs \<longleftrightarrow>
     list_ex (\<lambda>(k, _). p_dir k = path_of True cs) (vf_files w) \<or> list_ex (\<lambda>(k, _). prefix (path_of True cs @ ''/'') k) (vf_dirs w)"

definition drop_slashes :: "string \<Rightarrow> string" where
  "drop_slashes p = rev (dropWhile (\<lambda>c. c = CHR ''/'') (rev p))"

text \<open>\<open>os.Remove\<close> on a path: a link is removed itself, a directory only when it is empty.\<close>

definition os_RemovePath :: "(string list \<Rightarrow> os_error option) \<Rightarrow> string list \<Rightarrow> string \<Rightarrow> vfs \<Rightarrow> os_error option \<times> vfs" where
  "os_RemovePath deny cwd p w =
     (let q = drop_slashes p; base = last (comps q); lk = look deny w in
      if base \<in> {[], ''.'', ''..''} then (Some EINVAL, w)
      else case parent_dir lk cwd q of
             Inl e \<Rightarrow> (Some e, w)
           | Inr d \<Rightarrow>
               (case lk (d @ [base]) of
                  Inl e \<Rightarrow> (Some e, w)
                | Inr n \<Rightarrow>
                    if n_kind n = Directory then
                      (if has_children w (d @ [base]) then (Some ENOTEMPTY, w)
                       else (None, w\<lparr>vf_dirs := gm_del (path_of True (d @ [base])) (vf_dirs w)\<rparr>))
                    else if q \<noteq> p then (Some ENOTDIR, w)
                    else (None, os_Remove (entry_key (d @ [base])) w\<lparr>vf_dirs := gm_del (path_of True (d @ [base])) (vf_dirs w)\<rparr>)))"

section \<open>Physical paths\<close>

definition name_ok :: "string \<Rightarrow> bool" where
  "name_ok c \<longleftrightarrow> c \<notin> {[], ''.'', ''..''} \<and> CHR ''/'' \<notin> set c"

definition real_dir :: "(string list \<Rightarrow> os_error + node) \<Rightarrow> string list \<Rightarrow> bool" where
  "real_dir lk ds \<longleftrightarrow> (\<forall>i. 0 < i \<and> i \<le> length ds \<longrightarrow> (\<exists>n. lk (take i ds) = Inr n \<and> n_kind n = Directory))"

definition physical :: "(string list \<Rightarrow> os_error + node) \<Rightarrow> string list \<Rightarrow> bool" where
  "physical lk ds \<longleftrightarrow> list_all name_ok ds \<and>
     (ds = [] \<or> real_dir lk (butlast ds) \<and> (\<exists>n. lk ds = Inr n \<and> n_kind n \<noteq> Symlink))"

lemma split_on_no_sep: "x \<in> set (split_on c s) \<Longrightarrow> c \<notin> set x"
  by (induction c s arbitrary: x rule: split_on.induct) (auto split: if_splits list.splits)

lemma split_on_nonempty [simp]: "split_on c s \<noteq> []"
  by (induction c s rule: split_on.induct) (auto split: list.splits)

lemma split_on_single: "c \<notin> set s \<Longrightarrow> split_on c s = [s]"
  by (induction s) auto

lemma split_on_append: "c \<notin> set a \<Longrightarrow> split_on c (a @ c # b) = a # split_on c b"
  by (induction a) auto

lemma comps_nonempty [simp]: "comps s \<noteq> []"
  by (simp add: comps_def)

lemma comps_join: "list_all (\<lambda>c. CHR ''/'' \<notin> set c) ds \<Longrightarrow> ds \<noteq> [] \<Longrightarrow> comps (join_comps ds) = ds"
  by (induction ds rule: join_comps.induct) (auto simp: comps_def split_on_single split_on_append)

lemma comps_path_of: "list_all name_ok ds \<Longrightarrow> comps (path_of True ds) = [] # (if ds = [] then [[]] else ds)"
  using comps_join [of ds] by (auto simp: path_of_def comps_def name_ok_def list_all_iff)

lemma path_of_inj: "list_all name_ok ds \<Longrightarrow> list_all name_ok es \<Longrightarrow> path_of True ds = path_of True es \<Longrightarrow> ds = es"
proof -
  assume ok: "list_all name_ok ds" "list_all name_ok es" and "path_of True ds = path_of True es"
  then have "(if ds = [] then [[]] else ds) = (if es = [] then [[]] else es)"
    using comps_path_of [OF ok(1)] comps_path_of [OF ok(2)] by simp
  then show ?thesis using ok by (auto simp: name_ok_def split: if_splits)
qed

lemma entry_key_inj:
  assumes "list_all name_ok ds" "list_all name_ok es" "ds \<noteq> []" "es \<noteq> []" "entry_key ds = entry_key es"
  shows "ds = es"
proof -
  have "list_all name_ok (butlast ds)" "list_all name_ok (butlast es)"
    using assms(1,2) by (auto simp: list_all_iff dest: in_set_butlastD)
  then have "butlast ds = butlast es" using path_of_inj assms(5) by (simp add: entry_key_def)
  then show ?thesis using assms(3-5) by (metis append_butlast_last_id entry_key_def path.sel(2))
qed

lemma real_dir_snoc: "real_dir lk (ds @ [c]) \<longleftrightarrow> real_dir lk ds \<and> (\<exists>n. lk (ds @ [c]) = Inr n \<and> n_kind n = Directory)"
  by (force simp: real_dir_def le_Suc_eq)

lemma real_dir_Nil [simp]: "real_dir lk []"
  by (simp add: real_dir_def)

lemma real_dir_butlast: "real_dir lk ds \<Longrightarrow> real_dir lk (butlast ds)"
  by (cases ds rule: rev_cases) (simp_all add: real_dir_snoc)

lemma real_dir_physical: "real_dir lk ds \<Longrightarrow> list_all name_ok ds \<Longrightarrow> physical lk ds"
  by (cases ds rule: rev_cases) (auto simp: physical_def real_dir_snoc)

lemma name_ok_butlast: "list_all name_ok ds \<Longrightarrow> list_all name_ok (butlast ds)"
  by (auto simp: list_all_iff dest: in_set_butlastD)

lemma dotdot_root: "list_all name_ok dest \<Longrightarrow> dotdot True dest = butlast dest"
  by (cases dest rule: rev_cases) (auto simp: dotdot_def name_ok_def)

text \<open>Resolution of a rooted path ends in a physical one, and in a directory when the path ends in a separator.\<close>

lemma walk_physical:
  assumes "walk lk n r dest cs = Inr (r', ds)" "r" "list_all name_ok dest" "\<forall>c \<in> set cs. CHR ''/'' \<notin> set c"
    "if cs = [] then physical (lk True) dest else real_dir (lk True) dest"
  shows "r' \<and> physical (lk True) ds \<and> (cs \<noteq> [] \<and> last cs = [] \<longrightarrow> real_dir (lk True) ds)"
  using assms
proof (induction lk n r dest cs rule: walk.induct)
  case (1 lk n r dest)
  then show ?case by simp
next
  case (2 lk n r dest c cs)
  note IH = 2(1-5) and prems = 2(6-)
  have dir: "real_dir (lk True) dest" and r: "r = True" using prems by auto
  have keep: "if cs = [] then physical (lk True) dest else real_dir (lk True) dest"
    using dir prems(3) real_dir_physical by simp
  consider "c = [] \<or> c = ''.''" | "c = ''..''" | "name_ok c"
    using prems(4) by (auto simp: name_ok_def)
  then show ?case
  proof cases
    case 1
    then show ?thesis using IH(1) prems keep dir by (cases cs) auto
  next
    case 2
    have b: "list_all name_ok (butlast dest)" "real_dir (lk True) (butlast dest)"
      using prems(3) dir name_ok_butlast real_dir_butlast by auto
    then have "if cs = [] then physical (lk True) (dotdot r dest) else real_dir (lk True) (dotdot r dest)"
      using real_dir_physical prems(3) by (simp add: r dotdot_root)
    then show ?thesis using \<open>c = ''..''\<close> IH(2) prems b(1) by (cases cs) (simp_all add: r dotdot_root)
  next
    case 3
    then have c: "c \<noteq> []" "c \<noteq> ''.''" "c \<noteq> ''..''" by (auto simp: name_ok_def)
    with prems(1) obtain nd where nd: "lk True (dest @ [c]) = Inr nd" by (auto simp: r split: sum.splits)
    show ?thesis
    proof (cases "n_kind nd = Symlink")
      case False
      have k: "n_kind nd = Directory \<or> cs = []" and w: "walk lk n True (dest @ [c]) cs = Inr (r', ds)"
        using prems(1) c nd False by (auto simp: r split: if_splits)
      have ok: "list_all name_ok (dest @ [c])" using prems(3) \<open>name_ok c\<close> by simp
      have "if cs = [] then physical (lk True) (dest @ [c]) else real_dir (lk True) (dest @ [c])"
        using ok dir nd False k by (auto simp: physical_def real_dir_snoc)
      then show ?thesis using IH(3) [OF _ _ _ _ _ w [folded r]] c nd False k ok prems by (simp add: r)
    next
      case True
      with prems(1) c nd obtain m where m: "n = Suc m" by (cases n) (simp_all add: r)
      have t: "\<forall>x \<in> set (comps (n_data nd) @ cs). CHR ''/'' \<notin> set x"
        using prems(4) split_on_no_sep by (auto simp: comps_def)
      show ?thesis
      proof (cases "is_abs (n_data nd)")
        case True
        then have "walk lk m True [] (comps (n_data nd) @ cs) = Inr (r', ds)"
          using prems(1) c nd \<open>n_kind nd = Symlink\<close> by (simp add: r m)
        then show ?thesis
          using IH(4) [of nd m] c nd \<open>n_kind nd = Symlink\<close> True t by (simp add: r m)
      next
        case False
        then have "walk lk m True dest (comps (n_data nd) @ cs) = Inr (r', ds)"
          using prems(1) c nd \<open>n_kind nd = Symlink\<close> by (simp add: r m)
        then show ?thesis
          using IH(5) [of nd m] c nd \<open>n_kind nd = Symlink\<close> False t prems(3) dir by (simp add: r m)
      qed
    qed
  qed
qed

lemma walk_id:
  assumes "list_all name_ok cs"
    and "\<And>i. length dest < i \<Longrightarrow> i \<le> length (dest @ cs) \<Longrightarrow>
           \<exists>nd. lk True (take i (dest @ cs)) = Inr nd \<and> n_kind nd \<noteq> Symlink \<and> (i < length (dest @ cs) \<longrightarrow> n_kind nd = Directory)"
  shows "walk lk n True dest cs = Inr (True, dest @ cs)"
  using assms
proof (induction cs arbitrary: dest)
  case Nil
  then show ?case by simp
next
  case (Cons c cs)
  from Cons.prems(2) [of "Suc (length dest)"] obtain nd where
    nd: "lk True (dest @ [c]) = Inr nd" "n_kind nd \<noteq> Symlink" "cs \<noteq> [] \<Longrightarrow> n_kind nd = Directory" by auto
  have "walk lk n True (dest @ [c]) cs = Inr (True, (dest @ [c]) @ cs)"
    using Cons.prems by (intro Cons.IH) auto
  then show ?case using nd Cons.prems(1) by (auto simp: name_ok_def)
qed

text \<open>The last component of a path, when it is no link.\<close>

lemma walk_last:
  assumes "walk lk n r dest (cs @ [[]]) = Inr (r', d)" "name_ok c" "lk r' (d @ [c]) = Inr nd" "n_kind nd \<noteq> Symlink"
  shows "walk lk n r dest (cs @ [c]) = Inr (r', d @ [c])"
  using assms
proof (induction lk n r dest cs rule: walk.induct)
  case (1 lk n r dest)
  then show ?case by (auto simp: name_ok_def)
next
  case (2 lk n r dest x cs)
  then show ?case by (auto split: if_splits sum.splits nat.splits)
qed

lemma physical_walk:
  assumes "physical (lk True) ds"
  shows "walk lk n True [] (comps (path_of True ds)) = Inr (True, ds)"
proof -
  have "walk lk n True [] ds = Inr (True, [] @ ds)" if "ds \<noteq> []"
  proof (rule walk_id)
    show "list_all name_ok ds" using assms by (simp add: physical_def)
    fix i assume i: "length ([] :: string list) < i" "i \<le> length ([] @ ds)"
    show "\<exists>nd. lk True (take i ([] @ ds)) = Inr nd \<and> n_kind nd \<noteq> Symlink \<and> (i < length ([] @ ds) \<longrightarrow> n_kind nd = Directory)"
    proof (cases "i = length ds")
      case True
      then show ?thesis using assms that by (auto simp: physical_def)
    next
      case False
      then have "take i ds = take i (butlast ds)" "i \<le> length (butlast ds)" using i by (simp_all add: take_butlast)
      then show ?thesis using assms that i by (force simp: physical_def real_dir_def)
    qed
  qed
  then show ?thesis using assms comps_path_of [of ds] by (simp add: physical_def)
qed

lemma is_abs_path_of [simp]: "is_abs (path_of True ds)" "path_of True ds \<noteq> []"
  by (simp_all add: is_abs_def path_of_def)

lemma comps_clean: "c \<in> set (comps p) \<Longrightarrow> CHR ''/'' \<notin> set c"
  using split_on_no_sep by (simp add: comps_def)

lemma look_from_root [simp]: "look_from lk cwd True = lk"
  by (simp add: look_from_def fun_eq_iff)

lemma EvalSymlinks_physical:
  assumes "EvalSymlinks lk cwd p = Inr q" "is_abs p"
  obtains ds where "q = path_of True ds" "physical lk ds"
proof -
  from assms(1) obtain r ds where w: "walk (look_from lk cwd) 255 (is_abs p) [] (comps p) = Inr (r, ds)" and q: "q = path_of r ds"
    by (auto simp: EvalSymlinks_def split: sum.splits)
  show ?thesis using walk_physical [OF w] assms(2) that [of ds] q by (simp add: comps_clean)
qed

lemma EvalSymlinks_id: "physical lk ds \<Longrightarrow> EvalSymlinks lk cwd (path_of True ds) = Inr (path_of True ds)"
  using physical_walk [of "look_from lk cwd" ds 255] by (simp add: EvalSymlinks_def)

lemma os_Stat_physical: "physical lk ds \<Longrightarrow> os_Stat lk cwd (path_of True ds) = lk ds"
  using physical_walk [of "\<lambda>_. lk" ds 40] by (simp add: os_Stat_def kernel_walk_def)

lemma walk_names:
  assumes "walk lk n r dest cs = Inr (r', ds)" "r" "list_all name_ok dest" "\<forall>c \<in> set cs. CHR ''/'' \<notin> set c"
  shows "list_all name_ok ds"
  using assms
proof (induction lk n r dest cs rule: walk.induct)
  case (1 lk n r dest)
  then show ?case by simp
next
  case (2 lk n r dest c cs)
  have t: "\<forall>x \<in> set (comps y). CHR ''/'' \<notin> set x" for y by (simp add: comps_clean)
  have d: "list_all name_ok (dotdot r dest)" using 2(7,8) name_ok_butlast by (simp add: dotdot_root)
  have c: "c \<noteq> [] \<Longrightarrow> c \<noteq> ''.'' \<Longrightarrow> c \<noteq> ''..'' \<Longrightarrow> list_all name_ok (dest @ [c])" using 2(8,9) by (simp add: name_ok_def [of c])
  from 2 d c show ?case by (auto simp: t ball_Un split: if_splits sum.splits nat.splits)
qed

lemma parent_dir_names:
  assumes "parent_dir lk cwd p = Inr d" "list_all name_ok cwd"
  shows "list_all name_ok d"
proof -
  let ?start = "if is_abs p then [] else cwd"
  obtain r where w: "walk (\<lambda>_. lk) 40 True ?start (butlast (comps p) @ [[]]) = Inr (r, d)"
    using assms(1) by (auto simp: parent_dir_def kernel_walk_def split: sum.splits)
  have c: "\<forall>c \<in> set (butlast (comps p) @ [[]]). CHR ''/'' \<notin> set c"
    using comps_clean by (auto dest: in_set_butlastD)
  from walk_names [OF w _ _ c] assms(2) show ?thesis by auto
qed

section \<open>Removal\<close>

lemma node_of_remove:
  assumes "list_all name_ok cs" "list_all name_ok k" "k \<noteq> []" "cs \<noteq> k"
  shows "node_of (os_Remove (entry_key k) w\<lparr>vf_dirs := gm_del (path_of True k) (vf_dirs w)\<rparr>) cs = node_of w cs"
    "node_of (w\<lparr>vf_dirs := gm_del (path_of True k) (vf_dirs w)\<rparr>) cs = node_of w cs"
proof -
  have d: "path_of True cs \<noteq> path_of True k" using path_of_inj assms by blast
  have e: "cs \<noteq> [] \<Longrightarrow> entry_key cs \<noteq> entry_key k" using entry_key_inj assms by blast
  show "node_of (os_Remove (entry_key k) w\<lparr>vf_dirs := gm_del (path_of True k) (vf_dirs w)\<rparr>) cs = node_of w cs"
    "node_of (w\<lparr>vf_dirs := gm_del (path_of True k) (vf_dirs w)\<rparr>) cs = node_of w cs"
    using d e by (auto simp: node_of_def os_Remove_def set_files_def split: option.split)
qed

lemma physical_prefix:
  assumes "physical lk ds" "0 < i" "i < length ds"
  shows "\<exists>n. lk (take i ds) = Inr n \<and> n_kind n = Directory"
proof -
  have "take i ds = take i (butlast ds)" "i \<le> length (butlast ds)" using assms by (simp_all add: take_butlast)
  then show ?thesis using assms by (auto simp: physical_def real_dir_def)
qed

lemma physical_cong:
  assumes "\<And>i. 0 < i \<Longrightarrow> i \<le> length ds \<Longrightarrow> lk' (take i ds) = lk (take i ds)" "physical lk ds"
  shows "physical lk' ds"
proof (cases "ds = []")
  case False
  have "take i (butlast ds) = take i ds" if "i \<le> length (butlast ds)" for i
    using that False length_greater_0_conv [of ds] by (intro take_butlast) (simp add: le_diff_conv2 Suc_le_eq)
  then have "real_dir lk' (butlast ds)" using assms False by (auto simp: physical_def real_dir_def)
  then show ?thesis using assms(1) [of "length ds"] assms(2) False by (simp add: physical_def)
qed (simp add: physical_def)

lemma path_of_snoc: "k \<noteq> [] \<Longrightarrow> path_of True (k @ [c]) = path_of True k @ ''/'' @ c"
proof -
  have "join_comps (k @ [c]) = join_comps k @ ''/'' @ c" if "k \<noteq> []"
    using that by (induction k rule: join_comps.induct) auto
  then show "k \<noteq> [] \<Longrightarrow> ?thesis" by (simp add: path_of_def)
qed

text \<open>A directory on the way to an existing entry is not empty.\<close>

lemma prefix_has_children:
  assumes "physical (look deny w) ds" "0 < i" "i < length ds"
  shows "has_children w (take i ds)"
proof -
  let ?k = "take i ds"
  have ex: "\<exists>n. look deny w (take (Suc i) ds) = Inr n"
    using assms physical_prefix [OF assms(1), of "Suc i"] by (cases "Suc i = length ds") (auto simp: physical_def)
  have t: "take (Suc i) ds = ?k @ [ds ! i]" using assms(3) by (simp add: take_Suc_conv_app_nth)
  from ex obtain n where "node_of w (?k @ [ds ! i]) = Some n" by (auto simp: t look_def split: option.splits)
  moreover have "path_of True (?k @ [ds ! i]) = path_of True ?k @ ''/'' @ ds ! i" using assms(2,3) by (intro path_of_snoc) auto
  ultimately consider m where "(path_of True ?k @ ''/'' @ ds ! i, m) \<in> set (vf_dirs w)" | m where "(Path (path_of True ?k) (ds ! i), m) \<in> set (vf_files w)"
    by (auto simp: node_of_def entry_key_def split: option.splits dest!: map_of_SomeD)
  then show ?thesis
  proof cases
    case (1 m)
    then show ?thesis by (force simp: has_children_def list_ex_iff prefix_def)
  next
    case (2 m)
    then show ?thesis by (force simp: has_children_def list_ex_iff)
  qed
qed

text \<open>What removing a path does: nothing, or one entry goes and every other entry stays.\<close>

lemma os_RemovePath_cases:
  assumes "list_all name_ok cwd"
  obtains (unchanged) "snd (os_RemovePath deny cwd p w) = w"
  | (removed) d n where "parent_dir (look deny w) cwd (drop_slashes p) = Inr d" "name_ok (last (comps (drop_slashes p)))"
      "list_all name_ok d" "look deny w (d @ [last (comps (drop_slashes p))]) = Inr n"
      "n_kind n = Directory \<Longrightarrow> \<not> has_children w (d @ [last (comps (drop_slashes p))])"
      "n_kind n = Directory \<or> drop_slashes p = p"
      "\<And>cs. list_all name_ok cs \<Longrightarrow> cs \<noteq> d @ [last (comps (drop_slashes p))] \<Longrightarrow>
         look deny (snd (os_RemovePath deny cwd p w)) cs = look deny w cs"
proof (cases "snd (os_RemovePath deny cwd p w) = w")
  case True
  then show ?thesis by (rule unchanged)
next
  case False
  let ?b = "last (comps (drop_slashes p))"
  have sp: "?b \<notin> {[], ''.'', ''..''}" using False by (auto simp: os_RemovePath_def Let_def)
  then obtain d where d: "parent_dir (look deny w) cwd (drop_slashes p) = Inr d"
    using False by (cases "parent_dir (look deny w) cwd (drop_slashes p)") (auto simp: os_RemovePath_def Let_def)
  obtain n where n: "look deny w (d @ [?b]) = Inr n"
    using False sp d by (cases "look deny w (d @ [?b])") (auto simp: os_RemovePath_def Let_def)
  have b: "name_ok ?b" using sp comps_clean [of ?b "drop_slashes p"] by (simp add: name_ok_def)
  have ok: "list_all name_ok d" by (rule parent_dir_names [OF d assms])
  let ?dirs = "gm_del (path_of True (d @ [?b])) (vf_dirs w)"
  have gone: "snd (os_RemovePath deny cwd p w) \<in> {w\<lparr>vf_dirs := ?dirs\<rparr>, os_Remove (entry_key (d @ [?b])) w\<lparr>vf_dirs := ?dirs\<rparr>}"
    by (cases "n_kind n = Directory"; cases "has_children w (d @ [?b])"; cases "drop_slashes p = p")
       (use False sp d n in \<open>simp_all add: os_RemovePath_def Let_def\<close>)
  have stay: "look deny (snd (os_RemovePath deny cwd p w)) cs = look deny w cs"
    if "list_all name_ok cs" "cs \<noteq> d @ [?b]" for cs
  proof -
    have "list_all name_ok (d @ [?b])" "d @ [?b] \<noteq> []" using ok b by simp_all
    from node_of_remove [OF that(1) this that(2), of w] gone
    have "node_of (snd (os_RemovePath deny cwd p w)) cs = node_of w cs" by (elim insertE emptyE) simp_all
    then show ?thesis by (simp add: look_def split: option.split)
  qed
  show ?thesis
    by (rule removed [OF d b ok n _ _ stay]) (use False sp d n in \<open>auto simp: os_RemovePath_def Let_def split: if_splits\<close>)
qed

text \<open>The last component of a path is its base.\<close>

lemma last_split_on: "last (split_on c s) = rev (takeWhile (\<lambda>x. x \<noteq> c) (rev s))"
proof (induction s)
  case Nil
  then show ?case by simp
next
  case (Cons x s)
  show ?case
  proof (cases "c \<in> set s")
    case True
    then have "takeWhile (\<lambda>y. y \<noteq> c) (rev s @ [x]) = takeWhile (\<lambda>y. y \<noteq> c) (rev s)" by (intro takeWhile_append1) auto
    moreover have "tl (split_on c s) \<noteq> []"
      using True by (induction s) (auto split: list.splits)
    ultimately show ?thesis using Cons.IH by (cases "split_on c s") (auto split: list.splits)
  next
    case False
    then have "takeWhile (\<lambda>y. y \<noteq> c) (rev s @ [x]) = rev s @ takeWhile (\<lambda>y. y \<noteq> c) [x]" by (intro takeWhile_append2) auto
    then show ?thesis using False split_on_single [of c s] by auto
  qed
qed

lemma filepath_Base_last: "drop_slashes p \<noteq> [] \<Longrightarrow> filepath_Base p = last (comps (drop_slashes p))"
  by (auto simp: filepath_Base_def drop_slashes_def Let_def comps_def last_split_on)

text \<open>A path whose last component is no link is found where it says.\<close>

lemma os_Stat_entry:
  assumes "parent_dir lk cwd p = Inr d" "name_ok (last (comps p))" "lk (d @ [last (comps p)]) = Inr n" "n_kind n \<noteq> Symlink"
  shows "os_Stat lk cwd p = Inr n"
proof -
  obtain r where w: "walk (\<lambda>_. lk) 40 True (if is_abs p then [] else cwd) (butlast (comps p) @ [[]]) = Inr (r, d)"
    using assms(1) by (auto simp: parent_dir_def kernel_walk_def split: sum.splits)
  have "walk (\<lambda>_. lk) 40 True (if is_abs p then [] else cwd) (butlast (comps p) @ [last (comps p)]) = Inr (r, d @ [last (comps p)])"
    by (rule walk_last [OF w assms(2)]) (use assms in simp_all)
  moreover have "p \<noteq> []" using assms(2) by (auto simp: comps_def name_ok_def)
  ultimately show ?thesis using assms(3) by (simp add: os_Stat_def kernel_walk_def)
qed

text \<open>
  Removing a path leaves a physical path to a regular file alone, unless the two are the same file.
\<close>

lemma os_RemovePath_keeps:
  assumes "list_all name_ok cwd" "physical (look deny w) ds" "look deny w ds = Inr n" "n_kind n = Regular"
    and "os_Stat (look deny w) cwd p = Inr m" "n_inode m \<noteq> n_inode n"
  shows "physical (look deny (snd (os_RemovePath deny cwd p w))) ds \<and> look deny (snd (os_RemovePath deny cwd p w)) ds = Inr n"
  using assms(1)
proof (cases rule: os_RemovePath_cases [where deny = deny and w = w and p = p])
  case unchanged
  then show ?thesis using assms by simp
next
  case (removed d n')
  let ?k = "d @ [last (comps (drop_slashes p))]"
  have names: "list_all name_ok ds" using assms(2) by (simp add: physical_def)
  have "ds \<noteq> ?k"
  proof
    assume k: "ds = ?k"
    then have "drop_slashes p = p" using removed(4,6) assms(3,4) by auto
    then have "os_Stat (look deny w) cwd p = Inr n"
      using os_Stat_entry [of "look deny w" cwd p d n] removed(1,2) assms(3,4) k by simp
    then show False using assms(5,6) by simp
  qed
  moreover have "take i ds \<noteq> ?k" if "0 < i" "i < length ds" for i
    using prefix_has_children [OF assms(2) that] physical_prefix [OF assms(2) that] removed(4,5) by auto
  ultimately have "look deny (snd (os_RemovePath deny cwd p w)) (take i ds) = look deny w (take i ds)" if "0 < i" "i \<le> length ds" for i
    using removed(7) [of "take i ds"] that names by (cases "i = length ds") (auto simp: list_all_iff dest: in_set_takeD)
  note same = this
  have "look deny (snd (os_RemovePath deny cwd p w)) ds = look deny w ds"
    using same [of "length ds"] removed(7) [of ds] names by (cases "ds = []") auto
  then show ?thesis using physical_cong [OF same assms(2)] assms(3) by simp
qed

end
