(* ===== verification/Setup.thy ===== *)
theory Setup
  imports Cli Paths
begin

text \<open>
  The commands that change the kubeconfig (\<open>setup install\<close>, \<open>setup migrate\<close>, \<open>setup upgrade\<close> of \<open>main.go\<close>) and \<open>clean\<close>.
  The loader and the writer of kubeconfigs are those of the client library and parameters here.  A result
  says which way a command ended; texts it prints on the way are not modelled.
\<close>

section \<open>Environment and results\<close>

record ('c, 't) setup_env =
  su_cli :: "('c, 't) cli_env"
  su_cwd :: "string list"
  su_deny :: "string list \<Rightarrow> os_error option"
  su_executable :: "go_error + string"
  su_load :: "vfs \<Rightarrow> go_error + kubeconfig"
  su_write :: "kubeconfig \<Rightarrow> go_error + string"
  su_kubeconfigPath :: string
  su_KUBECONFIG :: string
  su_homeFile :: string
  su_stdin :: string
  su_stamp :: "gotime \<Rightarrow> string"

text \<open>
  A dry run shows which user gets which command, and which files would be deleted; a completed command
  names its backup, empty when there is none.
\<close>

datatype setup_result =
    Failed go_error
  | NothingToDo
  | SamePath
  | DryRun "(string \<times> string) list" "string list"
  | Aborted
  | Completed string

abbreviation su_look :: "('c, 't) setup_env \<Rightarrow> vfs \<Rightarrow> string list \<Rightarrow> os_error + node" where
  "su_look Su \<equiv> look (su_deny Su)"

abbreviation su_io :: "('c, 't) setup_env \<Rightarrow> shim_sys \<Rightarrow> faults" where
  "su_io Su \<equiv> se_io (cl_shim (su_cli Su))"

definition Resolve :: "('c, 't) setup_env \<Rightarrow> vfs \<Rightarrow> string \<Rightarrow> (os_error \<times> string) + string" where
  "Resolve Su w p = EvalSymlinks (su_look Su w) (su_cwd Su) p"

definition Stat :: "('c, 't) setup_env \<Rightarrow> vfs \<Rightarrow> string \<Rightarrow> os_error + node" where
  "Stat Su w p = os_Stat (su_look Su w) (su_cwd Su) p"

section \<open>Writing the kubeconfig\<close>

definition resolveKubeconfigFile :: "('c, 't) setup_env \<Rightarrow> string" where
  "resolveKubeconfigFile Su =
     (if su_kubeconfigPath Su \<noteq> [] then su_kubeconfigPath Su
      else case filepath_SplitList (su_KUBECONFIG Su) of
             [] \<Rightarrow> su_homeFile Su
           | p # _ \<Rightarrow> if p \<noteq> [] then p else su_homeFile Su)"

primrec safe_stage_msg :: "stage \<Rightarrow> string" where
  "safe_stage_msg StCreate = ''create temp file''"
| "safe_stage_msg StChmod = ''chmod temp file''"
| "safe_stage_msg StWrite = ''write temp file''"
| "safe_stage_msg StSync = ''fsync temp file''"
| "safe_stage_msg StClose = ''close temp file''"
| "safe_stage_msg StRename = ''rename temp to target''"

text \<open>Renaming onto a directory, or onto a path with a trailing separator, fails.\<close>

definition rename_faults :: "vfs \<Rightarrow> string \<Rightarrow> string list \<Rightarrow> faults \<Rightarrow> faults" where
  "rename_faults w p d io =
     (if last (comps p) = [] then io\<lparr>f_rename := Some ENOTDIR\<rparr>
      else case node_of w (d @ [last (comps p)]) of
             Some n \<Rightarrow> if n_kind n = Directory then io\<lparr>f_rename := Some EEXIST\<rparr> else io
           | None \<Rightarrow> io)"

text \<open>The path that is written: below the resolved parent, when the parent is reached over links.\<close>

definition write_target :: "('c, 't) setup_env \<Rightarrow> vfs \<Rightarrow> string \<Rightarrow> go_error + string" where
  "write_target Su w path =
     (case Resolve Su w (filepath_Dir path) of
        Inl (e, p) \<Rightarrow> if e \<noteq> ENOENT then Inl (Wrap ''resolve parent path'' (eval_error (e, p))) else Inr path
      | Inr canonical \<Rightarrow>
          if canonical \<noteq> [] \<and> canonical \<noteq> filepath_Dir path then Inr (filepath_Join canonical (filepath_Base path)) else Inr path)"

definition temp_at :: "string list \<Rightarrow> faults \<Rightarrow> path" where
  "temp_at d io = Path (path_of True d) (''.kubeconfig-tmp-'' @ f_tmp io)"

definition safeWriteFile :: "('c, 't) setup_env \<Rightarrow> faults \<Rightarrow> string \<Rightarrow> string \<Rightarrow> 32 word \<Rightarrow> vfs \<Rightarrow> go_error option \<times> vfs" where
  "safeWriteFile Su io path0 data perm w =
     (case write_target Su w path0 of
        Inl e \<Rightarrow> (Some e, w)
      | Inr path \<Rightarrow>
          if (case os_Lstat (su_look Su w) (su_cwd Su) path of Inr n \<Rightarrow> n_kind n = Symlink | Inl _ \<Rightarrow> False)
          then (Some (Err (''refusing to write to symlink at '' @ path)), w)
          else
            (case kernel_walk (su_look Su w) (su_cwd Su) (comps (filepath_Dir path) @ [[]]) (is_abs path) of
               Inl e \<Rightarrow> (Some (Wrap ''create temp file'' (OsErr e)), w)
             | Inr d \<Rightarrow>
                 (case atomic_write (rename_faults w path d io) perm
                         (temp_at d io) (Path (path_of True d) (filepath_Base path)) data w of
                    (Some (st, e), w') \<Rightarrow> (Some (Wrap (safe_stage_msg st) (OsErr e)), w')
                  | (None, w') \<Rightarrow> (None, w'))))"

definition safeWriteKubeconfig :: "('c, 't) setup_env \<Rightarrow> faults \<Rightarrow> kubeconfig \<Rightarrow> string \<Rightarrow> vfs \<Rightarrow> go_error option \<times> vfs" where
  "safeWriteKubeconfig Su io config path w =
     (case su_write Su config of
        Inl e \<Rightarrow> (Some (Wrap ''serialize kubeconfig'' e), w)
      | Inr data \<Rightarrow> safeWriteFile Su io path data perm600 w)"

text \<open>\<open>os.ReadFile\<close>\<close>

definition os_ReadFile :: "('c, 't) setup_env \<Rightarrow> faults \<Rightarrow> string \<Rightarrow> vfs \<Rightarrow> os_error + string" where
  "os_ReadFile Su io p w =
     (case Stat Su w p of
        Inl e \<Rightarrow> Inl e
      | Inr n \<Rightarrow>
          (case f_open io of
             Some e \<Rightarrow> Inl e
           | None \<Rightarrow> if n_kind n = Directory then Inl EISDIR else (case f_read io of Some e \<Rightarrow> Inl e | None \<Rightarrow> Inr (n_data n))))"

definition backup_file :: "('c, 't) setup_env \<Rightarrow> gotime \<Rightarrow> string \<Rightarrow> string" where
  "backup_file Su now kubeconfigFile = kubeconfigFile @ ''.bak.'' @ su_stamp Su now"

text \<open>The path of the backup, empty when there is nothing to back up.\<close>

definition backupKubeconfig :: "('c, 't) setup_env \<Rightarrow> faults \<Rightarrow> gotime \<Rightarrow> string \<Rightarrow> vfs \<Rightarrow> (go_error + string) \<times> vfs" where
  "backupKubeconfig Su io now kubeconfigFile w =
     (case os_ReadFile Su io kubeconfigFile w of
        Inl e \<Rightarrow> if e = ENOENT then (Inr [], w) else (Inl (Wrap ''read kubeconfig for backup'' (OsErr e)), w)
      | Inr data \<Rightarrow>
          let backupPath = backup_file Su now kubeconfigFile in
          (case safeWriteFile Su io backupPath data perm600 w of
             (Some e, w') \<Rightarrow> (Inl (Wrap ''write backup'' e), w')
           | (None, w') \<Rightarrow> (Inr backupPath, w')))"

text \<open>The backup, if asked for, and the new kubeconfig: the end of all three commands.\<close>

definition write_config :: "('c, 't) setup_env \<Rightarrow> bool \<Rightarrow> kubeconfig \<Rightarrow> shim_sys \<Rightarrow> (go_error + string) \<times> shim_sys" where
  "write_config Su backup config s =
     (let kubeconfigFile = resolveKubeconfigFile Su;
          (b, s1) = (if backup then on_fs (backupKubeconfig Su (su_io Su s) (ss_now s) kubeconfigFile) s else (Inr [], s))
      in case b of
           Inl e \<Rightarrow> (Inl e, s1)
         | Inr backupPath \<Rightarrow>
             (case on_fs (safeWriteKubeconfig Su (su_io Su s1) config kubeconfigFile) s1 of
                (Some e, s2) \<Rightarrow> (Inl (Wrap ''write kubeconfig'' e), s2)
              | (None, s2) \<Rightarrow> (Inr backupPath, s2)))"

section \<open>install\<close>

definition binary_path :: "('c, 't) setup_env \<Rightarrow> vfs \<Rightarrow> go_error + string" where
  "binary_path Su w =
     (case su_executable Su of
        Inl e \<Rightarrow> Inl (Wrap ''resolve binary path'' e)
      | Inr p \<Rightarrow>
          (case Resolve Su w p of Inl e \<Rightarrow> Inl (Wrap ''resolve binary symlinks'' (eval_error e)) | Inr q \<Rightarrow> Inr q))"

definition load_config :: "('c, 't) setup_env \<Rightarrow> vfs \<Rightarrow> go_error + kubeconfig" where
  "load_config Su w = (case su_load Su w of Inl e \<Rightarrow> Inl (Wrap ''load kubeconfig'' e) | Inr c \<Rightarrow> Inr c)"

definition install_args :: "oidcFlags \<Rightarrow> string list" where
  "install_args f =
     [''get-token'', ''--oidc-issuer-url='' @ of_issuerURL f, ''--oidc-client-id='' @ of_clientID f] @
     (if of_clientSecret f \<noteq> [] then [''--oidc-client-secret='' @ of_clientSecret f] else []) @
     map (\<lambda>scope. ''--oidc-extra-scope='' @ scope) (of_extraScopes f) @
     map (\<lambda>(k, v). ''--oidc-extra-param='' @ k @ ''='' @ v) (of_extraParams f) @
     map (\<lambda>(k, v). ''--oidc-request-header='' @ k @ ''='' @ v) (of_requestHeaders f) @
     (if of_username f \<noteq> [] then [''--username='' @ of_username f] else []) @
     (if of_grantType f \<noteq> [] \<and> of_grantType f \<noteq> ''auto'' then [''--grant-type='' @ of_grantType f] else []) @
     (if of_useAccessToken f then [''--oidc-use-access-token''] else [])"

definition install_entry :: "string \<Rightarrow> string list \<Rightarrow> auth_info" where
  "install_entry binaryPath args = \<lparr>ai_Exec = Some \<lparr>ec_APIVersion = ''client.authentication.k8s.io/v1'', ec_Command = binaryPath,
     ec_Args = args, ec_InteractiveMode = ''Never'', ec_rest = []\<rparr>, ai_rest = []\<rparr>"

definition zero_auth_options :: AuthOptions where
  "zero_auth_options = \<lparr>ao_SkipOpenBrowser = False, ao_AuthenticationTimeout = 0, ao_ListenAddress = [], ao_BrowserCommand = [],
     ao_LocalServerCertFile = [], ao_LocalServerKeyFile = [], ao_OpenURLAfterAuthentication = [], ao_AuthRequestExtraParams = [],
     ao_TLSConfig = zero_tls\<rparr>"

definition test_provider :: "oidcFlags \<Rightarrow> Provider" where
  "test_provider f = \<lparr>pv_IssuerURL = of_issuerURL f, pv_ClientID = of_clientID f, pv_ClientSecret = of_clientSecret f,
     pv_ExtraScopes = of_extraScopes f, pv_RedirectURL = [], pv_PKCEMethod = PKCEMethodAuto,
     pv_UseAccessToken = of_useAccessToken f, pv_RequestHeaders = of_requestHeaders f\<rparr>"

definition go_Errorf3 :: "string \<Rightarrow> go_error \<Rightarrow> string \<Rightarrow> go_error" where
  "go_Errorf3 before e after = Err (before @ Error e @ after)"

text \<open>The test of the authentication, during which time passes; its token is dropped.\<close>

definition test_auth :: "('c, 't) setup_env \<Rightarrow> oidcFlags \<Rightarrow> shim_sys \<Rightarrow> go_error option \<times> shim_sys" where
  "test_auth Su f s =
     (case mapGrantType (of_grantType f) of
        Inl gtErr \<Rightarrow> (Some (go_Errorf3 ''test authentication: '' gtErr '' (use --skip-auth-test to skip)''), s)
      | Inr g \<Rightarrow>
          let grantType = (if g = [] then ''device-code'' else g);
              (d, w) = cl_wait (su_cli Su) s;
              s1 = s\<lparr>ss_now := ss_now s + d, ss_fs := w\<rparr>
          in case PerformAuth (cl_flows (su_cli Su)) (test_provider f) grantType zero_auth_options of
               Inl err \<Rightarrow> (Some (go_Errorf3 ''test authentication failed: '' err '' (use --skip-auth-test to skip)''), s1)
             | Inr _ \<Rightarrow> (None, s1))"

text \<open>The new user and, when a cluster is named, a context of that name.\<close>

definition install_config :: "string \<Rightarrow> string \<Rightarrow> auth_info \<Rightarrow> kubeconfig \<Rightarrow> go_error + kubeconfig" where
  "install_config userName clusterName userEntry config =
     (let config1 = config\<lparr>kc_AuthInfos := gm_put userName (Some userEntry) (kc_AuthInfos config)\<rparr> in
      if clusterName = [] then Inr config1
      else if gm_get (kc_Clusters config1) clusterName = None
      then Inl (Err (''cluster '' @ go_quote clusterName @ '' not found in kubeconfig''))
      else Inr (config1\<lparr>kc_Contexts := gm_put clusterName (Some \<lparr>cx_Cluster = clusterName, cx_AuthInfo = userName, cx_rest = []\<rparr>) (kc_Contexts config1)\<rparr>))"

definition runSetupInstall :: "('c, 't) setup_env \<Rightarrow> oidcFlags \<Rightarrow> string \<Rightarrow> string \<Rightarrow> bool \<Rightarrow> bool \<Rightarrow> bool \<Rightarrow> shim_sys \<Rightarrow> setup_result \<times> shim_sys" where
  "runSetupInstall Su f userName clusterName skipAuthTest dryRun backup s =
     (case binary_path Su (ss_fs s) of
        Inl e \<Rightarrow> (Failed e, s)
      | Inr binaryPath \<Rightarrow>
          (case load_config Su (ss_fs s) of
             Inl e \<Rightarrow> (Failed e, s)
           | Inr config \<Rightarrow>
               if dryRun then (DryRun [(userName, binaryPath)] [], s)
               else
                 (case (if skipAuthTest then (None, s) else test_auth Su f s) of
                    (Some e, s1) \<Rightarrow> (Failed e, s1)
                  | (None, s1) \<Rightarrow>
                      (case install_config userName clusterName (install_entry binaryPath (install_args f)) config of
                         Inl e \<Rightarrow> (Failed e, s1)
                       | Inr config1 \<Rightarrow>
                           (case write_config Su backup config1 s1 of
                              (Inl e, s2) \<Rightarrow> (Failed e, s2)
                            | (Inr b, s2) \<Rightarrow> (Completed b, s2))))))"

section \<open>migrate\<close>

definition exec_base :: "exec_config \<Rightarrow> string" where
  "exec_base ex = TrimSuffix (filepath_Base (ec_Command ex)) ''.exe''"

definition is_upstream :: "exec_config \<Rightarrow> bool" where
  "is_upstream ex \<longleftrightarrow> exec_base ex = ''kubelogin'' \<or> exec_base ex = ''kubectl-oidc_login''"

definition contexts_of :: "kubeconfig \<Rightarrow> string \<Rightarrow> string list" where
  "contexts_of config userName =
     map fst (filter (\<lambda>(_, c). case c of None \<Rightarrow> False | Some ctx \<Rightarrow> cx_AuthInfo ctx = userName) (kc_Contexts config))"

text \<open>The exec section of a user, if there is one.\<close>

definition exec_of :: "auth_info option \<Rightarrow> exec_config option" where
  "exec_of a = (case a of None \<Rightarrow> None | Some ai \<Rightarrow> ai_Exec ai)"

definition migrate_users :: "kubeconfig \<Rightarrow> string \<Rightarrow> string list" where
  "migrate_users config contextFilter =
     map fst (filter (\<lambda>(userName, a).
       (case exec_of a of None \<Rightarrow> False | Some ex \<Rightarrow> is_upstream ex) \<and>
       (contextFilter \<noteq> [] \<longrightarrow> contextFilter \<in> set (contexts_of config userName))) (kc_AuthInfos config))"

text \<open>An assignment to the exec section of one user.\<close>

definition update_exec :: "(exec_config \<Rightarrow> exec_config) \<Rightarrow> string \<Rightarrow> kubeconfig \<Rightarrow> kubeconfig" where
  "update_exec g userName config =
     config\<lparr>kc_AuthInfos := map (\<lambda>(u, a). (u, if u = userName then map_option (\<lambda>ai. ai\<lparr>ai_Exec := map_option g (ai_Exec ai)\<rparr>) a else a)) (kc_AuthInfos config)\<rparr>"

definition migrate_config :: "string \<Rightarrow> string list \<Rightarrow> kubeconfig \<Rightarrow> kubeconfig" where
  "migrate_config binaryPath users config =
     fold (update_exec (\<lambda>ex. ex\<lparr>ec_Command := binaryPath, ec_InteractiveMode := ''Never''\<rparr>)) users config"

text \<open>The question on the terminal; the end of input counts as an empty answer.\<close>

definition confirmed :: "('c, 't) setup_env \<Rightarrow> bool" where
  "confirmed Su \<longleftrightarrow> TrimSpace (ToLower (su_stdin Su)) \<in> {[], ''y'', ''yes''}"

definition runSetupMigrate :: "('c, 't) setup_env \<Rightarrow> string \<Rightarrow> bool \<Rightarrow> bool \<Rightarrow> bool \<Rightarrow> shim_sys \<Rightarrow> setup_result \<times> shim_sys" where
  "runSetupMigrate Su contextFilter dryRun skipConfirm backup s =
     (case load_config Su (ss_fs s) of
        Inl e \<Rightarrow> (Failed e, s)
      | Inr config \<Rightarrow>
          (case binary_path Su (ss_fs s) of
             Inl e \<Rightarrow> (Failed e, s)
           | Inr binaryPath \<Rightarrow>
               let users = migrate_users config contextFilter in
               if users = [] then (NothingToDo, s)
               else if dryRun then (DryRun (map (\<lambda>u. (u, binaryPath)) users) [], s)
               else if \<not> skipConfirm \<and> \<not> confirmed Su then (Aborted, s)
               else
                 (case write_config Su backup (migrate_config binaryPath users config) s of
                    (Inl e, s1) \<Rightarrow> (Failed e, s1)
                  | (Inr b, s1) \<Rightarrow> (Completed b, s1))))"

section \<open>upgrade\<close>

definition isKubeloginDaemonCommand :: "string \<Rightarrow> bool" where
  "isKubeloginDaemonCommand command \<longleftrightarrow> prefix ''kubelogin-daemon'' (TrimSuffix (filepath_Base command) ''.exe'')"

definition hasMultipleKubeconfigs :: "('c, 't) setup_env \<Rightarrow> vfs \<Rightarrow> bool" where
  "hasMultipleKubeconfigs Su w \<longleftrightarrow>
     su_KUBECONFIG Su \<noteq> [] \<and>
     length (filter (\<lambda>p. case Stat Su w p of Inr _ \<Rightarrow> True | Inl _ \<Rightarrow> False) (filepath_SplitList (su_KUBECONFIG Su))) > 1"

text \<open>A path over links, as it is when it does not resolve.\<close>

definition resolved_or :: "('c, 't) setup_env \<Rightarrow> vfs \<Rightarrow> string \<Rightarrow> string" where
  "resolved_or Su w p = (case Resolve Su w p of Inr r \<Rightarrow> r | Inl _ \<Rightarrow> p)"

text \<open>\<open>os.SameFile\<close> on two files that were found: the same inode.\<close>

definition SameFile :: "os_error + node \<Rightarrow> os_error + node \<Rightarrow> bool" where
  "SameFile a b \<longleftrightarrow> (case (a, b) of (Inr m, Inr n) \<Rightarrow> n_inode m = n_inode n | _ \<Rightarrow> False)"

definition stale_command :: "('c, 't) setup_env \<Rightarrow> vfs \<Rightarrow> string \<Rightarrow> string \<Rightarrow> bool" where
  "stale_command Su w newPath command \<longleftrightarrow>
     isKubeloginDaemonCommand command \<and> resolved_or Su w command \<noteq> newPath \<and> \<not> SameFile (Stat Su w command) (Stat Su w newPath)"

definition stale_entries :: "('c, 't) setup_env \<Rightarrow> vfs \<Rightarrow> string \<Rightarrow> kubeconfig \<Rightarrow> (string \<times> string) list" where
  "stale_entries Su w newPath config =
     concat (map (\<lambda>(userName, a). case exec_of a of
                     None \<Rightarrow> []
                   | Some ex \<Rightarrow> if stale_command Su w newPath (ec_Command ex) then [(userName, ec_Command ex)] else []) (kc_AuthInfos config))"

definition has_daemon_entry :: "kubeconfig \<Rightarrow> bool" where
  "has_daemon_entry config \<longleftrightarrow>
     list_ex (\<lambda>(_, a). case exec_of a of None \<Rightarrow> False | Some ex \<Rightarrow> isKubeloginDaemonCommand (ec_Command ex)) (kc_AuthInfos config)"

fun unique_from :: "('c, 't) setup_env \<Rightarrow> vfs \<Rightarrow> string \<Rightarrow> string list \<Rightarrow> string list \<Rightarrow> string list" where
  "unique_from Su w newPath seen [] = []"
| "unique_from Su w newPath seen (p # ps) =
     (if resolved_or Su w p = newPath then unique_from Su w newPath seen ps
      else if p \<notin> set seen then p # unique_from Su w newPath (p # seen) ps
      else unique_from Su w newPath seen ps)"

definition collectUniqueOldPaths :: "('c, 't) setup_env \<Rightarrow> vfs \<Rightarrow> string list \<Rightarrow> string \<Rightarrow> string list" where
  "collectUniqueOldPaths Su w oldPaths newPath = unique_from Su w newPath [] oldPaths"

text \<open>Both of the last branches of the source remove the path itself.\<close>

definition deleteOldBinary :: "('c, 't) setup_env \<Rightarrow> string \<Rightarrow> string \<Rightarrow> vfs \<Rightarrow> go_error option \<times> vfs" where
  "deleteOldBinary Su oldPath newPath w =
     (if \<not> prefix ''kubelogin-daemon'' (TrimSuffix (filepath_Base oldPath) ''.exe'')
      then (Some (Err (''refusing to delete '' @ oldPath @ '' (not a kubelogin-daemon binary)'')), w)
      else case Resolve Su w oldPath of
             Inl (e, p) \<Rightarrow> if e = ENOENT then (None, w) else (Some (eval_error (e, p)), w)
           | Inr oldResolved \<Rightarrow>
               (case Resolve Su w newPath of
                  Inl e \<Rightarrow> (Some (eval_error e), w)
                | Inr newResolved \<Rightarrow>
                    if oldResolved = newResolved then (None, w)
                    else
                      (case Stat Su w oldPath of
                         Inl e \<Rightarrow> if e = ENOENT then (None, w) else (Some (path_error ''stat'' oldPath e), w)
                       | Inr oldInfo \<Rightarrow>
                           (case Stat Su w newPath of
                              Inl e \<Rightarrow> (Some (path_error ''stat'' newPath e), w)
                            | Inr newInfo \<Rightarrow>
                                if SameFile (Inr oldInfo) (Inr newInfo) then (None, w)
                                else (case os_RemovePath (su_deny Su) (su_cwd Su) oldPath w of
                                        (Some e, w') \<Rightarrow> (Some (path_error ''remove'' oldPath e), w')
                                      | (None, w') \<Rightarrow> (None, w'))))))"

text \<open>The old daemon is asked to stop, or killed; the command goes on in every case.\<close>

definition stop_daemon :: "('c, 't) setup_env \<Rightarrow> string \<Rightarrow> shim_sys \<Rightarrow> shim_sys" where
  "stop_daemon Su runtimeDir s =
     (let E = cl_shim (su_cli Su); (alive, s1) = probe_alive E s in
      if \<not> alive then s1
      else case sendShutdown E runtimeDir s1 of
             (Some _, s2) \<Rightarrow> snd (killDaemonProcess (su_cli Su) runtimeDir s2)
           | (None, s2) \<Rightarrow> snd (poll_gone E 10 s2))"

definition delete_binaries :: "('c, 't) setup_env \<Rightarrow> string list \<Rightarrow> string \<Rightarrow> shim_sys \<Rightarrow> shim_sys" where
  "delete_binaries Su oldPaths newPath s = fold (\<lambda>p s. snd (on_fs (deleteOldBinary Su p newPath) s)) oldPaths s"

definition upgrade_config :: "string \<Rightarrow> string list \<Rightarrow> kubeconfig \<Rightarrow> kubeconfig" where
  "upgrade_config newPath users config = fold (update_exec (\<lambda>ex. ex\<lparr>ec_Command := newPath\<rparr>)) users config"

definition read_only :: "('c, 't) setup_env \<Rightarrow> vfs \<Rightarrow> string \<Rightarrow> bool" where
  "read_only Su w p \<longleftrightarrow> (case Stat Su w p of Inr n \<Rightarrow> and (n_perm n) 128 = 0 | Inl _ \<Rightarrow> False)"

text \<open>The part after the stale entries were found.\<close>

definition apply_upgrade :: "('c, 't) setup_env \<Rightarrow> string \<Rightarrow> string \<Rightarrow> kubeconfig \<Rightarrow> (string \<times> string) list \<Rightarrow> bool \<Rightarrow> bool \<Rightarrow> shim_sys \<Rightarrow> setup_result \<times> shim_sys" where
  "apply_upgrade Su runtimeDir newPath config stale backup keepOld s =
     (let kubeconfigFile = resolveKubeconfigFile Su in
      if read_only Su (ss_fs s) kubeconfigFile
      then (Failed (Err (''kubeconfig '' @ kubeconfigFile @ '' is read-only; fix permissions first'')), s)
      else case write_config Su backup (upgrade_config newPath (map fst stale) config) s of
             (Inl e, s1) \<Rightarrow> (Failed e, s1)
           | (Inr b, s1) \<Rightarrow>
               let s2 = stop_daemon Su runtimeDir s1 in
               (Completed b,
                if keepOld then s2
                else delete_binaries Su (collectUniqueOldPaths Su (ss_fs s2) (map snd stale) newPath) newPath s2))"

definition runSetupUpgrade :: "('c, 't) setup_env \<Rightarrow> string \<Rightarrow> bool \<Rightarrow> bool \<Rightarrow> bool \<Rightarrow> bool \<Rightarrow> shim_sys \<Rightarrow> setup_result \<times> shim_sys" where
  "runSetupUpgrade Su runtimeDir dryRun skipConfirm backup keepOld s =
     (case binary_path Su (ss_fs s) of
        Inl e \<Rightarrow> (Failed e, s)
      | Inr newPath \<Rightarrow>
          if su_kubeconfigPath Su = [] \<and> hasMultipleKubeconfigs Su (ss_fs s)
          then (Failed (Err (''multiple kubeconfig files detected (KUBECONFIG='' @ su_KUBECONFIG Su @ ''); specify --kubeconfig to pick one'')), s)
          else
            (case load_config Su (ss_fs s) of
               Inl e \<Rightarrow> (Failed e, s)
             | Inr config \<Rightarrow>
                 let stale = stale_entries Su (ss_fs s) newPath config in
                 if stale = [] then
                   (if \<not> has_daemon_entry config then (NothingToDo, s)
                    else if dryRun then (DryRun [] [], s)
                    else (SamePath, stop_daemon Su runtimeDir s))
                 else if dryRun then
                   (DryRun (map (\<lambda>(u, _). (u, newPath)) stale)
                      (if keepOld then [] else collectUniqueOldPaths Su (ss_fs s) (map snd stale) newPath), s)
                 else if \<not> skipConfirm \<and> \<not> confirmed Su then (Aborted, s)
                 else apply_upgrade Su runtimeDir newPath config stale backup keepOld s))"

section \<open>clean\<close>

text \<open>At most 30 waits of 100 milliseconds fit into the 3 seconds of the deadline.\<close>

fun clean_polls :: "shim_env \<Rightarrow> gotime \<Rightarrow> nat \<Rightarrow> shim_sys \<Rightarrow> shim_sys" where
  "clean_polls E deadline 0 s = s"
| "clean_polls E deadline (Suc n) s =
     (let s1 = sleep E (100 * millisecond) s in
      if ss_now s1 \<ge> deadline then s1
      else let (alive, s2) = probe_alive E s1 in if \<not> alive then s2 else clean_polls E deadline n s2)"

definition is_token_file :: "string \<times> node \<Rightarrow> bool" where
  "is_token_file e \<longleftrightarrow> n_kind (snd e) \<noteq> Directory \<and> (case strip_json (fst e) of None \<Rightarrow> False | Some base \<Rightarrow> IsValidCacheKey base)"

definition remove_tokens :: "string \<Rightarrow> vfs \<Rightarrow> nat \<times> vfs" where
  "remove_tokens runtimeDir w =
     fold (\<lambda>e (removed, w). if is_token_file e then (Suc removed, os_Remove (Path runtimeDir (fst e)) w) else (removed, w))
       (dir_entries runtimeDir w) (0, w)"

text \<open>The first part of the command: the daemon is asked to stop and given time.\<close>

definition clean_stop :: "shim_env \<Rightarrow> string \<Rightarrow> shim_sys \<Rightarrow> shim_sys" where
  "clean_stop E runtimeDir s =
     (case sendShutdown E runtimeDir s of
        (None, s1) \<Rightarrow> clean_polls E (ss_now s1 + 3 * second) 30 s1
      | (Some _, s1) \<Rightarrow> s1)"

text \<open>The number of files removed, or the error of reading the directory; a missing directory is no error.\<close>

definition runClean :: "shim_env \<Rightarrow> string \<Rightarrow> os_error option \<Rightarrow> shim_sys \<Rightarrow> (go_error + nat) \<times> shim_sys" where
  "runClean E runtimeDir readdir s =
     (let s2 = clean_stop E runtimeDir s in
      if gm_get (vf_dirs (ss_fs s2)) runtimeDir = None then (Inr 0, s2)
      else case readdir of
             Some e \<Rightarrow> (if e = ENOENT then Inr 0 else Inl (Wrap ''read runtime dir'' (path_error ''open'' runtimeDir e)), s2)
           | None \<Rightarrow> (let (n, w) = remove_tokens runtimeDir (ss_fs s2) in (Inr n, s2\<lparr>ss_fs := w\<rparr>)))"

section \<open>An example\<close>

text \<open>An example: the running binary, an old one beside it, a link to the running one, and a kubeconfig.\<close>

definition demo_node :: "node_kind \<Rightarrow> string \<Rightarrow> nat \<Rightarrow> node" where
  "demo_node k data ino = \<lparr>n_kind = k, n_data = data, n_perm = 493, n_synced = True, n_uid = 1000, n_mtime = 1, n_inode = ino\<rparr>"

definition demo_bin_fs :: vfs where
  "demo_bin_fs = \<lparr>vf_dirs = [(''/'', demo_node Directory [] 1), (''/b'', demo_node Directory [] 2)],
     vf_files = [(Path ''/b'' ''kubelogin-daemon'', demo_node Regular ''new'' 3), (Path ''/b'' ''kubelogin-daemon-old'', demo_node Regular ''old'' 4),
       (Path ''/b'' ''kubelogin-daemon-link'', demo_node Symlink ''kubelogin-daemon'' 5),
       (Path ''/b'' ''config'', demo_node Regular ''old yaml'' 6)], vf_hist = []\<rparr>"

text \<open>No daemon runs, and no flow succeeds.\<close>

definition idle_shim :: shim_env where
  "idle_shim = \<lparr>se_answer = (\<lambda>s rq dial limit. (Inl ConnRefused, 1, ss_fs s)), se_probe = (\<lambda>s. (False, 1, ss_fs s)), se_sleep = (\<lambda>s d. (d, ss_fs s)),
     se_rand = (\<lambda>s n. 0), se_io = (\<lambda>s. no_faults ''1''), se_executable = None, se_evalsymlinks = None, se_start = (\<lambda>s. None),
     se_kill = (\<lambda>p. True), se_getpid = 1, se_environ = []\<rparr>"

definition idle_cli :: "(unit, unit) cli_env" where
  "idle_cli = \<lparr>cl_shim = idle_shim, cl_gob = (\<lambda>_. Inr []), cl_sha256 = (\<lambda>_. []), cl_rfc3339 = (\<lambda>_. []), cl_execInfo = [],
     cl_flows = \<lparr>af_New = (\<lambda>_ _. Inl (Err [])), af_DeviceCode = (\<lambda>_ _. Inl (Err [])), af_AuthCode = (\<lambda>_ _. Inl (Err []))\<rparr>,
     cl_wait = (\<lambda>s. (1, ss_fs s)), cl_interrupted = (\<lambda>s. False), cl_findPID = (\<lambda>s. 0), cl_killError = (\<lambda>p. None)\<rparr>"

definition demo_setup :: "(unit, unit) setup_env" where
  "demo_setup = \<lparr>su_cli = idle_cli, su_cwd = [''b''], su_deny = (\<lambda>_. None), su_executable = Inr ''/b/kubelogin-daemon-link'',
     su_load = (\<lambda>_. Inr demo_kubeconfig), su_write = (\<lambda>_. Inr ''yaml''), su_kubeconfigPath = ''/b/config'', su_KUBECONFIG = [], su_homeFile = [],
     su_stdin = [], su_stamp = (\<lambda>_. ''1'')\<rparr>"

definition demo_sys :: shim_sys where
  "demo_sys = \<lparr>ss_now = 5, ss_fs = demo_bin_fs, ss_trace = []\<rparr>"

lemmas demo_setup_simps = demo_setup_def demo_sys_def demo_bin_fs_def demo_node_def

end
