(* ===== verification/SetupInstall.thy ===== *)
theory SetupInstall
  imports Setup
begin

text \<open>
  What \<open>setup install\<close> writes is what \<open>login\<close>, \<open>check\<close> and \<open>refresh\<close> read: the exec arguments are parsed back to the flags.
\<close>

section \<open>What install writes, login reads\<close>

text \<open>The flags \<open>install\<close> has: no client certificates, redirect or PKCE settings, and scopes and pairs as the flag library delivers them.\<close>

definition install_flags_ok :: "oidcFlags \<Rightarrow> bool" where
  "install_flags_ok f \<longleftrightarrow>
     list_all (\<lambda>s. s \<noteq> [] \<and> scopes_of s = [s]) (of_extraScopes f) \<and>
     gm_wf (of_extraParams f) \<and> gm_wf (of_requestHeaders f) \<and>
     list_all (\<lambda>(k, _). CHR ''='' \<notin> set k) (of_extraParams f @ of_requestHeaders f) \<and>
     of_redirectURL f = [] \<and> of_pkceMethod f = PKCEMethodAuto \<and> of_tlsConfig f = zero_tls"

definition install_items :: "oidcFlags \<Rightarrow> flag_item list" where
  "install_items f =
     [Positional ''get-token'', Joined ''--oidc-issuer-url'' (of_issuerURL f), Joined ''--oidc-client-id'' (of_clientID f)] @
     (if of_clientSecret f \<noteq> [] then [Joined ''--oidc-client-secret'' (of_clientSecret f)] else []) @
     map (Joined ''--oidc-extra-scope'') (of_extraScopes f) @
     map (\<lambda>(k, v). Joined ''--oidc-extra-param'' (k @ ''='' @ v)) (of_extraParams f) @
     map (\<lambda>(k, v). Joined ''--oidc-request-header'' (k @ ''='' @ v)) (of_requestHeaders f) @
     (if of_username f \<noteq> [] then [Joined ''--username'' (of_username f)] else []) @
     (if of_grantType f \<noteq> [] \<and> of_grantType f \<noteq> ''auto'' then [Joined ''--grant-type'' (of_grantType f)] else []) @
     (if of_useAccessToken f then [Bare ''--oidc-use-access-token''] else [])"

lemma render_joined: "concat (map (render_item \<circ> Joined k) xs) = map (\<lambda>x. k @ ''='' @ x) xs"
  by (induction xs) auto

lemma render_pairs: "concat (map (render_item \<circ> (\<lambda>(k, v). Joined n (k @ CHR ''='' # v))) ps) = map (\<lambda>(k, v). n @ CHR ''='' # k @ CHR ''='' # v) ps"
  by (induction ps) auto

lemma install_args_items: "install_args f = concat (map render_item (install_items f))"
  by (simp add: install_args_def install_items_def render_joined render_pairs)

lemma items_ok_append: "items_ok (xs @ ys) \<longleftrightarrow> items_ok xs \<and> items_ok ys" if "list_all (\<lambda>i. case i of Bare _ \<Rightarrow> False | _ \<Rightarrow> True) xs"
  using that by (induction xs) (auto split: flag_item.splits)

lemma items_ok_install: "items_ok (install_items f)"
proof -
  have j: "items_ok (map (Joined k) xs)" if "flag_name k" for k xs using that by (induction xs) auto
  have q: "items_ok (map (\<lambda>(a, b). Joined k (a @ CHR ''='' # b)) ps)" if "flag_name k" for k and ps :: "(string \<times> string) list"
    using that by (induction ps) auto
  show ?thesis
    by (simp add: install_items_def items_ok_append list_all_iff flag_name_def j q double_dash_def boolFlags_def split: prod.split)
qed

lemma scopes_effect:
  "list_all (\<lambda>s. s \<noteq> [] \<and> scopes_of s = [s]) ss \<Longrightarrow>
   fold item_effect (map (Joined ''--oidc-extra-scope'') ss) cfg = cfg\<lparr>pc_extraScopes := pc_extraScopes cfg @ ss\<rparr>"
  by (induction ss arbitrary: cfg) (auto simp: double_dash_def apply_flag_def)

lemma add_pair_eq: "CHR ''='' \<notin> set k \<Longrightarrow> add_pair (k @ ''='' @ v) m = gm_put k v m"
  using IndexByte_append [of "CHR ''=''" k v] by (simp add: add_pair_def)

lemma pairs_effect:
  assumes "list_all (\<lambda>(k, _). CHR ''='' \<notin> set k) ps"
  shows "fold item_effect (map (\<lambda>(k, v). Joined ''--oidc-extra-param'' (k @ ''='' @ v)) ps) cfg =
      cfg\<lparr>pc_extraParams := fold (\<lambda>(k, v). gm_put k v) ps (pc_extraParams cfg)\<rparr>"
    and "fold item_effect (map (\<lambda>(k, v). Joined ''--oidc-request-header'' (k @ ''='' @ v)) ps) cfg =
      cfg\<lparr>pc_requestHeaders := fold (\<lambda>(k, v). gm_put k v) ps (pc_requestHeaders cfg)\<rparr>"
  using assms by (induction ps arbitrary: cfg) (auto simp: double_dash_def apply_flag_def add_pair_eq [simplified])

lemma fold_put_new: "gm_wf (m @ ps) \<Longrightarrow> fold (\<lambda>(k, v). gm_put k v) ps m = m @ ps"
proof (induction ps arbitrary: m)
  case Nil
  then show ?case by simp
next
  case (Cons p ps)
  obtain k v where p: "p = (k, v)" by (cases p)
  have "gm_put k v m = m @ [(k, v)]" using Cons.prems by (intro gm_put_new) (auto simp: gm_wf_def p)
  then show ?case using Cons.IH [of "m @ [(k, v)]"] Cons.prems by (simp add: p)
qed

lemma install_parse:
  assumes "install_flags_ok f"
  shows "parseExecArgs (install_args f) =
    zero_config\<lparr>pc_issuerURL := of_issuerURL f, pc_clientID := of_clientID f, pc_clientSecret := of_clientSecret f,
      pc_extraScopes := of_extraScopes f, pc_extraParams := of_extraParams f, pc_requestHeaders := of_requestHeaders f,
      pc_username := of_username f, pc_grantType := (if of_grantType f = ''auto'' then [] else of_grantType f),
      pc_useAccessToken := of_useAccessToken f\<rparr>"
proof -
  have s: "list_all (\<lambda>s. s \<noteq> [] \<and> scopes_of s = [s]) (of_extraScopes f)"
    and p: "list_all (\<lambda>(k, _). CHR ''='' \<notin> set k) (of_extraParams f)" "list_all (\<lambda>(k, _). CHR ''='' \<notin> set k) (of_requestHeaders f)"
    and w: "gm_wf (of_extraParams f)" "gm_wf (of_requestHeaders f)"
    using assms by (auto simp: install_flags_ok_def)
  have e: "fold (\<lambda>(k, v). gm_put k v) (of_extraParams f) [] = of_extraParams f" "fold (\<lambda>(k, v). gm_put k v) (of_requestHeaders f) [] = of_requestHeaders f"
    using fold_put_new [of "[]"] w by simp_all
  have "parseExecArgs (install_args f) = fold item_effect (install_items f) zero_config"
    using parse_items [OF items_ok_install] by (simp add: parseExecArgs_def install_args_items)
  also have "\<dots> = zero_config\<lparr>pc_issuerURL := of_issuerURL f, pc_clientID := of_clientID f, pc_clientSecret := of_clientSecret f,
      pc_extraScopes := of_extraScopes f, pc_extraParams := of_extraParams f, pc_requestHeaders := of_requestHeaders f,
      pc_username := of_username f, pc_grantType := (if of_grantType f = ''auto'' then [] else of_grantType f),
      pc_useAccessToken := of_useAccessToken f\<rparr>"
    unfolding install_items_def fold_append o_apply scopes_effect [OF s] pairs_effect(1) [OF p(1)] pairs_effect(2) [OF p(2)]
    by (simp add: e zero_config_def apply_flag_def double_dash_def)
  finally show ?thesis .
qed

lemma install_key:
  assumes "install_flags_ok f"
  shows "flags_key (merge_flags False (parseExecArgs (install_args f)) (default_flags context grantType)) = flags_key f"
  using assms unfolding install_parse [OF assms]
  by (simp add: merge_flags_def flags_key_def default_flags_def zero_config_def or_else_def install_flags_ok_def zero_tls_def)

lemma install_lookup:
  assumes "install_config userName clusterName entry config = Inr config'" "clusterName \<noteq> []"
  shows "gm_get (kc_Contexts config') clusterName = Some (Some \<lparr>cx_Cluster = clusterName, cx_AuthInfo = userName, cx_rest = []\<rparr>)"
    and "gm_get (kc_AuthInfos config') userName = Some (Some entry)"
  using assms by (auto simp: install_config_def Let_def split: if_splits)

text \<open>
  What \<open>setup install\<close> writes, \<open>login\<close>, \<open>check\<close> and \<open>refresh\<close> read.  In the kubeconfig \<open>install\<close> produces for a cluster, the commands
  run with that context and no other flags find every flag \<open>install\<close> was given, through the exec arguments: the cache key is
  computed from the same data, and the grant type is the same.
\<close>

theorem install_then_login:
  assumes "install_flags_ok f" and "clusterName \<noteq> []"
    and "install_config userName clusterName (install_entry bin (install_args f)) config = Inr config'"
    and "TrimSuffix (filepath_Base bin) ''.exe'' = ''kubelogin-daemon''"
  shows "\<exists>f'. resolveFromKubeconfig (Inr config') False (default_flags clusterName ''auto'') = Inr f' \<and> flags_key f' = flags_key f \<and>
    of_grantType f' = (if of_grantType f = [] then ''auto'' else of_grantType f)"
proof -
  let ?p = "parseExecArgs (install_args f)"
  have "parseOIDCFromKubeconfig (Inr config') clusterName = Inr ?p"
    using install_lookup [OF assms(3,2)] assms(2,4) by (simp add: parseOIDCFromKubeconfig_def Let_def install_entry_def)
  then have r: "resolveFromKubeconfig (Inr config') False (default_flags clusterName ''auto'') = Inr (merge_flags False ?p (default_flags clusterName ''auto''))"
    by (simp add: resolveFromKubeconfig_def default_flags_def)
  have "flags_key (merge_flags False ?p (default_flags clusterName ''auto'')) = flags_key f" by (rule install_key [OF assms(1)])
  moreover have "of_grantType (merge_flags False ?p (default_flags clusterName ''auto'')) = (if of_grantType f = [] then ''auto'' else of_grantType f)"
    unfolding install_parse [OF assms(1)] by (simp add: merge_flags_def default_flags_def zero_config_def)
  ultimately show ?thesis using r by blast
qed

definition demo_install_flags :: oidcFlags where
  "demo_install_flags = (default_flags [] ''auto'')\<lparr>of_issuerURL := ''i'', of_clientID := ''k8s'', of_requestHeaders := [(''x'', ''1'')]\<rparr>"

lemma demo_install:
  "install_flags_ok demo_install_flags"
  "\<exists>config'. install_config ''oidc'' ''k'' entry demo_kubeconfig = Inr config'"
  by (simp_all add: install_flags_ok_def demo_install_flags_def default_flags_def gm_wf_def install_config_def demo_kubeconfig_def Let_def)

theorem install_then_login_witness:
  "\<exists>config' f'. install_config ''oidc'' ''k'' (install_entry ''/opt/kubelogin-daemon'' (install_args demo_install_flags)) demo_kubeconfig = Inr config' \<and>
     resolveFromKubeconfig (Inr config') False (default_flags ''k'' ''auto'') = Inr f' \<and> flags_key f' = flags_key demo_install_flags"
proof -
  obtain config' where c: "install_config ''oidc'' ''k'' (install_entry ''/opt/kubelogin-daemon'' (install_args demo_install_flags)) demo_kubeconfig = Inr config'"
    using demo_install(2) by blast
  have "TrimSuffix (filepath_Base ''/opt/kubelogin-daemon'') ''.exe'' = ''kubelogin-daemon''"
    by (simp add: filepath_Base_def TrimSuffix_def suffix_def Let_def)
  from install_then_login [OF demo_install(1) _ c this] c show ?thesis by auto
qed

text \<open>
  The names of the released binaries.  \<open>setup\<close> accepts any program name that begins with \<open>kubelogin-daemon\<close> as the daemon, and
  \<open>install\<close> writes the path of the running one; but the commands that read the kubeconfig accept no suffix: installed
  from a binary called, say, \<open>kubelogin-daemon-linux-amd64\<close>, they refuse the context that was just configured.
\<close>

theorem install_other_name:
  assumes "clusterName \<noteq> []" "install_config userName clusterName (install_entry bin args) config = Inr config'"
    and "isKubeloginDaemonCommand bin" "TrimSuffix (filepath_Base bin) ''.exe'' \<noteq> ''kubelogin-daemon''"
  shows "\<exists>e. resolveFromKubeconfig (Inr config') False (default_flags clusterName grantType) = Inl e"
proof -
  let ?b = "TrimSuffix (filepath_Base bin) ''.exe''"
  have "?b \<noteq> ''kubelogin''" "?b \<noteq> ''kubectl-oidc_login''"
    using assms(3) by (auto simp: isKubeloginDaemonCommand_def)
  then show ?thesis using install_lookup [OF assms(2,1)] assms(1,4)
    by (simp add: resolveFromKubeconfig_def default_flags_def parseOIDCFromKubeconfig_def Let_def install_entry_def)
qed

theorem install_other_name_witness:
  "\<exists>config' e. install_config ''oidc'' ''k'' (install_entry ''/opt/kubelogin-daemon-linux-amd64'' (install_args demo_install_flags)) demo_kubeconfig = Inr config' \<and>
     resolveFromKubeconfig (Inr config') False (default_flags ''k'' ''auto'') = Inl e"
proof -
  obtain config' where c: "install_config ''oidc'' ''k'' (install_entry ''/opt/kubelogin-daemon-linux-amd64'' (install_args demo_install_flags)) demo_kubeconfig = Inr config'"
    using demo_install(2) by blast
  have b: "TrimSuffix (filepath_Base ''/opt/kubelogin-daemon-linux-amd64'') ''.exe'' = ''kubelogin-daemon-linux-amd64''"
    by (simp add: filepath_Base_def TrimSuffix_def suffix_def Let_def)
  from install_other_name [OF _ c, of "''auto''"] b c show ?thesis by (auto simp: isKubeloginDaemonCommand_def)
qed

end
