(* ===== verification/SetupWrite.thy ===== *)
theory SetupWrite
  imports Setup
begin

text \<open>
  How the commands write: replacing a kubeconfig at a physical path is atomic, a link is never written through, and the
  backup holds the old file; \<open>clean\<close> removes the token files and nothing else.
\<close>

section \<open>Lexical facts\<close>

lemma split_on_snoc: "split_on c (s @ [c]) = split_on c s @ [[]]"
  by (induction s) (auto split: list.splits)

lemma clean_names: "list_all name_ok ds \<Longrightarrow> fold (clean_step r) ds acc = acc @ ds"
  by (induction ds arbitrary: acc) (auto simp: clean_step_def name_ok_def)

lemma join_snoc: "path_of True (d @ [c]) = (if d = [] then ''/'' else path_of True d @ ''/'') @ c"
  using path_of_snoc [of d c] by (auto simp: path_of_def)

lemma Dir_physical:
  assumes "list_all name_ok d" "name_ok c"
  shows "filepath_Dir (path_of True (d @ [c])) = path_of True d"
proof -
  let ?q = "if d = [] then ''/'' else path_of True d @ ''/''"
  have slash: "CHR ''/'' \<notin> set c" using assms(2) by (simp add: name_ok_def)
  have "dropWhile (\<lambda>x. x \<noteq> CHR ''/'') (rev c @ CHR ''/'' # xs) = CHR ''/'' # xs" for xs
    using slash by (simp add: dropWhile_append3) blast
  then have q: "rev (dropWhile (\<lambda>x. x \<noteq> CHR ''/'') (rev (path_of True (d @ [c])))) = ?q"
    by (simp add: join_snoc)
  have "is_abs ?q" by (simp add: is_abs_def path_of_def)
  moreover have "fold (clean_step True) (comps ?q) [] = d"
  proof (cases "d = []")
    case True
    then show ?thesis by (simp add: comps_def clean_step_def)
  next
    case False
    then have "comps ?q = [] # d @ [[]]"
      using split_on_snoc [of "CHR ''/''" "path_of True d"] comps_path_of [OF assms(1)] by (simp add: comps_def)
    then show ?thesis using clean_names [OF assms(1), of True "[]"] by (simp add: clean_step_def)
  qed
  ultimately show ?thesis by (simp add: filepath_Dir_def q Clean_def)
qed

lemma last_comps: "list_all name_ok d \<Longrightarrow> name_ok c \<Longrightarrow> comps (path_of True (d @ [c])) = [] # d @ [c]"
  using comps_path_of [of "d @ [c]"] by simp

lemma Base_physical:
  assumes "list_all name_ok d" "name_ok c"
  shows "filepath_Base (path_of True (d @ [c])) = c"
proof -
  have "drop_slashes (path_of True (d @ [c])) = path_of True (d @ [c])"
    using assms(2) by (cases "rev c") (auto simp: drop_slashes_def join_snoc name_ok_def)
  then show ?thesis using filepath_Base_last [of "path_of True (d @ [c])"] last_comps [OF assms] by simp
qed

lemma walk_dir_id:
  assumes "list_all name_ok (dest @ cs)" "real_dir lk (dest @ cs)"
  shows "walk (\<lambda>_. lk) n True dest (cs @ [[]]) = Inr (True, dest @ cs)"
  using assms
proof (induction cs arbitrary: dest)
  case Nil
  then show ?case by simp
next
  case (Cons c cs)
  have "\<exists>n. lk (take (Suc (length dest)) (dest @ c # cs)) = Inr n \<and> n_kind n = Directory"
    using Cons.prems(2) unfolding real_dir_def by (metis Suc_leI add_gr_0 length_Cons length_append less_add_same_cancel1 zero_less_Suc)
  then obtain nd where nd: "lk (dest @ [c]) = Inr nd" "n_kind nd = Directory" by auto
  from Cons.IH [of "dest @ [c]"] Cons.prems nd show ?case by (auto simp: name_ok_def)
qed

lemma kernel_walk_dir:
  assumes "list_all name_ok d" "real_dir lk d"
  shows "kernel_walk lk cwd (comps (path_of True d) @ [[]]) True = Inr d"
    "name_ok c \<Longrightarrow> parent_dir lk cwd (path_of True (d @ [c])) = Inr d"
proof -
  have w: "walk (\<lambda>_. lk) 40 True [] (d @ [[]]) = Inr (True, d)" using walk_dir_id [of "[]" d lk 40] assms by simp
  then show "kernel_walk lk cwd (comps (path_of True d) @ [[]]) True = Inr d"
    using comps_path_of [OF assms(1)] by (cases "d = []") (simp_all add: kernel_walk_def)
  show "parent_dir lk cwd (path_of True (d @ [c])) = Inr d" if "name_ok c"
    using w last_comps [OF assms(1) that] by (simp add: parent_dir_def kernel_walk_def)
qed

section \<open>Replacing a file\<close>

lemma rename_faults_simps [simp]:
  "new_node (rename_faults w p d io) perm b = new_node io perm b" "f_tmp (rename_faults w p d io) = f_tmp io"
  by (auto simp: rename_faults_def new_node_def split: option.split)

lemma atomic_write_dirs: "vf_dirs (snd (atomic_write io perm tmp final b w)) = vf_dirs w"
proof -
  have m: "vf_dirs (map_node p f v) = vf_dirs v" for p f v by (simp add: map_node_def set_files_def split: option.split)
  have r: "vf_dirs (os_Remove p v) = vf_dirs v" for p v by (simp add: os_Remove_def set_files_def)
  show ?thesis
    by (auto simp: atomic_write_def os_CreateTemp_def f_Chmod_def f_Write_def f_Sync_def os_Rename_def set_files_def m r
        split: sum.split option.split prod.split)
qed

text \<open>A physical place for a file: a directory that is no link, and a name that is no temporary one.\<close>

definition place_ok :: "('c, 't) setup_env \<Rightarrow> vfs \<Rightarrow> string list \<Rightarrow> string \<Rightarrow> bool" where
  "place_ok Su w d c \<longleftrightarrow> list_all name_ok d \<and> real_dir (su_look Su w) d \<and> name_ok c \<and> \<not> prefix ''.kubeconfig-tmp-'' c"

lemma safeWriteFile_physical:
  assumes "place_ok Su w d c"
  shows "safeWriteFile Su io (path_of True (d @ [c])) data perm w =
    (if (case su_look Su w (d @ [c]) of Inr n \<Rightarrow> n_kind n = Symlink | Inl _ \<Rightarrow> False)
     then (Some (Err (''refusing to write to symlink at '' @ path_of True (d @ [c]))), w)
     else case atomic_write (rename_faults w (path_of True (d @ [c])) d io) perm (temp_at d io) (entry_key (d @ [c])) data w of
            (Some (st, e), w') \<Rightarrow> (Some (Wrap (safe_stage_msg st) (OsErr e)), w')
          | (None, w') \<Rightarrow> (None, w'))"
proof -
  have d: "list_all name_ok d" "real_dir (su_look Su w) d" and c: "name_ok c" using assms by (simp_all add: place_ok_def)
  note k = kernel_walk_dir [OF d]
  have "Resolve Su w (path_of True d) = Inr (path_of True d)"
    using EvalSymlinks_id [OF real_dir_physical [OF d(2,1)]] by (simp add: Resolve_def)
  then have t: "write_target Su w (path_of True (d @ [c])) = Inr (path_of True (d @ [c]))"
    by (simp add: write_target_def Dir_physical [OF d(1) c])
  have l: "os_Lstat (su_look Su w) (su_cwd Su) (path_of True (d @ [c])) = su_look Su w (d @ [c])"
    using k(2) [OF c] c last_comps [OF d(1) c] by (auto simp: os_Lstat_def name_ok_def)
  show ?thesis
    unfolding safeWriteFile_def t sum.case l Dir_physical [OF d(1) c] Base_physical [OF d(1) c] is_abs_path_of
    by (simp add: k(1) entry_key_def)
qed

lemma temp_neq: "place_ok Su w d c \<Longrightarrow> temp_at d io \<noteq> entry_key (d @ [c])"
proof
  assume ok: "place_ok Su w d c" and "temp_at d io = entry_key (d @ [c])"
  then have "c = ''.kubeconfig-tmp-'' @ f_tmp io" unfolding temp_at_def entry_key_def by (simp only: path.inject last_snoc)
  then show False using ok unfolding place_ok_def by (metis prefixI)
qed

text \<open>The three outcomes of a write: refused or failed with no file changed, or done.\<close>

lemma safeWriteFile_cases:
  assumes "place_ok Su w d c" "safeWriteFile Su io (path_of True (d @ [c])) data perm w = (r, w')"
  shows "file_at w' = (if r = None then (file_at w)(entry_key (d @ [c]) \<mapsto> new_node io perm data) else file_at w)"
    "vf_dirs w' = vf_dirs w"
    "\<exists>hs. vf_hist w' = vf_hist w @ hs \<and> (\<forall>h \<in> set hs. gm_get h (entry_key (d @ [c])) \<in> {file_at w (entry_key (d @ [c])), Some (new_node io perm data)})"
    "r = None \<Longrightarrow> su_look Su w (d @ [c]) = Inr n \<Longrightarrow> n_kind n \<noteq> Symlink"
proof -
  let ?io = "rename_faults w (path_of True (d @ [c])) d io"
  let ?k = "entry_key (d @ [c])"
  let ?link = "case su_look Su w (d @ [c]) of Inr n \<Rightarrow> n_kind n = Symlink | Inl _ \<Rightarrow> False"
  have ne: "temp_at d io \<noteq> ?k" by (rule temp_neq [OF assms(1)])
  obtain q v where a: "atomic_write ?io perm (temp_at d io) ?k data w = (q, v)" by fastforce
  have res: "(r, w') = (if ?link then (Some (Err (''refusing to write to symlink at '' @ path_of True (d @ [c]))), w)
      else (map_option (\<lambda>(st, e). Wrap (safe_stage_msg st) (OsErr e)) q, v))"
    using assms(2) unfolding safeWriteFile_physical [OF assms(1)] a by (auto split: option.splits if_splits)
  have "file_at v = (if q = None then (file_at w)(?k \<mapsto> new_node io perm data) else file_at w)"
    using atomic_write_ok [OF ne, of ?io perm data w v] atomic_write_error [of ?io perm "temp_at d io" ?k data w _ v] a by (cases q) auto
  then show "file_at w' = (if r = None then (file_at w)(?k \<mapsto> new_node io perm data) else file_at w)"
    using res by (auto split: if_splits)
  have "vf_dirs v = vf_dirs w" using atomic_write_dirs [of ?io perm "temp_at d io" ?k data w] a by simp
  then show "vf_dirs w' = vf_dirs w" using res by (auto split: if_splits)
  show "\<exists>hs. vf_hist w' = vf_hist w @ hs \<and> (\<forall>h \<in> set hs. gm_get h ?k \<in> {file_at w ?k, Some (new_node io perm data)})"
    using atomic_write_history [OF ne, of ?io perm data w] a res by (cases ?link) auto
  show "n_kind n \<noteq> Symlink" if "r = None" "su_look Su w (d @ [c]) = Inr n" using that res by (auto split: if_splits)
qed

text \<open>Another file of the same directory does not change where things are.\<close>

lemma place_ok_write:
  assumes "place_ok Su w d c" "place_ok Su w d c'" "file_at w' = (file_at w)(entry_key (d @ [c']) \<mapsto> n)" "vf_dirs w' = vf_dirs w"
  shows "place_ok Su w' d c"
proof -
  have "su_look Su w' (take i d) = su_look Su w (take i d)" if "0 < i" "i \<le> length d" for i
  proof -
    have "list_all name_ok (take i d)" "list_all name_ok (d @ [c'])" "take i d \<noteq> []" "take i d \<noteq> d @ [c']"
      using assms(2) that by (auto simp: place_ok_def list_all_iff dest: in_set_takeD arg_cong [of _ _ length])
    then have "entry_key (take i d) \<noteq> entry_key (d @ [c'])" using entry_key_inj by blast
    then show ?thesis by (simp add: look_def node_of_def assms(3,4) split: option.split)
  qed
  then show ?thesis using assms(1) by (simp add: place_ok_def real_dir_def)
qed

lemma touches_Rename: "src \<in> ps \<Longrightarrow> dst \<in> ps \<Longrightarrow> touches_only ps w (snd (os_Rename io src dst w))"
  by (auto simp: touches_only_def os_Rename_def set_files_def split: option.split)

lemma atomic_write_touches: "touches_only {tmp, final} w (snd (atomic_write io perm tmp final b w))"
proof (cases "fst (atomic_write io perm tmp final b w)")
  case (Some e)
  then have "touches_only {tmp} w (snd (atomic_write io perm tmp final b w))" using atomic_write_error by (metis prod.collapse)
  then show ?thesis by (rule touches_mono) blast
next
  case None
  then have "atomic_write io perm tmp final b w = (None, snd (atomic_write io perm tmp final b w))" by (metis prod.collapse)
  then show ?thesis
  proof (rule atomic_write_NoneE)
    fix w1 n
    assume w1: "os_CreateTemp io tmp w = Inr w1"
      and r: "os_Rename io tmp final (snd (f_Sync io tmp (snd (f_Write io tmp b (snd (f_Chmod io tmp perm w1)))))) =
        (None, snd (atomic_write io perm tmp final b w))"
    let ?w2 = "snd (f_Chmod io tmp perm w1)"
    let ?w3 = "snd (f_Write io tmp b ?w2)"
    have t1: "touches_only {tmp, final} w w1" by (rule touches_CreateTemp [OF w1]) simp
    have t2: "touches_only {tmp, final} w ?w2" by (rule touches_trans [OF t1]) simp
    have t3: "touches_only {tmp, final} w ?w3" by (rule touches_trans [OF t2]) simp
    have t4: "touches_only {tmp, final} w (snd (f_Sync io tmp ?w3))" by (rule touches_trans [OF t3]) simp
    show ?thesis using touches_trans [OF t4 touches_Rename [of tmp "{tmp, final}" final]] r by (metis insertI1 insertI2 snd_conv)
  qed
qed

lemma safeWriteFile_touches:
  assumes "place_ok Su w d c"
  shows "touches_only {temp_at d io, entry_key (d @ [c])} w (snd (safeWriteFile Su io (path_of True (d @ [c])) data perm w))"
  unfolding safeWriteFile_physical [OF assms]
  using atomic_write_touches [of "temp_at d io" "entry_key (d @ [c])" w "rename_faults w (path_of True (d @ [c])) d io" perm data]
  by (auto split: prod.split option.split)

section \<open>The kubeconfig and its backup\<close>

definition backup_name :: "('c, 't) setup_env \<Rightarrow> gotime \<Rightarrow> string \<Rightarrow> string" where
  "backup_name Su now c = c @ ''.bak.'' @ su_stamp Su now"

lemma backup_path: "backup_file Su now (path_of True (d @ [c])) = path_of True (d @ [backup_name Su now c])"
  by (simp add: join_snoc backup_name_def backup_file_def)

lemma backup_entry_neq: "entry_key (d @ [backup_name Su now c]) \<noteq> entry_key (d @ [c])"
  by (simp add: entry_key_def backup_name_def)

lemma Stat_entry:
  assumes "place_ok Su w d c" "su_look Su w (d @ [c]) = Inr n" "n_kind n \<noteq> Symlink"
  shows "Stat Su w (path_of True (d @ [c])) = Inr n"
proof -
  have d: "list_all name_ok d" "real_dir (su_look Su w) d" and c: "name_ok c" using assms(1) by (simp_all add: place_ok_def)
  show ?thesis unfolding Stat_def
    by (rule os_Stat_entry [OF kernel_walk_dir(2) [OF d c]]) (use assms c last_comps [OF d(1) c] in simp_all)
qed

text \<open>The backup changes no file but its own; when the kubeconfig is a regular file and the backup succeeds, it is a copy.\<close>

lemma backupKubeconfig_spec:
  assumes "place_ok Su w d c" "place_ok Su w d (backup_name Su now c)"
    and "backupKubeconfig Su io now (path_of True (d @ [c])) w = (r, w')"
  shows "touches_only {temp_at d io, entry_key (d @ [backup_name Su now c])} w w'" "vf_dirs w' = vf_dirs w"
    "file_at w' = file_at w \<or> (\<exists>n. file_at w' = (file_at w)(entry_key (d @ [backup_name Su now c]) \<mapsto> n))"
    "r = Inr b \<Longrightarrow> su_look Su w (d @ [c]) = Inr n \<Longrightarrow> n_kind n = Regular \<Longrightarrow> f_open io \<noteq> Some ENOENT \<Longrightarrow> f_read io \<noteq> Some ENOENT \<Longrightarrow>
       b = path_of True (d @ [backup_name Su now c]) \<and> map_option n_data (file_at w' (entry_key (d @ [backup_name Su now c]))) = Some (n_data n)"
proof -
  let ?p = "path_of True (d @ [backup_name Su now c])"
  obtain data q v where f: "safeWriteFile Su io ?p data perm600 w = (q, v)" and
    res: "(r, w') = (case os_ReadFile Su io (path_of True (d @ [c])) w of
        Inl e \<Rightarrow> if e = ENOENT then (Inr [], w) else (Inl (Wrap ''read kubeconfig for backup'' (OsErr e)), w)
      | Inr _ \<Rightarrow> (case q of Some e \<Rightarrow> (Inl (Wrap ''write backup'' e), v) | None \<Rightarrow> (Inr ?p, v)))"
    and data: "\<And>x. os_ReadFile Su io (path_of True (d @ [c])) w = Inr x \<Longrightarrow> data = x"
  proof -
    define data where "data = (case os_ReadFile Su io (path_of True (d @ [c])) w of Inr x \<Rightarrow> x | Inl _ \<Rightarrow> [])"
    obtain q v where f: "safeWriteFile Su io ?p data perm600 w = (q, v)" by fastforce
    show thesis
      by (rule that [OF f]) (use assms(3) f in \<open>auto simp: backupKubeconfig_def backup_path Let_def data_def split: sum.splits option.splits\<close>)
  qed
  have w': "w' = w \<or> w' = v" using res by (auto split: sum.splits option.splits if_splits)
  note c = safeWriteFile_cases [OF assms(2) f]
  show "touches_only {temp_at d io, entry_key (d @ [backup_name Su now c])} w w'"
    using w' safeWriteFile_touches [OF assms(2), of io data perm600] f by auto
  show "vf_dirs w' = vf_dirs w" using w' c(2) by auto
  show "file_at w' = file_at w \<or> (\<exists>n. file_at w' = (file_at w)(entry_key (d @ [backup_name Su now c]) \<mapsto> n))"
    using w' c(1) by (auto split: if_splits)
  show "b = ?p \<and> map_option n_data (file_at w' (entry_key (d @ [backup_name Su now c]))) = Some (n_data n)"
    if "r = Inr b" "su_look Su w (d @ [c]) = Inr n" "n_kind n = Regular" "f_open io \<noteq> Some ENOENT" "f_read io \<noteq> Some ENOENT"
  proof -
    have st: "Stat Su w (path_of True (d @ [c])) = Inr n" by (rule Stat_entry [OF assms(1) that(2)]) (simp add: that(3))
    have rd: "os_ReadFile Su io (path_of True (d @ [c])) w = Inr (n_data n)"
      using res that(1,4,5) by (auto simp: os_ReadFile_def st that(3) split: option.splits if_splits)
    then have "q = None \<and> b = ?p \<and> w' = v" using res that(1) by (auto split: option.splits)
    then show ?thesis using c(1) data [OF rd] by (simp add: new_node_def)
  qed
qed

definition holds_config :: "('c, 't) setup_env \<Rightarrow> kubeconfig \<Rightarrow> node option \<Rightarrow> bool" where
  "holds_config Su config x \<longleftrightarrow> (\<exists>n. x = Some n \<and> su_write Su config = Inr (n_data n) \<and> n_perm n = perm600 \<and> n_kind n = Regular)"

lemma safeWriteKubeconfig_spec:
  assumes "place_ok Su w d c" "safeWriteKubeconfig Su io config (path_of True (d @ [c])) w = (r, w')"
  shows "r = None \<Longrightarrow> holds_config Su config (file_at w' (entry_key (d @ [c])))"
    "r \<noteq> None \<Longrightarrow> file_at w' = file_at w" "p \<noteq> entry_key (d @ [c]) \<Longrightarrow> file_at w' p = file_at w p"
    "\<exists>hs. vf_hist w' = vf_hist w @ hs \<and>
       (\<forall>h \<in> set hs. gm_get h (entry_key (d @ [c])) = file_at w (entry_key (d @ [c])) \<or> holds_config Su config (gm_get h (entry_key (d @ [c]))))"
proof -
  let ?k = "entry_key (d @ [c])"
  have "(r = None \<longrightarrow> holds_config Su config (file_at w' ?k)) \<and> (r \<noteq> None \<longrightarrow> file_at w' = file_at w) \<and>
    (p \<noteq> ?k \<longrightarrow> file_at w' p = file_at w p) \<and>
    (\<exists>hs. vf_hist w' = vf_hist w @ hs \<and> (\<forall>h \<in> set hs. gm_get h ?k = file_at w ?k \<or> holds_config Su config (gm_get h ?k)))"
  proof (cases "su_write Su config")
    case (Inl e)
    then show ?thesis using assms(2) by (auto simp: safeWriteKubeconfig_def)
  next
    case (Inr data)
    then have "safeWriteFile Su io (path_of True (d @ [c])) data perm600 w = (r, w')"
      using assms(2) by (simp add: safeWriteKubeconfig_def)
    note c = safeWriteFile_cases [OF assms(1) this]
    have h: "holds_config Su config (Some (new_node io perm600 data))" using Inr by (simp add: holds_config_def new_node_def)
    then show ?thesis using c(1,3) by (auto split: if_splits)
  qed
  then show "r = None \<Longrightarrow> holds_config Su config (file_at w' ?k)" "r \<noteq> None \<Longrightarrow> file_at w' = file_at w" "p \<noteq> ?k \<Longrightarrow> file_at w' p = file_at w p"
    "\<exists>hs. vf_hist w' = vf_hist w @ hs \<and> (\<forall>h \<in> set hs. gm_get h ?k = file_at w ?k \<or> holds_config Su config (gm_get h ?k))"
    by blast+
qed

text \<open>The first half of \<open>write_config\<close>.\<close>

lemma backup_stage:
  assumes "place_ok Su (ss_fs s) d c" "place_ok Su (ss_fs s) d (backup_name Su (ss_now s) c)"
    and b: "(if backup then on_fs (backupKubeconfig Su (su_io Su s) (ss_now s) (path_of True (d @ [c]))) s else (Inr [], s)) = (rb, s1)"
  shows "touches_only {temp_at d (su_io Su s), entry_key (d @ [backup_name Su (ss_now s) c])} (ss_fs s) (ss_fs s1) \<and> place_ok Su (ss_fs s1) d c \<and>
      (\<forall>p n. rb = Inr p \<and> backup \<and> su_look Su (ss_fs s) (d @ [c]) = Inr n \<and> n_kind n = Regular \<and>
          f_open (su_io Su s) \<noteq> Some ENOENT \<and> f_read (su_io Su s) \<noteq> Some ENOENT \<longrightarrow>
        p = path_of True (d @ [backup_name Su (ss_now s) c]) \<and>
        map_option n_data (file_at (ss_fs s1) (entry_key (d @ [backup_name Su (ss_now s) c]))) = Some (n_data n))"
proof (cases backup)
  case False
  then show ?thesis using b assms(1) by simp
next
  case True
  let ?b = "entry_key (d @ [backup_name Su (ss_now s) c])" and ?w = "ss_fs s"
  have "backupKubeconfig Su (su_io Su s) (ss_now s) (path_of True (d @ [c])) ?w = (rb, ss_fs s1)"
    using b True by (auto simp: on_fs_def split: prod.splits)
  note bs = backupKubeconfig_spec [OF assms(1,2) this]
  have "place_ok Su (ss_fs s1) d c"
    using bs(3)
  proof
    assume "file_at (ss_fs s1) = file_at ?w"
    then have "node_of (ss_fs s1) = node_of ?w" using bs(2) by (auto simp: node_of_def fun_eq_iff split: option.split)
    then have "su_look Su (ss_fs s1) = su_look Su ?w" by (simp add: look_def fun_eq_iff split: option.split)
    then show ?thesis using assms(1) by (simp add: place_ok_def)
  next
    assume "\<exists>n. file_at (ss_fs s1) = (file_at ?w)(?b \<mapsto> n)"
    then show ?thesis using place_ok_write [OF assms(1,2) _ bs(2)] by blast
  qed
  then show ?thesis using bs(1,4) by blast
qed

text \<open>
  C12: the setup commands never lose a kubeconfig.  At a physical place, at every moment of the write, and so after a crash, the kubeconfig is the old file or the
  complete new one, readable by its owner only; after a failure it is the old one; and after a
  success with \<open>--backup\<close> the named backup holds what a regular old file held.
\<close>

theorem write_config_safe:
  assumes "resolveKubeconfigFile Su = path_of True (d @ [c])"
    and "place_ok Su (ss_fs s) d c" and "place_ok Su (ss_fs s) d (backup_name Su (ss_now s) c)"
    and "write_config Su backup config s = (r, s')"
  shows "(\<forall>e. r = Inl e \<longrightarrow> file_at (ss_fs s') (entry_key (d @ [c])) = file_at (ss_fs s) (entry_key (d @ [c]))) \<and>
    (\<forall>b. r = Inr b \<longrightarrow> holds_config Su config (file_at (ss_fs s') (entry_key (d @ [c])))) \<and>
    (\<forall>b n. r = Inr b \<and> backup \<and> su_look Su (ss_fs s) (d @ [c]) = Inr n \<and> n_kind n = Regular \<and>
        f_open (su_io Su s) \<noteq> Some ENOENT \<and> f_read (su_io Su s) \<noteq> Some ENOENT \<longrightarrow>
      b = path_of True (d @ [backup_name Su (ss_now s) c]) \<and>
      map_option n_data (file_at (ss_fs s') (entry_key (d @ [backup_name Su (ss_now s) c]))) = Some (n_data n)) \<and>
    (\<exists>hs. vf_hist (ss_fs s') = vf_hist (ss_fs s) @ hs \<and>
      (\<forall>h \<in> set hs. gm_get h (entry_key (d @ [c])) = file_at (ss_fs s) (entry_key (d @ [c])) \<or> holds_config Su config (gm_get h (entry_key (d @ [c])))))"
proof -
  let ?k = "entry_key (d @ [c])" and ?b = "entry_key (d @ [backup_name Su (ss_now s) c])" and ?w = "ss_fs s"
  let ?bk = "if backup then on_fs (backupKubeconfig Su (su_io Su s) (ss_now s) (path_of True (d @ [c]))) s else (Inr [], s)"
  obtain rb s1 where b: "?bk = (rb, s1)" by fastforce
  obtain q s2 where q: "on_fs (safeWriteKubeconfig Su (su_io Su s1) config (path_of True (d @ [c]))) s1 = (q, s2)" by fastforce
  have res: "(r, s') = (case rb of Inl e \<Rightarrow> (Inl e, s1) | Inr p \<Rightarrow> (case q of Some e \<Rightarrow> (Inl (Wrap ''write kubeconfig'' e), s2) | None \<Rightarrow> (Inr p, s2)))"
    using assms(4) unfolding write_config_def assms(1) Let_def b prod.case q by (simp split: sum.splits option.splits)
  have nk: "?k \<noteq> temp_at d io" "?k \<noteq> ?b" for io
    using temp_neq [OF assms(2)] backup_entry_neq [of d Su "ss_now s" c] by metis+
  note s1 = backup_stage [OF assms(2,3) b]
  have k1: "file_at (ss_fs s1) ?k = file_at ?w ?k" using touches_file [of _ ?w "ss_fs s1" ?k] s1 nk by blast
  obtain h1 where h1: "vf_hist (ss_fs s1) = vf_hist ?w @ h1" "\<forall>h \<in> set h1. gm_get h ?k = file_at ?w ?k"
    using s1 nk unfolding touches_only_def by blast
  have "safeWriteKubeconfig Su (su_io Su s1) config (path_of True (d @ [c])) (ss_fs s1) = (q, ss_fs s2)"
    using q by (auto simp: on_fs_def split: prod.splits)
  note kc = safeWriteKubeconfig_spec [OF conjunct1 [OF conjunct2 [OF s1]] this]
  obtain h2 where h2: "vf_hist (ss_fs s2) = vf_hist (ss_fs s1) @ h2" "\<forall>h \<in> set h2. gm_get h ?k = file_at ?w ?k \<or> holds_config Su config (gm_get h ?k)"
    using kc(4) k1 by auto
  have kb: "file_at (ss_fs s2) ?b = file_at (ss_fs s1) ?b" using kc(3) nk(2) by metis
  show ?thesis
  proof (cases rb)
    case (Inl e)
    then show ?thesis using res k1 h1 by auto
  next
    case (Inr p)
    show ?thesis
    proof (cases q)
      case None
      then show ?thesis using res Inr kc(1) s1 kb h1 h2 by auto
    next
      case (Some e)
      then show ?thesis using res Inr kc(2) k1 h1 h2 by auto
    qed
  qed
qed

text \<open>
  When nothing fails: the temporary name is free, the place is a regular file or free, and no call reports an error.
\<close>

definition io_ok :: "faults \<Rightarrow> bool" where
  "io_ok io \<longleftrightarrow> f_create io = None \<and> f_chmod io = None \<and> f_write io = None \<and> f_sync io = None \<and> f_close io = None \<and> f_rename io = None \<and>
     f_open io = None \<and> f_read io = None"

definition free_or_regular :: "('c, 't) setup_env \<Rightarrow> vfs \<Rightarrow> string list \<Rightarrow> bool" where
  "free_or_regular Su w cs \<longleftrightarrow> su_deny Su cs = None \<and> (case node_of w cs of None \<Rightarrow> True | Some n \<Rightarrow> n_kind n = Regular) \<and>
     \<not> is_dir (file_at w (entry_key cs))"

lemma safeWriteFile_succeeds:
  assumes "place_ok Su w d c" "io_ok io" "free_or_regular Su w (d @ [c])"
    and "gm_get (vf_dirs w) (path_of True d) \<noteq> None" "file_at w (temp_at d io) = None"
  shows "fst (safeWriteFile Su io (path_of True (d @ [c])) data perm w) = None"
proof -
  have l: "\<not> (case su_look Su w (d @ [c]) of Inr n \<Rightarrow> n_kind n = Symlink | Inl _ \<Rightarrow> False)"
    using assms(3) by (auto simp: free_or_regular_def look_def split: option.splits)
  have "rename_faults w (path_of True (d @ [c])) d io = io"
    using assms(1,3) last_comps [of d c] by (auto simp: rename_faults_def place_ok_def name_ok_def free_or_regular_def split: option.splits)
  moreover have "\<not> is_dir (file_at w (entry_key (d @ [c])))"
    using assms(3) by (simp add: free_or_regular_def)
  ultimately have "\<exists>w'. atomic_write (rename_faults w (path_of True (d @ [c])) d io) perm (temp_at d io) (entry_key (d @ [c])) data w = (None, w')"
    using assms(2,4,5) by (intro atomic_write_succeeds) (simp_all add: io_ok_def temp_at_def)
  then show ?thesis unfolding safeWriteFile_physical [OF assms(1)] using l by auto
qed

lemma write_config_succeeds:
  assumes "resolveKubeconfigFile Su = path_of True (d @ [c])"
    and place: "place_ok Su (ss_fs s) d c" "place_ok Su (ss_fs s) d (backup_name Su (ss_now s) c)"
    and free: "free_or_regular Su (ss_fs s) (d @ [c])" "free_or_regular Su (ss_fs s) (d @ [backup_name Su (ss_now s) c])"
    and dir: "gm_get (vf_dirs (ss_fs s)) (path_of True d) \<noteq> None"
    and io: "\<And>s'. io_ok (su_io Su s')" "\<And>s'. file_at (ss_fs s) (temp_at d (su_io Su s')) = None"
    and data: "su_write Su config = Inr data"
    and old: "su_look Su (ss_fs s) (d @ [c]) = Inr n"
  shows "\<exists>s'. write_config Su True config s = (Inr (path_of True (d @ [backup_name Su (ss_now s) c])), s')"
proof -
  let ?b = "backup_name Su (ss_now s) c" and ?w = "ss_fs s" and ?io = "su_io Su s"
  have reg: "n_kind n = Regular" using free(1) old by (auto simp: free_or_regular_def look_def split: option.splits)
  then have "os_ReadFile Su ?io (path_of True (d @ [c])) ?w = Inr (n_data n)"
    using Stat_entry [OF place(1) old] io(1) [of s] by (simp add: os_ReadFile_def io_ok_def)
  moreover obtain w1 where w1: "safeWriteFile Su ?io (path_of True (d @ [?b])) (n_data n) perm600 ?w = (None, w1)"
    using safeWriteFile_succeeds [OF place(2) io(1) free(2) dir io(2)] by (metis prod.collapse)
  ultimately have b: "backupKubeconfig Su ?io (ss_now s) (path_of True (d @ [c])) ?w = (Inr (path_of True (d @ [?b])), w1)"
    by (simp add: backupKubeconfig_def backup_path Let_def)
  let ?s1 = "s\<lparr>ss_fs := w1\<rparr>"
  note c1 = safeWriteFile_cases [OF place(2) w1]
  have p1: "place_ok Su w1 d c" using place_ok_write [OF place, of w1] c1(1,2) by simp
  have "node_of w1 (d @ [c]) = node_of ?w (d @ [c])" "file_at w1 (entry_key (d @ [c])) = file_at ?w (entry_key (d @ [c]))"
    using c1(1,2) backup_entry_neq [of d Su "ss_now s" c] by (simp_all add: node_of_def split: option.split)
  then have f1: "free_or_regular Su w1 (d @ [c])" using free(1) by (simp add: free_or_regular_def)
  have t1: "file_at w1 (temp_at d (su_io Su ?s1)) = None" using c1(1) io(2) temp_neq [OF place(2)] by simp
  have "fst (safeWriteKubeconfig Su (su_io Su ?s1) config (path_of True (d @ [c])) w1) = None"
    using safeWriteFile_succeeds [OF p1 io(1) f1 _ t1] dir c1(2) by (simp add: safeWriteKubeconfig_def data)
  then obtain w2 where "safeWriteKubeconfig Su (su_io Su ?s1) config (path_of True (d @ [c])) w1 = (None, w2)" by (metis prod.collapse)
  then show ?thesis by (simp add: write_config_def assms(1) Let_def on_fs_def b)
qed

text \<open>An example.\<close>

lemma demo_place:
  fixes l
  defines "Su \<equiv> demo_setup\<lparr>su_load := l\<rparr>"
  shows "resolveKubeconfigFile Su = path_of True ([''b''] @ [''config''])"
  "place_ok Su (ss_fs demo_sys) [''b''] ''config''"
  "backup_name Su (ss_now demo_sys) ''config'' = ''config.bak.1''"
  "place_ok Su (ss_fs demo_sys) [''b''] ''config.bak.1''"
  "su_look Su (ss_fs demo_sys) ([''b''] @ [''config'']) = Inr (demo_node Regular ''old yaml'' 6)"
  "free_or_regular Su (ss_fs demo_sys) ([''b''] @ [''config''])"
  "free_or_regular Su (ss_fs demo_sys) ([''b''] @ [''config.bak.1''])"
  "su_write Su config = Inr ''yaml''" "io_ok (su_io Su s)" "file_at (ss_fs demo_sys) (temp_at [''b''] io) = None"
  "gm_get (vf_dirs (ss_fs demo_sys)) (path_of True [''b'']) \<noteq> None"
  by (simp_all add: Su_def resolveKubeconfigFile_def backup_name_def place_ok_def name_ok_def real_dir_def look_def node_of_def path_of_def entry_key_def
      free_or_regular_def io_ok_def no_faults_def idle_cli_def idle_shim_def temp_at_def demo_setup_simps)

lemma demo_write: "\<exists>s'. write_config (demo_setup\<lparr>su_load := l\<rparr>) True config demo_sys = (Inr ''/b/config.bak.1'', s')"
proof -
  note b = demo_place(3) [of l]
  have "path_of True ([''b''] @ [''config.bak.1'']) = ''/b/config.bak.1''" by (simp add: path_of_def)
  then show ?thesis
    using write_config_succeeds [OF demo_place(1,2) [of l], unfolded b, OF demo_place(4,6,7,11,9,10,8,5)] by simp
qed

theorem write_config_safe_witness:
  "\<exists>s'. write_config demo_setup True demo_kubeconfig demo_sys = (Inr ''/b/config.bak.1'', s') \<and>
     holds_config demo_setup demo_kubeconfig (file_at (ss_fs s') (Path ''/b'' ''config'')) \<and>
     map_option n_data (file_at (ss_fs s') (Path ''/b'' ''config.bak.1'')) = Some ''old yaml''"
proof -
  let ?Su = "demo_setup\<lparr>su_load := su_load demo_setup\<rparr>"
  obtain s' where run: "write_config ?Su True demo_kubeconfig demo_sys = (Inr ''/b/config.bak.1'', s')" using demo_write by blast
  note b = demo_place(3) [of "su_load demo_setup"]
  have io: "f_open (su_io ?Su demo_sys) = None" "f_read (su_io ?Su demo_sys) = None"
    using demo_place(9) [of "su_load demo_setup" demo_sys] by (simp_all add: io_ok_def)
  from write_config_safe [OF demo_place(1,2) [of "su_load demo_setup"], unfolded b, OF demo_place(4) run] demo_place(5) [of "su_load demo_setup"] io run
  show ?thesis by (auto simp: entry_key_def path_of_def demo_node_def)
qed

section \<open>clean\<close>

lemma remove_tokens_fold:
  "snd (fold (\<lambda>e (removed, w). if is_token_file e then (Suc removed, os_Remove (Path dir (fst e)) w) else (removed, w)) es (m, w)) =
     fold (\<lambda>e w. if is_token_file e then os_Remove (Path dir (fst e)) w else w) es w"
  by (induction es arbitrary: m w) auto

lemma remove_tokens_exact:
  assumes "gm_wf (vf_files w)"
  shows "file_at (snd (remove_tokens dir w)) p =
    (if p_dir p = dir \<and> (\<exists>n. file_at w p = Some n \<and> is_token_file (p_name p, n)) then None else file_at w p)"
  unfolding remove_tokens_def remove_tokens_fold fold_remove [OF assms dir_entries_distinct [OF assms]]
  by (cases p) (auto simp: dir_entries_iff [OF assms])

text \<open>
  \<open>clean\<close> removes the cached tokens and nothing else.  Whether or not the daemon could be stopped, once the directory is read
  no token file is left in it, every other file stays, and the number reported is the number of files removed.
\<close>

theorem runClean_exact:
  assumes "gm_get (vf_dirs (ss_fs (clean_stop E dir s))) dir \<noteq> None" and "gm_wf (vf_files (ss_fs (clean_stop E dir s)))"
  shows "fst (runClean E dir None s) = Inr (length (filter is_token_file (dir_entries dir (ss_fs (clean_stop E dir s))))) \<and>
    file_at (ss_fs (snd (runClean E dir None s))) p =
      (if p_dir p = dir \<and> (\<exists>x. file_at (ss_fs (clean_stop E dir s)) p = Some x \<and> is_token_file (p_name p, x)) then None
       else file_at (ss_fs (clean_stop E dir s)) p)"
proof -
  let ?w = "ss_fs (clean_stop E dir s)"
  have "fst (fold (\<lambda>e (removed, w). if is_token_file e then (Suc removed, os_Remove (Path dir (fst e)) w) else (removed, w)) es (m, w)) =
      m + length (filter is_token_file es)" for es m w
    by (induction es arbitrary: m w) auto
  then have n: "fst (remove_tokens dir ?w) = length (filter is_token_file (dir_entries dir ?w))" by (simp add: remove_tokens_def)
  obtain n w' where r: "remove_tokens dir ?w = (n, w')" by fastforce
  then show ?thesis using assms n remove_tokens_exact [OF assms(2), of dir p] by (auto simp: runClean_def Let_def)
qed

theorem runClean_exact_witness:
  "let s = \<lparr>ss_now = 5, ss_fs = one_dir\<lparr>vf_files := [(token_path ''/d'' ''ab'', new_node (no_faults ''1'') perm600 ''x''),
               (Path ''/d'' ''notes.json'', new_node (no_faults ''1'') perm600 ''y'')]\<rparr>, ss_trace = []\<rparr>
   in fst (runClean idle_shim ''/d'' None s) = Inr 1 \<and> file_at (ss_fs (snd (runClean idle_shim ''/d'' None s))) (token_path ''/d'' ''ab'') = None \<and>
      file_at (ss_fs (snd (runClean idle_shim ''/d'' None s))) (Path ''/d'' ''notes.json'') \<noteq> None"
proof -
  let ?w = "one_dir\<lparr>vf_files := [(token_path ''/d'' ''ab'', new_node (no_faults ''1'') perm600 ''x''),
               (Path ''/d'' ''notes.json'', new_node (no_faults ''1'') perm600 ''y'')]\<rparr>"
  let ?s = "\<lparr>ss_now = 5, ss_fs = ?w, ss_trace = []\<rparr>" and ?E = idle_shim
  have w: "ss_fs (clean_stop ?E ''/d'' ?s) = ?w"
    by (simp add: clean_stop_def sendShutdown_def exchange_def advance_def Let_def idle_shim_def)
  have d: "gm_get (vf_dirs (ss_fs (clean_stop ?E ''/d'' ?s))) ''/d'' \<noteq> None" unfolding w by (simp add: one_dir_def)
  have f: "gm_wf (vf_files (ss_fs (clean_stop ?E ''/d'' ?s)))" unfolding w by (simp add: gm_wf_def token_path_def)
  have t: "is_token_file (''ab.json'', new_node io perm600 x)" "\<not> is_token_file (''notes.json'', new_node io perm600 x)" for io x
    by (simp_all add: is_token_file_def new_node_def strip_json_def suffix_def IsValidCacheKey_def is_hex_def byte_in_def byte_of_def)
  from runClean_exact [OF d f, of "token_path ''/d'' ''ab''", unfolded w] runClean_exact [OF d f, of "Path ''/d'' ''notes.json''", unfolded w]
  show ?thesis unfolding Let_def by (simp add: t token_path_def dir_entries_def)
qed

end
