(* ===== verification/SetupConfig.thy ===== *)
theory SetupConfig
  imports SetupWrite
begin

text \<open>
  What \<open>setup migrate\<close>, \<open>setup upgrade\<close> and \<open>clean\<close> change, and what they leave alone: the kubeconfig, its backup, the binaries and the
  token files.
\<close>

section \<open>What migrate and upgrade change\<close>

definition exec_at :: "kubeconfig \<Rightarrow> string \<Rightarrow> exec_config option" where
  "exec_at config u = (case gm_get (kc_AuthInfos config) u of None \<Rightarrow> None | Some a \<Rightarrow> exec_of a)"

definition map_exec :: "(exec_config \<Rightarrow> exec_config) \<Rightarrow> auth_info option \<Rightarrow> auth_info option" where
  "map_exec g a = map_option (\<lambda>ai. ai\<lparr>ai_Exec := map_option g (ai_Exec ai)\<rparr>) a"

lemma exec_of_map_exec [simp]: "exec_of (map_exec g a) = map_option g (exec_of a)"
  by (simp add: exec_of_def map_exec_def split: option.split)

lemma map_exec_twice: "(\<And>x. g (g x) = g x) \<Longrightarrow> map_exec g (map_exec g a) = map_exec g a"
  by (cases a) (simp_all add: map_exec_def option.map_comp comp_def)

lemma update_exec_eq: "update_exec g v config = config\<lparr>kc_AuthInfos := map (\<lambda>(u, a). (u, if u = v then map_exec g a else a)) (kc_AuthInfos config)\<rparr>"
  by (simp add: update_exec_def map_exec_def cong: if_cong)

text \<open>Assignments to several users, for an assignment that may be repeated.\<close>

lemma fold_update_exec:
  assumes "\<And>x. g (g x) = g x"
  shows "fold (update_exec g) us config =
    config\<lparr>kc_AuthInfos := map (\<lambda>(u, a). (u, if u \<in> set us then map_exec g a else a)) (kc_AuthInfos config)\<rparr>"
proof (induction us arbitrary: config)
  case Nil
  have "map (\<lambda>(u, a). (u, a)) xs = xs" for xs :: "(string \<times> auth_info option) list" by (induction xs) auto
  then show ?case by simp
next
  case (Cons u us)
  have "fold (update_exec g) (u # us) config = (update_exec g u config)\<lparr>kc_AuthInfos :=
      map (\<lambda>(v, a). (v, if v \<in> set us then map_exec g a else a)) (kc_AuthInfos (update_exec g u config))\<rparr>"
    by (simp add: Cons.IH)
  also have "\<dots> = config\<lparr>kc_AuthInfos := map (\<lambda>(v, a). (v, if v \<in> set (u # us) then map_exec g a else a)) (kc_AuthInfos config)\<rparr>"
  proof -
    have "(\<lambda>(v, a). (v, if v \<in> set us then map_exec g a else a)) \<circ> (\<lambda>(v, a). (v, if v = u then map_exec g a else a)) =
        (\<lambda>(v, a). (v, if v \<in> set (u # us) then map_exec g a else a))"
      using map_exec_twice [OF assms] by (auto simp: fun_eq_iff)
    then show ?thesis by (simp add: update_exec_eq)
  qed
  finally show ?case .
qed

lemma map_of_keyed: "map_of (map (\<lambda>(k, v). (k, f k v)) xs) k = map_option (f k) (map_of xs k)"
  by (induction xs) auto

lemma exec_at_fold:
  assumes "\<And>x. g (g x) = g x"
  shows "exec_at (fold (update_exec g) us config) u = (if u \<in> set us then map_option g (exec_at config u) else exec_at config u)"
  by (simp add: fold_update_exec [OF assms] exec_at_def map_of_keyed [of "\<lambda>u a. if u \<in> set us then map_exec g a else a"] split: option.split)

lemma fold_update_rest:
  assumes "\<And>x. g (g x) = g x"
  shows "kc_Contexts (fold (update_exec g) us config) = kc_Contexts config" "kc_Clusters (fold (update_exec g) us config) = kc_Clusters config"
    "kc_CurrentContext (fold (update_exec g) us config) = kc_CurrentContext config" "kc_rest (fold (update_exec g) us config) = kc_rest config"
    "map fst (kc_AuthInfos (fold (update_exec g) us config)) = map fst (kc_AuthInfos config)"
    "gm_get (kc_AuthInfos config) u = Some None \<Longrightarrow> gm_get (kc_AuthInfos (fold (update_exec g) us config)) u = Some None"
    "gm_get (kc_AuthInfos config) u = Some (Some ai) \<Longrightarrow>
       gm_get (kc_AuthInfos (fold (update_exec g) us config)) u = Some (Some (if u \<in> set us then ai\<lparr>ai_Exec := map_option g (ai_Exec ai)\<rparr> else ai))"
    "gm_get (kc_AuthInfos config) u = None \<Longrightarrow> gm_get (kc_AuthInfos (fold (update_exec g) us config)) u = None"
  by (simp_all add: fold_update_exec [OF assms] map_of_keyed [of "\<lambda>u a. if u \<in> set us then map_exec g a else a"] map_exec_def comp_def case_prod_beta)

lemma in_stale_entries:
  assumes "gm_wf (kc_AuthInfos config)"
  shows "(u, c) \<in> set (stale_entries Su w newPath config) \<longleftrightarrow>
    (\<exists>ex. exec_at config u = Some ex \<and> ec_Command ex = c \<and> stale_command Su w newPath c)"
proof -
  have "(u, c) \<in> set (stale_entries Su w newPath config) \<longleftrightarrow>
      (\<exists>a ex. (u, a) \<in> set (kc_AuthInfos config) \<and> exec_of a = Some ex \<and> ec_Command ex = c \<and> stale_command Su w newPath c)"
    by (auto simp: stale_entries_def split: option.splits if_splits) (metis (lifting) option.sel)+
  then show ?thesis using assms by (auto simp: exec_at_def gm_get_in_set [symmetric] split: option.split)
qed

lemma in_migrate_users:
  assumes "gm_wf (kc_AuthInfos config)"
  shows "u \<in> set (migrate_users config ctx) \<longleftrightarrow>
    (\<exists>ex. exec_at config u = Some ex \<and> is_upstream ex \<and> (ctx \<noteq> [] \<longrightarrow> ctx \<in> set (contexts_of config u)))"
proof -
  have "u \<in> set (migrate_users config ctx) \<longleftrightarrow>
      (\<exists>a ex. (u, a) \<in> set (kc_AuthInfos config) \<and> exec_of a = Some ex \<and> is_upstream ex \<and> (ctx \<noteq> [] \<longrightarrow> ctx \<in> set (contexts_of config u)))"
    by (force simp: migrate_users_def split: option.splits)
  then show ?thesis using assms by (auto simp: exec_at_def gm_get_in_set [symmetric] split: option.split)
qed

lemma load_config_Inr: "load_config Su w = Inr c \<longleftrightarrow> su_load Su w = Inr c"
  by (simp add: load_config_def split: sum.split)

text \<open>The path of the running binary is physical: the executable's path is absolute.\<close>

lemma binary_path_physical:
  assumes "binary_path Su w = Inr newPath" "\<And>p. su_executable Su = Inr p \<Longrightarrow> is_abs p"
  obtains ds where "newPath = path_of True ds" "physical (su_look Su w) ds" "Resolve Su w newPath = Inr newPath"
proof -
  from assms(1) obtain p where p: "su_executable Su = Inr p" "Resolve Su w p = Inr newPath"
    by (auto simp: binary_path_def split: sum.splits)
  from EvalSymlinks_physical [OF p(2) [unfolded Resolve_def] assms(2) [OF p(1)]] that show ?thesis
    by (metis EvalSymlinks_id Resolve_def)
qed

lemma stale_command_self: "Resolve Su w newPath = Inr newPath \<Longrightarrow> \<not> stale_command Su w newPath newPath"
  by (simp add: stale_command_def resolved_or_def)

lemma upgrade_completed:
  assumes "runSetupUpgrade Su dir dryRun skipConfirm backup keepOld s = (Completed b, s')"
  obtains newPath config s1 where "binary_path Su (ss_fs s) = Inr newPath" "su_load Su (ss_fs s) = Inr config"
    "write_config Su backup (upgrade_config newPath (map fst (stale_entries Su (ss_fs s) newPath config)) config) s = (Inr b, s1)"
  using assms
  by (auto simp: runSetupUpgrade_def apply_upgrade_def Let_def load_config_Inr split: sum.splits if_splits prod.splits)

text \<open>What an upgrade makes of the kubeconfig: every user whose command is stale gets the new path, and nothing else is different.\<close>

definition settled_config :: "('c, 't) setup_env \<Rightarrow> vfs \<Rightarrow> string \<Rightarrow> kubeconfig \<Rightarrow> kubeconfig" where
  "settled_config Su w newPath config = config\<lparr>kc_AuthInfos := map (\<lambda>(u, a). (u, case a of
       None \<Rightarrow> None
     | Some ai \<Rightarrow> Some (case ai_Exec ai of
           None \<Rightarrow> ai
         | Some ex \<Rightarrow> if stale_command Su w newPath (ec_Command ex) then ai\<lparr>ai_Exec := Some (ex\<lparr>ec_Command := newPath\<rparr>)\<rparr> else ai)))
       (kc_AuthInfos config)\<rparr>"

lemma upgrade_config_settled:
  assumes "gm_wf (kc_AuthInfos config)"
  shows "upgrade_config newPath (map fst (stale_entries Su w newPath config)) config = settled_config Su w newPath config"
proof -
  let ?us = "map fst (stale_entries Su w newPath config)"
  have g: "(x\<lparr>ec_Command := newPath\<rparr>)\<lparr>ec_Command := newPath\<rparr> = x\<lparr>ec_Command := newPath\<rparr>" for x by simp
  have us: "u \<in> set ?us \<longleftrightarrow> (\<exists>ex. exec_at config u = Some ex \<and> stale_command Su w newPath (ec_Command ex))" for u
  proof -
    have "u \<in> set ?us \<longleftrightarrow> (\<exists>c. (u, c) \<in> set (stale_entries Su w newPath config))" by force
    then show ?thesis by (auto simp: in_stale_entries [OF assms])
  qed
  have eq: "(if u \<in> set ?us then map_exec (\<lambda>ex. ex\<lparr>ec_Command := newPath\<rparr>) a else a) =
      (case a of None \<Rightarrow> None | Some ai \<Rightarrow> Some (case ai_Exec ai of None \<Rightarrow> ai
         | Some ex \<Rightarrow> if stale_command Su w newPath (ec_Command ex) then ai\<lparr>ai_Exec := Some (ex\<lparr>ec_Command := newPath\<rparr>)\<rparr> else ai))"
    if "(u, a) \<in> set (kc_AuthInfos config)" for u a
  proof -
    have "gm_get (kc_AuthInfos config) u = Some a" using that gm_get_in_set [OF assms] by blast
    then have "exec_at config u = exec_of a" by (simp add: exec_at_def)
    then show ?thesis unfolding us by (auto simp: map_exec_def exec_of_def split: option.splits)
  qed
  show ?thesis
    unfolding upgrade_config_def fold_update_exec [of "\<lambda>ex. ex\<lparr>ec_Command := newPath\<rparr>", OF g] settled_config_def
    by (intro arg_cong [where f = "\<lambda>x. config\<lparr>kc_AuthInfos := x\<rparr>"] map_cong refl) (clarsimp simp only: prod.case eq simp_thms)
qed

text \<open>No command of the settled kubeconfig is stale, as long as the commands that were left alone still name the new binary.\<close>

lemma settled_not_stale:
  assumes "Resolve Su w2 newPath = Inr newPath"
    and "\<And>u a ex. (u, a) \<in> set (kc_AuthInfos config) \<Longrightarrow> exec_of a = Some ex \<Longrightarrow> \<not> stale_command Su w newPath (ec_Command ex) \<Longrightarrow>
      \<not> stale_command Su w2 newPath (ec_Command ex)"
  shows "stale_entries Su w2 newPath (settled_config Su w newPath config) = []"
  using assms(2) stale_command_self [OF assms(1)]
  by (fastforce simp: stale_entries_def settled_config_def exec_of_def split: option.splits if_splits)

text \<open>
  C35: an upgrade settles the kubeconfig.  When \<open>setup upgrade\<close> completes, the kubeconfig it has written is the one it has loaded with the
  command of every user of a daemon at a different path replaced by the path of the running binary; the other fields of these exec sections, all
  other users, credentials, contexts and clusters, and what the file holds besides are the same.  A second upgrade, at any later time, that reads back
  what was written and finds the binary at its path, and the entries that were left alone still naming it, changes nothing: it only stops the daemon.
\<close>

theorem upgrade_settles:
  assumes "runSetupUpgrade Su dir dryRun skipConfirm backup keepOld s = (Completed b, s')"
    and "\<And>p. su_executable Su = Inr p \<Longrightarrow> is_abs p"
    and "\<And>c. su_load Su (ss_fs s) = Inr c \<Longrightarrow> gm_wf (kc_AuthInfos c)"
  shows "\<exists>newPath config s1. binary_path Su (ss_fs s) = Inr newPath \<and> su_load Su (ss_fs s) = Inr config \<and>
    write_config Su backup (settled_config Su (ss_fs s) newPath config) s = (Inr b, s1) \<and>
    (\<forall>s2 dir2 dryRun2 skipConfirm2 backup2 keepOld2.
       su_load Su (ss_fs s2) = Inr (settled_config Su (ss_fs s) newPath config) \<and> binary_path Su (ss_fs s2) = Inr newPath \<and>
       \<not> (su_kubeconfigPath Su = [] \<and> hasMultipleKubeconfigs Su (ss_fs s2)) \<and>
       (\<forall>(u, a) \<in> set (kc_AuthInfos config). \<forall>ex. exec_of a = Some ex \<and> \<not> stale_command Su (ss_fs s) newPath (ec_Command ex) \<longrightarrow>
          \<not> stale_command Su (ss_fs s2) newPath (ec_Command ex)) \<longrightarrow>
       runSetupUpgrade Su dir2 dryRun2 skipConfirm2 backup2 keepOld2 s2 =
         (if \<not> has_daemon_entry (settled_config Su (ss_fs s) newPath config) then (NothingToDo, s2)
          else if dryRun2 then (DryRun [] [], s2) else (SamePath, stop_daemon Su dir2 s2)))"
proof -
  from assms(1) obtain newPath config s1 where n: "binary_path Su (ss_fs s) = Inr newPath" and c: "su_load Su (ss_fs s) = Inr config"
    and w: "write_config Su backup (upgrade_config newPath (map fst (stale_entries Su (ss_fs s) newPath config)) config) s = (Inr b, s1)"
    by (rule upgrade_completed)
  note w = w [unfolded upgrade_config_settled [OF assms(3) [OF c]]]
  let ?c = "settled_config Su (ss_fs s) newPath config"
  have "runSetupUpgrade Su dir2 dryRun2 skipConfirm2 backup2 keepOld2 s2 =
      (if \<not> has_daemon_entry ?c then (NothingToDo, s2) else if dryRun2 then (DryRun [] [], s2) else (SamePath, stop_daemon Su dir2 s2))"
    if "su_load Su (ss_fs s2) = Inr ?c" "binary_path Su (ss_fs s2) = Inr newPath" "\<not> (su_kubeconfigPath Su = [] \<and> hasMultipleKubeconfigs Su (ss_fs s2))"
      "\<forall>(u, a) \<in> set (kc_AuthInfos config). \<forall>ex. exec_of a = Some ex \<and> \<not> stale_command Su (ss_fs s) newPath (ec_Command ex) \<longrightarrow>
         \<not> stale_command Su (ss_fs s2) newPath (ec_Command ex)" for s2 dir2 dryRun2 skipConfirm2 backup2 keepOld2
  proof -
    have "Resolve Su (ss_fs s2) newPath = Inr newPath" by (rule binary_path_physical [OF that(2) assms(2)])
    then have "stale_entries Su (ss_fs s2) newPath ?c = []" by (rule settled_not_stale) (use that(4) in fast)
    then show ?thesis using that(1-3) by (auto simp: runSetupUpgrade_def load_config_def)
  qed
  then show ?thesis using n c w by blast
qed

lemma parse_kubeconfig_iff:
  "parseOIDCFromKubeconfig (Inr config) cx = Inr p \<longleftrightarrow>
     (if cx = [] then kc_CurrentContext config else cx) \<noteq> [] \<and>
     (\<exists>c ai ex. gm_get (kc_Contexts config) (if cx = [] then kc_CurrentContext config else cx) = Some (Some c) \<and>
        gm_get (kc_AuthInfos config) (cx_AuthInfo c) = Some (Some ai) \<and> ai_Exec ai = Some ex \<and>
        exec_base ex \<in> {''kubelogin-daemon'', ''kubelogin'', ''kubectl-oidc_login''} \<and> p = parseExecArgs (ec_Args ex))"
proof -
  let ?n = "if cx = [] then kc_CurrentContext config else cx"
  obtain r where r: "gm_get (kc_Contexts config) ?n = r" by blast
  show ?thesis
  proof (cases "\<exists>c. r = Some (Some c)")
    case True
    then obtain c where c: "r = Some (Some c)" by blast
    obtain a where a: "gm_get (kc_AuthInfos config) (cx_AuthInfo c) = a" by blast
    show ?thesis
      by (cases "\<exists>ai. a = Some (Some ai)")
         (auto simp: parseOIDCFromKubeconfig_def Let_def r c a exec_base_def split: option.splits)
  next
    case False
    then show ?thesis by (auto simp: parseOIDCFromKubeconfig_def Let_def r split: option.splits)
  qed
qed

lemma exec_at_Some: "exec_at config u = Some ex \<longleftrightarrow> (\<exists>ai. gm_get (kc_AuthInfos config) u = Some (Some ai) \<and> ai_Exec ai = Some ex)"
  by (auto simp: exec_at_def exec_of_def split: option.splits)

lemma parse_exec_at:
  "parseOIDCFromKubeconfig (Inr config) cx = Inr p \<longleftrightarrow>
     (if cx = [] then kc_CurrentContext config else cx) \<noteq> [] \<and>
     (\<exists>c ex. gm_get (kc_Contexts config) (if cx = [] then kc_CurrentContext config else cx) = Some (Some c) \<and>
        exec_at config (cx_AuthInfo c) = Some ex \<and>
        exec_base ex \<in> {''kubelogin-daemon'', ''kubelogin'', ''kubectl-oidc_login''} \<and> p = parseExecArgs (ec_Args ex))"
  unfolding parse_kubeconfig_iff exec_at_Some by blast

lemma migrate_completed:
  assumes "runSetupMigrate Su ctx dryRun skipConfirm backup s = (Completed b, s')"
  obtains bin config where "binary_path Su (ss_fs s) = Inr bin" "su_load Su (ss_fs s) = Inr config"
    "write_config Su backup (migrate_config bin (migrate_users config ctx) config) s = (Inr b, s')"
  using assms by (auto simp: runSetupMigrate_def Let_def load_config_Inr split: sum.splits if_splits prod.splits)

text \<open>How a migrated kubeconfig is read, by the name of the binary.\<close>

lemma migrate_parse:
  assumes "gm_wf (kc_AuthInfos config)"
  shows "TrimSuffix (filepath_Base bin) ''.exe'' \<in> {''kubelogin-daemon'', ''kubelogin'', ''kubectl-oidc_login''} \<Longrightarrow>
      parseOIDCFromKubeconfig (Inr (migrate_config bin (migrate_users config ctx) config)) cx = Inr p \<longleftrightarrow>
      parseOIDCFromKubeconfig (Inr config) cx = Inr p"
    and "TrimSuffix (filepath_Base bin) ''.exe'' \<notin> {''kubelogin-daemon'', ''kubelogin'', ''kubectl-oidc_login''} \<Longrightarrow>
      gm_get (kc_Contexts config) (if cx = [] then kc_CurrentContext config else cx) = Some (Some c) \<Longrightarrow>
      cx_AuthInfo c \<in> set (migrate_users config ctx) \<Longrightarrow>
      parseOIDCFromKubeconfig (Inr (migrate_config bin (migrate_users config ctx) config)) cx \<noteq> Inr p"
proof -
  let ?g = "\<lambda>ex. ex\<lparr>ec_Command := bin, ec_InteractiveMode := ''Never''\<rparr>"
  let ?us = "migrate_users config ctx"
  let ?base = "TrimSuffix (filepath_Base bin) ''.exe''" and ?names = "{''kubelogin-daemon'', ''kubelogin'', ''kubectl-oidc_login''}"
  have g: "?g (?g x) = ?g x" for x :: exec_config by simp
  note rest = fold_update_rest [of ?g, OF g, where us = ?us and config = config]
  have up: "exec_base ex \<in> ?names" if "u \<in> set ?us" "exec_at config u = Some ex" for u ex
    using that in_migrate_users [OF assms, of u ctx] by (auto simp: is_upstream_def)
  have parse: "parseOIDCFromKubeconfig (Inr (migrate_config bin ?us config)) cx = Inr p \<longleftrightarrow>
     (if cx = [] then kc_CurrentContext config else cx) \<noteq> [] \<and>
     (\<exists>c ex. gm_get (kc_Contexts config) (if cx = [] then kc_CurrentContext config else cx) = Some (Some c) \<and>
        exec_at config (cx_AuthInfo c) = Some ex \<and>
        (if cx_AuthInfo c \<in> set ?us then ?base else exec_base ex) \<in> ?names \<and> p = parseExecArgs (ec_Args ex))"
    unfolding parse_exec_at migrate_config_def rest(1,3) exec_at_fold [of ?g, OF g] by (force simp: exec_base_def)
  show "parseOIDCFromKubeconfig (Inr (migrate_config bin ?us config)) cx = Inr p \<longleftrightarrow> parseOIDCFromKubeconfig (Inr config) cx = Inr p" if "?base \<in> ?names"
  proof -
    have eq: "(if u \<in> set ?us then ?base else exec_base ex) \<in> ?names \<longleftrightarrow> exec_base ex \<in> ?names" if "exec_at config u = Some ex" for u ex
      using up [OF _ that] \<open>?base \<in> ?names\<close> by (cases "u \<in> set ?us") simp_all
    show ?thesis unfolding parse unfolding parse_exec_at by (intro conj_cong refl iff_exI) (rule eq)
  qed
  show "?base \<notin> ?names \<Longrightarrow> gm_get (kc_Contexts config) (if cx = [] then kc_CurrentContext config else cx) = Some (Some c) \<Longrightarrow>
      cx_AuthInfo c \<in> set ?us \<Longrightarrow> parseOIDCFromKubeconfig (Inr (migrate_config bin ?us config)) cx \<noteq> Inr p"
    unfolding parse by auto
qed

lemma migrate_all:
  assumes "gm_wf (kc_AuthInfos config)" "TrimSuffix (filepath_Base bin) ''.exe'' = ''kubelogin-daemon''"
  shows "migrate_users (migrate_config bin (migrate_users config []) config) [] = []"
proof -
  let ?g = "\<lambda>ex. ex\<lparr>ec_Command := bin, ec_InteractiveMode := ''Never''\<rparr>"
  let ?c = "fold (update_exec ?g) (migrate_users config []) config"
  have g: "?g (?g x) = ?g x" for x :: exec_config by simp
  have wf': "gm_wf (kc_AuthInfos ?c)" using assms(1) fold_update_rest(5) [of ?g, OF g] by (simp add: gm_wf_def)
  have "u \<notin> set (migrate_users ?c [])" for u
    unfolding in_migrate_users [OF wf'] exec_at_fold [of ?g, OF g] in_migrate_users [OF assms(1)] using assms(2)
    by (cases "exec_at config u") (auto simp: is_upstream_def exec_base_def)
  then show ?thesis unfolding migrate_config_def by (metis list.set_intros(1) neq_Nil_conv)
qed

text \<open>
  C34: a migration keeps the sessions, if the binary has the right name.  When \<open>setup migrate\<close> completes, it has written the path of the running
  binary, with links resolved, into the exec sections of the users of upstream kubelogin.  If the base name of that path is one of the three
  that \<open>parseOIDCFromKubeconfig\<close> accepts, \<open>login\<close>, \<open>check\<close> and \<open>refresh\<close>, with whatever flags, read the new kubeconfig as they read the old
  one: the flags, and so the key, are the same.  Under the name \<open>kubelogin-daemon\<close> a migration of all contexts leaves no user of
  upstream kubelogin.  Under any other name, such as that of a release binary, the migrated contexts are refused from then on.
\<close>

theorem migrate_keeps_sessions:
  assumes "runSetupMigrate Su ctx dryRun skipConfirm backup s = (Completed b, s')"
    and "\<And>c. su_load Su (ss_fs s) = Inr c \<Longrightarrow> gm_wf (kc_AuthInfos c)"
  shows "\<exists>bin config config'. binary_path Su (ss_fs s) = Inr bin \<and> su_load Su (ss_fs s) = Inr config \<and>
    write_config Su backup config' s = (Inr b, s') \<and>
    (if TrimSuffix (filepath_Base bin) ''.exe'' \<in> {''kubelogin-daemon'', ''kubelogin'', ''kubectl-oidc_login''}
     then (\<forall>changed f0 f. resolveFromKubeconfig (Inr config') changed f0 = Inr f \<longleftrightarrow> resolveFromKubeconfig (Inr config) changed f0 = Inr f) \<and>
       (TrimSuffix (filepath_Base bin) ''.exe'' = ''kubelogin-daemon'' \<and> ctx = [] \<longrightarrow> migrate_users config' [] = [])
     else \<forall>cx c. gm_get (kc_Contexts config) (if cx = [] then kc_CurrentContext config else cx) = Some (Some c) \<and>
         cx_AuthInfo c \<in> set (migrate_users config ctx) \<longrightarrow> (\<nexists>p. parseOIDCFromKubeconfig (Inr config') cx = Inr p))"
proof -
  from assms(1) obtain bin config where n: "binary_path Su (ss_fs s) = Inr bin" and c: "su_load Su (ss_fs s) = Inr config"
    and w: "write_config Su backup (migrate_config bin (migrate_users config ctx) config) s = (Inr b, s')"
    by (rule migrate_completed)
  let ?names = "{''kubelogin-daemon'', ''kubelogin'', ''kubectl-oidc_login''}" and ?base = "TrimSuffix (filepath_Base bin) ''.exe''"
  let ?c = "migrate_config bin (migrate_users config ctx) config"
  have wf: "gm_wf (kc_AuthInfos config)" by (rule assms(2) [OF c])
  note parse = migrate_parse [OF wf, where bin = bin and ctx = ctx]
  have "resolveFromKubeconfig (Inr ?c) changed f0 = Inr f \<longleftrightarrow> resolveFromKubeconfig (Inr config) changed f0 = Inr f" if "?base \<in> ?names" for changed f0 f
    using parse(1) [OF that, of "of_contextName f0"] by (auto simp: resolveFromKubeconfig_def split: sum.splits) blast+
  then show ?thesis using n c w parse(2) migrate_all [OF wf, of bin] by (intro exI [of _ bin] exI [of _ config] exI [of _ ?c]) simp
qed

section \<open>Deleting old binaries\<close>

text \<open>What a deletion may touch: entries named like the daemon.\<close>

definition daemon_name :: "string list \<Rightarrow> bool" where
  "daemon_name cs \<longleftrightarrow> prefix ''kubelogin-daemon'' (TrimSuffix (last cs) ''.exe'')"

definition only_daemons :: "('c, 't) setup_env \<Rightarrow> vfs \<Rightarrow> vfs \<Rightarrow> bool" where
  "only_daemons Su w w' \<longleftrightarrow> (\<forall>cs. list_all name_ok cs \<and> su_look Su w' cs \<noteq> su_look Su w cs \<longrightarrow> daemon_name cs)"

lemma only_daemons_refl [simp]: "only_daemons Su w w"
  by (simp add: only_daemons_def)

lemma only_daemons_trans: "only_daemons Su w w' \<Longrightarrow> only_daemons Su w' w'' \<Longrightarrow> only_daemons Su w w''"
  unfolding only_daemons_def by metis

lemma deleteOldBinary_cases:
  obtains (kept) "snd (deleteOldBinary Su old new w) = w"
  | (removed) m n where "Stat Su w old = Inr m" "Stat Su w new = Inr n" "n_inode m \<noteq> n_inode n"
      "prefix ''kubelogin-daemon'' (TrimSuffix (filepath_Base old) ''.exe'')"
      "snd (deleteOldBinary Su old new w) = snd (os_RemovePath (su_deny Su) (su_cwd Su) old w)"
proof (cases "snd (deleteOldBinary Su old new w) = w")
  case True
  then show ?thesis by (rule kept)
next
  case False
  then show ?thesis
    by (intro removed [of "case Stat Su w old of Inr m \<Rightarrow> m" "case Stat Su w new of Inr n \<Rightarrow> n"])
       (auto simp: deleteOldBinary_def SameFile_def split: if_splits sum.splits prod.splits option.splits)
qed

lemma deleteOldBinary_only:
  assumes "list_all name_ok (su_cwd Su)"
  shows "only_daemons Su w (snd (deleteOldBinary Su old new w))"
proof (cases rule: deleteOldBinary_cases [of Su old new w])
  case kept
  then show ?thesis by simp
next
  case (removed m n)
  from assms show ?thesis
  proof (cases rule: os_RemovePath_cases [where deny = "su_deny Su" and w = w and p = old])
    case unchanged
    then show ?thesis using removed(5) by simp
  next
    case r: (removed d n')
    then have "drop_slashes old \<noteq> []" by (auto simp: comps_def name_ok_def)
    then have "daemon_name (d @ [last (comps (drop_slashes old))])"
      using removed(4) filepath_Base_last [of old] by (simp add: daemon_name_def)
    then show ?thesis using r(7) removed(5) unfolding only_daemons_def by metis
  qed
qed

lemma deleteOldBinary_keeps:
  assumes "list_all name_ok (su_cwd Su)" "physical (su_look Su w) ds" "su_look Su w ds = Inr n" "n_kind n = Regular"
  shows "physical (su_look Su (snd (deleteOldBinary Su old (path_of True ds) w))) ds \<and>
    su_look Su (snd (deleteOldBinary Su old (path_of True ds) w)) ds = Inr n"
proof (cases rule: deleteOldBinary_cases [of Su old "path_of True ds" w])
  case kept
  then show ?thesis using assms by simp
next
  case (removed m n')
  have "n' = n" using removed(2) os_Stat_physical [OF assms(2)] assms(3) by (simp add: Stat_def)
  then show ?thesis using os_RemovePath_keeps [OF assms, of old m] removed(1,3,5) by (simp add: Stat_def)
qed

text \<open>
  C13: an upgrade never deletes the binary it installs.  Whatever paths the kubeconfig held (relative ones, links and hard links to the new
  binary, links to links, directories), deleting the old binaries leaves the resolved path of the running binary in place, with
  its file, and every entry that goes has a name beginning with \<open>kubelogin-daemon\<close>.
\<close>

theorem upgrade_keeps_binary:
  assumes "physical (su_look Su (ss_fs s)) ds" "su_look Su (ss_fs s) ds = Inr n" "n_kind n = Regular" "list_all name_ok (su_cwd Su)"
  shows "Stat Su (ss_fs (delete_binaries Su oldPaths (path_of True ds) s)) (path_of True ds) = Inr n \<and>
    Resolve Su (ss_fs (delete_binaries Su oldPaths (path_of True ds) s)) (path_of True ds) = Inr (path_of True ds) \<and>
    only_daemons Su (ss_fs s) (ss_fs (delete_binaries Su oldPaths (path_of True ds) s))"
proof -
  have "physical (su_look Su (ss_fs (delete_binaries Su oldPaths (path_of True ds) s))) ds \<and>
      su_look Su (ss_fs (delete_binaries Su oldPaths (path_of True ds) s)) ds = Inr n \<and>
      only_daemons Su (ss_fs s) (ss_fs (delete_binaries Su oldPaths (path_of True ds) s))"
    using assms(1,2)
  proof (induction oldPaths arbitrary: s)
    case Nil
    then show ?case by (simp add: delete_binaries_def)
  next
    case (Cons p ps)
    let ?s = "snd (on_fs (deleteOldBinary Su p (path_of True ds)) s)"
    have f: "ss_fs ?s = snd (deleteOldBinary Su p (path_of True ds) (ss_fs s))" by (simp add: on_fs_def case_prod_beta)
    have k: "physical (su_look Su (ss_fs ?s)) ds" "su_look Su (ss_fs ?s) ds = Inr n"
      using deleteOldBinary_keeps [OF assms(4) Cons.prems assms(3)] by (simp_all add: f)
    have o: "only_daemons Su (ss_fs s) (ss_fs ?s)" using deleteOldBinary_only [OF assms(4)] by (simp add: f)
    from Cons.IH [OF k] show ?case using only_daemons_trans [OF o] by (simp add: delete_binaries_def)
  qed
  then show ?thesis using os_Stat_physical EvalSymlinks_id by (simp add: Stat_def Resolve_def)
qed

lemma demo_physical:
  "physical (su_look demo_setup (ss_fs demo_sys)) [''b'', ''kubelogin-daemon'']"
  "su_look demo_setup (ss_fs demo_sys) [''b'', ''kubelogin-daemon''] = Inr (demo_node Regular ''new'' 3)"
  by (simp_all add: physical_def name_ok_def real_dir_def look_def node_of_def path_of_def entry_key_def demo_setup_simps le_Suc_eq)

theorem upgrade_keeps_binary_witness:
  "let s' = delete_binaries demo_setup [''/b/kubelogin-daemon-link'', ''kubelogin-daemon-old'', ''kubelogin-daemon''] ''/b/kubelogin-daemon'' demo_sys
   in Stat demo_setup (ss_fs s') ''/b/kubelogin-daemon'' = Inr (demo_node Regular ''new'' 3) \<and>
      gm_get (vf_files (ss_fs s')) (Path ''/b'' ''kubelogin-daemon-old'') = None"
proof -
  have p: "path_of True [''b'', ''kubelogin-daemon''] = ''/b/kubelogin-daemon''" by (simp add: path_of_def)
  have "gm_get (vf_files (ss_fs (delete_binaries demo_setup [''/b/kubelogin-daemon-link'', ''kubelogin-daemon-old'', ''kubelogin-daemon'']
      ''/b/kubelogin-daemon'' demo_sys))) (Path ''/b'' ''kubelogin-daemon-old'') = None"
    by code_simp
  then show ?thesis
    using upgrade_keeps_binary [OF demo_physical, of "[''/b/kubelogin-daemon-link'', ''kubelogin-daemon-old'', ''kubelogin-daemon'']", unfolded p]
    by (simp add: demo_node_def demo_setup_def name_ok_def)
qed

definition demo_stale_config :: kubeconfig where
  "demo_stale_config = update_exec (\<lambda>ex. ex\<lparr>ec_Command := ''kubelogin-daemon-old''\<rparr>) ''u'' demo_kubeconfig"

text \<open>A kubeconfig that reads back as it was written.\<close>

definition demo_upgrade :: "(unit, unit) setup_env" where
  "demo_upgrade = demo_setup\<lparr>su_load := (\<lambda>w. Inr (
     if map_option n_data (file_at w (Path ''/b'' ''config'')) = Some ''yaml''
     then update_exec (\<lambda>ex. ex\<lparr>ec_Command := ''/b/kubelogin-daemon''\<rparr>) ''u'' demo_stale_config else demo_stale_config))\<rparr>"

definition demo_upgraded :: shim_sys where
  "demo_upgraded = demo_sys\<lparr>ss_fs := (ss_fs demo_sys)\<lparr>vf_files := gm_put (Path ''/b'' ''config'') (demo_node Regular ''yaml'' 9) (vf_files (ss_fs demo_sys))\<rparr>\<rparr>"

lemma demo_binary:
  "binary_path demo_upgrade (ss_fs demo_sys) = Inr ''/b/kubelogin-daemon''"
  "binary_path demo_upgrade (ss_fs demo_upgraded) = Inr ''/b/kubelogin-daemon''"
  "binary_path demo_setup (ss_fs demo_sys) = Inr ''/b/kubelogin-daemon''"
  "stale_entries demo_upgrade (ss_fs demo_sys) ''/b/kubelogin-daemon'' demo_stale_config = [(''u'', ''kubelogin-daemon-old'')]"
  "su_load demo_upgrade (ss_fs demo_sys) = Inr demo_stale_config"
  "su_load demo_upgrade (ss_fs demo_upgraded) = Inr (settled_config demo_upgrade (ss_fs demo_sys) ''/b/kubelogin-daemon'' demo_stale_config)"
  "list_all (\<lambda>(u, a). case exec_of a of None \<Rightarrow> True | Some ex \<Rightarrow> stale_command demo_upgrade (ss_fs demo_sys) ''/b/kubelogin-daemon'' (ec_Command ex))
     (kc_AuthInfos demo_stale_config)"
  by code_simp+

lemma demo_upgrade_completes: "\<exists>s'. runSetupUpgrade demo_upgrade ''/d'' False True True False demo_sys = (Completed ''/b/config.bak.1'', s')"
proof -
  have m: "su_kubeconfigPath demo_upgrade \<noteq> []" by (simp add: demo_upgrade_def demo_setup_def)
  have l: "load_config demo_upgrade (ss_fs demo_sys) = Inr demo_stale_config" by (simp add: load_config_def demo_binary)
  have r: "\<not> read_only demo_upgrade (ss_fs demo_sys) (resolveKubeconfigFile demo_upgrade)" by code_simp
  obtain s1 where "write_config demo_upgrade True (upgrade_config ''/b/kubelogin-daemon'' [''u''] demo_stale_config) demo_sys = (Inr ''/b/config.bak.1'', s1)"
    using demo_write unfolding demo_upgrade_def by blast
  then show ?thesis by (simp add: runSetupUpgrade_def apply_upgrade_def Let_def demo_binary m l r)
qed

theorem upgrade_settles_witness:
  "\<exists>s1. write_config demo_upgrade True (settled_config demo_upgrade (ss_fs demo_sys) ''/b/kubelogin-daemon'' demo_stale_config) demo_sys =
       (Inr ''/b/config.bak.1'', s1) \<and>
     runSetupUpgrade demo_upgrade ''/d'' False False True False demo_upgraded = (SamePath, stop_daemon demo_upgrade ''/d'' demo_upgraded)"
proof -
  obtain s' where run: "runSetupUpgrade demo_upgrade ''/d'' False True True False demo_sys = (Completed ''/b/config.bak.1'', s')"
    using demo_upgrade_completes by blast
  have a: "is_abs p" if "su_executable demo_upgrade = Inr p" for p
    using that by (auto simp: demo_upgrade_def demo_setup_def is_abs_def)
  have w: "gm_wf (kc_AuthInfos c)" if "su_load demo_upgrade (ss_fs demo_sys) = Inr c" for c
    using that by (auto simp: demo_binary demo_stale_config_def update_exec_def demo_kubeconfig_def gm_wf_def)
  have h: "has_daemon_entry (settled_config demo_upgrade (ss_fs demo_sys) ''/b/kubelogin-daemon'' demo_stale_config)" by code_simp
  have m: "su_kubeconfigPath demo_upgrade \<noteq> []" by (simp add: demo_upgrade_def demo_setup_def)
  have "\<forall>(u, a) \<in> set (kc_AuthInfos demo_stale_config). \<forall>ex. exec_of a = Some ex \<and>
      \<not> stale_command demo_upgrade (ss_fs demo_sys) ''/b/kubelogin-daemon'' (ec_Command ex) \<longrightarrow>
      \<not> stale_command demo_upgrade (ss_fs demo_upgraded) ''/b/kubelogin-daemon'' (ec_Command ex)"
    using demo_binary(7) by (auto simp: list_all_iff)
  with upgrade_settles [OF run a w] demo_binary h m show ?thesis by auto
qed

theorem migrate_keeps_sessions_witness:
  "\<exists>config' s'. write_config demo_setup True config' demo_sys = (Inr ''/b/config.bak.1'', s') \<and> migrate_users demo_kubeconfig [] = [''u''] \<and> migrate_users config' [] = [] \<and>
     (\<exists>f. resolveFromKubeconfig (Inr demo_kubeconfig) False (default_flags [] ''auto'') = Inr f \<and>
          resolveFromKubeconfig (Inr config') False (default_flags [] ''auto'') = Inr f)"
proof -
  have u: "migrate_users demo_kubeconfig [] = [''u'']" by code_simp
  have l: "su_load demo_setup (ss_fs demo_sys) = Inr demo_kubeconfig" by (simp add: demo_setup_def)
  obtain s' where "write_config demo_setup True (migrate_config ''/b/kubelogin-daemon'' [''u''] demo_kubeconfig) demo_sys = (Inr ''/b/config.bak.1'', s')"
    using demo_write [of "su_load demo_setup"] by auto
  then have run: "runSetupMigrate demo_setup [] False True True demo_sys = (Completed ''/b/config.bak.1'', s')"
    by (simp add: runSetupMigrate_def load_config_def l demo_binary u)
  have w: "gm_wf (kc_AuthInfos c)" if "su_load demo_setup (ss_fs demo_sys) = Inr c" for c
    using that by (auto simp: demo_setup_def demo_kubeconfig_def gm_wf_def)
  have n: "TrimSuffix (filepath_Base ''/b/kubelogin-daemon'') ''.exe'' = ''kubelogin-daemon''" by code_simp
  obtain f where f: "resolveFromKubeconfig (Inr demo_kubeconfig) False (default_flags [] ''auto'') = Inr f"
    using demo_parse by (simp add: resolveFromKubeconfig_def default_flags_def)
  from migrate_keeps_sessions [OF run w] u f show ?thesis by (auto simp: l n demo_binary)
qed

end
