(* ===== verification/DaemonCmd.thy ===== *)
theory DaemonCmd
  imports Cli
begin

text \<open>
  The \<open>daemon\<close> commands of \<open>main.go\<close>: \<open>start\<close> up to the accept loop and what follows it, \<open>stop\<close> and \<open>status\<close>, and the search for the process
  behind a socket (\<open>find_pid_unix.go\<close>).  A second \<open>start\<close> beside a running daemon is examined.
\<close>

section \<open>start\<close>

text \<open>
  How \<open>start\<close> goes on: the daemon serves until its context ends; another daemon holds the address and the process exits with code 1;
  or the command fails.
\<close>

datatype start_result = Serving | ExitInUse | StartFailed go_error

text \<open>
  The chain of a failed bind ends in the error of the system call; the other errors of \<open>ListenAndServe\<close>
  hold no \<open>net.OpError\<close> with \<open>EADDRINUSE\<close>, the report of a live daemon included.
\<close>

definition isAddrInUse :: "go_error \<Rightarrow> bool" where
  "isAddrInUse e \<longleftrightarrow> e = Wrap ''bind'' (OsErr EADDRINUSE)"

text \<open>What the operating system answers, call by call.\<close>

record start_env =
  st_alive :: "nat \<Rightarrow> bool"
  st_dirIO :: faults
  st_migrateIO :: "string \<Rightarrow> faults"
  st_resolves :: "path \<Rightarrow> bool"
  st_legacyDir :: string
  st_logIO :: faults
  st_bindIO :: faults
  st_sockIO :: faults
  st_nonceIO :: faults
  st_random :: "go_error + string"
  st_uid :: nat
  st_now :: gotime

text \<open>\<open>ListenAndServe\<close> and the first branch of the \<open>select\<close> that follows.\<close>

definition serve_daemon :: "start_env \<Rightarrow> Server \<Rightarrow> start_result \<times> Server" where
  "serve_daemon St srv =
     (case ListenAndServe_setup (st_alive St) (st_bindIO St) (st_sockIO St) (st_nonceIO St) (st_random St) (st_now St) srv of
        (None, s) \<Rightarrow> (Serving, s)
      | (Some e, s) \<Rightarrow> if isAddrInUse e then (ExitInUse, s) else (StartFailed e, Shutdown s))"

definition runDaemonStart :: "start_env \<Rightarrow> string \<Rightarrow> bool \<Rightarrow> duration \<Rightarrow> vfs \<Rightarrow> start_result \<times> vfs" where
  "runDaemonStart St runtimeDir verbose idleTimeout w =
     (if (case gm_get (vf_dirs w) runtimeDir of None \<Rightarrow> False | Some n \<Rightarrow> n_kind n = Symlink)
      then (StartFailed (Err (''runtime dir '' @ runtimeDir @ '' is a symlink (possible attack, refusing to start)'')), w)
      else
        let (mk, w1) = os_Mkdir (st_dirIO St) runtimeDir w in
        if mk \<noteq> None \<and> mk \<noteq> Some EEXIST
        then (StartFailed (Wrap ''create runtime dir'' (path_error ''mkdir'' runtimeDir (the mk))), w1)
        else
          let w2 = MigrateTokensFromLegacyDir (st_resolves St) (st_migrateIO St) (st_uid St) (st_legacyDir St) runtimeDir w1 in
          (case NewLogger (st_logIO St) runtimeDir verbose w2 of
             (Inl e, w3) \<Rightarrow> (StartFailed (Wrap ''create logger'' e), w3)
           | (Inr _, w3) \<Rightarrow>
               (case serve_daemon St (NewServer (st_now St) (st_uid St) runtimeDir idleTimeout 0 w3) of (r, s) \<Rightarrow> (r, sv_fs s))))"

text \<open>The other branch: the context of a serving daemon ends, or its accept loop fails.\<close>

definition end_daemon :: "Server \<Rightarrow> Server" where
  "end_daemon s = Shutdown s"

section \<open>stop and status\<close>

definition runDaemonStop :: "shim_env \<Rightarrow> string \<Rightarrow> shim_sys \<Rightarrow> cli_result \<times> shim_sys" where
  "runDaemonStop E runtimeDir s =
     (case sendShutdown E runtimeDir s of
        (Some e, s1) \<Rightarrow> (UserError (''send shutdown: '' @ Error e @ '' (is the daemon running?)''), s1)
      | (None, s1) \<Rightarrow> (Printed (''Shutdown signal sent.'' @ [CHR 0x0A]), s1))"

definition status_line :: "string \<Rightarrow> string \<Rightarrow> string" where
  "status_line label v = label @ v @ [CHR 0x0A]"

definition runDaemonStatus :: "(gotime \<Rightarrow> string) \<Rightarrow> string \<Rightarrow> shim_env \<Rightarrow> string \<Rightarrow> bool \<Rightarrow> shim_sys \<Rightarrow> cli_result \<times> shim_sys" where
  "runDaemonStatus rfc3339 version E runtimeDir statusJSON s =
     (let addr = path_string (Path runtimeDir ''sock'') in
      case SendHealth E runtimeDir s of
        (Inl _, s1) \<Rightarrow>
          (if statusJSON then JsonOut True (sort_key fst [(''status'', JStr ''stopped''), (''address'', JStr addr), (''runtime_dir'', JStr runtimeDir)])
           else Printed (status_line ''Status:       '' ''stopped'' @ status_line ''Address:      '' addr @ status_line ''Runtime dir:  '' runtimeDir), s1)
      | (Inr resp, s1) \<Rightarrow>
          (if statusJSON then JsonOut True (sort_key fst
             [(''status'', JStr ''running''), (''pid'', JNum (show_int (rs_PID resp))), (''uptime'', JStr (rs_Uptime resp)),
              (''uptime_seconds'', JNum (show_int (rs_UptimeSeconds resp))), (''tokens_managed'', JNum (show_int (rs_TokenCount resp))),
              (''address'', JStr addr), (''runtime_dir'', JStr (rs_RuntimeDir resp)), (''log_file'', JStr (rs_LogPath resp)),
              (''binary'', JStr (rs_BinaryPath resp)), (''version'', JStr version), (''protocol_version'', JNum (show_int ProtocolVersion))])
           else Printed (status_line ''Status:       '' ''running'' @ status_line ''PID:          '' (show_int (rs_PID resp)) @
             status_line ''Uptime:       '' (rs_Uptime resp) @ status_line ''Tokens:       '' (show_int (rs_TokenCount resp) @ '' managed'') @
             status_line ''Address:      '' addr @ status_line ''Runtime dir:  '' (rs_RuntimeDir resp) @ status_line ''Log file:     '' (rs_LogPath resp) @
             status_line ''Version:      '' (version @ '' (protocol v'' @ show_int ProtocolVersion @ '')'') @
             (case rs_TokenExpiry resp of None \<Rightarrow> [] | Some t \<Rightarrow> status_line ''Next expiry:  '' (rfc3339 t))), s1))"

section \<open>The process behind a socket\<close>

text \<open>
  \<open>strconv.Atoi\<close>; and the loop over \<open>/proc\<close>: the entries with the links of their descriptors, \<open>None\<close> when the directory cannot be read.
\<close>

definition Atoi :: "string \<Rightarrow> int option" where
  "Atoi s = (case s of c # cs \<Rightarrow> if c = CHR ''+'' then (case cs of d # _ \<Rightarrow> if d = CHR ''-'' then None else ParseInt64 cs | [] \<Rightarrow> None) else ParseInt64 s | [] \<Rightarrow> None)"

definition socket_target :: "nat \<Rightarrow> string" where
  "socket_target ino = ''socket:['' @ show_nat ino @ '']''"

fun scan_proc :: "int \<Rightarrow> string \<Rightarrow> (string \<times> string list option) list \<Rightarrow> int" where
  "scan_proc myPID target [] = 0"
| "scan_proc myPID target ((name, fds) # procs) =
     (case Atoi name of
        None \<Rightarrow> scan_proc myPID target procs
      | Some pid \<Rightarrow>
          if pid = myPID then scan_proc myPID target procs
          else case fds of
                 None \<Rightarrow> scan_proc myPID target procs
               | Some links \<Rightarrow> if list_ex (\<lambda>link. contains link target) links then pid else scan_proc myPID target procs)"

text \<open>The output of \<open>lsof -F p\<close>, if it runs: the first line with the number of another process.\<close>

fun scan_lsof :: "int \<Rightarrow> string list \<Rightarrow> int" where
  "scan_lsof myPID [] = 0"
| "scan_lsof myPID (line # lines) =
     (if \<not> prefix ''p'' line then scan_lsof myPID lines
      else case Atoi (tl line) of
             None \<Rightarrow> scan_lsof myPID lines
           | Some pid \<Rightarrow> if pid = myPID then scan_lsof myPID lines else if pid > 0 then pid else scan_lsof myPID lines)"

definition findPIDByLsof :: "string option \<Rightarrow> int \<Rightarrow> int" where
  "findPIDByLsof out myPID = (case out of None \<Rightarrow> 0 | Some s \<Rightarrow> scan_lsof myPID (split_on (CHR 0x0A) s))"

text \<open>On Linux; without \<open>/proc\<close> the answer is that of \<open>lsof\<close>.\<close>

definition findPIDBySocket :: "path \<Rightarrow> (string \<times> string list option) list option \<Rightarrow> string option \<Rightarrow> int \<Rightarrow> vfs \<Rightarrow> int" where
  "findPIDBySocket socketPath procs lsof myPID w =
     (case file_at w socketPath of
        None \<Rightarrow> 0
      | Some n \<Rightarrow>
          if n_inode n = 0 then 0
          else case procs of None \<Rightarrow> findPIDByLsof lsof myPID | Some ps \<Rightarrow> scan_proc myPID (socket_target (n_inode n)) ps)"

text \<open>
  The process that is stopped is never the caller, and where \<open>/proc\<close> can be read it holds a descriptor of the socket.
\<close>

lemma scan_lsof_other: "scan_lsof myPID lines = 0 \<or> (scan_lsof myPID lines > 0 \<and> scan_lsof myPID lines \<noteq> myPID)"
  by (induction lines) (auto split: option.split)

lemma scan_proc_holds:
  "scan_proc myPID target ps \<noteq> 0 \<Longrightarrow>
   \<exists>name links. (name, Some links) \<in> set ps \<and> Atoi name = Some (scan_proc myPID target ps) \<and> list_ex (\<lambda>l. contains l target) links"
proof (induction ps)
  case (Cons p procs)
  obtain name fds where p: "p = (name, fds)" by fastforce
  show ?case
  proof (cases "scan_proc myPID target ((name, fds) # procs) = scan_proc myPID target procs")
    case True
    then show ?thesis using Cons p by (metis list.set_intros(2))
  next
    case False
    then obtain links where "fds = Some links" "Atoi name = Some (scan_proc myPID target ((name, fds) # procs))" "list_ex (\<lambda>l. contains l target) links"
      by (simp split: option.splits if_splits)
    then show ?thesis unfolding p by auto
  qed
qed simp

lemma scan_proc_other: "scan_proc myPID target ps = 0 \<or> scan_proc myPID target ps \<noteq> myPID"
  by (induction ps rule: scan_proc.induct) (auto split: option.splits)

theorem findPIDBySocket_sound:
  assumes "findPIDBySocket socketPath procs lsof myPID w = pid" "pid \<noteq> 0"
  shows "pid \<noteq> myPID \<and> (\<exists>n. file_at w socketPath = Some n \<and> (case procs of None \<Rightarrow> pid > 0 | Some ps \<Rightarrow>
    \<exists>name links. (name, Some links) \<in> set ps \<and> Atoi name = Some pid \<and> list_ex (\<lambda>l. contains l (socket_target (n_inode n))) links))"
proof -
  obtain n where n: "file_at w socketPath = Some n"
    "pid = (case procs of None \<Rightarrow> findPIDByLsof lsof myPID | Some ps \<Rightarrow> scan_proc myPID (socket_target (n_inode n)) ps)"
    using assms unfolding findPIDBySocket_def by (auto split: option.splits if_splits)
  show ?thesis
  proof (cases procs)
    case None
    then show ?thesis using n assms(2) scan_lsof_other by (auto simp: findPIDByLsof_def split: option.splits)
  next
    case (Some ps)
    then show ?thesis using n assms(2) scan_proc_other [of myPID "socket_target (n_inode n)" ps] scan_proc_holds [of myPID "socket_target (n_inode n)" ps] by simp
  qed
qed

section \<open>A second start\<close>

lemma serve_beside_live:
  assumes "gm_get (vf_dirs w) dir = Some dn" "n_kind dn \<noteq> Symlink"
    and "file_at w (Path dir ''sock'') = Some n" "st_alive St (n_inode n)"
  shows "serve_daemon St (NewServer now uid dir idle tick w) =
    (StartFailed (Err ''another daemon is already listening''), Shutdown (NewServer now uid dir idle tick w))"
proof -
  let ?s = "NewServer now uid dir idle tick w"
  have f: "sv_fs ?s = w" "sv_runtimeDir ?s = dir" "socket_path ?s = Path dir ''sock''" by (simp_all add: NewServer_def socket_path_def)
  have "os_Mkdir io dir w = (Some EEXIST, w)" for io using assms(1) by (simp add: os_Mkdir_def)
  then have "ListenAndServe_setup (st_alive St) (st_bindIO St) (st_sockIO St) (st_nonceIO St) (st_random St) (st_now St) ?s =
      (Some (Err ''another daemon is already listening''), ?s)"
    using assms by (simp add: ListenAndServe_setup_def f)
  then show ?thesis by (simp add: serve_daemon_def isAddrInUse_def)
qed

lemma Shutdown_unbound:
  "file_at (sv_fs (Shutdown (NewServer now uid dir idle tick w))) p =
     (if p = Path dir ''sock'' \<or> p = nonce_path dir then None else file_at w p)"
  by (auto simp: Shutdown_def NewServer_def transportCleanup_def socket_path_def nonce_path_def os_Remove_def set_files_def split: option.split)

lemma NewLogger_frame:
  assumes "NewLogger io dir verbose w = (Inr lg, w')" "gm_get (vf_dirs w) dir = Some dn"
  shows "vf_dirs w' = vf_dirs w" "p \<noteq> Path dir ''daemon.log'' \<Longrightarrow> file_at w' p = file_at w p"
  using assms by (auto simp: NewLogger_def os_Mkdir_def Let_def openLogFileNoFollow_def set_files_def map_node_def split: option.splits if_splits sum.splits)

lemma second_start_removes:
  assumes "gm_get (vf_dirs w) dir = Some dn" "n_kind dn \<noteq> Symlink"
    and "file_at w (Path dir ''sock'') = Some n" "st_alive St (n_inode n)"
    and "gm_get (vf_dirs w) (st_legacyDir St) = None" "fst (NewLogger (st_logIO St) dir verbose w) = Inr lg"
    and "runDaemonStart St dir verbose idle w = (r, w')"
  shows "r = StartFailed (Err ''another daemon is already listening'')" "file_at w' (Path dir ''sock'') = None" "file_at w' (nonce_path dir) = None"
proof -
  obtain w3 where l: "NewLogger (st_logIO St) dir verbose w = (Inr lg, w3)" using assms(6) by (metis prod.collapse)
  note frame = NewLogger_frame [OF l assms(1)]
  have mk: "os_Mkdir io dir w = (Some EEXIST, w)" for io using assms(1) by (simp add: os_Mkdir_def)
  have "MigrateTokensFromLegacyDir (st_resolves St) (st_migrateIO St) (st_uid St) (st_legacyDir St) dir w = w"
    using assms(5) by (simp add: MigrateTokensFromLegacyDir_def)
  moreover have d3: "gm_get (vf_dirs w3) dir = Some dn" "file_at w3 (Path dir ''sock'') = Some n" using frame assms(1,3) by simp_all
  ultimately have "(r, w') = (StartFailed (Err ''another daemon is already listening''), sv_fs (Shutdown (NewServer (st_now St) (st_uid St) dir idle 0 w3)))"
    using assms(1,2,7) serve_beside_live [OF d3(1) assms(2) d3(2) assms(4)] by (simp add: runDaemonStart_def mk l)
  then show "r = StartFailed (Err ''another daemon is already listening'')" "file_at w' (Path dir ''sock'') = None" "file_at w' (nonce_path dir) = None"
    by (simp_all add: Shutdown_unbound)
qed

text \<open>
  C39: a second \<open>daemon start\<close> unplugs the running daemon.  Run beside a live daemon, the command finds it by its probe; that report is not the
  bind error the command exits on, so it shuts its own server down, and the shutdown, with no inode of a socket of its own, removes the socket of the
  live daemon and its nonce file.  Afterwards a shim reads an empty nonce, and the live daemon rejects
  every request that carries it.
\<close>

theorem second_start_unplugs:
  assumes "gm_get (vf_dirs w) dir = Some dn" and "n_kind dn \<noteq> Symlink"
    and "file_at w (Path dir ''sock'') = Some n" and "st_alive St (n_inode n)"
    and "gm_get (vf_dirs w) (st_legacyDir St) = None" and "fst (NewLogger (st_logIO St) dir verbose w) = Inr lg"
    and "runDaemonStart St dir verbose idle w = (r, w')"
    and "sv_nonce live \<noteq> []" and "decode_request input = Inr (req, rest)" and "rq_Nonce req = readDaemonNonce io dir w'"
  shows "r = StartFailed (Err ''another daemon is already listening'') \<and> file_at w' (Path dir ''sock'') = None \<and> file_at w' (nonce_path dir) = None \<and>
    snd (handleConnection E cred input live) = live"
proof -
  note gone = second_start_removes [OF assms(1-7)]
  have "rq_Nonce req \<noteq> sv_nonce live" using assms(8,10) gone(3) by (simp add: readDaemonNonce_def)
  moreover obtain q s' where q: "handleConnection E cred input live = (q, s')" by fastforce
  ultimately have "s' = live" using decoded_guard [OF q] assms(9) by simp
  then show ?thesis using gone q by simp
qed

theorem second_start_unplugs_witness:
  "let w = one_dir\<lparr>vf_files := [(Path ''/d'' ''sock'', (new_node (no_faults ''1'') perm600 [])\<lparr>n_kind := Socket\<rparr>), (nonce_path ''/d'', new_node (no_faults ''1'') perm600 ''bb'')]\<rparr>;
       io = no_faults ''1'';
       St = \<lparr>st_alive = (\<lambda>i. i = 7), st_dirIO = io, st_migrateIO = (\<lambda>_. io), st_resolves = (\<lambda>_. False), st_legacyDir = ''/old'', st_logIO = io,
             st_bindIO = io, st_sockIO = io, st_nonceIO = io, st_random = Inr ''x'', st_uid = 1000, st_now = 5\<rparr>;
       (r, w') = runDaemonStart St ''/d'' False 0 w; live = demo_server\<lparr>sv_nonce := ''bb''\<rparr>
   in file_at w (Path ''/d'' ''sock'') \<noteq> None \<and> file_at w' (Path ''/d'' ''sock'') = None \<and>
      snd (handleConnection (demo_senv 9) (Inr 1000) (encode_request demo_health) live) = live"
proof -
  let ?n = "(new_node (no_faults ''1'') perm600 [])\<lparr>n_kind := Socket\<rparr>" and ?io = "no_faults ''1''"
  let ?w = "one_dir\<lparr>vf_files := [(Path ''/d'' ''sock'', ?n), (nonce_path ''/d'', new_node ?io perm600 ''bb'')]\<rparr>"
  let ?St = "\<lparr>st_alive = (\<lambda>i. i = 7), st_dirIO = ?io, st_migrateIO = (\<lambda>_. ?io), st_resolves = (\<lambda>_. False), st_legacyDir = ''/old'', st_logIO = ?io,
             st_bindIO = ?io, st_sockIO = ?io, st_nonceIO = ?io, st_random = Inr ''x'', st_uid = 1000, st_now = 5\<rparr>"
  let ?live = "demo_server\<lparr>sv_nonce := ''bb''\<rparr>"
  obtain r w' where run: "runDaemonStart ?St ''/d'' False 0 ?w = (r, w')" by fastforce
  obtain dn where d: "gm_get (vf_dirs ?w) ''/d'' = Some dn" "n_kind dn \<noteq> Symlink" by (auto simp: one_dir_def)
  have f: "file_at ?w (Path ''/d'' ''sock'') = Some ?n" "st_alive ?St (n_inode ?n)" "gm_get (vf_dirs ?w) (st_legacyDir ?St) = None"
    by (simp_all add: one_dir_def new_node_def no_faults_def)
  have l: "\<exists>lg. fst (NewLogger (st_logIO ?St) ''/d'' False ?w) = Inr lg"
    using d by (simp add: NewLogger_def os_Mkdir_def openLogFileNoFollow_def nonce_path_def no_faults_def Let_def)
  then obtain lg where l: "fst (NewLogger (st_logIO ?St) ''/d'' False ?w) = Inr lg" by blast
  have "rq_Nonce demo_health = []" by (simp add: demo_health_def zero_request_def)
  moreover have "sv_nonce ?live \<noteq> []" by simp
  ultimately have "rq_Nonce demo_health = readDaemonNonce ?io ''/d'' w' \<Longrightarrow> ?thesis"
    using second_start_unplugs [OF d f l run _ demo_health_decode, of ?live ?io] f(1) run by (simp add: Let_def)
  moreover have "readDaemonNonce ?io ''/d'' w' = []" using second_start_removes(3) [OF d f l run] by (simp add: readDaemonNonce_def)
  ultimately show ?thesis using \<open>rq_Nonce demo_health = []\<close> by simp
qed

end
