(* ===== verification/OidcClient.thy ===== *)
theory OidcClient
  imports Cli
begin

text \<open>
  The OIDC client of the foreground login (\<open>pkg/oidc/client\<close>, \<open>pkg/oidc\<close>, \<open>pkg/pkce\<close>, \<open>pkg/tlsclientconfig/loader\<close>): its factory,
  the requests of each flow and the verification of what comes back.  The libraries below it (\<open>go-oidc\<close>, \<open>oauth2\<close>, \<open>oauth2cli\<close>,
  \<open>oauth2dev\<close>), the network and the parsing of certificates and URLs are parameters, collected in the record
  \<open>oidc_net\<close>; what a theorem relies on of them is a named hypothesis.
\<close>

section \<open>State, nonce and PKCE\<close>

text \<open>\<open>random\<close> is one read of 32 bytes from the system's generator.\<close>

definition random32 :: "go_error + string \<Rightarrow> go_error + string" where
  "random32 random = (case random of Inl e \<Rightarrow> Inl (Wrap ''read error'' e) | Inr b \<Rightarrow> Inr b)"

definition NewState :: "go_error + string \<Rightarrow> go_error + string" where
  "NewState random = (case random32 random of Inl e \<Rightarrow> Inl (Wrap ''could not generate a random'' e) | Inr b \<Rightarrow> Inr (base64URLEncode b))"

definition NewNonce :: "go_error + string \<Rightarrow> go_error + string" where
  "NewNonce random = (case random32 random of Inl e \<Rightarrow> Inl (Wrap ''could not generate a random'' e) | Inr b \<Rightarrow> Inr (base64URLEncode b))"

datatype pkce_Method = NoMethod | MethodS256

record pkce_Params =
  pk_Method :: pkce_Method
  pk_Verifier :: string

text \<open>The options of an authorization or token request, as their libraries name them.\<close>

datatype AuthCodeOption =
    AccessTypeOffline
  | Nonce string
  | S256ChallengeOption string
  | VerifierOption string
  | SetAuthURLParam string string

definition pkce_New :: "string \<Rightarrow> pkce_Method \<Rightarrow> pkce_Params" where
  "pkce_New generated method =
     (if method = MethodS256 then \<lparr>pk_Method = MethodS256, pk_Verifier = generated\<rparr> else \<lparr>pk_Method = NoMethod, pk_Verifier = []\<rparr>)"

definition pkce_AuthCodeOption :: "pkce_Params \<Rightarrow> AuthCodeOption option" where
  "pkce_AuthCodeOption params = (if pk_Method params = MethodS256 then Some (S256ChallengeOption (pk_Verifier params)) else None)"

definition pkce_TokenRequestOption :: "pkce_Params \<Rightarrow> AuthCodeOption option" where
  "pkce_TokenRequestOption params = (if pk_Method params = MethodS256 then Some (VerifierOption (pk_Verifier params)) else None)"

definition determinePKCEMethod :: "string list \<Rightarrow> PKCEMethod \<Rightarrow> pkce_Method" where
  "determinePKCEMethod supportedMethods preferredMethod =
     (case preferredMethod of
        PKCEMethodNo \<Rightarrow> NoMethod
      | PKCEMethodS256 \<Rightarrow> MethodS256
      | PKCEMethodAuto \<Rightarrow> if ''S256'' \<in> set supportedMethods then MethodS256 else NoMethod)"

section \<open>TLS settings\<close>

definition addFile :: "(string \<Rightarrow> os_error + string) \<Rightarrow> (string \<Rightarrow> bool) \<Rightarrow> string list \<Rightarrow> string \<Rightarrow> go_error + string list" where
  "addFile readFile hasCerts pool filename =
     (case readFile filename of
        Inl e \<Rightarrow> Inl (Wrap ''could not read'' (OsErr e))
      | Inr b \<Rightarrow> if \<not> hasCerts b then Inl (Err ''invalid certificate'') else Inr (pool @ [b]))"

definition addBase64Encoded :: "(string \<Rightarrow> bool) \<Rightarrow> string list \<Rightarrow> string \<Rightarrow> go_error + string list" where
  "addBase64Encoded hasCerts pool s =
     (case std_decode s of
        None \<Rightarrow> Inl (Wrap ''could not decode base64'' (Err ''illegal base64 data''))
      | Some b \<Rightarrow> if \<not> hasCerts b then Inl (Err ''invalid certificate'') else Inr (pool @ [b]))"

fun load_files :: "(string \<Rightarrow> os_error + string) \<Rightarrow> (string \<Rightarrow> bool) \<Rightarrow> string list \<Rightarrow> string list \<Rightarrow> go_error + string list" where
  "load_files readFile hasCerts [] pool = Inr pool"
| "load_files readFile hasCerts (f # fs) pool =
     (case addFile readFile hasCerts pool f of
        Inl e \<Rightarrow> Inl (Wrap (''could not load the certificate from '' @ f) e)
      | Inr pool' \<Rightarrow> load_files readFile hasCerts fs pool')"

fun load_data :: "(string \<Rightarrow> bool) \<Rightarrow> string list \<Rightarrow> string list \<Rightarrow> go_error + string list" where
  "load_data hasCerts [] pool = Inr pool"
| "load_data hasCerts (d # ds) pool =
     (case addBase64Encoded hasCerts pool d of
        Inl e \<Rightarrow> Inl (Wrap ''could not load the certificate'' e)
      | Inr pool' \<Rightarrow> load_data hasCerts ds pool')"

text \<open>A pool is the list of PEM texts appended to it: it equals the new pool when nothing was.\<close>

definition Loader_Load :: "(string \<Rightarrow> os_error + string) \<Rightarrow> (string \<Rightarrow> bool) \<Rightarrow> TLSClientConfig \<Rightarrow> go_error + tls_Config" where
  "Loader_Load readFile hasCerts cfg =
     (case load_files readFile hasCerts (tls_CACertFilename cfg) [] of
        Inl e \<Rightarrow> Inl e
      | Inr pool \<Rightarrow>
          (case load_data hasCerts (tls_CACertData cfg) pool of
             Inl e \<Rightarrow> Inl e
           | Inr rootCAs \<Rightarrow>
               Inr \<lparr>tc_InsecureSkipVerify = tls_SkipTLSVerify cfg, tc_Renegotiation = tls_Renegotiation cfg,
                    tc_RootCAs = (if rootCAs = [] then None else Some rootCAs)\<rparr>))"

section \<open>The libraries\<close>

datatype AuthStyle = AuthStyleAutoDetect | AuthStyleInParams | AuthStyleInHeader

record oauth2_Endpoint =
  ep_AuthURL :: string
  ep_DeviceAuthURL :: string
  ep_TokenURL :: string
  ep_AuthStyle :: AuthStyle

record login_Config =
  lc_Endpoint :: oauth2_Endpoint
  lc_ClientID :: string
  lc_ClientSecret :: string
  lc_RedirectURL :: string
  lc_Scopes :: "string list"

text \<open>A token response: the fields of \<open>oauth2.Token\<close> and, for \<open>Extra\<close>, the members of the JSON body.\<close>

record login_Token =
  lt_AccessToken :: string
  lt_RefreshToken :: string
  lt_Expiry :: gotime
  lt_Extra :: "(string, json) gomap"

text \<open>The discovered provider: its endpoints and the discovery document.\<close>

record gooidc_Provider =
  gp_Endpoint :: oauth2_Endpoint
  gp_Document :: json

record AuthorizationResponse =
  ar_DeviceCode :: string
  ar_UserCode :: string
  ar_VerificationURIComplete :: string
  ar_VerificationURI :: string
  ar_VerificationURL :: string

datatype success_page = SuccessPage | RedirectPage string

record oauth2cli_Config =
  oa_OAuth2Config :: login_Config
  oa_State :: string
  oa_AuthCodeOptions :: "AuthCodeOption list"
  oa_TokenRequestOptions :: "AuthCodeOption list"
  oa_LocalServerBindAddress :: "string list"
  oa_LocalServerSuccessHTML :: success_page
  oa_LocalServerCallbackPath :: string
  oa_LocalServerCertFile :: string
  oa_LocalServerKeyFile :: string

text \<open>
  What the outside answers during one login.  The verifier gets the expected client, or none when that check is skipped, and
  answers with the nonce claim of the token.  \<open>on_random\<close> numbers the reads of random bytes.  A parsed URL is its path and its
  text.  The last three fields are the browser and the waiting for the local server.
\<close>

datatype ready_event = ReadyURL string | ReadyClosed | ReadyCancelled go_error

record oidc_net =
  on_readFile :: "string \<Rightarrow> os_error + string"
  on_hasCerts :: "string \<Rightarrow> bool"
  on_NewProvider :: "http_Client \<Rightarrow> string \<Rightarrow> go_error + gooidc_Provider"
  on_Verify :: "http_Client \<Rightarrow> gooidc_Provider \<Rightarrow> string option \<Rightarrow> string \<Rightarrow> go_error + string"
  on_TokenSource :: "http_Client \<Rightarrow> login_Config \<Rightarrow> string \<Rightarrow> go_error + login_Token"
  on_Exchange :: "http_Client \<Rightarrow> login_Config \<Rightarrow> string \<Rightarrow> AuthCodeOption list \<Rightarrow> go_error + login_Token"
  on_Password :: "http_Client \<Rightarrow> login_Config \<Rightarrow> string \<Rightarrow> string \<Rightarrow> go_error + login_Token"
  on_ClientCredentials :: "http_Client \<Rightarrow> login_Config \<Rightarrow> (string, string list) gomap \<Rightarrow> go_error + login_Token"
  on_AuthCodeURL :: "login_Config \<Rightarrow> string \<Rightarrow> AuthCodeOption list \<Rightarrow> string \<Rightarrow> string option"
  on_GetToken :: "http_Client \<Rightarrow> oauth2cli_Config \<Rightarrow> go_error + login_Token"
  on_RetrieveCode :: "http_Client \<Rightarrow> login_Config \<Rightarrow> go_error + AuthorizationResponse"
  on_PollToken :: "http_Client \<Rightarrow> login_Config \<Rightarrow> AuthorizationResponse \<Rightarrow> go_error + login_Token"
  on_urlParse :: "string \<Rightarrow> go_error + (string \<times> string)"
  on_formatTime :: "gotime \<Rightarrow> string"
  on_random :: "nat \<Rightarrow> go_error + string"
  on_GenerateVerifier :: string
  on_Open :: "string \<Rightarrow> go_error option"
  on_OpenCommand :: "string \<Rightarrow> string \<Rightarrow> go_error option"
  on_ready :: ready_event
  on_readyFirst :: bool

section \<open>The factory\<close>

record oidc_client =
  oc_httpClient :: http_Client
  oc_provider :: gooidc_Provider
  oc_oauth2Config :: login_Config
  oc_negotiatedPKCEMethod :: pkce_Method
  oc_useAccessToken :: bool

definition pkce_member :: "string \<times> json \<Rightarrow> bool \<times> string list \<Rightarrow> bool \<times> string list" where
  "pkce_member m st =
     (case select_field [''code_challenge_methods_supported''] (fst m) of
        None \<Rightarrow> st
      | Some f \<Rightarrow> (let (b, v) = store_strings (snd m) (snd st) in (fst st \<or> b, v)))"

text \<open>\<open>provider.Claims\<close> decodes the discovery document, which \<open>NewProvider\<close> has read as JSON.\<close>

definition extractSupportedPKCEMethods :: "gooidc_Provider \<Rightarrow> go_error + string list" where
  "extractSupportedPKCEMethods provider =
     (case gp_Document provider of
        JObj ms \<Rightarrow>
          (case fold pkce_member ms (False, []) of
             (bad, methods) \<Rightarrow> if bad then Inl (Wrap ''invalid discovery document'' (Err ''json: cannot unmarshal'')) else Inr methods)
      | JNull \<Rightarrow> Inr []
      | _ \<Rightarrow> Inl (Wrap ''invalid discovery document'' (Err ''json: cannot unmarshal'')))"

definition Factory_New :: "oidc_net \<Rightarrow> Provider \<Rightarrow> TLSClientConfig \<Rightarrow> go_error + oidc_client" where
  "Factory_New N prov tlsClientConfig =
     (case Loader_Load (on_readFile N) (on_hasCerts N) tlsClientConfig of
        Inl e \<Rightarrow> Inl (Wrap ''could not load the TLS client config'' e)
      | Inr raw \<Rightarrow>
          let http = \<lparr>hc_TLS = Some raw, hc_Headers = pv_RequestHeaders prov\<rparr> in
          (case on_NewProvider N http (pv_IssuerURL prov) of
             Inl e \<Rightarrow> Inl (Wrap ''oidc discovery error'' e)
           | Inr provider \<Rightarrow>
               (case extractSupportedPKCEMethods provider of
                  Inl e \<Rightarrow> Inl (Wrap ''could not determine supported PKCE methods'' e)
                | Inr supported \<Rightarrow>
                    let endpoint = (if pv_ClientSecret prov = [] then (gp_Endpoint provider)\<lparr>ep_AuthStyle := AuthStyleInParams\<rparr>
                                    else gp_Endpoint provider)
                    in Inr \<lparr>oc_httpClient = http, oc_provider = provider,
                            oc_oauth2Config = \<lparr>lc_Endpoint = endpoint, lc_ClientID = pv_ClientID prov, lc_ClientSecret = pv_ClientSecret prov,
                              lc_RedirectURL = pv_RedirectURL prov, lc_Scopes = pv_ExtraScopes prov @ [''openid'']\<rparr>,
                            oc_negotiatedPKCEMethod = determinePKCEMethod supported (pv_PKCEMethod prov),
                            oc_useAccessToken = pv_UseAccessToken prov\<rparr>)))"

section \<open>Verification\<close>

definition extra_string :: "login_Token \<Rightarrow> string \<Rightarrow> string option" where
  "extra_string token key = (case gm_get (lt_Extra token) key of Some (JStr s) \<Rightarrow> Some s | _ \<Rightarrow> None)"

definition show_bool :: "bool \<Rightarrow> string" where
  "show_bool b = (if b then ''true'' else ''false'')"

definition verifyToken :: "oidc_net \<Rightarrow> oidc_client \<Rightarrow> login_Token \<Rightarrow> string \<Rightarrow> go_error + TokenSet" where
  "verifyToken N c token nonce =
     (case extra_string token ''id_token'' of
        None \<Rightarrow> Inl (Err (''id_token is missing in the token response (access_token present: '' @ show_bool (lt_AccessToken token \<noteq> []) @
                  '', refresh_token present: '' @ show_bool (lt_RefreshToken token \<noteq> []) @ '', expiry: '' @
                  on_formatTime N (lt_Expiry token) @ '')''))
      | Some idToken \<Rightarrow>
          (case on_Verify N (oc_httpClient c) (oc_provider c) (Some (lc_ClientID (oc_oauth2Config c))) idToken of
             Inl e \<Rightarrow> Inl (Wrap ''could not verify the ID token'' e)
           | Inr verifiedNonce \<Rightarrow>
               if nonce \<noteq> [] \<and> nonce \<noteq> verifiedNonce
               then Inl (Err ''nonce did not match (expected and actual values differ)'')
               else if oc_useAccessToken c
               then (case extra_string token ''access_token'' of
                       None \<Rightarrow> Inl (Err ''access_token is missing in the token response'')
                     | Some accessToken \<Rightarrow>
                         (case on_Verify N (oc_httpClient c) (oc_provider c) None accessToken of
                            Inl e \<Rightarrow> Inl (Wrap ''could not verify the access token'' e)
                          | Inr _ \<Rightarrow> Inr \<lparr>ts_IDToken = accessToken, ts_RefreshToken = lt_RefreshToken token\<rparr>))
               else Inr \<lparr>ts_IDToken = idToken, ts_RefreshToken = lt_RefreshToken token\<rparr>))"

section \<open>Requests of the flows\<close>

definition authorizationRequestOptions :: "string \<Rightarrow> pkce_Params \<Rightarrow> (string, string) gomap \<Rightarrow> AuthCodeOption list" where
  "authorizationRequestOptions nonce pkceParams extraParams =
     [AccessTypeOffline, Nonce nonce]
     @ (case pkce_AuthCodeOption pkceParams of None \<Rightarrow> [] | Some pkceOpt \<Rightarrow> [pkceOpt])
     @ map (\<lambda>(key, value). SetAuthURLParam key value) extraParams"

definition tokenRequestOptions :: "pkce_Params \<Rightarrow> AuthCodeOption list" where
  "tokenRequestOptions pkceParams = (case pkce_TokenRequestOption pkceParams of None \<Rightarrow> [] | Some pkceOpt \<Rightarrow> [pkceOpt])"

record GetTokenByAuthCodeInput =
  gi_BindAddress :: "string list"
  gi_State :: string
  gi_Nonce :: string
  gi_PKCEParams :: pkce_Params
  gi_AuthRequestExtraParams :: "(string, string) gomap"
  gi_LocalServerSuccessHTML :: success_page
  gi_LocalServerCertFile :: string
  gi_LocalServerKeyFile :: string

definition GetTokenByAuthCode :: "oidc_net \<Rightarrow> oidc_client \<Rightarrow> GetTokenByAuthCodeInput \<Rightarrow> go_error + TokenSet" where
  "GetTokenByAuthCode N c inp =
     (case on_urlParse N (lc_RedirectURL (oc_oauth2Config c)) of
        Inl e \<Rightarrow> Inl (Wrap ''invalid redirect url'' e)
      | Inr (path, _) \<Rightarrow>
          let config = \<lparr>oa_OAuth2Config = oc_oauth2Config c, oa_State = gi_State inp,
                oa_AuthCodeOptions = authorizationRequestOptions (gi_Nonce inp) (gi_PKCEParams inp) (gi_AuthRequestExtraParams inp),
                oa_TokenRequestOptions = tokenRequestOptions (gi_PKCEParams inp),
                oa_LocalServerBindAddress = gi_BindAddress inp, oa_LocalServerSuccessHTML = gi_LocalServerSuccessHTML inp,
                oa_LocalServerCallbackPath = path, oa_LocalServerCertFile = gi_LocalServerCertFile inp,
                oa_LocalServerKeyFile = gi_LocalServerKeyFile inp\<rparr>
          in (case on_GetToken N (oc_httpClient c) config of
                Inl e \<Rightarrow> Inl (Wrap ''oauth2 error'' e)
              | Inr token \<Rightarrow> verifyToken N c token (gi_Nonce inp)))"

definition GetAuthCodeURL :: "oidc_net \<Rightarrow> oidc_client \<Rightarrow> string \<Rightarrow> string \<Rightarrow> pkce_Params \<Rightarrow> (string, string) gomap \<Rightarrow> string \<Rightarrow> string option" where
  "GetAuthCodeURL N c state nonce pkceParams extraParams =
     on_AuthCodeURL N (oc_oauth2Config c) state (authorizationRequestOptions nonce pkceParams extraParams)"

definition ExchangeAuthCode :: "oidc_net \<Rightarrow> oidc_client \<Rightarrow> string \<Rightarrow> pkce_Params \<Rightarrow> string \<Rightarrow> go_error + TokenSet" where
  "ExchangeAuthCode N c code pkceParams nonce =
     (case on_Exchange N (oc_httpClient c) (oc_oauth2Config c) code (tokenRequestOptions pkceParams) of
        Inl e \<Rightarrow> Inl (Wrap ''exchange error'' e)
      | Inr token \<Rightarrow> verifyToken N c token nonce)"

definition client_Refresh :: "oidc_net \<Rightarrow> oidc_client \<Rightarrow> string \<Rightarrow> go_error + TokenSet" where
  "client_Refresh N c refreshToken =
     (case on_TokenSource N (oc_httpClient c) (oc_oauth2Config c) refreshToken of
        Inl e \<Rightarrow> Inl (Wrap ''could not refresh the token'' e)
      | Inr token \<Rightarrow> verifyToken N c token [])"

definition GetTokenByROPC :: "oidc_net \<Rightarrow> oidc_client \<Rightarrow> string \<Rightarrow> string \<Rightarrow> go_error + TokenSet" where
  "GetTokenByROPC N c username password =
     (case on_Password N (oc_httpClient c) (oc_oauth2Config c) username password of
        Inl e \<Rightarrow> Inl (Wrap ''resource owner password credentials flow error'' e)
      | Inr token \<Rightarrow> verifyToken N c token [])"

definition GetTokenByClientCredentials :: "oidc_net \<Rightarrow> oidc_client \<Rightarrow> (string, string list) gomap \<Rightarrow> go_error + TokenSet" where
  "GetTokenByClientCredentials N c endpointParams =
     (let cfg = oc_oauth2Config c;
          config = \<lparr>lc_Endpoint = \<lparr>ep_AuthURL = [], ep_DeviceAuthURL = [], ep_TokenURL = ep_TokenURL (lc_Endpoint cfg), ep_AuthStyle = AuthStyleInHeader\<rparr>,
            lc_ClientID = lc_ClientID cfg, lc_ClientSecret = lc_ClientSecret cfg, lc_RedirectURL = [], lc_Scopes = lc_Scopes cfg\<rparr>
      in case on_ClientCredentials N (oc_httpClient c) config endpointParams of
           Inl e \<Rightarrow> Inl (Wrap ''could not acquire token'' e)
         | Inr token \<Rightarrow>
             if oc_useAccessToken c then Inr \<lparr>ts_IDToken = lt_AccessToken token, ts_RefreshToken = lt_RefreshToken token\<rparr>
             else verifyToken N c token [])"

text \<open>The endpoint of the device request holds the device URL where the authorization URL stands.\<close>

definition GetDeviceAuthorization :: "oidc_net \<Rightarrow> oidc_client \<Rightarrow> go_error + AuthorizationResponse" where
  "GetDeviceAuthorization N c =
     on_RetrieveCode N (oc_httpClient c) ((oc_oauth2Config c)\<lparr>lc_Endpoint :=
       \<lparr>ep_AuthURL = ep_DeviceAuthURL (gp_Endpoint (oc_provider c)), ep_DeviceAuthURL = [], ep_TokenURL = [], ep_AuthStyle = AuthStyleAutoDetect\<rparr>\<rparr>)"

definition ExchangeDeviceCode :: "oidc_net \<Rightarrow> oidc_client \<Rightarrow> AuthorizationResponse \<Rightarrow> go_error + TokenSet" where
  "ExchangeDeviceCode N c authResponse =
     (case on_PollToken N (oc_httpClient c) (oc_oauth2Config c) authResponse of
        Inl e \<Rightarrow> Inl (Wrap ''device-code: exchange failed'' e)
      | Inr token \<Rightarrow> verifyToken N c token [])"

end
