(* ===== verification/LoginFlows.thy ===== *)
theory LoginFlows
  imports OidcClient
begin

text \<open>
  The two flows of the foreground login (\<open>pkg/usecases/authentication\<close>) over the OIDC client, the transport that adds headers, and
  the login as a whole: what is handed to the daemon was verified, the parameters and headers a kubeconfig adds
  cannot replace those of the protocol that are on the block lists, and login and refresh trust the same certificates.
\<close>

section \<open>The browser\<close>

datatype ui_action =
    PrintVisit string
  | PrintCode string
  | OpenDefault string
  | OpenWith string string
  | PrintManual go_error string

definition failure_note :: "go_error option \<Rightarrow> string \<Rightarrow> ui_action list" where
  "failure_note r url = (case r of None \<Rightarrow> [] | Some e \<Rightarrow> [PrintManual e url])"

definition browser_openURL :: "oidc_net \<Rightarrow> BrowserOption \<Rightarrow> string \<Rightarrow> ui_action list" where
  "browser_openURL N o' url =
     (if bo_SkipOpenBrowser o' then [PrintVisit url]
      else if bo_BrowserCommand o' \<noteq> [] then OpenWith (bo_BrowserCommand o') url # failure_note (on_OpenCommand N url (bo_BrowserCommand o')) url
      else OpenDefault url # failure_note (on_Open N url) url)"

definition device_openURL :: "oidc_net \<Rightarrow> DeviceOption option \<Rightarrow> string \<Rightarrow> ui_action list" where
  "device_openURL N o' url =
     (case o' of
        None \<Rightarrow> OpenDefault url # failure_note (on_Open N url) url
      | Some d \<Rightarrow>
          if do_SkipOpenBrowser d then [PrintVisit url]
          else if do_BrowserCommand d \<noteq> [] then OpenWith (do_BrowserCommand d) url # failure_note (on_OpenCommand N url (do_BrowserCommand d)) url
          else OpenDefault url # failure_note (on_Open N url) url)"

section \<open>The device code flow\<close>

definition DeviceCode_Do :: "oidc_net \<Rightarrow> DeviceOption option \<Rightarrow> oidc_client \<Rightarrow> ui_action list \<times> (go_error + TokenSet)" where
  "DeviceCode_Do N inp c =
     (case GetDeviceAuthorization N c of
        Inl e \<Rightarrow> ([], Inl (Wrap ''authorization error'' e))
      | Inr r \<Rightarrow>
          let finish = (\<lambda>ui. (ui, case ExchangeDeviceCode N c r of
                                    Inl e \<Rightarrow> Inl (Wrap ''unable to exchange device code'' e)
                                  | Inr tokenSet \<Rightarrow> Inr tokenSet))
          in if ar_VerificationURIComplete r \<noteq> [] then finish (device_openURL N inp (ar_VerificationURIComplete r))
             else if ar_VerificationURI r \<noteq> [] then finish (PrintCode (ar_UserCode r) # device_openURL N inp (ar_VerificationURI r))
             else if ar_VerificationURL r \<noteq> [] then finish (PrintCode (ar_UserCode r) # device_openURL N inp (ar_VerificationURL r))
             else ([], Inl (Err ''no verification URI in the authorization response'')))"

section \<open>The authorization code flow\<close>

abbreviation quote :: string where "quote \<equiv> [CHR 0x22]"
abbreviation newline :: string where "newline \<equiv> [CHR 0x0A]"
abbreviation tab :: string where "tab \<equiv> [CHR 0x09]"

definition BrowserRedirectHTML :: "oidc_net \<Rightarrow> string \<Rightarrow> string" where
  "BrowserRedirectHTML N target =
     (case on_urlParse N target of
        Inl e \<Rightarrow> ''invalid URL is set: '' @ Error e
      | Inr (_, targetURL) \<Rightarrow>
          newline @ ''<!DOCTYPE html>'' @ newline @ ''<html lang='' @ quote @ ''en'' @ quote @ ''>'' @ newline @ ''<head>'' @ newline @
          tab @ ''<meta http-equiv='' @ quote @ ''refresh'' @ quote @ '' content='' @ quote @ ''0;URL='' @ targetURL @ quote @ ''>'' @ newline @
          tab @ ''<meta charset='' @ quote @ ''UTF-8'' @ quote @ ''>'' @ newline @ tab @ ''<title>Authenticated</title>'' @ newline @
          ''</head>'' @ newline @ ''<body>'' @ newline @
          tab @ ''<a href='' @ quote @ targetURL @ quote @ ''>redirecting...</a>'' @ newline @
          ''</body>'' @ newline @ ''</html>'' @ newline)"

definition auth_code_input :: "oidc_net \<Rightarrow> BrowserOption \<Rightarrow> string \<Rightarrow> string \<Rightarrow> pkce_Params \<Rightarrow> GetTokenByAuthCodeInput" where
  "auth_code_input N o' state nonce pkceParams =
     \<lparr>gi_BindAddress = bo_BindAddress o', gi_State = state, gi_Nonce = nonce, gi_PKCEParams = pkceParams,
      gi_AuthRequestExtraParams = bo_AuthRequestExtraParams o',
      gi_LocalServerSuccessHTML = (if bo_OpenURLAfterAuthentication o' \<noteq> []
         then RedirectPage (BrowserRedirectHTML N (bo_OpenURLAfterAuthentication o')) else SuccessPage),
      gi_LocalServerCertFile = bo_LocalServerCertFile o', gi_LocalServerKeyFile = bo_LocalServerKeyFile o'\<rparr>"

text \<open>
  The two goroutines of the flow: one waits for the local server's URL and opens it, the other runs the exchange.  The error
  group returns the error that came first, which \<open>on_readyFirst\<close> decides when both fail.
\<close>

definition wait_group :: "bool \<Rightarrow> go_error option \<Rightarrow> go_error option \<Rightarrow> go_error option" where
  "wait_group readyFirst e1 e2 =
     (case (e1, e2) of (None, _) \<Rightarrow> e2 | (_, None) \<Rightarrow> e1 | (Some a, Some b) \<Rightarrow> if readyFirst then Some a else Some b)"

definition Browser_Do :: "oidc_net \<Rightarrow> BrowserOption \<Rightarrow> oidc_client \<Rightarrow> ui_action list \<times> (go_error + TokenSet)" where
  "Browser_Do N o' c =
     (case NewState (on_random N 0) of
        Inl e \<Rightarrow> ([], Inl (Wrap ''could not generate a state'' e))
      | Inr state \<Rightarrow>
          (case NewNonce (on_random N 1) of
             Inl e \<Rightarrow> ([], Inl (Wrap ''could not generate a nonce'' e))
           | Inr nonce \<Rightarrow>
               let pkceParams = pkce_New (on_GenerateVerifier N) (oc_negotiatedPKCEMethod c);
                   inp = auth_code_input N o' state nonce pkceParams;
                   out = GetTokenByAuthCode N c inp;
                   waited = (case on_ready N of
                               ReadyCancelled e \<Rightarrow> Some (Wrap ''context cancelled while waiting for the local server'' e)
                             | _ \<Rightarrow> None);
                   exchanged = (case out of Inl e \<Rightarrow> Some (Wrap ''authorization code flow error'' e) | Inr _ \<Rightarrow> None)
               in (case on_ready N of ReadyURL url \<Rightarrow> browser_openURL N o' url | _ \<Rightarrow> [],
                   case wait_group (on_readyFirst N) waited exchanged of
                     Some e \<Rightarrow> Inl (Wrap ''authentication error'' e)
                   | None \<Rightarrow> out)))"

definition oidc_flows :: "oidc_net \<Rightarrow> (oidc_client, TokenSet) auth_flows" where
  "oidc_flows N = \<lparr>af_New = Factory_New N, af_DeviceCode = (\<lambda>o' c. snd (DeviceCode_Do N (Some o') c)),
     af_AuthCode = (\<lambda>o' c. snd (Browser_Do N o' c))\<rparr>"

section \<open>The transport\<close>

text \<open>\<open>http.CanonicalHeaderKey\<close>\<close>

definition header_byte :: "char \<Rightarrow> bool" where
  "header_byte c \<longleftrightarrow> byte_in 48 57 c \<or> byte_in 65 90 c \<or> byte_in 97 122 c \<or> byte_of c \<in> {33, 35, 36, 37, 38, 39, 42, 43, 45, 46, 94, 95, 96, 124, 126}"

definition upper_char :: "char \<Rightarrow> char" where
  "upper_char c = (if byte_in 97 122 c then char_of (byte_of c - 32) else c)"

fun canonical_from :: "bool \<Rightarrow> string \<Rightarrow> string" where
  "canonical_from upper [] = []"
| "canonical_from upper (c # cs) = (let d = (if upper then upper_char c else lower_char c) in d # canonical_from (d = CHR ''-'') cs)"

definition CanonicalHeaderKey :: "string \<Rightarrow> string" where
  "CanonicalHeaderKey s = (if list_all header_byte s then canonical_from True s else s)"

definition WithHeader_RoundTrip :: "(string, string) gomap \<Rightarrow> (string, string list) gomap \<Rightarrow> (string, string list) gomap" where
  "WithHeader_RoundTrip requestHeaders header =
     fold (\<lambda>(key, value) h. gm_put (CanonicalHeaderKey key) [value] h) requestHeaders header"

section \<open>Protected headers\<close>

lemma lower_upper: "lower_char (upper_char c) = lower_char c"
proof (cases "byte_in 97 122 c")
  case True
  then have b: "97 \<le> byte_of c" "byte_of c \<le> 122" by (auto simp: byte_in_def)
  then have "byte_of (char_of (byte_of c - 32) :: char) = byte_of c - 32" by simp
  moreover have "65 \<le> byte_of c - 32" "byte_of c - 32 \<le> 90" "byte_of c - 32 + 32 = byte_of c" using b by auto
  ultimately have "lower_char (char_of (byte_of c - 32)) = c" by (simp only: lower_char_def) simp
  moreover have "lower_char c = c" using b by (simp add: lower_char_def)
  ultimately show ?thesis using True by (simp add: upper_char_def)
qed (simp add: upper_char_def)

lemma lower_lower: "lower_char (lower_char c) = lower_char c"
  by (auto simp: lower_char_def byte_of_def)

lemma lower_canonical: "map lower_char (canonical_from u s) = map lower_char s"
  by (induction u s rule: canonical_from.induct) (auto simp: Let_def lower_upper lower_lower)

lemma ToLower_ascii: "list_all (\<lambda>c. byte_of c < 128) s \<Longrightarrow> ToLower s = map lower_char s"
  by (induction s) (auto simp: byte_of_def prefix_def)

lemma header_byte_ascii: "header_byte c \<Longrightarrow> byte_of c < 128"
  by (auto simp: header_byte_def byte_in_def)

lemma canonical_lower:
  assumes "CanonicalHeaderKey k = h" "list_all header_byte h"
  shows "ToLower k = map lower_char h"
proof -
  have k: "list_all header_byte k" using assms by (auto simp: CanonicalHeaderKey_def split: if_splits)
  then have "ToLower k = map lower_char k" by (intro ToLower_ascii) (auto simp: list_all_iff header_byte_ascii)
  moreover have "canonical_from True k = h" using assms(1) k by (simp add: CanonicalHeaderKey_def)
  ultimately show ?thesis using lower_canonical [of True k] by simp
qed

lemma RoundTrip_untouched: "h \<notin> CanonicalHeaderKey ` fst ` set hs \<Longrightarrow> gm_get (WithHeader_RoundTrip hs req) h = gm_get req h"
  unfolding WithHeader_RoundTrip_def by (induction hs arbitrary: req) auto

lemma RoundTrip_sets: "k \<in> fst ` set hs \<Longrightarrow>
  \<exists>k' v. (k', v) \<in> set hs \<and> CanonicalHeaderKey k' = CanonicalHeaderKey k \<and> gm_get (WithHeader_RoundTrip hs req) (CanonicalHeaderKey k) = Some [v]"
proof (induction hs rule: rev_induct)
  case (snoc p hs)
  show ?case
  proof (cases "CanonicalHeaderKey (fst p) = CanonicalHeaderKey k")
    case True
    then show ?thesis by (intro exI [of _ "fst p"] exI [of _ "snd p"]) (cases p, simp add: WithHeader_RoundTrip_def)
  next
    case False
    then have "k \<in> fst ` set hs" using snoc.prems by auto
    from snoc.IH [OF this] obtain k' v where "(k', v) \<in> set hs" "CanonicalHeaderKey k' = CanonicalHeaderKey k"
      "gm_get (WithHeader_RoundTrip hs req) (CanonicalHeaderKey k) = Some [v]" by blast
    with False show ?thesis by (intro exI [of _ k'] exI [of _ v]) (cases p, simp add: WithHeader_RoundTrip_def)
  qed
qed simp

lemma fold_put_unless:
  "gm_wf m \<Longrightarrow> gm_wf (fold (\<lambda>(k, v) m. if P k then m else gm_put k v m) es m)"
  by (induction es arbitrary: m) (auto simp: gm.invar_put)

lemma in_filter_headers: "gm_wf hs \<Longrightarrow> (k, v) \<in> set (filterBlockedRequestHeaders hs) \<longleftrightarrow> (k, v) \<in> set hs \<and> \<not> isBlockedRequestHeader k"
proof -
  assume wf: "gm_wf hs"
  have "gm_wf (filterRequestHeaders hs)" using fold_put_unless [of "[]" isBlockedRequestHeader hs] by (simp add: filterRequestHeaders_def)
  then show ?thesis using filter_headers_get [OF wf, of k] wf
    by (simp add: login_filters_agree gm_get_in_set [symmetric])
qed

text \<open>
  A kubeconfig cannot take over the authentication of the login's requests.  Whatever request headers it configures, in
  whatever spelling, every HTTP request of the login keeps its own \<open>Authorization\<close>, \<open>Host\<close> and \<open>Cookie\<close> headers, and every
  header that is not blocked is sent with one of the values configured for it.
\<close>

theorem login_headers_protected:
  assumes "gm_wf headers"
  shows "(\<forall>h \<in> {''Authorization'', ''Host'', ''Cookie''}.
        gm_get (WithHeader_RoundTrip (filterBlockedRequestHeaders headers) req) h = gm_get req h) \<and>
    (\<forall>k \<in> fst ` set headers. \<not> isBlockedRequestHeader k \<longrightarrow>
       (\<exists>k' v. (k', v) \<in> set headers \<and> CanonicalHeaderKey k' = CanonicalHeaderKey k \<and>
          gm_get (WithHeader_RoundTrip (filterBlockedRequestHeaders headers) req) (CanonicalHeaderKey k) = Some [v]))"
proof (intro conjI ballI impI)
  fix h assume h: "h \<in> {''Authorization'', ''Host'', ''Cookie''}"
  then have "list_all header_byte h" "map lower_char h \<in> set blockedRequestHeaders"
    by (auto simp: header_byte_def byte_in_def byte_of_def lower_char_def blockedRequestHeaders_def char_of_eq)
  then have "CanonicalHeaderKey k = h \<Longrightarrow> isBlockedRequestHeader k" for k
    using canonical_lower [of k h] by (simp add: isBlockedRequestHeader_def)
  then have "h \<notin> CanonicalHeaderKey ` fst ` set (filterBlockedRequestHeaders headers)"
    using in_filter_headers [OF assms] by fastforce
  then show "gm_get (WithHeader_RoundTrip (filterBlockedRequestHeaders headers) req) h = gm_get req h"
    by (rule RoundTrip_untouched)
next
  fix k assume "k \<in> fst ` set headers" "\<not> isBlockedRequestHeader k"
  then have "k \<in> fst ` set (filterBlockedRequestHeaders headers)"
    using in_filter_headers [OF assms] by force
  from RoundTrip_sets [OF this, of req] show "\<exists>k' v. (k', v) \<in> set headers \<and> CanonicalHeaderKey k' = CanonicalHeaderKey k \<and>
          gm_get (WithHeader_RoundTrip (filterBlockedRequestHeaders headers) req) (CanonicalHeaderKey k) = Some [v]"
    using in_filter_headers [OF assms] by blast
qed

section \<open>Parameters of the authorization request\<close>

text \<open>
  What is relied on of \<open>oauth2.Config.AuthCodeURL\<close>: the parameters of the configuration and the state, and then the options, in their order, each of
  which sets the parameters its documentation names; \<open>challenge\<close> is the SHA-256 challenge of a verifier.
\<close>

fun join_space :: "string list \<Rightarrow> string" where
  "join_space [] = []"
| "join_space [s] = s"
| "join_space (s # ss) = s @ '' '' @ join_space ss"

definition url_base :: "login_Config \<Rightarrow> string \<Rightarrow> string \<Rightarrow> string option" where
  "url_base cfg state = [''response_type'' \<mapsto> ''code'', ''client_id'' \<mapsto> lc_ClientID cfg]
     ++ (if lc_RedirectURL cfg = [] then Map.empty else [''redirect_uri'' \<mapsto> lc_RedirectURL cfg])
     ++ (if lc_Scopes cfg = [] then Map.empty else [''scope'' \<mapsto> join_space (lc_Scopes cfg)])
     ++ (if state = [] then Map.empty else [''state'' \<mapsto> state])"

fun url_option :: "(string \<Rightarrow> string) \<Rightarrow> AuthCodeOption \<Rightarrow> (string \<Rightarrow> string option) \<Rightarrow> string \<Rightarrow> string option" where
  "url_option challenge AccessTypeOffline m = m(''access_type'' \<mapsto> ''offline'')"
| "url_option challenge (Nonce n) m = m(''nonce'' \<mapsto> n)"
| "url_option challenge (S256ChallengeOption v) m = m(''code_challenge'' \<mapsto> challenge v, ''code_challenge_method'' \<mapsto> ''S256'')"
| "url_option challenge (VerifierOption v) m = m(''code_verifier'' \<mapsto> v)"
| "url_option challenge (SetAuthURLParam k v) m = m(k \<mapsto> v)"

definition documented_url :: "(string \<Rightarrow> string) \<Rightarrow> (login_Config \<Rightarrow> string \<Rightarrow> AuthCodeOption list \<Rightarrow> string \<Rightarrow> string option) \<Rightarrow> bool" where
  "documented_url challenge url \<longleftrightarrow> (\<forall>cfg state opts. url cfg state opts = fold (url_option challenge) opts (url_base cfg state))"

lemma url_extra: "fold (url_option challenge) (map (\<lambda>(k, v). SetAuthURLParam k v) es) m = m ++ map_of (rev es)"
proof (induction es rule: rev_induct)
  case (snoc p es)
  then show ?case by (cases p) (simp add: map_add_def fun_eq_iff)
qed simp

lemma fold_put_unless_get:
  "distinct (map fst es) \<Longrightarrow> gm_get (fold (\<lambda>(k, v) m. if P k then m else gm_put k v m) es m) k =
    (case gm_get es k of Some v \<Rightarrow> if P k then gm_get m k else Some v | None \<Rightarrow> gm_get m k)"
  by (induction es arbitrary: m) (auto simp: rev_image_eqI split: option.splits dest!: map_of_SomeD)

lemma filter_params_get:
  assumes "gm_wf extra"
  shows "gm_get (rev (filterBlockedOAuthParams extra)) k =
    (case gm_get extra k of Some v \<Rightarrow> if ToLower k \<in> set blockedAuthCodeParams then None else Some v | None \<Rightarrow> None)"
proof -
  let ?f = "filterBlockedOAuthParams extra"
  have "gm_wf ?f" using fold_put_unless [of "[]" "\<lambda>k. ToLower k \<in> set blockedAuthCodeParams" extra] by (simp add: filterBlockedOAuthParams_def)
  then have "gm_get (rev ?f) = gm_get ?f"
    by (simp add: gm_wf_def map_of_inject_set rev_map [symmetric] flip: map_map)
  moreover have "gm_get ?f k = (case gm_get extra k of Some v \<Rightarrow> if ToLower k \<in> set blockedAuthCodeParams then None else Some v | None \<Rightarrow> None)"
    using fold_put_unless_get [of extra] assms by (auto simp: filterBlockedOAuthParams_def gm_wf_def split: option.splits)
  ultimately show ?thesis by simp
qed

text \<open>A configured parameter, unless its name is on the block list in some spelling.\<close>

definition configured :: "AuthOptions \<Rightarrow> string \<Rightarrow> string option" where
  "configured opt k = (if ToLower k \<in> set blockedAuthCodeParams then None else gm_get (ao_AuthRequestExtraParams opt) k)"

lemma configured_filter: "gm_wf (ao_AuthRequestExtraParams opt) \<Longrightarrow> map_of (rev (filterBlockedOAuthParams (ao_AuthRequestExtraParams opt))) = configured opt"
  using filter_params_get [of "ao_AuthRequestExtraParams opt"] by (auto simp: configured_def fun_eq_iff split: option.splits)

text \<open>The parameters of a login: the standard ones, fresh state and nonce, offline access and, when the method was negotiated, the challenge.\<close>

definition protocol_params :: "(string \<Rightarrow> string) \<Rightarrow> oidc_net \<Rightarrow> Provider \<Rightarrow> bool \<Rightarrow> string \<Rightarrow> string \<Rightarrow> string \<Rightarrow> string \<Rightarrow> string option" where
  "protocol_params challenge N provider s256 redirect state nonce =
     [''response_type'' \<mapsto> ''code'', ''client_id'' \<mapsto> pv_ClientID provider, ''scope'' \<mapsto> join_space (pv_ExtraScopes provider @ [''openid'']),
      ''state'' \<mapsto> state, ''nonce'' \<mapsto> nonce, ''access_type'' \<mapsto> ''offline''] ++
     (if redirect = [] then Map.empty else [''redirect_uri'' \<mapsto> redirect]) ++
     (if s256 then [''code_challenge'' \<mapsto> challenge (on_GenerateVerifier N), ''code_challenge_method'' \<mapsto> ''S256''] else Map.empty)"

text \<open>What the browser flow hands to the library that runs it.\<close>

lemma Browser_config:
  assumes "snd (Browser_Do N o' c) = Inr ts"
  obtains st n token config where "on_random N 0 = Inr st" "on_random N 1 = Inr n"
    "oa_OAuth2Config config = oc_oauth2Config c" "oa_State config = base64URLEncode st"
    "oa_AuthCodeOptions config = authorizationRequestOptions (base64URLEncode n) (pkce_New (on_GenerateVerifier N) (oc_negotiatedPKCEMethod c))
       (bo_AuthRequestExtraParams o')"
    "oa_TokenRequestOptions config = tokenRequestOptions (pkce_New (on_GenerateVerifier N) (oc_negotiatedPKCEMethod c))"
    "on_GetToken N (oc_httpClient c) config = Inr token" "verifyToken N c token (base64URLEncode n) = Inr ts"
proof -
  from assms obtain st n where r: "on_random N 0 = Inr st" "on_random N 1 = Inr n"
    and "GetTokenByAuthCode N c (auth_code_input N o' (base64URLEncode st) (base64URLEncode n) (pkce_New (on_GenerateVerifier N) (oc_negotiatedPKCEMethod c))) = Inr ts"
    by (auto simp: Browser_Do_def NewState_def NewNonce_def random32_def Let_def split: sum.splits option.splits)
  then obtain path token where g: "on_GetToken N (oc_httpClient c) \<lparr>oa_OAuth2Config = oc_oauth2Config c, oa_State = base64URLEncode st,
        oa_AuthCodeOptions = authorizationRequestOptions (base64URLEncode n) (pkce_New (on_GenerateVerifier N) (oc_negotiatedPKCEMethod c)) (bo_AuthRequestExtraParams o'),
        oa_TokenRequestOptions = tokenRequestOptions (pkce_New (on_GenerateVerifier N) (oc_negotiatedPKCEMethod c)),
        oa_LocalServerBindAddress = bo_BindAddress o', oa_LocalServerSuccessHTML = (if bo_OpenURLAfterAuthentication o' \<noteq> []
          then RedirectPage (BrowserRedirectHTML N (bo_OpenURLAfterAuthentication o')) else SuccessPage),
        oa_LocalServerCallbackPath = path, oa_LocalServerCertFile = bo_LocalServerCertFile o', oa_LocalServerKeyFile = bo_LocalServerKeyFile o'\<rparr> = Inr token"
    and v: "verifyToken N c token (base64URLEncode n) = Inr ts"
    by (auto simp: GetTokenByAuthCode_def auth_code_input_def Let_def split: sum.splits)
  show thesis by (rule that [OF r _ _ _ _ g v]) simp_all
qed

lemma Factory_New_scopes: "Factory_New N prov tls = Inr c \<Longrightarrow>
    lc_ClientID (oc_oauth2Config c) = pv_ClientID prov \<and> lc_Scopes (oc_oauth2Config c) = pv_ExtraScopes prov @ [''openid'']"
  by (auto simp: Factory_New_def Let_def split: sum.splits)

lemma base64_nonempty: "base64URLEncode b = [] \<longleftrightarrow> b = []"
  by (metis list.simps(8) base64URLEncode_def sum.inject(2) to_sextets.simps(1) url_decode_encode)

text \<open>
  C20: the authorization request of a browser login.  When the flow \<open>authcode-browser\<close> of \<open>PerformAuth\<close> obtains tokens, it has handed a configuration to the library
  with which the request to the provider, whatever address the local server got, carries: the response type, the client, the scopes and the
  redirect of the protocol; a state and a nonce made of random bytes drawn for this login, the same nonce that the ID token is then checked
  against; offline access; and, exactly if S256 was negotiated, the challenge of a generated verifier, the verifier itself going
  with the token request only.  A parameter configured in the kubeconfig is added unless it is on the block list in some spelling, so that none of the first four
  can be replaced; the block list lacks the others, and a configured value replaces that of the flow.
\<close>

theorem auth_request_params:
  assumes "documented_url challenge (on_AuthCodeURL N)" and "gm_wf (ao_AuthRequestExtraParams opt)"
    and "\<forall>b. on_random N 0 = Inr b \<longrightarrow> b \<noteq> []"
    and "PerformAuth (oidc_flows N) provider ''authcode-browser'' opt = Inr ts"
  shows "\<exists>c st n config token.
    Factory_New N (provider\<lparr>pv_RequestHeaders := filterBlockedRequestHeaders (pv_RequestHeaders provider)\<rparr>) (ao_TLSConfig opt) = Inr c \<and>
    on_random N 0 = Inr st \<and> on_random N 1 = Inr n \<and>
    on_GetToken N (oc_httpClient c) config = Inr token \<and> verifyToken N c token (base64URLEncode n) = Inr ts \<and>
    oa_TokenRequestOptions config = (if oc_negotiatedPKCEMethod c = MethodS256 then [VerifierOption (on_GenerateVerifier N)] else []) \<and>
    (\<forall>redirect k.
       let protocol = protocol_params challenge N provider (oc_negotiatedPKCEMethod c = MethodS256) redirect (base64URLEncode st) (base64URLEncode n);
           request = on_AuthCodeURL N ((oa_OAuth2Config config)\<lparr>lc_RedirectURL := redirect\<rparr>) (oa_State config) (oa_AuthCodeOptions config)
       in request k = (case configured opt k of Some v \<Rightarrow> Some v | None \<Rightarrow> protocol k) \<and>
          (k \<in> {''response_type'', ''client_id'', ''redirect_uri'', ''scope''} \<longrightarrow> request k = protocol k))"
proof -
  from assms(4) obtain c where c: "Factory_New N (provider\<lparr>pv_RequestHeaders := filterBlockedRequestHeaders (pv_RequestHeaders provider)\<rparr>) (ao_TLSConfig opt) = Inr c"
    and do: "snd (Browser_Do N (browser_option opt) c) = Inr ts"
    by (auto simp: PerformAuth_def oidc_flows_def split: sum.splits)
  from do obtain st n token config where g: "on_random N 0 = Inr st" "on_random N 1 = Inr n"
    and cfg: "oa_OAuth2Config config = oc_oauth2Config c" "oa_State config = base64URLEncode st"
      "oa_AuthCodeOptions config = authorizationRequestOptions (base64URLEncode n) (pkce_New (on_GenerateVerifier N) (oc_negotiatedPKCEMethod c))
         (bo_AuthRequestExtraParams (browser_option opt))"
      "oa_TokenRequestOptions config = tokenRequestOptions (pkce_New (on_GenerateVerifier N) (oc_negotiatedPKCEMethod c))"
    and t: "on_GetToken N (oc_httpClient c) config = Inr token" "verifyToken N c token (base64URLEncode n) = Inr ts"
    by (rule Browser_config)
  have extra: "bo_AuthRequestExtraParams (browser_option opt) = filterBlockedOAuthParams (ao_AuthRequestExtraParams opt)" by (simp add: browser_option_def)
  have st: "base64URLEncode st \<noteq> []" using assms(3) g(1) by (simp add: base64_nonempty)
  have req: "on_AuthCodeURL N ((oa_OAuth2Config config)\<lparr>lc_RedirectURL := redirect\<rparr>) (oa_State config) (oa_AuthCodeOptions config) =
      protocol_params challenge N provider (oc_negotiatedPKCEMethod c = MethodS256) redirect (base64URLEncode st) (base64URLEncode n) ++ configured opt" for redirect
    using assms(1) Factory_New_scopes [OF c] st
    by (auto simp: documented_url_def cfg authorizationRequestOptions_def url_extra extra configured_filter [OF assms(2)] url_base_def protocol_params_def
        pkce_AuthCodeOption_def pkce_New_def map_add_def fun_eq_iff split: option.split)
  have blocked: "k \<in> {''response_type'', ''client_id'', ''redirect_uri'', ''scope''} \<Longrightarrow> configured opt k = None" for k
    by (auto simp: configured_def blockedAuthCodeParams_def lower_char_def byte_of_def)
  have "oa_TokenRequestOptions config = (if oc_negotiatedPKCEMethod c = MethodS256 then [VerifierOption (on_GenerateVerifier N)] else [])"
    by (simp add: cfg(4) tokenRequestOptions_def pkce_TokenRequestOption_def pkce_New_def)
  with c g t show ?thesis by (intro exI conjI allI) (assumption, auto simp: req Let_def map_add_def blocked)
qed

section \<open>Certificates\<close>

lemma load_files_append: "load_files r h fs pool = Inr p \<Longrightarrow> append_ca_files r h fs pool = Inr p"
    "load_files r h fs pool = Inl e \<Longrightarrow> \<exists>e. append_ca_files r h fs pool = Inl e"
  by (induction fs arbitrary: pool) (auto simp: addFile_def split: sum.splits if_splits)

lemma load_data_append: "load_data h ds pool = Inr p \<Longrightarrow> append_ca_data h ds pool = Inr p"
    "load_data h ds pool = Inl e \<Longrightarrow> \<exists>e. append_ca_data h ds pool = Inl e"
  by (induction ds arbitrary: pool) (auto simp: addBase64Encoded_def split: option.splits if_splits)

lemma load_files_length: "load_files r h fs pool = Inr p \<Longrightarrow> length p = length pool + length fs"
  by (induction fs arbitrary: pool) (auto simp: addFile_def split: sum.splits if_splits)

lemma load_data_length: "load_data h ds pool = Inr p \<Longrightarrow> length p = length pool + length ds"
  by (induction ds arbitrary: pool) (auto simp: addBase64Encoded_def split: option.splits if_splits)

text \<open>
  Login and refresh trust the same servers.  For every TLS configuration and every state of the certificate files, the
  loader of the login fails exactly when the one of the daemon's refresher does, and otherwise they give the same settings; the
  refresher's shortcut for an empty configuration stands for the settings the loader gives it.
\<close>

theorem login_refresh_same_tls:
  "case buildTLSConfig readFile hasCerts cfg of
     Inl _ \<Rightarrow> (\<exists>e. Loader_Load readFile hasCerts cfg = Inl e)
   | Inr (Some t) \<Rightarrow> Loader_Load readFile hasCerts cfg = Inr t
   | Inr None \<Rightarrow> Loader_Load readFile hasCerts cfg = Inr \<lparr>tc_InsecureSkipVerify = False, tc_Renegotiation = 0, tc_RootCAs = None\<rparr>"
proof (cases "load_files readFile hasCerts (tls_CACertFilename cfg) []")
  case (Inl e)
  then have "tls_CACertFilename cfg \<noteq> []" by auto
  then show ?thesis using Inl load_files_append(2) [OF Inl] by (auto simp: buildTLSConfig_def Loader_Load_def Let_def)
next
  case (Inr pool)
  note files = load_files_append(1) [OF Inr] load_files_length [OF Inr]
  show ?thesis
  proof (cases "load_data hasCerts (tls_CACertData cfg) pool")
    case Inl': (Inl e)
    then have "tls_CACertData cfg \<noteq> []" by auto
    then show ?thesis using Inl' Inr files load_data_append(2) [OF Inl']
      by (auto simp: buildTLSConfig_def Loader_Load_def Let_def)
  next
    case Inr': (Inr roots)
    then show ?thesis using Inr files load_data_append(1) [OF Inr'] load_data_length [OF Inr']
      by (auto simp: buildTLSConfig_def Loader_Load_def Let_def)
  qed
qed

section \<open>What a login obtains\<close>

text \<open>
  The verifier accepted the ID token for the client, with the nonce if one is given, and the token to hand on is that ID token
  or, where access tokens are configured, an access token the verifier accepted too.
\<close>

definition verified :: "oidc_net \<Rightarrow> oidc_client \<Rightarrow> string \<Rightarrow> TokenSet \<Rightarrow> bool" where
  "verified N c nonce ts \<longleftrightarrow>
     (\<exists>idToken claim. on_Verify N (oc_httpClient c) (oc_provider c) (Some (lc_ClientID (oc_oauth2Config c))) idToken = Inr claim \<and>
        (nonce \<noteq> [] \<longrightarrow> claim = nonce) \<and>
        (if oc_useAccessToken c then \<exists>x. on_Verify N (oc_httpClient c) (oc_provider c) None (ts_IDToken ts) = Inr x
         else ts_IDToken ts = idToken))"

lemma verifyToken_verified: "verifyToken N c token nonce = Inr ts \<Longrightarrow> verified N c nonce ts"
  unfolding verifyToken_def verified_def by (auto split: option.splits sum.splits if_splits; blast)

lemma DeviceCode_verified: "snd (DeviceCode_Do N inp c) = Inr ts \<Longrightarrow> verified N c [] ts"
  by (auto simp: DeviceCode_Do_def ExchangeDeviceCode_def Let_def verifyToken_verified split: sum.splits if_splits)

lemma NewNonce_Inr: "NewNonce r = Inr n \<longleftrightarrow> (\<exists>b. r = Inr b \<and> n = base64URLEncode b)"
  by (auto simp: NewNonce_def random32_def split: sum.splits)

lemma Browser_verified:
  assumes "snd (Browser_Do N o' c) = Inr ts"
  obtains b where "on_random N 1 = Inr b" "verified N c (base64URLEncode b) ts"
proof -
  from assms obtain state nonce where n: "NewNonce (on_random N 1) = Inr nonce"
    and "GetTokenByAuthCode N c (auth_code_input N o' state nonce (pkce_New (on_GenerateVerifier N) (oc_negotiatedPKCEMethod c))) = Inr ts"
    by (auto simp: Browser_Do_def Let_def split: sum.splits option.splits)
  then have "verified N c nonce ts"
    by (auto simp: GetTokenByAuthCode_def Let_def auth_code_input_def verifyToken_verified split: sum.splits)
  with n that show thesis by (auto simp: NewNonce_Inr)
qed

lemma Factory_New_client: "Factory_New N prov tls = Inr c \<Longrightarrow>
    lc_ClientID (oc_oauth2Config c) = pv_ClientID prov \<and> oc_useAccessToken c = pv_UseAccessToken prov"
  by (auto simp: Factory_New_def Let_def split: sum.splits)

lemma PerformAuth_verified:
  assumes "PerformAuth (oidc_flows N) provider grant opt = Inr ts"
  shows "\<exists>c. Factory_New N (provider\<lparr>pv_RequestHeaders := filterBlockedRequestHeaders (pv_RequestHeaders provider)\<rparr>) (ao_TLSConfig opt) = Inr c \<and>
    lc_ClientID (oc_oauth2Config c) = pv_ClientID provider \<and> oc_useAccessToken c = pv_UseAccessToken provider \<and>
    (\<exists>nonce. verified N c nonce ts \<and> (grant = ''authcode-browser'' \<longrightarrow> (\<exists>b. on_random N 1 = Inr b \<and> nonce = base64URLEncode b)))"
proof -
  from assms obtain c where c: "Factory_New N (provider\<lparr>pv_RequestHeaders := filterBlockedRequestHeaders (pv_RequestHeaders provider)\<rparr>) (ao_TLSConfig opt) = Inr c"
    by (auto simp: PerformAuth_def oidc_flows_def split: sum.splits)
  consider "grant = ''device-code''" "snd (DeviceCode_Do N (Some (device_option opt)) c) = Inr ts"
    | "grant = ''authcode-browser''" "snd (Browser_Do N (browser_option opt) c) = Inr ts"
    using assms c by (auto simp: PerformAuth_def oidc_flows_def split: if_splits)
  then have "\<exists>nonce. verified N c nonce ts \<and> (grant = ''authcode-browser'' \<longrightarrow> (\<exists>b. on_random N 1 = Inr b \<and> nonce = base64URLEncode b))"
  proof cases
    case 1
    then show ?thesis using DeviceCode_verified by fastforce
  next
    case 2
    then show ?thesis using Browser_verified by blast
  qed
  with c Factory_New_client [OF c] show ?thesis by auto
qed

text \<open>
  C6: the daemon is given verified tokens only.  When \<open>login\<close> reports success, the tokens it sent to the daemon came from a
  client made for the configured issuer, client and certificates; the provider's verifier accepted the ID token for that client,
  in the browser flow with the nonce drawn for this login, and accepted the access token where that is what is kept.
\<close>

theorem login_stores_verified:
  assumes "runLogin C dir f s = (Printed t, s')" and "buildCacheKey (cl_gob C) (cl_sha256 C) f = Inr k"
    and "cl_flows C = oidc_flows N" and "\<And>b. on_random N 1 = Inr b \<Longrightarrow> b \<noteq> []"
  shows "\<exists>grant c ts idToken claim. mapGrantType (of_grantType f) = Inr grant \<and> stored k ts s' \<and>
    Factory_New N ((login_provider f)\<lparr>pv_RequestHeaders := filterBlockedRequestHeaders (pv_RequestHeaders (login_provider f))\<rparr>)
      (ao_TLSConfig (login_options f grant)) = Inr c \<and>
    on_Verify N (oc_httpClient c) (oc_provider c) (Some (pv_ClientID (login_provider f))) idToken = Inr claim \<and>
    (grant = ''authcode-browser'' \<longrightarrow> (\<exists>b. on_random N 1 = Inr b \<and> claim = base64URLEncode b)) \<and>
    (if pv_UseAccessToken (login_provider f) then \<exists>x. on_Verify N (oc_httpClient c) (oc_provider c) None (ts_IDToken ts) = Inr x
     else ts_IDToken ts = idToken)"
proof -
  from runLogin_closed [OF assms(1,2)] assms(3) obtain grant ts where g: "mapGrantType (of_grantType f) = Inr grant" "stored k ts s'"
    and auth: "PerformAuth (oidc_flows N) (login_provider f) grant (login_options f grant) = Inr ts" by auto
  from PerformAuth_verified [OF auth] obtain c nonce where c: "Factory_New N ((login_provider f)\<lparr>pv_RequestHeaders :=
        filterBlockedRequestHeaders (pv_RequestHeaders (login_provider f))\<rparr>) (ao_TLSConfig (login_options f grant)) = Inr c"
      "lc_ClientID (oc_oauth2Config c) = pv_ClientID (login_provider f)" "oc_useAccessToken c = pv_UseAccessToken (login_provider f)"
    and v: "verified N c nonce ts" and n: "grant = ''authcode-browser'' \<longrightarrow> (\<exists>b. on_random N 1 = Inr b \<and> nonce = base64URLEncode b)" by auto
  from v obtain idToken claim where "on_Verify N (oc_httpClient c) (oc_provider c) (Some (pv_ClientID (login_provider f))) idToken = Inr claim"
      "nonce \<noteq> [] \<longrightarrow> claim = nonce" and "if pv_UseAccessToken (login_provider f)
        then \<exists>x. on_Verify N (oc_httpClient c) (oc_provider c) None (ts_IDToken ts) = Inr x else ts_IDToken ts = idToken"
    unfolding verified_def c(2,3) by blast
  moreover have "grant = ''authcode-browser'' \<Longrightarrow> \<exists>b. on_random N 1 = Inr b \<and> claim = base64URLEncode b"
    using n assms(4) base64_nonempty calculation(2) by metis
  ultimately show ?thesis using g c(1) by blast
qed

section \<open>The user is always told\<close>

definition reaches_user :: "oidc_net \<Rightarrow> string \<Rightarrow> ui_action list \<Rightarrow> bool" where
  "reaches_user N url ui \<longleftrightarrow> PrintVisit url \<in> set ui \<or> (\<exists>e. PrintManual e url \<in> set ui) \<or>
     OpenDefault url \<in> set ui \<and> on_Open N url = None \<or> (\<exists>cmd. OpenWith cmd url \<in> set ui \<and> on_OpenCommand N url cmd = None)"

lemma openURL_reaches: "reaches_user N url (browser_openURL N o' url)" "reaches_user N url (device_openURL N d url)"
  by (auto simp: reaches_user_def browser_openURL_def device_openURL_def failure_note_def split: option.splits)

text \<open>
  Whatever the options are and however the browser fails, when a flow has a URL for the user it was opened or printed, and a code
  that has to be typed was printed before.
\<close>

lemma DeviceCode_tells_user:
  assumes "DeviceCode_Do N inp c = (ui, r)" "r \<noteq> Inl (Err ''no verification URI in the authorization response'')"
    and "GetDeviceAuthorization N c = Inr a"
  shows "\<exists>url. reaches_user N url ui \<and> url \<noteq> [] \<and> (url = ar_VerificationURIComplete a \<or>
    url \<in> {ar_VerificationURI a, ar_VerificationURL a} \<and> PrintCode (ar_UserCode a) \<in> set ui)"
proof -
  have mono: "reaches_user N url ui' \<Longrightarrow> reaches_user N url (x # ui')" for url ui' x by (auto simp: reaches_user_def)
  consider (complete) "ar_VerificationURIComplete a \<noteq> []" "ui = device_openURL N inp (ar_VerificationURIComplete a)"
    | (uri) "ar_VerificationURI a \<noteq> []" "ui = PrintCode (ar_UserCode a) # device_openURL N inp (ar_VerificationURI a)"
    | (url) "ar_VerificationURL a \<noteq> []" "ui = PrintCode (ar_UserCode a) # device_openURL N inp (ar_VerificationURL a)"
    using assms by (auto simp: DeviceCode_Do_def Let_def split: if_splits)
  then show ?thesis by cases (use mono openURL_reaches in \<open>auto; blast\<close>)+
qed

section \<open>Examples\<close>

text \<open>A provider that answers every exchange with an ID token for the nonce \<open>n\<close> encoded, and a browser that does not start.\<close>

definition demo_endpoint :: oauth2_Endpoint where
  "demo_endpoint = \<lparr>ep_AuthURL = ''a'', ep_DeviceAuthURL = ''d'', ep_TokenURL = ''t'', ep_AuthStyle = AuthStyleAutoDetect\<rparr>"

definition demo_login_token :: login_Token where
  "demo_login_token = \<lparr>lt_AccessToken = ''at'', lt_RefreshToken = ''r'', lt_Expiry = 9, lt_Extra = [(''id_token'', JStr ''tok'')]\<rparr>"

definition demo_net :: oidc_net where
  "demo_net = \<lparr>on_readFile = (\<lambda>_. Inl ENOENT), on_hasCerts = (\<lambda>_. False),
     on_NewProvider = (\<lambda>_ _. Inr \<lparr>gp_Endpoint = demo_endpoint, gp_Document = JObj [(''code_challenge_methods_supported'', JArr [JStr ''S256''])]\<rparr>),
     on_Verify = (\<lambda>_ _ _ _. Inr (base64URLEncode ''n'')), on_TokenSource = (\<lambda>_ _ _. Inr demo_login_token),
     on_Exchange = (\<lambda>_ _ _ _. Inr demo_login_token), on_Password = (\<lambda>_ _ _ _. Inr demo_login_token),
     on_ClientCredentials = (\<lambda>_ _ _. Inr demo_login_token),
     on_AuthCodeURL = (\<lambda>cfg st opts. fold (url_option id) opts (url_base cfg st)),
     on_GetToken = (\<lambda>_ _. Inr demo_login_token), on_RetrieveCode = (\<lambda>_ _. Inl (Err [])), on_PollToken = (\<lambda>_ _ _. Inr demo_login_token),
     on_urlParse = (\<lambda>u. Inr (u, u)), on_formatTime = (\<lambda>_. ''T''), on_random = (\<lambda>i. Inr (if i = 0 then ''s'' else ''n'')),
     on_GenerateVerifier = ''v'', on_Open = (\<lambda>_. Some (Err ''no browser'')), on_OpenCommand = (\<lambda>_ _. None),
     on_ready = ReadyURL ''u'', on_readyFirst = False\<rparr>"

theorem login_headers_protected_witness:
  "gm_get (WithHeader_RoundTrip (filterBlockedRequestHeaders [(''AUTHORIZATION'', ''evil''), (''x-a'', ''1'')]) [(''Authorization'', [''Basic c''])]) ''Authorization''
     = Some [''Basic c'']"
  using login_headers_protected [of "[(''AUTHORIZATION'', ''evil''), (''x-a'', ''1'')]" "[(''Authorization'', [''Basic c''])]"]
  by (simp add: gm_wf_def)

definition demo_oidc_cli :: "(oidc_client, TokenSet) cli_env" where
  "demo_oidc_cli = \<lparr>cl_shim = demo_shim_env, cl_gob = (\<lambda>_. Inr ''b''), cl_sha256 = (\<lambda>_. ''h''), cl_rfc3339 = (\<lambda>_. ''T''), cl_execInfo = [],
     cl_flows = oidc_flows demo_net, cl_wait = (\<lambda>s. (1, ss_fs s)), cl_interrupted = (\<lambda>s. False), cl_findPID = (\<lambda>s. 0), cl_killError = (\<lambda>p. None)\<rparr>"

lemma demo_auth:
  assumes "tls_CACertFilename (ao_TLSConfig opt) = []" "tls_CACertData (ao_TLSConfig opt) = []" "\<not> pv_UseAccessToken p"
  shows "PerformAuth (oidc_flows demo_net) p ''authcode-browser'' opt = Inr \<lparr>ts_IDToken = ''tok'', ts_RefreshToken = ''r''\<rparr>"
  using assms
  by (simp add: PerformAuth_def oidc_flows_def Factory_New_def Loader_Load_def demo_net_def extractSupportedPKCEMethods_def pkce_member_def
      select_field_def Browser_Do_def NewState_def NewNonce_def random32_def GetTokenByAuthCode_def Let_def verifyToken_def demo_login_token_def
      extra_string_def wait_group_def auth_code_input_def)

theorem auth_request_params_witness:
  "let opt = (login_options (default_flags [] ''authcode'') ''authcode-browser'')\<lparr>ao_AuthRequestExtraParams := [(''Scope'', ''evil''), (''state'', ''fixed'')]\<rparr>;
       provider = (login_provider (default_flags [] ''authcode''))\<lparr>pv_ClientID := ''k8s''\<rparr>
   in \<exists>config token. on_GetToken demo_net \<lparr>hc_TLS = Some \<lparr>tc_InsecureSkipVerify = False, tc_Renegotiation = 0, tc_RootCAs = None\<rparr>, hc_Headers = []\<rparr> config = Inr token \<and>
     oa_TokenRequestOptions config = [VerifierOption ''v''] \<and>
     (let request = on_AuthCodeURL demo_net (oa_OAuth2Config config) (oa_State config) (oa_AuthCodeOptions config) in
      request ''client_id'' = Some ''k8s'' \<and> request ''nonce'' = Some (base64URLEncode ''n'') \<and> request ''code_challenge'' = Some ''v'' \<and>
      request ''scope'' = Some ''openid'' \<and> request ''state'' = Some ''fixed'')"
proof -
  let ?opt = "(login_options (default_flags [] ''authcode'') ''authcode-browser'')\<lparr>ao_AuthRequestExtraParams := [(''Scope'', ''evil''), (''state'', ''fixed'')]\<rparr>"
  let ?prov = "(login_provider (default_flags [] ''authcode''))\<lparr>pv_ClientID := ''k8s''\<rparr>"
  have d: "documented_url id (on_AuthCodeURL demo_net)" by (simp add: documented_url_def demo_net_def)
  have wf: "gm_wf (ao_AuthRequestExtraParams ?opt)" by (simp add: gm_wf_def)
  have auth: "PerformAuth (oidc_flows demo_net) ?prov ''authcode-browser'' ?opt = Inr \<lparr>ts_IDToken = ''tok'', ts_RefreshToken = ''r''\<rparr>"
    by (rule demo_auth) (simp_all add: login_options_def login_provider_def default_flags_def zero_tls_def)
  have r: "\<forall>b. on_random demo_net 0 = Inr b \<longrightarrow> b \<noteq> []" by (simp add: demo_net_def)
  from auth_request_params [OF d wf r auth] obtain c st n config token where
    c: "Factory_New demo_net (?prov\<lparr>pv_RequestHeaders := filterBlockedRequestHeaders (pv_RequestHeaders ?prov)\<rparr>) (ao_TLSConfig ?opt) = Inr c"
    and n: "on_random demo_net 1 = Inr n" and t: "on_GetToken demo_net (oc_httpClient c) config = Inr token"
    and v: "oa_TokenRequestOptions config = (if oc_negotiatedPKCEMethod c = MethodS256 then [VerifierOption (on_GenerateVerifier demo_net)] else [])"
    and all: "\<forall>redirect k. let protocol = protocol_params id demo_net ?prov (oc_negotiatedPKCEMethod c = MethodS256) redirect (base64URLEncode st) (base64URLEncode n);
           request = on_AuthCodeURL demo_net ((oa_OAuth2Config config)\<lparr>lc_RedirectURL := redirect\<rparr>) (oa_State config) (oa_AuthCodeOptions config)
       in request k = (case configured ?opt k of Some v \<Rightarrow> Some v | None \<Rightarrow> protocol k) \<and>
          (k \<in> {''response_type'', ''client_id'', ''redirect_uri'', ''scope''} \<longrightarrow> request k = protocol k)"
    by - (elim exE conjE, rule that)
  have req: "on_AuthCodeURL demo_net ((oa_OAuth2Config config)\<lparr>lc_RedirectURL := redirect\<rparr>) (oa_State config) (oa_AuthCodeOptions config) k =
      (case configured ?opt k of Some v \<Rightarrow> Some v
       | None \<Rightarrow> protocol_params id demo_net ?prov (oc_negotiatedPKCEMethod c = MethodS256) redirect (base64URLEncode st) (base64URLEncode n) k)" for redirect k
    by (rule conjunct1 [OF all [unfolded Let_def, rule_format]])
  have c': "oc_httpClient c = \<lparr>hc_TLS = Some \<lparr>tc_InsecureSkipVerify = False, tc_Renegotiation = 0, tc_RootCAs = None\<rparr>, hc_Headers = []\<rparr>"
      "oc_negotiatedPKCEMethod c = MethodS256"
    using c by (auto simp: Factory_New_def Loader_Load_def demo_net_def extractSupportedPKCEMethods_def pkce_member_def select_field_def
        login_options_def login_provider_def default_flags_def zero_tls_def filterBlockedRequestHeaders_def determinePKCEMethod_def Let_def)
  have n': "n = ''n''" using n by (simp add: demo_net_def)
  have conf: "configured ?opt ''client_id'' = None" "configured ?opt ''nonce'' = None" "configured ?opt ''code_challenge'' = None" "configured ?opt ''scope'' = None"
    "configured ?opt ''state'' = Some ''fixed''"
    by (simp_all add: configured_def blockedAuthCodeParams_def lower_char_def byte_of_def)
  have g: "on_GenerateVerifier demo_net = ''v''" "pv_ExtraScopes ?prov = []" by (simp_all add: demo_net_def login_provider_def default_flags_def)
  show ?thesis unfolding Let_def
    using t v req [of "lc_RedirectURL (oa_OAuth2Config config)"]
    by (intro exI [of _ config] exI [of _ token]) (simp add: c' n' conf g protocol_params_def map_add_def)
qed

theorem login_stores_verified_witness:
  "let f = default_flags [] ''authcode''; (r, s') = runLogin demo_oidc_cli ''/d'' f \<lparr>ss_now = 5, ss_fs = one_dir, ss_trace = []\<rparr>
   in r = login_stored demo_oidc_cli demo_reply \<and> (\<exists>ts. stored (hex_encode ''h'') ts s')"
proof -
  let ?s = "\<lparr>ss_now = 5, ss_fs = one_dir, ss_trace = []\<rparr>" and ?f = "default_flags [] ''authcode''" and ?g = "''authcode-browser''"
  have k: "buildCacheKey (cl_gob demo_oidc_cli) (cl_sha256 demo_oidc_cli) ?f = Inr (hex_encode ''h'')"
    by (simp add: buildCacheKey_def computeChecksum_def demo_oidc_cli_def)
  have flows: "cl_flows demo_oidc_cli = oidc_flows demo_net" by (simp add: demo_oidc_cli_def)
  have g: "mapGrantType (of_grantType ?f) = Inr ?g" by (simp add: default_flags_def mapGrantType_def)
  have auth: "PerformAuth (oidc_flows demo_net) (login_provider ?f) ?g (login_options ?f ?g) = Inr \<lparr>ts_IDToken = ''tok'', ts_RefreshToken = ''r''\<rparr>"
    by (rule demo_auth) (simp_all add: login_options_def login_provider_def default_flags_def zero_tls_def)
  obtain r s' where r: "runLogin demo_oidc_cli ''/d'' ?f ?s = (r, s')" by fastforce
  have *: "r = login_stored demo_oidc_cli demo_reply"
    using demo_login_any [OF _ k g, of "\<lparr>ts_IDToken = ''tok'', ts_RefreshToken = ''r''\<rparr>" "''/d''" ?s] auth r flows by (simp add: demo_oidc_cli_def)
  then obtain t where "r = Printed t" by (simp add: login_stored_def)
  with login_stores_verified [OF _ k flows, of "''/d''" ?s t s'] r
  have "\<exists>ts. stored (hex_encode ''h'') ts s'" by (auto simp: demo_net_def)
  then show ?thesis using r * by simp
qed

end
