(* ===== verification/TokenCache.thy ===== *)
theory TokenCache
  imports Cli
begin

text \<open>
  The token cache of the upstream program (\<open>pkg/tokencache/repository/repository.go\<close>): tokens on disk or in the keyring of the system, under the
  checksum of their key.  The keyring, the encoder and the hash are parameters.  The daemon does not use the cache, only its
  checksum.
\<close>

section \<open>Storage\<close>

text \<open>\<open>StorageOther\<close> is a value of the byte the constants do not name.\<close>

datatype Storage = StorageDisk | StorageKeyring | StorageNone | StorageOther nat

record cache_Config =
  cc_Directory :: string
  cc_Storage :: Storage

text \<open>The operations of the keyring, by service and item.\<close>

record 'k keyring_api =
  kg_Get :: "string \<Rightarrow> string \<Rightarrow> 'k \<Rightarrow> go_error + string"
  kg_Set :: "string \<Rightarrow> string \<Rightarrow> string \<Rightarrow> 'k \<Rightarrow> go_error option \<times> 'k"
  kg_DeleteAll :: "string \<Rightarrow> 'k \<Rightarrow> go_error option \<times> 'k"

record 'k cache_state =
  ca_fs :: vfs
  ca_ring :: 'k

text \<open>The encoder of the key, the hash, and the texts that only the errors use.\<close>

record cache_env =
  ce_gob :: "cache_Key \<Rightarrow> go_error + string"
  ce_sha256 :: "string \<Rightarrow> string"

definition keyringService :: string where "keyringService = ''kubelogin''"
definition keyringItemPrefix :: string where "keyringItemPrefix = ''kubelogin/tokencache/''"

section \<open>Contents\<close>

definition entity_members :: "TokenSet \<Rightarrow> (string \<times> json) list" where
  "entity_members t =
     (if ts_IDToken t = [] then [] else [(''id_token'', JStr (ts_IDToken t))]) @
     (if ts_RefreshToken t = [] then [] else [(''refresh_token'', JStr (ts_RefreshToken t))])"

definition encodeKey :: "TokenSet \<Rightarrow> string" where
  "encodeKey t = print_json (JObj (entity_members t))"

definition entity_member :: "string \<times> json \<Rightarrow> bool \<times> TokenSet \<Rightarrow> bool \<times> TokenSet" where
  "entity_member m st =
     (case select_field [''id_token'', ''refresh_token''] (fst m) of
        None \<Rightarrow> st
      | Some f \<Rightarrow>
          if f = ''id_token'' then (let (bad, v) = store_string (snd m) (ts_IDToken (snd st)) in (fst st \<or> bad, (snd st)\<lparr>ts_IDToken := v\<rparr>))
          else (let (bad, v) = store_string (snd m) (ts_RefreshToken (snd st)) in (fst st \<or> bad, (snd st)\<lparr>ts_RefreshToken := v\<rparr>)))"

definition decodeKey :: "string \<Rightarrow> go_error + TokenSet" where
  "decodeKey b =
     (let zero = \<lparr>ts_IDToken = [], ts_RefreshToken = []\<rparr>; bad = Inl (Wrap ''invalid token cache json'' (Err ''cannot unmarshal value''))
      in case json_parse b of
           Inl _ \<Rightarrow> Inl (Wrap ''invalid token cache json'' (Err ''invalid JSON''))
         | Inr JNull \<Rightarrow> Inr zero
         | Inr (JObj ms) \<Rightarrow> (case fold entity_member ms (False, zero) of (True, _) \<Rightarrow> bad | (False, t) \<Rightarrow> Inr t)
         | Inr _ \<Rightarrow> bad)"

section \<open>Operations\<close>

definition cache_path :: "cache_Config \<Rightarrow> string \<Rightarrow> path" where
  "cache_path cfg checksum = Path (cc_Directory cfg) checksum"

definition readFromFile :: "faults \<Rightarrow> cache_Config \<Rightarrow> string \<Rightarrow> vfs \<Rightarrow> go_error + TokenSet" where
  "readFromFile io cfg checksum w =
     (let p = cc_Directory cfg @ ''/'' @ checksum in
      case file_at w (cache_path cfg checksum) of
        None \<Rightarrow> Inl (Wrap (''could not open file '' @ p) (OsErr ENOENT))
      | Some n \<Rightarrow>
          (case (f_open io, f_read io) of
             (Some e, _) \<Rightarrow> Inl (Wrap (''could not open file '' @ p) (OsErr e))
           | (None, Some e) \<Rightarrow> Inl (Wrap (''could not open file '' @ p) (OsErr e))
           | (None, None) \<Rightarrow>
               if n_kind n = Directory then Inl (Wrap (''could not open file '' @ p) (OsErr EISDIR))
               else (case decodeKey (n_data n) of Inl e \<Rightarrow> Inl (Wrap (''file '' @ p) e) | Inr t \<Rightarrow> Inr t)))"

definition readFromKeyring :: "'k keyring_api \<Rightarrow> string \<Rightarrow> 'k \<Rightarrow> go_error + TokenSet" where
  "readFromKeyring R checksum ring =
     (let p = keyringItemPrefix @ checksum in
      case kg_Get R keyringService p ring of
        Inl e \<Rightarrow> Inl (Wrap (''could not get keyring secret '' @ p) e)
      | Inr s \<Rightarrow> (case decodeKey s of Inl e \<Rightarrow> Inl (Wrap (''keyring '' @ p) e) | Inr t \<Rightarrow> Inr t))"

text \<open>No token and no error is \<open>Inr None\<close>.\<close>

definition FindByKey :: "cache_env \<Rightarrow> 'k keyring_api \<Rightarrow> faults \<Rightarrow> cache_Config \<Rightarrow> cache_Key \<Rightarrow> 'k cache_state \<Rightarrow> go_error + TokenSet option" where
  "FindByKey E R io cfg key s =
     (case computeChecksum (ce_gob E) (ce_sha256 E) key of
        Inl e \<Rightarrow> Inl (Wrap ''could not compute the key'' e)
      | Inr checksum \<Rightarrow>
          (case cc_Storage cfg of
             StorageDisk \<Rightarrow> map_sum id Some (readFromFile io cfg checksum (ca_fs s))
           | StorageKeyring \<Rightarrow> map_sum id Some (readFromKeyring R checksum (ca_ring s))
           | StorageNone \<Rightarrow> Inr None
           | StorageOther k \<Rightarrow> Inl (Err (''unknown storage mode: '' @ show_nat k))))"

text \<open>\<open>os.MkdirAll\<close>: an existing directory is no error.\<close>

definition os_MkdirAll :: "faults \<Rightarrow> string \<Rightarrow> vfs \<Rightarrow> os_error option \<times> vfs" where
  "os_MkdirAll io dir w = (if gm_get (vf_dirs w) dir = None then os_Mkdir io dir w else (None, w))"

definition writeToFile :: "faults \<Rightarrow> cache_Config \<Rightarrow> string \<Rightarrow> TokenSet \<Rightarrow> vfs \<Rightarrow> go_error option \<times> vfs" where
  "writeToFile io cfg checksum t w =
     (case os_MkdirAll io (cc_Directory cfg) w of
        (Some e, w1) \<Rightarrow> (Some (Wrap (''could not create directory '' @ cc_Directory cfg) (OsErr e)), w1)
      | (None, w1) \<Rightarrow>
          (case os_WriteFile io (cache_path cfg checksum) (encodeKey t) perm600 w1 of
             (Some e, w2) \<Rightarrow> (Some (Wrap (''could not create file '' @ cc_Directory cfg @ ''/'' @ checksum) (OsErr e)), w2)
           | (None, w2) \<Rightarrow> (None, w2)))"

definition writeToKeyring :: "'k keyring_api \<Rightarrow> string \<Rightarrow> TokenSet \<Rightarrow> 'k \<Rightarrow> go_error option \<times> 'k" where
  "writeToKeyring R checksum t ring =
     (let p = keyringItemPrefix @ checksum in
      case kg_Set R keyringService p (encodeKey t) ring of
        (Some e, ring') \<Rightarrow> (Some (Wrap (''keyring write '' @ p) e), ring')
      | (None, ring') \<Rightarrow> (None, ring'))"

definition Save :: "cache_env \<Rightarrow> 'k keyring_api \<Rightarrow> faults \<Rightarrow> cache_Config \<Rightarrow> cache_Key \<Rightarrow> TokenSet \<Rightarrow> 'k cache_state \<Rightarrow> go_error option \<times> 'k cache_state" where
  "Save E R io cfg key t s =
     (case computeChecksum (ce_gob E) (ce_sha256 E) key of
        Inl e \<Rightarrow> (Some (Wrap ''could not compute the key'' e), s)
      | Inr checksum \<Rightarrow>
          (case cc_Storage cfg of
             StorageDisk \<Rightarrow> (let (e, w) = writeToFile io cfg checksum t (ca_fs s) in (e, s\<lparr>ca_fs := w\<rparr>))
           | StorageKeyring \<Rightarrow> (let (e, r) = writeToKeyring R checksum t (ca_ring s) in (e, s\<lparr>ca_ring := r\<rparr>))
           | StorageNone \<Rightarrow> (None, s)
           | StorageOther k \<Rightarrow> (Some (Err (''unknown storage mode: '' @ show_nat k)), s)))"

text \<open>The lock file of a key; \<open>flock\<close> is the lock call of the flock package: it may create the file.\<close>

definition Repository_Lock :: "cache_env \<Rightarrow> faults \<Rightarrow> (path \<Rightarrow> vfs \<Rightarrow> go_error option \<times> vfs) \<Rightarrow> cache_Config \<Rightarrow> cache_Key \<Rightarrow> 'k cache_state \<Rightarrow> (go_error + path option) \<times> 'k cache_state" where
  "Repository_Lock E io flock cfg key s =
     (if cc_Storage cfg = StorageNone then (Inr None, s)
      else case computeChecksum (ce_gob E) (ce_sha256 E) key of
             Inl e \<Rightarrow> (Inl (Wrap ''could not compute the key'' e), s)
           | Inr checksum \<Rightarrow>
               (case os_MkdirAll io (cc_Directory cfg) (ca_fs s) of
                  (Some e, w) \<Rightarrow> (Inl (Wrap (''could not create directory '' @ cc_Directory cfg) (OsErr e)), s\<lparr>ca_fs := w\<rparr>)
                | (None, w) \<Rightarrow>
                    (let p = cache_path cfg (checksum @ ''.lock'') in
                     case flock p w of
                       (Some e, w') \<Rightarrow> (Inl (Wrap (''could not lock the cache file '' @ cc_Directory cfg @ ''/'' @ checksum @ ''.lock'') e), s\<lparr>ca_fs := w'\<rparr>)
                     | (None, w') \<Rightarrow> (Inr (Some p), s\<lparr>ca_fs := w'\<rparr>))))"

text \<open>
  \<open>os.RemoveAll\<close> of the directory: a failure comes with the entries that were not removed.  The directories below it are not part
  of the model.
\<close>

definition os_RemoveAll :: "(os_error \<times> path list) option \<Rightarrow> string \<Rightarrow> vfs \<Rightarrow> os_error option \<times> vfs" where
  "os_RemoveAll fault dir w =
     (case fault of
        Some (e, left) \<Rightarrow> (Some e, set_files (filter (\<lambda>(p, n). p_dir p \<noteq> dir \<or> p \<in> set left) (vf_files w)) w)
      | None \<Rightarrow> (None, (set_files (filter (\<lambda>(p, n). p_dir p \<noteq> dir) (vf_files w)) w)\<lparr>vf_dirs := gm_del dir (vf_dirs w)\<rparr>))"

definition DeleteAll :: "'k keyring_api \<Rightarrow> (os_error \<times> path list) option \<Rightarrow> cache_Config \<Rightarrow> 'k cache_state \<Rightarrow> go_error option \<times> 'k cache_state" where
  "DeleteAll R fault cfg s =
     (case cc_Storage cfg of
        StorageDisk \<Rightarrow>
          (case os_RemoveAll fault (cc_Directory cfg) (ca_fs s) of
             (Some e, w) \<Rightarrow> (Some (Wrap (''remove the directory '' @ cc_Directory cfg) (OsErr e)), s\<lparr>ca_fs := w\<rparr>)
           | (None, w) \<Rightarrow> (None, s\<lparr>ca_fs := w\<rparr>))
      | StorageKeyring \<Rightarrow>
          (case kg_DeleteAll R keyringService (ca_ring s) of
             (Some e, r) \<Rightarrow> (Some (Wrap ''keyring delete'' e), s\<lparr>ca_ring := r\<rparr>)
           | (None, r) \<Rightarrow> (None, s\<lparr>ca_ring := r\<rparr>))
      | StorageNone \<Rightarrow> (None, s)
      | StorageOther k \<Rightarrow> (Some (Err (''unknown storage mode: '' @ show_nat k)), s))"

section \<open>What is saved is found\<close>

lemma ok_entity: "ascii (ts_IDToken t) \<Longrightarrow> ascii (ts_RefreshToken t) \<Longrightarrow> ok_json 0 (JObj (entity_members t))"
  by (simp add: entity_members_def maxNestingDepth_def)

lemma decode_encode_key:
  assumes "ascii (ts_IDToken t)" "ascii (ts_RefreshToken t)"
  shows "decodeKey (encodeKey t) = Inr t"
proof -
  have "json_parse (encodeKey t) = Inr (JObj (entity_members t))"
    unfolding encodeKey_def using ok_entity [OF assms] by (rule json_parse_print)
  then show ?thesis
    by (cases t) (auto simp: decodeKey_def entity_members_def entity_member_def select_field_def Let_def)
qed

lemma os_MkdirAll_files [simp]: "vf_files (snd (os_MkdirAll io dir w)) = vf_files w"
  by (simp add: os_MkdirAll_def os_Mkdir_def split: option.split)

lemma os_WriteFile_ok:
  assumes "os_WriteFile io p b perm w = (None, w')" "\<And>n. file_at w p = Some n \<Longrightarrow> n_kind n = Regular"
  shows "\<exists>n. file_at w' p = Some n \<and> n_data n = b \<and> n_kind n = Regular"
  using assms
  by (auto simp: os_WriteFile_def os_Create_def new_node_def f_Write_def set_files_def map_node_def update_conv split: option.splits if_splits)

text \<open>The promise of a keyring: what was set is what is read.\<close>

definition keyring_ok :: "'k keyring_api \<Rightarrow> bool" where
  "keyring_ok R \<longleftrightarrow> (\<forall>service item v ring ring'. kg_Set R service item v ring = (None, ring') \<longrightarrow> kg_Get R service item ring' = Inr v)"

text \<open>
  A saved token set is found again under its key, on disk and in the keyring, and without storage nothing is found.  Where the cache is
  on disk its entry must not be something other than a file.
\<close>

theorem cache_roundtrip:
  assumes "Save E R io cfg key t s = (None, s')" and "ascii (ts_IDToken t)" and "ascii (ts_RefreshToken t)" and "keyring_ok R"
    and "\<And>checksum n. file_at (ca_fs s) (cache_path cfg checksum) = Some n \<Longrightarrow> n_kind n = Regular"
    and "f_open io' = None" and "f_read io' = None"
  shows "FindByKey E R io' cfg key s' = Inr (if cc_Storage cfg = StorageNone then None else Some t)"
proof -
  obtain k where k: "computeChecksum (ce_gob E) (ce_sha256 E) key = Inr k"
    using assms(1) by (auto simp: Save_def split: sum.splits)
  note dec = decode_encode_key [OF assms(2,3)]
  show ?thesis
  proof (cases "cc_Storage cfg")
    case StorageDisk
    then have "writeToFile io cfg k t (ca_fs s) = (None, ca_fs s')" using assms(1) k by (auto simp: Save_def Let_def split: prod.splits)
    then obtain w1 where m: "os_MkdirAll io (cc_Directory cfg) (ca_fs s) = (None, w1)"
      "os_WriteFile io (cache_path cfg k) (encodeKey t) perm600 w1 = (None, ca_fs s')"
      by (auto simp: writeToFile_def split: prod.splits option.splits)
    have "vf_files w1 = vf_files (ca_fs s)" using os_MkdirAll_files [of io "cc_Directory cfg" "ca_fs s"] m(1) by simp
    then obtain n where "file_at (ca_fs s') (cache_path cfg k) = Some n" "n_data n = encodeKey t" "n_kind n = Regular"
      using os_WriteFile_ok [OF m(2)] assms(5) by auto
    then show ?thesis using StorageDisk k dec assms(6,7) by (simp add: FindByKey_def readFromFile_def Let_def)
  next
    case StorageKeyring
    then have "writeToKeyring R k t (ca_ring s) = (None, ca_ring s')" using assms(1) k by (auto simp: Save_def Let_def split: prod.splits)
    then have "kg_Set R keyringService (keyringItemPrefix @ k) (encodeKey t) (ca_ring s) = (None, ca_ring s')"
      by (auto simp: writeToKeyring_def Let_def split: prod.splits option.splits)
    then have "kg_Get R keyringService (keyringItemPrefix @ k) (ca_ring s') = Inr (encodeKey t)" using assms(4) by (auto simp: keyring_ok_def)
    then show ?thesis using StorageKeyring k dec by (simp add: FindByKey_def readFromKeyring_def Let_def)
  qed (use assms(1) k in \<open>auto simp: FindByKey_def Save_def\<close>)
qed

text \<open>A keyring that keeps a list.\<close>

definition demo_ring :: "(string \<times> string \<times> string) list keyring_api" where
  "demo_ring = \<lparr>kg_Get = (\<lambda>s i r. case map_of (map (\<lambda>(s, i, v). ((s, i), v)) r) (s, i) of None \<Rightarrow> Inl (Err ''secret not found in keyring'') | Some v \<Rightarrow> Inr v),
     kg_Set = (\<lambda>s i v r. (None, (s, i, v) # r)), kg_DeleteAll = (\<lambda>s r. (None, filter (\<lambda>(s', i, v). s' \<noteq> s) r))\<rparr>"

theorem cache_roundtrip_witness:
  "let E = \<lparr>ce_gob = (\<lambda>_. Inr ''k''), ce_sha256 = (\<lambda>b. b)\<rparr>; cfg = \<lparr>cc_Directory = ''/c'', cc_Storage = StorageKeyring\<rparr>;
       s = \<lparr>ca_fs = one_dir, ca_ring = []\<rparr>; t = \<lparr>ts_IDToken = ''i'', ts_RefreshToken = ''r''\<rparr>
   in FindByKey E demo_ring (no_faults []) cfg key (snd (Save E demo_ring (no_faults []) cfg key t s)) = Inr (Some t)"
proof -
  let ?E = "\<lparr>ce_gob = (\<lambda>_. Inr ''k''), ce_sha256 = (\<lambda>b. b)\<rparr>" and ?cfg = "\<lparr>cc_Directory = ''/c'', cc_Storage = StorageKeyring\<rparr>"
  let ?s = "\<lparr>ca_fs = one_dir, ca_ring = []\<rparr>" and ?t = "\<lparr>ts_IDToken = ''i'', ts_RefreshToken = ''r''\<rparr>"
  have save: "Save ?E demo_ring (no_faults []) ?cfg key ?t ?s = (None, snd (Save ?E demo_ring (no_faults []) ?cfg key ?t ?s))"
    by (simp add: Save_def computeChecksum_def writeToKeyring_def demo_ring_def Let_def)
  have ring: "keyring_ok demo_ring" by (simp add: keyring_ok_def demo_ring_def)
  have "FindByKey ?E demo_ring (no_faults []) ?cfg key (snd (Save ?E demo_ring (no_faults []) ?cfg key ?t ?s)) =
      Inr (if cc_Storage ?cfg = StorageNone then None else Some ?t)"
    by (rule cache_roundtrip [OF save _ _ ring]) (simp_all add: ascii_def byte_of_def one_dir_def no_faults_def)
  then show ?thesis by (simp add: Let_def)
qed

end
