(* ===== verification/AcceptLoop.thy ===== *)
theory AcceptLoop
  imports ServerInv
begin

text \<open>
  The accept loop of \<open>ListenAndServe\<close> (\<open>pkg/daemon/server.go\<close>) with its semaphore, and the handlers it starts: what each of them leaves
  alone in the server, how many run at once, and with which error the loop ends.
\<close>

section \<open>What no handler touches\<close>

text \<open>
  A relation between states that allows changes of the managers, the states, the time of the last request, the disk, and the shutdown.  Every
  handler, the ticks of the watcher and the callbacks of the timers are within each such relation.
\<close>

locale server_frame =
  fixes keeps :: "Server \<Rightarrow> Server \<Rightarrow> bool"
  assumes same: "keeps s s"
    and upd: "keeps s s' \<Longrightarrow> keeps s (s'\<lparr>sv_managers := ms\<rparr>)" "keeps s s' \<Longrightarrow> keeps s (s'\<lparr>sv_states := sm\<rparr>)"
      "keeps s s' \<Longrightarrow> keeps s (s'\<lparr>sv_managerCount := c\<rparr>)" "keeps s s' \<Longrightarrow> keeps s (s'\<lparr>sv_fs := w\<rparr>)"
      "keeps s s' \<Longrightarrow> keeps s (s'\<lparr>sv_lastRequest := t\<rparr>)"
      "keeps s s' \<Longrightarrow> keeps s (s'\<lparr>sv_shutdown := True, sv_listening := False\<rparr>)"
begin

lemma keeps_parts:
  assumes "keeps s s'"
  shows "keeps s (set_manager k m s')" "keeps s (set_state k a now s')" "keeps s (load_or_store k m req s')"
    "keeps s (snd (evictOldestManagerLocked E s'))" "keeps s (snd (refresh_manager E k s'))" "keeps s (snd (manager_token E k s'))"
    "keeps s (install_token E req expiry s')" "keeps s (Shutdown s')"
  using assms
  by (simp_all add: set_manager_def set_state_def load_or_store_def evictOldestManagerLocked_def refresh_manager_def manager_token_def
      install_token_def Shutdown_def upd Let_def case_prod_beta split: option.split)

lemmas keeps_intros = keeps_parts upd same

lemma keeps_create: "keeps s s' \<Longrightarrow> keeps s (snd (getOrCreateTokenManager E k req s'))"
  by (auto simp: getOrCreateTokenManager_def case_prod_beta Let_def intro!: keeps_intros split: option.split sum.split bool.split)

lemma keeps_reply: "keeps s s' \<Longrightarrow> keeps s (snd (refresh_and_reply E k reply s'))"
  by (auto simp: refresh_and_reply_def case_prod_beta Let_def intro!: keeps_intros split: sum.split)

lemma keeps_serve: "keeps s s' \<Longrightarrow> keeps s (snd (serve_token E req t s'))"
  by (auto simp: serve_token_def intro!: keeps_intros keeps_reply split: option.split)

lemma keeps_check_state: "keeps s s' \<Longrightarrow> keeps s (snd (check_state E k resp s'))"
  by (auto simp: check_state_def case_prod_beta Let_def intro!: keeps_intros split: AuthState.split option.split)

lemma keeps_handlers:
  assumes "keeps s s'"
  shows "keeps s (snd (handleGetToken E req s'))" "keeps s (snd (handleStoreToken E req s'))" "keeps s (snd (handleBeginLogin E req s'))"
    "keeps s (snd (handleCancelLogin E req s'))" "keeps s (snd (handleCheck E req s'))" "keeps s (snd (handleRefresh E req s'))"
    "keeps s (snd (handleHealth E s'))"
  using assms
  by (auto simp: handleGetToken_def handleStoreToken_def make_room_def handleBeginLogin_def handleCancelLogin_def handleCheck_def handleRefresh_def
      handleHealth_def case_prod_beta Let_def intro!: keeps_intros keeps_create keeps_reply keeps_serve keeps_check_state split: option.split sum.split bool.split list.split)

lemma keeps_handleConnection: "keeps s (snd (handleConnection E cred input s))"
  by (auto simp: handleConnection_def dispatch_def case_prod_beta Let_def intro!: keeps_intros keeps_handlers split: option.split sum.split)

lemma keeps_wake: "keeps s s' \<Longrightarrow> keeps s (wake_refresh E k s')"
  by (auto simp: wake_refresh_def case_prod_beta Let_def intro!: keeps_intros split: sum.split)

lemma keeps_wakes: "keeps s s' \<Longrightarrow> keeps s (refreshExpiredTokensAfterWake E now s')"
  unfolding refreshExpiredTokensAfterWake_def
  by (rule fold_invariant [where P = "keeps s" and Q = "\<lambda>_. True"]) (auto simp: case_prod_beta intro!: keeps_intros keeps_wake split: option.split)

lemma keeps_tick: "keeps s (snd (snd (idleWatcher_tick E now (wt, s))))"
  by (auto simp: idleWatcher_tick_def Let_def intro!: keeps_intros keeps_wakes)

lemma keeps_step: "srv_step s s' \<Longrightarrow> keeps s s'"
  by (induction rule: srv_step.induct) (simp_all add: keeps_handleConnection keeps_tick keeps_intros)

end

text \<open>The identity of a daemon: what start-up fixed, and the slots of the semaphore.\<close>

definition identity :: "Server \<Rightarrow> (string \<times> nat \<times> string \<times> nat) \<times> gotime \<times> duration \<times> duration \<times> nat" where
  "identity s = ((sv_runtimeDir s, sv_uid s, sv_nonce s, sv_socketInode s), sv_startTime s, sv_idleTimeout s, sv_idleCheckTick s, sv_conns s)"

interpretation fr: server_frame "\<lambda>s s'. identity s' = identity s"
  by unfold_locales (simp_all add: identity_def)

text \<open>The listener of a serving daemon is closed exactly by its shutdown, and a shutdown is for ever.\<close>

interpretation down: server_frame "\<lambda>s s'. (sv_listening s \<longleftrightarrow> \<not> sv_shutdown s) \<longrightarrow>
    (sv_listening s' \<longleftrightarrow> \<not> sv_shutdown s') \<and> (sv_shutdown s \<longrightarrow> sv_shutdown s')"
  by unfold_locales auto

section \<open>The loop\<close>

text \<open>
  \<open>Accept\<close> returns a connection, or an error of which \<open>net.Error\<close> tells whether it is a timeout.  A handler serves its connection
  (\<open>ac_serving\<close>), then runs its deferred calls (\<open>ac_ending\<close>), the last of which gives the slot back.
\<close>

datatype accept_result = Accepted | AcceptError (ae_timeout: bool) (ae_error: go_error)

datatype accept_status = Looping | Returned "go_error option"

record accept_sys =
  ac_srv :: Server
  ac_serving :: nat
  ac_ending :: nat
  ac_ctxDone :: bool
  ac_loop :: accept_status

definition context_Canceled :: go_error where "context_Canceled = Err ''context canceled''"

definition isAcceptRetryable :: "accept_result \<Rightarrow> bool" where
  "isAcceptRetryable r = ae_timeout r"

text \<open>
  The \<open>select\<close> after an error: when both channels are closed it takes either, which \<open>pick\<close> decides.
\<close>

definition accept_failed :: "bool \<Rightarrow> accept_result \<Rightarrow> accept_sys \<Rightarrow> accept_status" where
  "accept_failed pick r a =
     (if sv_shutdown (ac_srv a) \<and> (pick \<or> \<not> ac_ctxDone a) then Returned None
      else if ac_ctxDone a then Returned (Some context_Canceled)
      else if \<not> isAcceptRetryable r then Returned (Some (Wrap ''fatal accept error'' (ae_error r)))
      else Looping)"

definition accept_step :: "bool \<Rightarrow> accept_result \<Rightarrow> accept_sys \<Rightarrow> accept_sys" where
  "accept_step pick r a =
     (case r of
        AcceptError _ _ \<Rightarrow> a\<lparr>ac_loop := accept_failed pick r a\<rparr>
      | Accepted \<Rightarrow>
          (case accept_conn (ac_srv a) of
             (True, s) \<Rightarrow> a\<lparr>ac_srv := s, ac_serving := Suc (ac_serving a)\<rparr>
           | (False, s) \<Rightarrow> a\<lparr>ac_srv := s\<rparr>))"

text \<open>A handler that returned, or that panicked before it changed anything and was recovered.\<close>

definition handler_done :: "Server \<Rightarrow> accept_sys \<Rightarrow> accept_sys" where
  "handler_done s a = a\<lparr>ac_srv := s, ac_serving := ac_serving a - 1, ac_ending := Suc (ac_ending a)\<rparr>"

definition handler_end :: "accept_sys \<Rightarrow> accept_sys" where
  "handler_end a = a\<lparr>ac_srv := release_conn (ac_srv a), ac_ending := ac_ending a - 1\<rparr>"

text \<open>
  The daemon while it serves.  The listener hands out connections until it is closed: by \<open>Shutdown\<close>, or by the goroutine that waits for
  the context.  After that \<open>Accept\<close> fails.
\<close>

inductive acc_step :: "accept_sys \<Rightarrow> accept_sys \<Rightarrow> bool" where
  accept: "acc_step a (accept_step pick Accepted a)" if "ac_loop a = Looping" "sv_listening (ac_srv a)"
| error: "acc_step a (accept_step pick (AcceptError timeout e) a)" if "ac_loop a = Looping"
| serve: "acc_step a (handler_done (snd (handleConnection E cred input (ac_srv a))) a)" if "0 < ac_serving a" "env_ok E"
| recover: "acc_step a (handler_done (ac_srv a) a)" if "0 < ac_serving a"
| finish: "acc_step a (handler_end a)" if "0 < ac_ending a"
| background: "acc_step a (a\<lparr>ac_srv := s'\<rparr>)" if "srv_step (ac_srv a) s'"
| cancel: "acc_step a (a\<lparr>ac_ctxDone := True\<rparr>)"

inductive acc_reach :: "accept_sys \<Rightarrow> bool" where
  start: "acc_reach \<lparr>ac_srv = (NewServer now uid dir idle tick w)\<lparr>sv_nonce := n, sv_socketInode := i, sv_listening := True\<rparr>,
            ac_serving = 0, ac_ending = 0, ac_ctxDone = False, ac_loop = Looping\<rparr>"
| step: "acc_reach a \<Longrightarrow> acc_step a a' \<Longrightarrow> acc_reach a'"

section \<open>Slots and results\<close>

definition result_ok :: "accept_sys \<Rightarrow> bool" where
  "result_ok a =
     (case ac_loop a of
        Looping \<Rightarrow> True
      | Returned None \<Rightarrow> sv_shutdown (ac_srv a)
      | Returned (Some e) \<Rightarrow> e = context_Canceled \<and> ac_ctxDone a \<or> (\<exists>x. e = Wrap ''fatal accept error'' x))"

definition acc_inv :: "accept_sys \<Rightarrow> bool" where
  "acc_inv a \<longleftrightarrow> sv_inv (ac_srv a) \<and> sv_conns (ac_srv a) = ac_serving a + ac_ending a \<and> sv_conns (ac_srv a) \<le> maxConcurrentConns \<and>
     (sv_listening (ac_srv a) \<longleftrightarrow> \<not> sv_shutdown (ac_srv a)) \<and> result_ok a"

lemma sv_inv_conns [simp]: "sv_inv (s\<lparr>sv_conns := n\<rparr>) = sv_inv s"
  by (simp add: sv_inv_def)

lemma acc_inv_srv:
  assumes "srv_step (ac_srv a) s'" "acc_inv a"
  shows "acc_inv (a\<lparr>ac_srv := s'\<rparr>)"
  using assms inv_srv_step [OF assms(1)] fr.keeps_step [OF assms(1)] down.keeps_step [OF assms(1)]
  by (auto simp: acc_inv_def identity_def result_ok_def split: accept_status.splits option.splits)

lemma acc_inv_done: "acc_inv a \<Longrightarrow> 0 < ac_serving a \<Longrightarrow> acc_inv (handler_done (ac_srv a) a)"
  by (auto simp: acc_inv_def handler_done_def result_ok_def split: accept_status.splits option.splits)

lemma acc_inv_step: "acc_step a a' \<Longrightarrow> acc_inv a \<Longrightarrow> acc_inv a'"
proof (induction rule: acc_step.induct)
  case (serve a E cred input)
  let ?s = "snd (handleConnection E cred input (ac_srv a))"
  have "acc_inv (a\<lparr>ac_srv := ?s\<rparr>)" using acc_inv_srv [OF srv_step.conn [OF serve(2)] serve(3)] .
  then show ?case using acc_inv_done [of "a\<lparr>ac_srv := ?s\<rparr>"] serve(1) by (simp add: handler_done_def)
next
  case (error a pick timeout e)
  then show ?case by (auto simp: acc_inv_def accept_step_def accept_failed_def result_ok_def)
next
  case (accept a pick)
  then show ?case by (auto simp: acc_inv_def accept_step_def accept_conn_def result_ok_def split: accept_status.splits option.splits)
next
  case (finish a)
  then show ?case by (auto simp: acc_inv_def handler_end_def release_conn_def result_ok_def split: accept_status.splits option.splits)
next
  case (cancel a)
  then show ?case by (auto simp: acc_inv_def result_ok_def split: accept_status.splits option.splits)
qed (simp_all add: acc_inv_srv acc_inv_done)

lemma acc_reach_inv: "acc_reach a \<Longrightarrow> acc_inv a"
proof (induction rule: acc_reach.induct)
  case (start now uid dir idle tick w n i)
  show ?case by (simp add: acc_inv_def sv_inv_def NewServer_def NewStateManager_def maxTokenManagers_def result_ok_def)
qed (rule acc_inv_step)

text \<open>
  C15: connections are limited and no slot is lost.  Under every interleaving of new connections, handlers that return or panic, timers and
  ticks, the semaphore counts the handlers that have not ended, at most 256; a connection is turned away only while 256 handlers run, and
  the end of any one of them makes room.  Once the daemon is shut down the listener is closed and the next failure of \<open>Accept\<close> ends the
  loop; it returns no error only then, and otherwise that of the context or a fatal one.
\<close>

theorem accept_slots:
  assumes "acc_reach a"
  shows "sv_conns (ac_srv a) = ac_serving a + ac_ending a \<and> ac_serving a + ac_ending a \<le> 256 \<and>
    (fst (accept_conn (ac_srv a)) \<longleftrightarrow> ac_serving a + ac_ending a < 256) \<and>
    (0 < ac_ending a \<longrightarrow> fst (accept_conn (ac_srv (handler_end a)))) \<and>
    (sv_shutdown (ac_srv a) \<longrightarrow> \<not> sv_listening (ac_srv a) \<and> (\<forall>pick t e. ac_loop (accept_step pick (AcceptError t e) a) \<noteq> Looping)) \<and>
    result_ok a"
  using acc_reach_inv [OF assms]
  by (auto simp: acc_inv_def maxConcurrentConns_def accept_conn_def handler_end_def release_conn_def accept_step_def accept_failed_def)

theorem accept_slots_witness:
  "let a = accept_step True Accepted \<lparr>ac_srv = demo_server, ac_serving = 0, ac_ending = 0, ac_ctxDone = False, ac_loop = Looping\<rparr>
   in sv_conns (ac_srv a) = 1 \<and> fst (accept_conn (ac_srv a)) \<and> sv_conns (ac_srv (handler_end (handler_done (ac_srv a) a))) = 0"
proof -
  let ?a = "accept_step True Accepted \<lparr>ac_srv = demo_server, ac_serving = 0, ac_ending = 0, ac_ctxDone = False, ac_loop = Looping\<rparr>"
  have "acc_reach ?a" unfolding demo_server_def
    by (rule acc_reach.step [OF acc_reach.start acc_step.accept]) (simp_all add: NewServer_def)
  from accept_slots [OF this] show ?thesis
    by (simp add: Let_def accept_step_def accept_conn_def demo_server_def NewServer_def maxConcurrentConns_def handler_done_def handler_end_def
        release_conn_def)
qed

end
