(* ===== verification/CommandLine.thy ===== *)
theory CommandLine
  imports SetupInstall SetupConfig DaemonCmd AcceptLoop
begin

text \<open>
  The command tree of \<open>main.go\<close>: the flags every command registers, what its \<open>RunE\<close> does before it hands over to the functions of the other
  theories, and the exit code.  The flag library is a parameter; what its documentation promises about an argument is a hypothesis.
\<close>

section \<open>Flags\<close>

datatype flag_kind = KString | KBool | KInt | KDuration | KStringSlice | KStringArray | KStringToString

text \<open>The default is the text the library would print for it.\<close>

record flag =
  fl_name :: string
  fl_kind :: flag_kind
  fl_default :: string
  fl_required :: bool
  fl_hidden :: bool

definition flag_of :: "flag_kind \<Rightarrow> string \<Rightarrow> flag" where
  "flag_of k n = \<lparr>fl_name = n, fl_kind = k, fl_default = (case k of KBool \<Rightarrow> ''false'' | KInt \<Rightarrow> ''0'' | KDuration \<Rightarrow> ''0s'' | _ \<Rightarrow> []),
     fl_required = False, fl_hidden = False\<rparr>"

definition MarkFlagRequired :: "string \<Rightarrow> flag list \<Rightarrow> flag list" where
  "MarkFlagRequired n fs = map (\<lambda>f. if fl_name f = n then f\<lparr>fl_required := True\<rparr> else f) fs"

definition MarkHidden :: "string \<Rightarrow> flag list \<Rightarrow> flag list" where
  "MarkHidden n fs = map (\<lambda>f. if fl_name f = n then f\<lparr>fl_hidden := True\<rparr> else f) fs"

definition root_flags :: "flag list" where
  "root_flags = [flag_of KString ''kubeconfig'']"

definition daemon_start_flags :: "flag list" where
  "daemon_start_flags = MarkHidden ''foreground'' [flag_of KBool ''foreground'', flag_of KBool ''verbose'', flag_of KDuration ''idle-timeout'']"

definition daemon_status_flags :: "flag list" where
  "daemon_status_flags = [flag_of KBool ''json'']"

definition get_token_own_flags :: "flag list" where
  "get_token_own_flags = MarkHidden ''oidc-auth-request-extra-params'' (MarkFlagRequired ''oidc-client-id'' (MarkFlagRequired ''oidc-issuer-url''
     [flag_of KString ''oidc-issuer-url'', flag_of KString ''oidc-client-id'', flag_of KString ''oidc-client-secret'',
      flag_of KStringSlice ''oidc-extra-scope'', flag_of KStringToString ''oidc-extra-param'',
      flag_of KStringToString ''oidc-auth-request-extra-params'', flag_of KStringToString ''oidc-request-header'',
      flag_of KString ''username'', (flag_of KString ''grant-type'')\<lparr>fl_default := ''auto''\<rparr>, flag_of KBool ''oidc-use-access-token'',
      flag_of KBool ''force-refresh'']))"

definition compatFlags :: "string list" where
  "compatFlags = [''token-cache-dir'', ''token-cache-storage'', ''certificate-authority'', ''certificate-authority-data'',
     ''insecure-skip-tls-verify'', ''tls-renegotiation-once'', ''tls-renegotiation-freely'', ''oidc-pkce-method'', ''oidc-use-pkce'',
     ''listen-address'', ''skip-open-browser'', ''browser-command'', ''authentication-timeout-sec'', ''local-server-cert'', ''local-server-key'',
     ''open-url-after-authentication'', ''password'', ''oidc-redirect-url'', ''oidc-redirect-url-hostname'',
     ''oidc-redirect-url-authcode-keyboard'', ''oidc-access-type'', ''v'']"

definition registerUpstreamCompatFlags :: "flag list" where
  "registerUpstreamCompatFlags = fold MarkHidden compatFlags
     [flag_of KString ''token-cache-dir'', flag_of KString ''token-cache-storage'',
      flag_of KStringArray ''certificate-authority'', flag_of KStringArray ''certificate-authority-data'', flag_of KBool ''insecure-skip-tls-verify'',
      flag_of KBool ''tls-renegotiation-once'', flag_of KBool ''tls-renegotiation-freely'',
      flag_of KString ''oidc-pkce-method'', flag_of KBool ''oidc-use-pkce'',
      flag_of KStringSlice ''listen-address'', flag_of KBool ''skip-open-browser'', flag_of KString ''browser-command'',
      flag_of KInt ''authentication-timeout-sec'', flag_of KString ''local-server-cert'', flag_of KString ''local-server-key'',
      flag_of KString ''open-url-after-authentication'', flag_of KString ''password'',
      flag_of KString ''oidc-redirect-url'', flag_of KString ''oidc-redirect-url-hostname'', flag_of KString ''oidc-redirect-url-authcode-keyboard'',
      flag_of KString ''oidc-access-type'', flag_of KInt ''v'']"

definition get_token_flags :: "flag list" where
  "get_token_flags = get_token_own_flags @ registerUpstreamCompatFlags"

definition addOIDCFlags :: "bool \<Rightarrow> bool \<Rightarrow> bool \<Rightarrow> flag list" where
  "addOIDCFlags includeContext includeGrantType includeUsername =
     (if includeContext then [flag_of KString ''context''] else []) @
     [flag_of KString ''oidc-issuer-url'', flag_of KString ''oidc-client-id'', flag_of KString ''oidc-client-secret'',
      flag_of KStringSlice ''oidc-extra-scope'', flag_of KStringToString ''oidc-extra-param'', flag_of KStringToString ''oidc-request-header''] @
     (if includeGrantType then [(flag_of KString ''grant-type'')\<lparr>fl_default := ''auto''\<rparr>] else []) @
     (if includeUsername then [flag_of KString ''username''] else []) @
     [flag_of KBool ''oidc-use-access-token'']"

definition login_flags :: "flag list" where
  "login_flags = addOIDCFlags True True False"

definition check_flags :: "flag list" where
  "check_flags = flag_of KBool ''json'' # addOIDCFlags True False True"

definition refresh_flags :: "flag list" where
  "refresh_flags = flag_of KBool ''quiet'' # addOIDCFlags True True True"

definition install_flags :: "flag list" where
  "install_flags = MarkFlagRequired ''oidc-client-id'' (MarkFlagRequired ''oidc-issuer-url''
     (addOIDCFlags False True False @ [(flag_of KString ''user'')\<lparr>fl_default := ''oidc''\<rparr>, flag_of KString ''cluster'',
        flag_of KBool ''skip-auth-test'', flag_of KBool ''dry-run'', (flag_of KBool ''backup'')\<lparr>fl_default := ''true''\<rparr>]))"

definition migrate_flags :: "flag list" where
  "migrate_flags = [flag_of KString ''context'', flag_of KBool ''dry-run'', flag_of KBool ''yes'', (flag_of KBool ''backup'')\<lparr>fl_default := ''true''\<rparr>]"

definition upgrade_flags :: "flag list" where
  "upgrade_flags = [flag_of KBool ''dry-run'', flag_of KBool ''yes'', (flag_of KBool ''backup'')\<lparr>fl_default := ''true''\<rparr>, flag_of KBool ''keep-old'']"

text \<open>The commands by their path, with \<open>clean\<close> under its alias too.\<close>

definition command_tree :: "(string list \<times> flag list) list" where
  "command_tree = [([''daemon'', ''start''], daemon_start_flags), ([''daemon'', ''stop''], []), ([''daemon'', ''status''], daemon_status_flags),
     ([''get-token''], get_token_flags), ([''login''], login_flags), ([''check''], check_flags), ([''refresh''], refresh_flags),
     ([''setup'', ''install''], install_flags), ([''setup'', ''migrate''], migrate_flags), ([''setup'', ''upgrade''], upgrade_flags),
     ([''clean''], []), ([''logout''], [])]"

lemma command_flags_distinct:
  "list_all (\<lambda>(p, fs). distinct (map fl_name (root_flags @ fs))) command_tree"
  by code_simp

section \<open>The variables of get-token\<close>

text \<open>
  The values before any argument, and the documented effect of one occurrence of a flag: a string or a boolean replaces, a slice adds the
  fields between commas, an array adds the value, a map adds the pair.  Flags that are only accepted have no variable.
\<close>

definition zero_get_flags :: get_flags where
  "zero_get_flags = \<lparr>gf_issuerURL = [], gf_clientID = [], gf_clientSecret = [], gf_extraScopes = [], gf_extraParams = [], gf_requestHeaders = [],
     gf_username = [], gf_grantType = ''auto'', gf_useAccessToken = False, gf_forceRefresh = False, gf_certificateAuthority = [],
     gf_certificateAuthorityData = [], gf_insecureSkipTLSVerify = False, gf_tlsRenegotiationOnce = False, gf_tlsRenegotiationFreely = False,
     gf_redirectURL = [], gf_pkceMethod = [], gf_usePKCE = False\<rparr>"

definition key_kind :: "string \<Rightarrow> flag_kind option" where
  "key_kind k = map_option fl_kind (find (\<lambda>f. ''--'' @ fl_name f = k) get_token_flags)"

fun set_string :: "flag_kind \<Rightarrow> string \<Rightarrow> string \<Rightarrow> string" where
  "set_string KString val old = val"
| "set_string _ val old = old"

fun set_bool :: "flag_kind \<Rightarrow> string \<Rightarrow> bool \<Rightarrow> bool" where
  "set_bool KBool val old = (val = ''true'')"
| "set_bool _ val old = old"

fun set_strings :: "flag_kind \<Rightarrow> string \<Rightarrow> string list \<Rightarrow> string list" where
  "set_strings KStringSlice val old = old @ split_on (CHR '','') val"
| "set_strings KStringArray val old = old @ [val]"
| "set_strings _ val old = old"

fun set_map :: "flag_kind \<Rightarrow> string \<Rightarrow> (string \<times> string) list \<Rightarrow> (string \<times> string) list" where
  "set_map KStringToString val old = add_pair val old"
| "set_map _ val old = old"

text \<open>Which variable a flag is registered with; how the value changes it is a matter of the kind it is registered with.\<close>

definition bind_flag :: "string \<Rightarrow> string \<Rightarrow> get_flags \<Rightarrow> get_flags" where
  "bind_flag key val g =
     (case key_kind key of
        None \<Rightarrow> g
      | Some kd \<Rightarrow>
         if key = ''--oidc-issuer-url'' then g\<lparr>gf_issuerURL := set_string kd val (gf_issuerURL g)\<rparr>
         else if key = ''--oidc-client-id'' then g\<lparr>gf_clientID := set_string kd val (gf_clientID g)\<rparr>
         else if key = ''--oidc-client-secret'' then g\<lparr>gf_clientSecret := set_string kd val (gf_clientSecret g)\<rparr>
         else if key = ''--oidc-extra-scope'' then g\<lparr>gf_extraScopes := set_strings kd val (gf_extraScopes g)\<rparr>
         else if key = ''--oidc-extra-param'' \<or> key = ''--oidc-auth-request-extra-params'' then g\<lparr>gf_extraParams := set_map kd val (gf_extraParams g)\<rparr>
         else if key = ''--oidc-request-header'' then g\<lparr>gf_requestHeaders := set_map kd val (gf_requestHeaders g)\<rparr>
         else if key = ''--username'' then g\<lparr>gf_username := set_string kd val (gf_username g)\<rparr>
         else if key = ''--grant-type'' then g\<lparr>gf_grantType := set_string kd val (gf_grantType g)\<rparr>
         else if key = ''--oidc-use-access-token'' then g\<lparr>gf_useAccessToken := set_bool kd val (gf_useAccessToken g)\<rparr>
         else if key = ''--force-refresh'' then g\<lparr>gf_forceRefresh := set_bool kd val (gf_forceRefresh g)\<rparr>
         else if key = ''--certificate-authority'' then g\<lparr>gf_certificateAuthority := set_strings kd val (gf_certificateAuthority g)\<rparr>
         else if key = ''--certificate-authority-data'' then g\<lparr>gf_certificateAuthorityData := set_strings kd val (gf_certificateAuthorityData g)\<rparr>
         else if key = ''--insecure-skip-tls-verify'' then g\<lparr>gf_insecureSkipTLSVerify := set_bool kd val (gf_insecureSkipTLSVerify g)\<rparr>
         else if key = ''--tls-renegotiation-once'' then g\<lparr>gf_tlsRenegotiationOnce := set_bool kd val (gf_tlsRenegotiationOnce g)\<rparr>
         else if key = ''--tls-renegotiation-freely'' then g\<lparr>gf_tlsRenegotiationFreely := set_bool kd val (gf_tlsRenegotiationFreely g)\<rparr>
         else if key = ''--oidc-redirect-url'' then g\<lparr>gf_redirectURL := set_string kd val (gf_redirectURL g)\<rparr>
         else if key = ''--oidc-pkce-method'' then g\<lparr>gf_pkceMethod := set_string kd val (gf_pkceMethod g)\<rparr>
         else if key = ''--oidc-use-pkce'' then g\<lparr>gf_usePKCE := set_bool kd val (gf_usePKCE g)\<rparr>
         else g)"

text \<open>An occurrence: a key with its value; a bare boolean flag means \<open>true\<close>.\<close>

fun occurrence :: "flag_item \<Rightarrow> (string \<times> string) option" where
  "occurrence (Positional a) = None"
| "occurrence (Joined k v) = Some (k, v)"
| "occurrence (Separate k v) = Some (k, v)"
| "occurrence (Bare k) = Some (k, ''true'')"

text \<open>
  The values whose reading the documentation of a kind fixes.  A slice or a map is read as one record of comma-separated values: a quote opens a
  quoted field, and a line break ends the record.  A number with a leading zero is octal, or an error.
\<close>

definition csv_plain :: "string \<Rightarrow> bool" where
  "csv_plain v \<longleftrightarrow> list_all (\<lambda>c. c \<notin> {CHR 0x22, CHR 0x0A, CHR 0x0D}) v"

fun documented_value :: "flag_kind \<Rightarrow> string \<Rightarrow> bool" where
  "documented_value KString v \<longleftrightarrow> True"
| "documented_value KBool v \<longleftrightarrow> v \<in> {''true'', ''false''}"
| "documented_value KInt v \<longleftrightarrow> v = ''0'' \<or> v \<noteq> [] \<and> hd v \<noteq> CHR ''0'' \<and> list_all is_digit v \<and> length v < 10"
| "documented_value KDuration v \<longleftrightarrow> False"
| "documented_value KStringSlice v \<longleftrightarrow> v \<noteq> [] \<and> csv_plain v"
| "documented_value KStringArray v \<longleftrightarrow> True"
| "documented_value KStringToString v \<longleftrightarrow> CHR ''='' \<in> set v \<and> CHR '','' \<notin> set v \<and> csv_plain v"

fun documented :: "flag_item \<Rightarrow> bool" where
  "documented (Positional a) \<longleftrightarrow> \<not> prefix ''-'' a"
| "documented (Joined k v) \<longleftrightarrow> (case key_kind k of None \<Rightarrow> False | Some kd \<Rightarrow> documented_value kd v)"
| "documented (Separate k v) \<longleftrightarrow> (case key_kind k of None \<Rightarrow> False | Some kd \<Rightarrow> kd \<noteq> KBool \<and> documented_value kd v)"
| "documented (Bare k) \<longleftrightarrow> key_kind k = Some KBool"

definition bind_items :: "flag_item list \<Rightarrow> get_flags \<Rightarrow> get_flags" where
  "bind_items items g = fold (\<lambda>it g. case occurrence it of None \<Rightarrow> g | Some (k, v) \<Rightarrow> bind_flag k v g) items g"

text \<open>
  What the flag library promises of \<open>parse\<close>, the reading of its arguments by the flag set of \<open>get-token\<close> and the check of the required flags: arguments
  in the documented forms, with the required flags among them, are accepted and bound in order.
\<close>

definition keys_of :: "flag_item list \<Rightarrow> string list" where
  "keys_of items = map fst (List.map_filter occurrence items)"

text \<open>The two names of the extra parameters share one variable; what a mix of them does is not documented.\<close>

definition both_aliases :: "flag_item list \<Rightarrow> bool" where
  "both_aliases items \<longleftrightarrow> {''--oidc-extra-param'', ''--oidc-auth-request-extra-params''} \<subseteq> set (keys_of items)"

definition library_documented :: "(string list \<Rightarrow> go_error + get_flags) \<Rightarrow> bool" where
  "library_documented parse \<longleftrightarrow>
     (\<forall>items. list_all documented items \<longrightarrow> list_all (\<lambda>f. fl_required f \<longrightarrow> ''--'' @ fl_name f \<in> set (keys_of items)) get_token_flags \<longrightarrow>
        \<not> both_aliases items \<longrightarrow>
        parse (concat (map render_item items)) = Inr (bind_items items zero_get_flags))"

section \<open>Two parsers of the same arguments\<close>

text \<open>
  Values that both parsers read alike: scopes without blanks and empty fields between the commas, no empty file name, and switches that are
  not turned off again.
\<close>

definition plain_value :: "string \<Rightarrow> string \<Rightarrow> bool" where
  "plain_value k v \<longleftrightarrow>
     (if k = ''--oidc-extra-scope'' then list_all (\<lambda>s. s \<noteq> [] \<and> TrimSpace s = s) (split_on (CHR '','') v)
      else if k \<in> {''--certificate-authority'', ''--certificate-authority-data''} then v \<noteq> []
      else if k \<in> {''--tls-renegotiation-once'', ''--tls-renegotiation-freely'', ''--oidc-use-pkce''} then v = ''true''
      else True)"

definition plain_items :: "flag_item list \<Rightarrow> bool" where
  "plain_items items \<longleftrightarrow> list_all (\<lambda>it. case occurrence it of None \<Rightarrow> True | Some (k, v) \<Rightarrow> plain_value k v) items \<and>
     \<not> {''--tls-renegotiation-once'', ''--tls-renegotiation-freely''} \<subseteq> set (keys_of items) \<and>
     \<not> {''--oidc-pkce-method'', ''--oidc-use-pkce''} \<subseteq> set (keys_of items)"

text \<open>Every registered flag is read by \<open>parseExecArgs\<close> with the arity the library gives it.\<close>

lemma registered_flags:
  "list_all (\<lambda>f. let k = ''--'' @ fl_name f in flag_name k \<and> double_dash k = k \<and> (k \<in> set boolFlags \<longleftrightarrow> fl_kind f = KBool)) get_token_flags"
  by code_simp

lemma key_kindD:
  assumes "key_kind k = Some kd"
  shows "flag_name k" "double_dash k = k" "k \<in> set boolFlags \<longleftrightarrow> kd = KBool"
proof -
  from assms obtain i where "i < length get_token_flags" "k = ''--'' @ fl_name (get_token_flags ! i)" "kd = fl_kind (get_token_flags ! i)"
    by (auto simp: key_kind_def find_Some_iff)
  then obtain f where "f \<in> set get_token_flags" "k = ''--'' @ fl_name f" "kd = fl_kind f" using nth_mem by blast
  then show "flag_name k" "double_dash k = k" "k \<in> set boolFlags \<longleftrightarrow> kd = KBool"
    using registered_flags by (auto simp: list_all_iff Let_def)
qed

lemma scopes_of_plain: "plain_value ''--oidc-extra-scope'' v \<Longrightarrow> scopes_of v = split_on (CHR '','') v"
  unfolding scopes_of_def plain_value_def by (simp add: list_all_iff map_idI filter_id_conv)

text \<open>The invariant of reading in parallel, for the set of keys that occur.\<close>

definition reading :: "string set \<Rightarrow> get_flags \<Rightarrow> parsedOIDCConfig \<Rightarrow> bool" where
  "reading K g p \<longleftrightarrow> flags_agree g p \<and> (gf_tlsRenegotiationOnce g \<longrightarrow> ''--tls-renegotiation-once'' \<in> K) \<and>
     (gf_tlsRenegotiationFreely g \<longrightarrow> ''--tls-renegotiation-freely'' \<in> K) \<and>
     (gf_usePKCE g \<longrightarrow> ''--oidc-use-pkce'' \<in> K) \<and> (gf_pkceMethod g \<noteq> [] \<longrightarrow> ''--oidc-pkce-method'' \<in> K)"

definition flag_table :: "(string \<times> flag_kind) list" where
  "flag_table = map (\<lambda>f. (''--'' @ fl_name f, fl_kind f)) get_token_flags"

lemma flag_table_eq:
  "flag_table = [(''--oidc-issuer-url'', KString), (''--oidc-client-id'', KString), (''--oidc-client-secret'', KString),
     (''--oidc-extra-scope'', KStringSlice), (''--oidc-extra-param'', KStringToString), (''--oidc-auth-request-extra-params'', KStringToString),
     (''--oidc-request-header'', KStringToString), (''--username'', KString), (''--grant-type'', KString), (''--oidc-use-access-token'', KBool),
     (''--force-refresh'', KBool), (''--token-cache-dir'', KString), (''--token-cache-storage'', KString), (''--certificate-authority'', KStringArray),
     (''--certificate-authority-data'', KStringArray), (''--insecure-skip-tls-verify'', KBool), (''--tls-renegotiation-once'', KBool),
     (''--tls-renegotiation-freely'', KBool), (''--oidc-pkce-method'', KString), (''--oidc-use-pkce'', KBool), (''--listen-address'', KStringSlice),
     (''--skip-open-browser'', KBool), (''--browser-command'', KString), (''--authentication-timeout-sec'', KInt), (''--local-server-cert'', KString),
     (''--local-server-key'', KString), (''--open-url-after-authentication'', KString), (''--password'', KString), (''--oidc-redirect-url'', KString),
     (''--oidc-redirect-url-hostname'', KString), (''--oidc-redirect-url-authcode-keyboard'', KString), (''--oidc-access-type'', KString), (''--v'', KInt)]"
  by code_simp

lemma key_kind_table: "key_kind k = Some kd \<Longrightarrow> (k, kd) \<in> set flag_table"
  by (auto simp: key_kind_def find_Some_iff flag_table_def)

lemma key_kinds:
  "key_kind ''--oidc-issuer-url'' = Some KString" "key_kind ''--oidc-client-id'' = Some KString" "key_kind ''--oidc-client-secret'' = Some KString"
  "key_kind ''--oidc-extra-scope'' = Some KStringSlice" "key_kind ''--oidc-extra-param'' = Some KStringToString"
  "key_kind ''--oidc-auth-request-extra-params'' = Some KStringToString" "key_kind ''--oidc-request-header'' = Some KStringToString"
  "key_kind ''--username'' = Some KString" "key_kind ''--grant-type'' = Some KString" "key_kind ''--oidc-use-access-token'' = Some KBool"
  "key_kind ''--force-refresh'' = Some KBool" "key_kind ''--certificate-authority'' = Some KStringArray"
  "key_kind ''--certificate-authority-data'' = Some KStringArray" "key_kind ''--insecure-skip-tls-verify'' = Some KBool"
  "key_kind ''--tls-renegotiation-once'' = Some KBool" "key_kind ''--tls-renegotiation-freely'' = Some KBool"
  "key_kind ''--oidc-redirect-url'' = Some KString" "key_kind ''--oidc-pkce-method'' = Some KString" "key_kind ''--oidc-use-pkce'' = Some KBool"
  by code_simp+

text \<open>The flags that matter for the cache key, in both parsers.\<close>

lemma bind_at:
  "bind_flag ''--oidc-issuer-url'' v g = g\<lparr>gf_issuerURL := v\<rparr>"
  "bind_flag ''--oidc-client-id'' v g = g\<lparr>gf_clientID := v\<rparr>"
  "bind_flag ''--oidc-client-secret'' v g = g\<lparr>gf_clientSecret := v\<rparr>"
  "bind_flag ''--oidc-extra-scope'' v g = g\<lparr>gf_extraScopes := gf_extraScopes g @ split_on (CHR '','') v\<rparr>"
  "bind_flag ''--oidc-extra-param'' v g = g\<lparr>gf_extraParams := add_pair v (gf_extraParams g)\<rparr>"
  "bind_flag ''--oidc-request-header'' v g = g\<lparr>gf_requestHeaders := add_pair v (gf_requestHeaders g)\<rparr>"
  "bind_flag ''--username'' v g = g\<lparr>gf_username := v\<rparr>"
  "bind_flag ''--oidc-use-access-token'' v g = g\<lparr>gf_useAccessToken := v = ''true''\<rparr>"
  "bind_flag ''--certificate-authority'' v g = g\<lparr>gf_certificateAuthority := gf_certificateAuthority g @ [v]\<rparr>"
  "bind_flag ''--certificate-authority-data'' v g = g\<lparr>gf_certificateAuthorityData := gf_certificateAuthorityData g @ [v]\<rparr>"
  "bind_flag ''--insecure-skip-tls-verify'' v g = g\<lparr>gf_insecureSkipTLSVerify := v = ''true''\<rparr>"
  "bind_flag ''--tls-renegotiation-once'' v g = g\<lparr>gf_tlsRenegotiationOnce := v = ''true''\<rparr>"
  "bind_flag ''--tls-renegotiation-freely'' v g = g\<lparr>gf_tlsRenegotiationFreely := v = ''true''\<rparr>"
  "bind_flag ''--oidc-redirect-url'' v g = g\<lparr>gf_redirectURL := v\<rparr>"
  "bind_flag ''--oidc-pkce-method'' v g = g\<lparr>gf_pkceMethod := v\<rparr>"
  "bind_flag ''--oidc-use-pkce'' v g = g\<lparr>gf_usePKCE := v = ''true''\<rparr>"
  "bind_flag ''--oidc-auth-request-extra-params'' v g = g\<lparr>gf_extraParams := add_pair v (gf_extraParams g)\<rparr>"
  by (simp_all add: bind_flag_def key_kinds)

lemma apply_at:
  "apply_flag ''--oidc-issuer-url'' v p = p\<lparr>pc_issuerURL := v\<rparr>"
  "apply_flag ''--oidc-client-id'' v p = p\<lparr>pc_clientID := v\<rparr>"
  "apply_flag ''--oidc-client-secret'' v p = p\<lparr>pc_clientSecret := v\<rparr>"
  "apply_flag ''--oidc-extra-scope'' v p = (if v \<noteq> [] then p\<lparr>pc_extraScopes := pc_extraScopes p @ scopes_of v\<rparr> else p)"
  "apply_flag ''--oidc-extra-param'' v p = (if v \<noteq> [] then p\<lparr>pc_extraParams := add_pair v (pc_extraParams p)\<rparr> else p)"
  "apply_flag ''--oidc-request-header'' v p = (if v \<noteq> [] then p\<lparr>pc_requestHeaders := add_pair v (pc_requestHeaders p)\<rparr> else p)"
  "apply_flag ''--username'' v p = p\<lparr>pc_username := v\<rparr>"
  "apply_flag ''--oidc-use-access-token'' v p = p\<lparr>pc_useAccessToken := v \<noteq> ''false''\<rparr>"
  "apply_flag ''--certificate-authority'' v p = (if v \<noteq> [] then p\<lparr>pc_caCertFilename := pc_caCertFilename p @ [v]\<rparr> else p)"
  "apply_flag ''--certificate-authority-data'' v p = (if v \<noteq> [] then p\<lparr>pc_caCertData := pc_caCertData p @ [v]\<rparr> else p)"
  "apply_flag ''--insecure-skip-tls-verify'' v p = p\<lparr>pc_skipTLSVerify := v \<noteq> ''false''\<rparr>"
  "apply_flag ''--tls-renegotiation-once'' v p = (if v \<noteq> ''false'' then p\<lparr>pc_renegotiation := 1\<rparr> else p)"
  "apply_flag ''--tls-renegotiation-freely'' v p = (if v \<noteq> ''false'' then p\<lparr>pc_renegotiation := 2\<rparr> else p)"
  "apply_flag ''--oidc-redirect-url'' v p = p\<lparr>pc_redirectURL := v\<rparr>"
  "apply_flag ''--oidc-pkce-method'' v p = p\<lparr>pc_pkceMethod := parsePKCEMethod v\<rparr>"
  "apply_flag ''--oidc-use-pkce'' v p = (if v \<noteq> ''false'' then p\<lparr>pc_pkceMethod := PKCEMethodS256\<rparr> else p)"
  "apply_flag ''--oidc-auth-request-extra-params'' v p = (if v \<noteq> [] then p\<lparr>pc_extraParams := add_pair v (pc_extraParams p)\<rparr> else p)"
  by (simp_all add: apply_flag_def)

lemma bind_other:
  "bind_flag ''--grant-type'' v g = g\<lparr>gf_grantType := v\<rparr>"
  "bind_flag ''--force-refresh'' v g = g\<lparr>gf_forceRefresh := v = ''true''\<rparr>"
  "bind_flag ''--token-cache-dir'' v g = g"
  "bind_flag ''--token-cache-storage'' v g = g"
  "bind_flag ''--listen-address'' v g = g"
  "bind_flag ''--skip-open-browser'' v g = g"
  "bind_flag ''--browser-command'' v g = g"
  "bind_flag ''--authentication-timeout-sec'' v g = g"
  "bind_flag ''--local-server-cert'' v g = g"
  "bind_flag ''--local-server-key'' v g = g"
  "bind_flag ''--open-url-after-authentication'' v g = g"
  "bind_flag ''--oidc-redirect-url-hostname'' v g = g"
  "bind_flag ''--password'' v g = g"
  "bind_flag ''--oidc-redirect-url-authcode-keyboard'' v g = g"
  "bind_flag ''--oidc-access-type'' v g = g"
  "bind_flag ''--v'' v g = g"
  by (simp_all add: bind_flag_def key_kinds split: option.split)

lemma apply_other:
  "apply_flag ''--grant-type'' v p = p\<lparr>pc_grantType := v\<rparr>"
  "apply_flag ''--force-refresh'' v p = p\<lparr>pc_forceRefresh := v \<noteq> ''false''\<rparr>"
  "apply_flag ''--token-cache-dir'' v p = p\<lparr>pc_tokenCacheDir := v\<rparr>"
  "apply_flag ''--token-cache-storage'' v p = p\<lparr>pc_tokenCacheStorage := v\<rparr>"
  "apply_flag ''--listen-address'' v p = (if v \<noteq> [] then p\<lparr>pc_listenAddress := pc_listenAddress p @ [v]\<rparr> else p)"
  "apply_flag ''--skip-open-browser'' v p = p\<lparr>pc_skipOpenBrowser := v \<noteq> ''false''\<rparr>"
  "apply_flag ''--browser-command'' v p = p\<lparr>pc_browserCommand := v\<rparr>"
  "apply_flag ''--authentication-timeout-sec'' v p = (if v \<noteq> [] then (case parseIntSafe v of Some n \<Rightarrow> p\<lparr>pc_authenticationTimeoutSec := n\<rparr> | None \<Rightarrow> p) else p)"
  "apply_flag ''--local-server-cert'' v p = p\<lparr>pc_localServerCertFile := v\<rparr>"
  "apply_flag ''--local-server-key'' v p = p\<lparr>pc_localServerKeyFile := v\<rparr>"
  "apply_flag ''--open-url-after-authentication'' v p = p\<lparr>pc_openURLAfterAuthentication := v\<rparr>"
  "apply_flag ''--oidc-redirect-url-hostname'' v p = p\<lparr>pc_redirectURLHostname := v\<rparr>"
  "apply_flag ''--password'' v p = p"
  "apply_flag ''--oidc-redirect-url-authcode-keyboard'' v p = p"
  "apply_flag ''--oidc-access-type'' v p = p"
  "apply_flag ''--v'' v p = p"
  by (simp_all add: apply_flag_def)

lemmas at_flags = bind_at apply_at bind_other apply_other

definition switches :: "string list" where
  "switches = [''--tls-renegotiation-once'', ''--tls-renegotiation-freely'', ''--oidc-pkce-method'', ''--oidc-use-pkce'']"

lemma reading_switch:
  assumes "reading K g p" "k \<in> K" "k \<in> set switches" "plain_value k v"
    and "\<not> {''--tls-renegotiation-once'', ''--tls-renegotiation-freely''} \<subseteq> K" "\<not> {''--oidc-pkce-method'', ''--oidc-use-pkce''} \<subseteq> K"
  shows "reading K (bind_flag k v g) (apply_flag k v p)"
  using assms(3,1,2,4-) unfolding switches_def list.set insert_iff empty_iff
  by (elim disjE FalseE; hypsubst) (auto simp: at_flags reading_def flags_agree_def plain_value_def)

lemma documented_nonempty:
  "documented_value KStringToString v \<Longrightarrow> v \<noteq> []" "documented_value KStringSlice v \<Longrightarrow> v \<noteq> []" "documented_value KInt v \<Longrightarrow> v \<noteq> []"
  "documented_value KBool v \<Longrightarrow> (v = ''true'') = (v \<noteq> ''false'')"
  by auto

lemma agree_updates:
  assumes "flags_agree g p"
  shows "flags_agree (g\<lparr>gf_issuerURL := v\<rparr>) (p\<lparr>pc_issuerURL := v\<rparr>)"
    "flags_agree (g\<lparr>gf_clientID := v\<rparr>) (p\<lparr>pc_clientID := v\<rparr>)"
    "flags_agree (g\<lparr>gf_clientSecret := v\<rparr>) (p\<lparr>pc_clientSecret := v\<rparr>)"
    "flags_agree (g\<lparr>gf_username := v\<rparr>) (p\<lparr>pc_username := v\<rparr>)"
    "flags_agree (g\<lparr>gf_redirectURL := v\<rparr>) (p\<lparr>pc_redirectURL := v\<rparr>)"
    "flags_agree (g\<lparr>gf_useAccessToken := b\<rparr>) (p\<lparr>pc_useAccessToken := b\<rparr>)"
    "flags_agree (g\<lparr>gf_insecureSkipTLSVerify := b\<rparr>) (p\<lparr>pc_skipTLSVerify := b\<rparr>)"
    "flags_agree (g\<lparr>gf_extraScopes := gf_extraScopes g @ xs\<rparr>) (p\<lparr>pc_extraScopes := pc_extraScopes p @ xs\<rparr>)"
    "flags_agree (g\<lparr>gf_extraParams := add_pair v (gf_extraParams g)\<rparr>) (p\<lparr>pc_extraParams := add_pair v (pc_extraParams p)\<rparr>)"
    "flags_agree (g\<lparr>gf_requestHeaders := add_pair v (gf_requestHeaders g)\<rparr>) (p\<lparr>pc_requestHeaders := add_pair v (pc_requestHeaders p)\<rparr>)"
    "flags_agree (g\<lparr>gf_certificateAuthority := gf_certificateAuthority g @ xs\<rparr>) (p\<lparr>pc_caCertFilename := pc_caCertFilename p @ xs\<rparr>)"
    "flags_agree (g\<lparr>gf_certificateAuthorityData := gf_certificateAuthorityData g @ xs\<rparr>) (p\<lparr>pc_caCertData := pc_caCertData p @ xs\<rparr>)"
    "flags_agree (g\<lparr>gf_grantType := v\<rparr>) (p\<lparr>pc_grantType := v\<rparr>)"
    "flags_agree (g\<lparr>gf_forceRefresh := b\<rparr>) (p\<lparr>pc_forceRefresh := b2\<rparr>)"
    "flags_agree g (p\<lparr>pc_tokenCacheDir := v\<rparr>)"
    "flags_agree g (p\<lparr>pc_tokenCacheStorage := v\<rparr>)"
    "flags_agree g (p\<lparr>pc_listenAddress := xs\<rparr>)"
    "flags_agree g (p\<lparr>pc_skipOpenBrowser := b\<rparr>)"
    "flags_agree g (p\<lparr>pc_browserCommand := v\<rparr>)"
    "flags_agree g (p\<lparr>pc_authenticationTimeoutSec := n\<rparr>)"
    "flags_agree g (p\<lparr>pc_localServerCertFile := v\<rparr>)"
    "flags_agree g (p\<lparr>pc_localServerKeyFile := v\<rparr>)"
    "flags_agree g (p\<lparr>pc_openURLAfterAuthentication := v\<rparr>)"
    "flags_agree g (p\<lparr>pc_redirectURLHostname := v\<rparr>)"
  using assms by (simp_all add: flags_agree_def cong: if_cong split del: if_split)

lemma reading_occurrence:
  assumes R: "reading K g p" and k: "k \<in> K" "key_kind k = Some kd" and v: "documented_value kd v" "plain_value k v"
    and K: "\<not> {''--tls-renegotiation-once'', ''--tls-renegotiation-freely''} \<subseteq> K" "\<not> {''--oidc-pkce-method'', ''--oidc-use-pkce''} \<subseteq> K"
  shows "reading K (bind_flag k v g) (apply_flag k v p)"
proof (cases "k \<in> set switches")
  case True
  then show ?thesis using reading_switch [OF R k(1) _ v(2) K] by simp
next
  case False
  have "(k, kd) \<in> set flag_table" using k(2) by (rule key_kind_table)
  then show ?thesis
    using R v False unfolding flag_table_eq list.set insert_iff empty_iff prod.inject switches_def reading_def
    by (elim disjE conjE FalseE)
      (hypsubst, simp add: at_flags agree_updates documented_nonempty scopes_of_plain plain_value_def del: documented_value.simps
        split del: if_split split: option.split)+
qed

lemma apply_bare:
  assumes "key_kind k = Some KBool"
  shows "apply_flag k [] p = apply_flag k ''true'' p"
proof -
  have "(k, KBool) \<in> set flag_table" using assms by (rule key_kind_table)
  then have "k \<in> set [''--oidc-use-access-token'', ''--force-refresh'', ''--insecure-skip-tls-verify'', ''--tls-renegotiation-once'',
      ''--tls-renegotiation-freely'', ''--oidc-use-pkce'', ''--skip-open-browser'']" by (simp add: flag_table_eq)
  then show ?thesis unfolding list.set insert_iff empty_iff by (elim disjE FalseE) (hypsubst, simp add: at_flags)+
qed

lemma keys_of_Cons [simp]:
  "keys_of [] = []" "keys_of (it # items) = (case occurrence it of None \<Rightarrow> keys_of items | Some (k, v) \<Rightarrow> k # keys_of items)"
  by (auto simp: keys_of_def List.map_filter_simps split: option.split)

lemma item_effect_occurrence:
  assumes "documented it"
  shows "item_effect it p = (case occurrence it of None \<Rightarrow> p | Some (k, v) \<Rightarrow> apply_flag k v p)"
  using assms key_kindD apply_bare by (cases it) (auto split: option.splits)

lemma documented_occurrence:
  "documented it \<Longrightarrow> occurrence it = Some (k, v) \<Longrightarrow> \<exists>kd. key_kind k = Some kd \<and> documented_value kd v"
  by (cases it) (auto split: option.splits)

lemma reading_items:
  assumes "list_all documented items" "set (keys_of items) \<subseteq> K" "reading K g p"
    and "list_all (\<lambda>it. case occurrence it of None \<Rightarrow> True | Some (k, v) \<Rightarrow> plain_value k v) items"
    and K: "\<not> {''--tls-renegotiation-once'', ''--tls-renegotiation-freely''} \<subseteq> K" "\<not> {''--oidc-pkce-method'', ''--oidc-use-pkce''} \<subseteq> K"
  shows "reading K (bind_items items g) (fold item_effect items p)"
  using assms(1-4)
proof (induction items arbitrary: g p)
  case Nil
  then show ?case by (simp add: bind_items_def)
next
  case (Cons it items)
  show ?case
  proof (cases "occurrence it")
    case None
    then show ?thesis using Cons by (simp add: bind_items_def item_effect_occurrence)
  next
    case (Some o')
    obtain k v where kv: "o' = (k, v)" by (cases o')
    obtain kd where "key_kind k = Some kd" "documented_value kd v" using documented_occurrence [of it k v] Cons.prems(1) Some kv by auto
    then have "reading K (bind_flag k v g) (apply_flag k v p)"
      using reading_occurrence [OF Cons.prems(3) _ _ _ _ K] Cons.prems(2,4) Some kv by auto
    then show ?thesis using Cons.IH [of "bind_flag k v g" "apply_flag k v p"] Cons.prems Some kv
      by (auto simp: bind_items_def item_effect_occurrence)
  qed
qed

lemma zero_reading: "reading K zero_get_flags zero_config"
  by (simp add: reading_def flags_agree_def zero_get_flags_def zero_config_def parsePKCEMethod_def)

lemma items_agree:
  assumes "list_all documented items" "items_ok items" "plain_items items"
  shows "flags_agree (bind_items items zero_get_flags) (parseExecArgs (concat (map render_item items)))"
  using reading_items [OF assms(1) subset_refl zero_reading] parse_items [OF assms(2), of zero_config] assms(3)
  by (simp add: plain_items_def parseExecArgs_def reading_def)

section \<open>The commands\<close>

definition getToken_RunE :: "('c, 't) cli_env \<Rightarrow> string \<Rightarrow> get_flags \<Rightarrow> shim_sys \<Rightarrow> cli_result \<times> shim_sys" where
  "getToken_RunE C runtimeDir g s =
     (case computeChecksum (cl_gob C) (cl_sha256 C) (get_token_key g) of
        Inl _ \<Rightarrow> (UserError ''Invalid OIDC configuration. Check kubeconfig exec args.'', s)
      | Inr cacheKey \<Rightarrow> runGetToken C runtimeDir cacheKey (get_token_request g) s)"

definition no_kubeconfig :: cli_result where
  "no_kubeconfig = UserError ''Cannot read kubeconfig. Check that your kubeconfig is valid.''"

definition no_provider :: cli_result where
  "no_provider = UserError ''Invalid OIDC configuration. Provide --oidc-issuer-url and --oidc-client-id, or configure kubeconfig.''"

definition login_RunE :: "('c, TokenSet) cli_env \<Rightarrow> go_error + kubeconfig \<Rightarrow> string \<Rightarrow> bool \<Rightarrow> oidcFlags \<Rightarrow> shim_sys \<Rightarrow> cli_result \<times> shim_sys" where
  "login_RunE C load runtimeDir changed f s =
     (case resolveFromKubeconfig load changed f of
        Inl _ \<Rightarrow> (no_kubeconfig, s)
      | Inr f' \<Rightarrow> if validate f' \<noteq> None then (no_provider, s) else runLogin C runtimeDir f' s)"

definition check_RunE :: "('c, 't) cli_env \<Rightarrow> go_error + kubeconfig \<Rightarrow> string \<Rightarrow> bool \<Rightarrow> bool \<Rightarrow> oidcFlags \<Rightarrow> shim_sys \<Rightarrow> cli_result \<times> shim_sys" where
  "check_RunE C load runtimeDir changed jsonOutput f s =
     (case resolveFromKubeconfig load changed f of
        Inl err \<Rightarrow>
          (if jsonOutput then outputCheckJSON False ''NEEDS_LOGIN'' ''CONFIG_ERROR'' (Error err) ''Fix kubeconfig or provide explicit flags'' None
           else no_kubeconfig, s)
      | Inr f' \<Rightarrow>
          (case validate f' of
             Some err \<Rightarrow>
               (if jsonOutput then outputCheckJSON False ''NEEDS_LOGIN'' ''CONFIG_ERROR'' (Error err) ''Provide --oidc-issuer-url and --oidc-client-id'' None
                else no_provider, s)
           | None \<Rightarrow> runCheck C runtimeDir jsonOutput f' s))"

definition refresh_RunE :: "('c, 't) cli_env \<Rightarrow> go_error + kubeconfig \<Rightarrow> string \<Rightarrow> bool \<Rightarrow> bool \<Rightarrow> oidcFlags \<Rightarrow> shim_sys \<Rightarrow> cli_result \<times> shim_sys" where
  "refresh_RunE C load runtimeDir changed quiet f s =
     (case resolveFromKubeconfig load changed f of
        Inl _ \<Rightarrow> (no_kubeconfig, s)
      | Inr f' \<Rightarrow> if validate f' \<noteq> None then (no_provider, s) else runRefresh C runtimeDir quiet f' s)"

definition install_RunE :: "('c, 't) setup_env \<Rightarrow> oidcFlags \<Rightarrow> string \<Rightarrow> string \<Rightarrow> bool \<Rightarrow> bool \<Rightarrow> bool \<Rightarrow> shim_sys \<Rightarrow> setup_result \<times> shim_sys" where
  "install_RunE Su f userName clusterName skipAuthTest dryRun backup s =
     (case validate f of
        Some e \<Rightarrow> (Failed e, s)
      | None \<Rightarrow> runSetupInstall Su f userName clusterName skipAuthTest dryRun backup s)"

text \<open>\<open>main\<close>: an error of a command is exit code 1, whether it was reported or not.\<close>

fun exit_code :: "cli_result \<Rightarrow> nat" where
  "exit_code (Credential _ _ _) = 0"
| "exit_code (Printed _) = 0"
| "exit_code (JsonOut ready _) = (if ready then 0 else 1)"
| "exit_code (NotReady _) = 1"
| "exit_code (UserError _) = 1"

fun setup_exit_code :: "setup_result \<Rightarrow> nat" where
  "setup_exit_code (Failed _) = 1"
| "setup_exit_code _ = 0"

text \<open>The hint of \<open>setup migrate\<close>: the paths of daemons that are not this binary, each once.\<close>

fun stale_hint_from :: "('c, 't) setup_env \<Rightarrow> vfs \<Rightarrow> string \<Rightarrow> string list \<Rightarrow> auth_info option list \<Rightarrow> string list" where
  "stale_hint_from Su w binaryPath seen [] = []"
| "stale_hint_from Su w binaryPath seen (a # as) =
     (case exec_of a of
        None \<Rightarrow> stale_hint_from Su w binaryPath seen as
      | Some ex \<Rightarrow>
          let oldPath = ec_Command ex in
          if isKubeloginDaemonCommand oldPath \<and> resolved_or Su w oldPath \<noteq> binaryPath \<and> oldPath \<notin> set seen
          then oldPath # stale_hint_from Su w binaryPath (oldPath # seen) as
          else stale_hint_from Su w binaryPath seen as)"

definition printStaleKubeloginDaemonHint :: "('c, 't) setup_env \<Rightarrow> vfs \<Rightarrow> kubeconfig \<Rightarrow> string \<Rightarrow> string list" where
  "printStaleKubeloginDaemonHint Su w config binaryPath = stale_hint_from Su w binaryPath [] (map snd (kc_AuthInfos config))"

lemma set_stale_hint:
  "set (stale_hint_from Su w b seen as) =
    {ec_Command ex |a ex. a \<in> set as \<and> exec_of a = Some ex \<and> isKubeloginDaemonCommand (ec_Command ex) \<and> resolved_or Su w (ec_Command ex) \<noteq> b} - set seen"
  by (induction as arbitrary: seen) (auto simp: Let_def split: option.split)

text \<open>The hint names every path that \<open>setup upgrade\<close> would replace, and besides only other names of the same file.\<close>

theorem hint_covers_upgrade:
  "set (printStaleKubeloginDaemonHint Su w config b) =
     snd ` set (stale_entries Su w b config) \<union>
     {c \<in> set (printStaleKubeloginDaemonHint Su w config b). SameFile (Stat Su w c) (Stat Su w b)}"
  by (force simp: printStaleKubeloginDaemonHint_def set_stale_hint stale_entries_def stale_command_def split: option.splits if_splits)

end
