(* ===== verification/CommandFlow.thy ===== *)
theory CommandFlow
  imports CommandLine
begin

text \<open>
  What the commands agree on: \<open>get-token\<close>, whose arguments the flag library reads, and \<open>login\<close>, \<open>check\<close> and \<open>refresh\<close>, which read the same arguments
  from the kubeconfig with a parser of their own, and \<open>setup install\<close>, which writes them.
\<close>

section \<open>Where the commands meet\<close>

definition required_given :: "flag_item list \<Rightarrow> bool" where
  "required_given items \<longleftrightarrow> list_all (\<lambda>f. fl_required f \<longrightarrow> ''--'' @ fl_name f \<in> set (keys_of items)) get_token_flags"

lemma required_given_iff: "required_given items \<longleftrightarrow> {''--oidc-issuer-url'', ''--oidc-client-id''} \<subseteq> set (keys_of items)"
proof -
  have "filter fl_required get_token_flags = [(flag_of KString ''oidc-issuer-url'')\<lparr>fl_required := True\<rparr>, (flag_of KString ''oidc-client-id'')\<lparr>fl_required := True\<rparr>]"
    by code_simp
  then have "list_all P (filter fl_required get_token_flags) \<longleftrightarrow> P ((flag_of KString ''oidc-issuer-url'')\<lparr>fl_required := True\<rparr>) \<and>
      P ((flag_of KString ''oidc-client-id'')\<lparr>fl_required := True\<rparr>)" for P by simp
  from this [of "\<lambda>f. ''--'' @ fl_name f \<in> set (keys_of items)"] show ?thesis
    by (auto simp: required_given_def list_all_iff flag_of_def)
qed

lemma merged_key:
  "flags_agree g p \<Longrightarrow> flags_key (merge_flags False p (default_flags context grantType)) = get_token_key g"
  by (simp add: flags_key_def get_token_key_def get_tls_def merge_flags_def default_flags_def or_else_def flags_agree_def zero_tls_def)

text \<open>
  C7: \<open>kubectl\<close> and the user talk about the same session.  Take an exec section with arguments in the forms the flag library documents, whose
  values both parsers read alike.  The library accepts them for \<open>get-token\<close>, and the key whose encoding \<open>login\<close>, \<open>check\<close> and \<open>refresh\<close>, run
  without flags, hash to name the session is the key \<open>get-token\<close> hashes: although \<open>parseExecArgs\<close> is a parser of its own, no field is read
  differently.  The statement is about the keys; that two calls of the encoder give the same bytes is not part of it, and for maps of two and more
  entries the encoder does not promise it.
\<close>

theorem one_session:
  assumes "library_documented parse" and "list_all documented items" and "items_ok items" and "plain_items items"
    and "\<not> both_aliases items" and "required_given items"
    and "args = concat (map render_item items)" and "parseOIDCFromKubeconfig load context = Inr (parseExecArgs args)"
    and "resolveFromKubeconfig load False (default_flags context grantType) = Inr f"
  shows "\<exists>g. parse args = Inr g \<and> flags_key f = get_token_key g"
proof -
  let ?g = "bind_items items zero_get_flags"
  have "parse args = Inr ?g" using assms(1,2,5-7) by (simp add: library_documented_def required_given_def)
  moreover have "flags_agree ?g (parseExecArgs args)" using items_agree [OF assms(2-4)] assms(7) by simp
  moreover have "f = merge_flags False (parseExecArgs args) (default_flags context grantType)"
    using assms(8,9) by (simp add: resolveFromKubeconfig_def default_flags_def)
  ultimately show ?thesis by (intro exI [of _ ?g] conjI) (simp_all add: merged_key)
qed

text \<open>The values \<open>setup install\<close> writes without quotes, line breaks and commas, which the library would read as part of its own syntax.\<close>

definition csv_free :: "oidcFlags \<Rightarrow> bool" where
  "csv_free f \<longleftrightarrow> list_all csv_plain (of_extraScopes f) \<and>
     list_all (\<lambda>(k, v). CHR '','' \<notin> set (k @ v) \<and> csv_plain (k @ v)) (of_extraParams f @ of_requestHeaders f)"

lemma trim_left_subset: "set (trim_left s) \<subseteq> set s"
proof (induction s rule: trim_left.induct)
  case (1 s)
  then show ?case using set_drop_subset [of "space_len s" s] by (subst trim_left.simps) auto
qed

lemma trim_right_subset: "set (trim_right s) \<subseteq> set s"
  by (induction s rule: trim_right.induct) auto

lemma TrimSpace_subset: "set (TrimSpace s) \<subseteq> set s"
  using trim_left_subset trim_right_subset unfolding TrimSpace_def by blast

lemma single_scope: "s \<noteq> [] \<Longrightarrow> scopes_of s = [s] \<Longrightarrow> split_on (CHR '','') s = [s] \<and> TrimSpace s = s"
proof -
  assume s: "s \<noteq> []" "scopes_of s = [s]"
  have "s \<in> set (map TrimSpace (split_on (CHR '','') s))"
    using s(2) unfolding scopes_of_def by (metis filter_is_subset list.set_intros(1) subsetD)
  then obtain x where "x \<in> set (split_on (CHR '','') s)" "s = TrimSpace x" by auto
  then have "CHR '','' \<notin> set s" using split_on_no_sep [of x] TrimSpace_subset [of x] by blast
  then have "split_on (CHR '','') s = [s]" by (rule split_on_single)
  then show ?thesis using s by (auto simp: scopes_of_def split: if_splits)
qed

lemma documented_joined:
  "list_all documented (map (Joined k) xs) \<longleftrightarrow> (case key_kind k of None \<Rightarrow> xs = [] | Some kd \<Rightarrow> list_all (documented_value kd) xs)"
  "list_all documented (map (\<lambda>(a, b). Joined k (a @ ''='' @ b)) ps) \<longleftrightarrow>
     (case key_kind k of None \<Rightarrow> ps = [] | Some kd \<Rightarrow> list_all (\<lambda>(a, b). documented_value kd (a @ ''='' @ b)) ps)"
  subgoal by (induction xs) (auto split: option.splits)
  subgoal by (induction ps) (auto split: option.splits)
  done

lemma install_documented:
  assumes "install_flags_ok f" "csv_free f"
  shows "list_all documented (install_items f)"
proof -
  have "list_all (documented_value KStringSlice) (of_extraScopes f)"
    using assms by (auto simp: install_flags_ok_def csv_free_def list_all_iff)
  moreover have "list_all (\<lambda>(a, b). documented_value KStringToString (a @ ''='' @ b)) (of_extraParams f)"
    "list_all (\<lambda>(a, b). documented_value KStringToString (a @ ''='' @ b)) (of_requestHeaders f)"
    using assms by (fastforce simp: install_flags_ok_def csv_free_def csv_plain_def list_all_iff)+
  ultimately show ?thesis
    unfolding install_items_def list_all_append documented_joined by (simp add: key_kinds)
qed

lemma keys_of_append [simp]: "keys_of (xs @ ys) = keys_of xs @ keys_of ys"
  by (induction xs) (auto split: option.split)

lemma keys_of_joined [simp]:
  "keys_of (map (Joined k) xs) = map (\<lambda>_. k) xs" "keys_of (map (\<lambda>(a, b). Joined k (a @ CHR ''='' # b)) ps) = map (\<lambda>_. k) ps"
  subgoal by (induction xs) auto
  subgoal by (induction ps) auto
  done

text \<open>The keys among the arguments of \<open>install\<close>: none of the switches and one name of the extra parameters.\<close>

lemma install_keys:
  "k \<in> set (keys_of (install_items f)) \<Longrightarrow> k \<in> set [''--oidc-issuer-url'', ''--oidc-client-id'', ''--oidc-client-secret'', ''--oidc-extra-scope'',
     ''--oidc-extra-param'', ''--oidc-request-header'', ''--username'', ''--grant-type'', ''--oidc-use-access-token'']"
  unfolding install_items_def keys_of_append set_append Un_iff by (elim disjE) (simp_all split: if_splits, auto)

lemma plain_joined:
  "list_all (\<lambda>it. case occurrence it of None \<Rightarrow> True | Some (k, v) \<Rightarrow> plain_value k v) (map (Joined k) xs) \<longleftrightarrow> list_all (plain_value k) xs"
  "list_all (\<lambda>it. case occurrence it of None \<Rightarrow> True | Some (k, v) \<Rightarrow> plain_value k v) (map (\<lambda>(a, b). Joined k (h a b)) ps) \<longleftrightarrow>
     list_all (\<lambda>(a, b). plain_value k (h a b)) ps"
  subgoal by (induction xs) auto
  subgoal by (induction ps) auto
  done

lemma install_plain:
  assumes "install_flags_ok f"
  shows "plain_items (install_items f)"
proof -
  have "list_all (plain_value ''--oidc-extra-scope'') (of_extraScopes f)"
    using assms single_scope by (simp add: install_flags_ok_def plain_value_def list_all_iff)
  then have "list_all (\<lambda>it. case occurrence it of None \<Rightarrow> True | Some (k, v) \<Rightarrow> plain_value k v) (install_items f)"
    unfolding install_items_def list_all_append plain_joined by (simp add: plain_value_def list_all_iff split: prod.split)
  moreover have "''--tls-renegotiation-once'' \<notin> set (keys_of (install_items f))" "''--oidc-use-pkce'' \<notin> set (keys_of (install_items f))"
    using install_keys [of "''--tls-renegotiation-once''" f] install_keys [of "''--oidc-use-pkce''" f] by auto
  ultimately show ?thesis by (simp add: plain_items_def)
qed

text \<open>
  C8: what \<open>setup install\<close> writes, \<open>get-token\<close> accepts and understands.  For flags in the form the flag library delivers, without quotes, line
  breaks and commas in the lists, the exec arguments that \<open>install\<close> writes into the kubeconfig are all registered for \<open>get-token\<close> with the right kind and
  include the required ones: the library accepts them, and the cache key of \<open>get-token\<close> is computed from the data \<open>install\<close> was given.
\<close>

theorem install_then_get_token:
  assumes "library_documented parse" and "install_flags_ok f" and "csv_free f"
  shows "\<exists>g. parse (install_args f) = Inr g \<and> get_token_key g = flags_key f"
proof -
  let ?g = "bind_items (install_items f) zero_get_flags"
  have doc: "list_all documented (install_items f)" using assms(2,3) by (rule install_documented)
  have "\<not> both_aliases (install_items f)"
    using install_keys [of "''--oidc-auth-request-extra-params''" f] by (auto simp: both_aliases_def)
  moreover have "required_given (install_items f)"
    by (simp add: required_given_iff install_items_def)
  ultimately have "parse (install_args f) = Inr ?g"
    using assms(1) doc by (simp add: library_documented_def required_given_def install_args_items)
  moreover have "flags_agree ?g (parseExecArgs (install_args f))"
    using items_agree [OF doc items_ok_install install_plain [OF assms(2)]] by (simp add: install_args_items)
  ultimately show ?thesis using merged_key install_key [OF assms(2)] by metis
qed

section \<open>A flag library\<close>

text \<open>A reader of arguments that does what the documentation says.\<close>

fun read_flags :: "string list \<Rightarrow> get_flags \<Rightarrow> get_flags" where
  "read_flags [] g = g"
| "read_flags (a # rest) g =
     (if \<not> prefix ''-'' a then read_flags rest g
      else case IndexByte a (CHR ''='') of
             Some i \<Rightarrow> read_flags rest (bind_flag (take i a) (drop (i + 1) a) g)
           | None \<Rightarrow>
               if key_kind a = Some KBool then read_flags rest (bind_flag a ''true'' g)
               else (case rest of [] \<Rightarrow> g | v # rest' \<Rightarrow> read_flags rest' (bind_flag a v g)))"

lemma read_item:
  assumes "documented it"
  shows "read_flags (render_item it @ rest) g = read_flags rest (case occurrence it of None \<Rightarrow> g | Some (k, v) \<Rightarrow> bind_flag k v g)"
proof (cases it)
  case (Joined k v)
  then obtain kd where "key_kind k = Some kd" using assms by (auto split: option.splits)
  note k = key_kindD [OF this]
  have "prefix ''-'' (k @ ''='' @ v)" using flag_name_dashes [OF k(1)] by (auto simp: prefix_def)
  moreover have "CHR ''='' \<notin> set k" using k(1) by (simp add: flag_name_def)
  ultimately show ?thesis using Joined IndexByte_append [of "CHR ''=''" k v] by simp
next
  case (Separate k v)
  then obtain kd where kd: "key_kind k = Some kd" "kd \<noteq> KBool" using assms by (auto split: option.splits)
  note k = key_kindD [OF kd(1)]
  have i: "IndexByte k (CHR ''='') = None" "prefix ''-'' k" using flag_name_dashes [OF k(1)] k(2) by simp_all
  show ?thesis using Separate kd by (simp add: i)
next
  case (Bare k)
  then have kd: "key_kind k = Some KBool" using assms by simp
  note k = key_kindD [OF kd]
  have i: "IndexByte k (CHR ''='') = None" "prefix ''-'' k" using flag_name_dashes [OF k(1)] k(2) by simp_all
  show ?thesis using Bare kd by (simp add: i)
qed (use assms in simp)

lemma read_items: "list_all documented items \<Longrightarrow> read_flags (concat (map render_item items)) g = bind_items items g"
  by (induction items arbitrary: g) (simp_all add: read_item bind_items_def)

lemma demo_library: "library_documented (\<lambda>args. Inr (read_flags args zero_get_flags))"
  by (simp add: library_documented_def read_items)

theorem install_then_get_token_witness:
  "\<exists>g. read_flags (install_args demo_install_flags) zero_get_flags = g \<and> get_token_key g = flags_key demo_install_flags"
proof -
  have "csv_free demo_install_flags" by (simp add: csv_free_def csv_plain_def demo_install_flags_def default_flags_def)
  from install_then_get_token [OF demo_library demo_install(1) this] show ?thesis by simp
qed

theorem one_session_witness:
  "\<exists>f g. resolveFromKubeconfig (Inr demo_kubeconfig) False (default_flags [] ''auto'') = Inr f \<and>
     read_flags [''get-token'', ''--oidc-issuer-url=i'', ''--oidc-client-id'', ''k8s''] zero_get_flags = g \<and>
     flags_key f = get_token_key g"
proof -
  let ?items = "[Positional ''get-token'', Joined ''--oidc-issuer-url'' ''i'', Separate ''--oidc-client-id'' ''k8s'']"
  let ?args = "[''get-token'', ''--oidc-issuer-url=i'', ''--oidc-client-id'', ''k8s'']"
  have p: "parseOIDCFromKubeconfig (Inr demo_kubeconfig) [] = Inr (parseExecArgs ?args)"
    using parse_items [of ?items zero_config] demo_parse
    by (simp add: parseExecArgs_def flag_name_def double_dash_def boolFlags_def apply_flag_def)
  obtain f where f: "resolveFromKubeconfig (Inr demo_kubeconfig) False (default_flags [] ''auto'') = Inr f"
    using p by (simp add: resolveFromKubeconfig_def default_flags_def)
  have "\<exists>g. Inr (read_flags ?args zero_get_flags) = (Inr g :: go_error + get_flags) \<and>
      flags_key f = get_token_key g"
    by (rule one_session [OF demo_library _ _ _ _ _ _ p f, of ?items])
      (simp_all add: key_kinds flag_name_def double_dash_def boolFlags_def plain_items_def plain_value_def both_aliases_def required_given_iff)
  then show ?thesis using f by blast
qed

end
