(* ===== verification/TokenThreads.thy ===== *)
theory TokenThreads
  imports TokenManager
begin

text \<open>
  The token manager at the grain of its locks (\<open>pkg/daemon/token_manager.go\<close>).  The callbacks of the timers, the body that \<open>singleflight\<close> runs for
  all callers of \<open>Refresh\<close>, and the callers of \<open>SetInitialToken\<close> are threads; a step is one access to the shared state: an atomic load or store, a
  region under \<open>timerMu\<close> or \<open>refresherMu\<close>, the answer of the provider, or the writing of the token file.  Between two steps of a thread every
  other thread may run, and \<open>Stop\<close> may fall anywhere.
\<close>

section \<open>Threads\<close>

text \<open>The body of \<open>Refresh\<close>: where it stands, with its local variables.\<close>

datatype flight =
    FLoad
  | FSnapshot tokenEntry
  | FCall tokenEntry OIDCRefresher
  | FStore tokenEntry
  | FPersist tokenEntry
  | FReset tokenEntry
  | FSchedule tokenEntry
  | FDone "go_error + tokenEntry"

fun flight_do :: "call_env \<Rightarrow> flight \<Rightarrow> TokenManager \<times> vfs \<Rightarrow> flight \<times> TokenManager \<times> vfs" where
  "flight_do E FLoad (m, w) =
     (case tm_current m of
        None \<Rightarrow> FDone (Inl (Err ''no token to refresh''))
      | Some entry \<Rightarrow>
          if te_refreshToken entry = [] then FDone (Inl (PermErr ''refresh token is empty, re-authentication required''))
          else FSnapshot entry, m, w)"
| "flight_do E (FSnapshot entry) (m, w) = (FCall entry (tm_refresher m), m, w)"
| "flight_do E (FCall entry r) (m, w) =
     (case ce_refresh E (tm_ctxDone m) r (te_refreshToken entry) of
        Inl e \<Rightarrow>
          FDone (Inl (if contains (Error e) ''invalid_grant'' \<or> contains (Error e) ''token has been revoked''
                      then PermErr (''refresh token revoked: '' @ Error e) else Wrap ''refresh failed'' e))
      | Inr (newID, newRT, newExpiry) \<Rightarrow>
          FStore \<lparr>te_idToken = newID, te_refreshToken = newRT, te_expiry = newExpiry, te_obtainedAt = ce_fin E\<rparr>, m, w)"
| "flight_do E (FStore e) (m, w) = (FPersist e, m\<lparr>tm_current := Some e\<rparr>, w)"
| "flight_do E (FPersist e) (m, w) =
     (FReset e, m, snd (PersistToken (ce_io E) (tm_persistDir m) (tm_cacheKey m) (te_idToken e) (te_refreshToken e) w))"
| "flight_do E (FReset e) (m, w) = (FSchedule e, m\<lparr>tm_retryCount := 0\<rparr>, w)"
| "flight_do E (FSchedule e) (m, w) = (FDone (Inr e), scheduleProactiveRefresh (ce_fin E) e m, w)"
| "flight_do E (FDone r) (m, w) = (FDone r, m, w)"

text \<open>Undisturbed, it is the operation \<open>TM_Refresh\<close> of one step.\<close>

lemma flight_alone:
  "case ((\<lambda>(f, s). flight_do E f s) ^^ 7) (FLoad, m, w) of (f, s) \<Rightarrow>
     (\<exists>r. f = FDone r \<and> TM_Refresh E (m, w) = (map_sum id (\<lambda>e. (te_idToken e, te_expiry e)) r, s))"
  by (simp add: eval_nat_numeral TM_Refresh_def Let_def case_prod_beta split: option.split sum.split)

text \<open>
  A callback: it looks at the context, refreshes or loads the token to write, waits for the flight, schedules a retry or the next watchdog, and
  gives its place in the wait group back.  A panic is recovered and leads to what is deferred.  The refresh timer's callback has no entry of its own for a stop in
  the middle: \<open>Stop\<close> cancels the context, which the provider's answer and the later checks see.
\<close>

datatype callback =
    CbStart job
  | CbRefresh job
  | CbWait job
  | CbFailed job go_error
  | CbRetry tokenEntry
  | CbLoad
  | CbPersist tokenEntry
  | CbRearm
  | CbEnd

text \<open>Callers of \<open>SetInitialToken\<close> after the store.\<close>

datatype setter = SetSchedule tokenEntry | SetWatchdog

record th_sys =
  th_m :: TokenManager
  th_w :: vfs
  th_flight :: "flight option"
  th_cbs :: "callback list"
  th_setters :: "setter list"

fun refresh_failed :: "job \<Rightarrow> go_error \<Rightarrow> TokenManager \<Rightarrow> callback" where
  "refresh_failed (JobProactive entry) err m = (if IsPermanentRefreshError err then CbEnd else CbRetry entry)"
| "refresh_failed _ err m =
     (if IsPermanentRefreshError err then CbEnd else case tm_current m of None \<Rightarrow> CbEnd | Some e \<Rightarrow> CbRetry e)"

fun callback_do :: "call_env \<Rightarrow> callback \<Rightarrow> TokenManager \<times> vfs \<Rightarrow> callback \<times> TokenManager \<times> vfs" where
  "callback_do E (CbStart JobWatchdog) (m, w) = (if tm_ctxDone m then CbRearm else CbLoad, m, w)"
| "callback_do E (CbStart j) (m, w) = (if tm_ctxDone m then CbEnd else CbRefresh j, m, w)"
| "callback_do E (CbFailed j err) (m, w) = (refresh_failed j err m, m, w)"
| "callback_do E (CbRetry entry) (m, w) = (CbEnd, scheduleRetry (ce_fin E) (ce_rand E) entry m, w)"
| "callback_do E CbLoad (m, w) =
     (case tm_current m of
        None \<Rightarrow> CbRearm
      | Some e \<Rightarrow> if te_idToken e = [] \<and> te_refreshToken e = [] then CbRearm else CbPersist e, m, w)"
| "callback_do E (CbPersist e) (m, w) =
     (CbRearm, m, snd (PersistToken (ce_io E) (tm_persistDir m) (tm_cacheKey m) (te_idToken e) (te_refreshToken e) w))"
| "callback_do E CbRearm (m, w) =
     (CbEnd, if tm_stopped m \<or> tm_ctxDone m then m
             else m\<lparr>tm_callbackWg := tm_callbackWg m + 1,
                    tm_persistTimer := Some (AfterFunc (ce_fin E) (tm_persistInterval m) JobWatchdog)\<rparr>, w)"
| "callback_do E cb (m, w) = (cb, m, w)"

text \<open>The callbacks with a step of their own, besides joining a flight and ending.\<close>

fun runs :: "callback \<Rightarrow> bool" where
  "runs (CbWait j) \<longleftrightarrow> False"
| "runs (CbRefresh j) \<longleftrightarrow> False"
| "runs CbEnd \<longleftrightarrow> False"
| "runs _ \<longleftrightarrow> True"

text \<open>What the result of the flight makes of a callback that waits for it.\<close>

fun wake :: "go_error + tokenEntry \<Rightarrow> callback \<Rightarrow> callback" where
  "wake (Inl err) (CbWait j) = CbFailed j err"
| "wake (Inr e) (CbWait j) = CbEnd"
| "wake r cb = cb"

text \<open>A panic of the refresher ends the flight; \<open>singleflight\<close> passes it on to all who wait, where it is recovered.\<close>

fun aborted :: "callback \<Rightarrow> callback" where
  "aborted (CbWait j) = CbEnd"
| "aborted cb = cb"

fun unarmed :: "callback \<Rightarrow> bool" where
  "unarmed (CbStart j) \<longleftrightarrow> j = JobWatchdog"
| "unarmed CbLoad \<longleftrightarrow> True"
| "unarmed (CbPersist e) \<longleftrightarrow> True"
| "unarmed CbRearm \<longleftrightarrow> True"
| "unarmed _ \<longleftrightarrow> False"

definition panicked :: "callback \<Rightarrow> callback" where
  "panicked cb = (if unarmed cb then CbRearm else CbEnd)"

definition is_waiting :: "callback \<Rightarrow> bool" where
  "is_waiting cb \<longleftrightarrow> (case cb of CbWait j \<Rightarrow> True | _ \<Rightarrow> False)"

section \<open>Interleavings\<close>

text \<open>
  What a step shows: a refresh token sent to the provider with the refresh token of the answer, if it was granted, or the refresh token of a
  new login.  The first argument tells the steps that callbacks wait for: their own, and those of a flight that one of them has joined.
\<close>

datatype th_event = Quiet | Asked string "string option" | Installed string

fun asks :: "call_env \<Rightarrow> TokenManager \<Rightarrow> flight \<Rightarrow> th_event" where
  "asks E m (FCall entry r) =
     Asked (te_refreshToken entry)
       (case ce_refresh E (tm_ctxDone m) r (te_refreshToken entry) of Inl _ \<Rightarrow> None | Inr (newID, newRT, newExpiry) \<Rightarrow> Some newRT)"
| "asks E m _ = Quiet"

inductive th_step :: "bool \<Rightarrow> th_event \<Rightarrow> th_sys \<Rightarrow> th_sys \<Rightarrow> bool" where
  store: "th_step False (Installed (te_refreshToken e)) s
      (s\<lparr>th_m := (th_m s)\<lparr>tm_current := Some e\<rparr>, th_setters := SetSchedule e # th_setters s\<rparr>)"
| schedule: "th_step False Quiet s
      (s\<lparr>th_m := scheduleProactiveRefresh now e (th_m s), th_setters := xs @ SetWatchdog # ys\<rparr>)"
    if "th_setters s = xs @ SetSchedule e # ys"
| watchdog: "th_step False Quiet s (s\<lparr>th_m := startPersistWatchdog now (th_m s), th_setters := xs @ ys\<rparr>)"
    if "th_setters s = xs @ SetWatchdog # ys"
| get: "th_step False Quiet s (s\<lparr>th_m := snd (GetToken now (th_m s))\<rparr>)"
| set_refresher: "th_step False Quiet s (s\<lparr>th_m := SetRefresher r (th_m s)\<rparr>)"
| refresh: "th_step False Quiet s (s\<lparr>th_flight := Some FLoad\<rparr>)"
    if "th_flight s = None"
| fly: "th_step (list_ex is_waiting (th_cbs s)) (asks E (th_m s) f) s (s\<lparr>th_m := m, th_w := w, th_flight := Some f'\<rparr>)"
    if "th_flight s = Some f" "\<nexists>r. f = FDone r" "flight_do E f (th_m s, th_w s) = (f', m, w)"
| land: "th_step (list_ex is_waiting (th_cbs s)) Quiet s (s\<lparr>th_flight := None, th_cbs := map (wake r) (th_cbs s)\<rparr>)"
    if "th_flight s = Some (FDone r)"
| crash: "th_step (list_ex is_waiting (th_cbs s)) (Asked (te_refreshToken e) None) s (s\<lparr>th_flight := None, th_cbs := map aborted (th_cbs s)\<rparr>)"
    if "th_flight s = Some (FCall e r)"
| fire_refresh: "th_step False Quiet s
      (s\<lparr>th_m := (th_m s)\<lparr>tm_refreshTimer := Some (fire t)\<rparr>, th_cbs := CbStart (tr_job t) # th_cbs s\<rparr>)"
    if "tm_refreshTimer (th_m s) = Some t" "tr_status t = TPending"
| fire_persist: "th_step False Quiet s
      (s\<lparr>th_m := (th_m s)\<lparr>tm_persistTimer := Some (fire t)\<rparr>, th_cbs := CbStart (tr_job t) # th_cbs s\<rparr>)"
    if "tm_persistTimer (th_m s) = Some t" "tr_status t = TPending"
| run: "th_step True Quiet s (s\<lparr>th_m := m, th_w := w, th_cbs := xs @ cb' # ys\<rparr>)"
    if "th_cbs s = xs @ cb # ys" "runs cb" "callback_do E cb (th_m s, th_w s) = (cb', m, w)"
| panic: "th_step True Quiet s (s\<lparr>th_cbs := xs @ panicked cb # ys\<rparr>)"
    if "th_cbs s = xs @ cb # ys" "runs cb" "cb \<noteq> CbRearm"
| join: "th_step True Quiet s
      (s\<lparr>th_flight := Some (case th_flight s of None \<Rightarrow> FLoad | Some f \<Rightarrow> f), th_cbs := xs @ CbWait j # ys\<rparr>)"
    if "th_cbs s = xs @ CbRefresh j # ys"
| finish: "th_step True Quiet s (s\<lparr>th_m := (th_m s)\<lparr>tm_callbackWg := tm_callbackWg (th_m s) - 1\<rparr>, th_cbs := xs @ ys\<rparr>)"
    if "th_cbs s = xs @ CbEnd # ys"
| stop: "th_step False Quiet s (s\<lparr>th_m := Stop (th_m s)\<rparr>)"

inductive th_run :: "th_sys \<Rightarrow> (bool \<times> th_event) list \<Rightarrow> th_sys \<Rightarrow> bool" where
  refl: "th_run s [] s"
| snoc: "th_run s (tr @ [(own, ev)]) s''" if "th_run s tr s'" "th_step own ev s' s''"

definition th_new :: "TokenManager \<Rightarrow> vfs \<Rightarrow> th_sys" where
  "th_new m w = \<lparr>th_m = m, th_w = w, th_flight = None, th_cbs = [], th_setters = []\<rparr>"

section \<open>The wait group\<close>

text \<open>The part of the invariant that the manager and the callbacks share.\<close>

definition wg_ok :: "TokenManager \<Rightarrow> callback list \<Rightarrow> bool" where
  "wg_ok m cbs \<longleftrightarrow>
     tm_callbackWg m = n_pending (tm_refreshTimer m) + n_pending (tm_persistTimer m) + int (length cbs) \<and>
     (tm_stopped m \<longleftrightarrow> tm_ctxDone m) \<and>
     (tm_stopped m \<longrightarrow> \<not> pending (tm_refreshTimer m) \<and> \<not> pending (tm_persistTimer m)) \<and>
     timer_job (tm_refreshTimer m) \<noteq> Some JobWatchdog \<and> timer_job (tm_persistTimer m) \<in> {None, Some JobWatchdog} \<and>
     n_pending (tm_persistTimer m) + int (length (filter unarmed cbs)) \<le> (if tm_persistTimer m = None then 0 else 1)"

definition th_inv :: "th_sys \<Rightarrow> bool" where
  "th_inv s \<longleftrightarrow> wg_ok (th_m s) (th_cbs s) \<and> (th_flight s = None \<longrightarrow> \<not> list_ex is_waiting (th_cbs s))"

lemmas manager_defs = scheduleProactiveRefresh_def scheduleRetry_def startPersistWatchdog_def GetToken_def SetRefresher_def Stop_def Let_def

lemma wake_simps [simp]: "unarmed (wake r cb) = unarmed cb" "\<not> is_waiting (wake r cb)"
  by (cases "(r, cb)" rule: wake.cases; simp add: is_waiting_def)+

lemma filter_wake [simp]: "length (filter unarmed (map (wake r) cbs)) = length (filter unarmed cbs)" "\<not> list_ex is_waiting (map (wake r) cbs)"
  by (induction cbs) simp_all

lemma aborted_wake: "aborted = wake (Inr e)"
proof
  show "aborted cb = wake (Inr e) cb" for cb by (cases cb) simp_all
qed

lemma n_pending_bounds: "0 \<le> n_pending t" "n_pending t \<le> 1"
  by (simp_all add: n_pending_def)

lemma wg_callers:
  assumes "wg_ok m cbs"
  shows "wg_ok (scheduleProactiveRefresh now e m) cbs" "wg_ok (scheduleRetry now r e m) cbs" "wg_ok (startPersistWatchdog now m) cbs"
    "wg_ok (snd (GetToken now m)) cbs" "wg_ok (SetRefresher rf m) cbs" "wg_ok (Stop m) cbs" "wg_ok (m\<lparr>tm_current := c\<rparr>) cbs"
    "wg_ok (m\<lparr>tm_retryCount := n\<rparr>) cbs"
  using assms n_pending_bounds [of "tm_persistTimer m"] by (auto simp: wg_ok_def manager_defs split: option.split)

lemma wg_flight: "wg_ok m cbs \<Longrightarrow> flight_do E f (m, w) = (f', m', w') \<Longrightarrow> wg_ok m' cbs"
  by (cases f) (auto intro: wg_callers)

lemma wg_swap: "wg_ok m (xs @ cb # ys) \<Longrightarrow> unarmed cb' = unarmed cb \<or> \<not> unarmed cb' \<Longrightarrow> wg_ok m (xs @ cb' # ys)"
  by (auto simp: wg_ok_def split: if_splits)

lemma refresh_failed_kind [simp]:
  "\<not> unarmed (refresh_failed j err m)" "\<not> is_waiting (refresh_failed j err m)"
  by (cases j; simp add: is_waiting_def split: option.split)+

lemma callback_unarmed: "runs cb \<Longrightarrow> callback_do E cb (m, w) = (cb', m', w') \<Longrightarrow> unarmed cb' \<longrightarrow> unarmed cb"
  by (cases "(E, cb, m, w)" rule: callback_do.cases) (auto split: option.splits if_splits)

lemma wg_rearm:
  assumes "wg_ok m (xs @ CbRearm # ys)" "\<not> tm_stopped m"
  shows "wg_ok (m\<lparr>tm_callbackWg := tm_callbackWg m + 1, tm_persistTimer := Some (AfterFunc now d JobWatchdog)\<rparr>) (xs @ CbEnd # ys)"
  using assms n_pending_bounds [of "tm_persistTimer m"] by (auto simp: wg_ok_def split: if_splits)

lemma wg_callback:
  assumes "wg_ok m (xs @ cb # ys)" "runs cb" "callback_do E cb (m, w) = (cb', m', w')"
  shows "wg_ok m' (xs @ cb' # ys)"
proof (cases "cb = CbRearm")
  case True
  then show ?thesis using assms wg_rearm [of m xs ys] wg_swap [of m xs CbRearm ys CbEnd] by (auto split: if_splits)
next
  case False
  have "wg_ok m (xs @ cb' # ys)" using wg_swap [OF assms(1)] callback_unarmed [OF assms(2,3)] by blast
  moreover have "m' = m \<or> (\<exists>e. m' = scheduleRetry (ce_fin E) (ce_rand E) e m)"
    using assms(2,3) False by (cases "(E, cb, m, w)" rule: callback_do.cases) auto
  ultimately show ?thesis by (auto intro: wg_callers)
qed

lemma wg_fire:
  assumes "wg_ok m cbs" "tr_status t = TPending"
  shows "tm_refreshTimer m = Some t \<Longrightarrow> wg_ok (m\<lparr>tm_refreshTimer := Some (fire t)\<rparr>) (CbStart (tr_job t) # cbs)"
    "tm_persistTimer m = Some t \<Longrightarrow> wg_ok (m\<lparr>tm_persistTimer := Some (fire t)\<rparr>) (CbStart (tr_job t) # cbs)"
  using assms by (auto simp: wg_ok_def n_pending_def pending_def fire_def timer_job_def)

lemma wg_finish: "wg_ok m (xs @ CbEnd # ys) \<Longrightarrow> wg_ok (m\<lparr>tm_callbackWg := tm_callbackWg m - 1\<rparr>) (xs @ ys)"
  by (auto simp: wg_ok_def)

lemma waiting_swap: "\<not> is_waiting cb' \<Longrightarrow> list_ex is_waiting (xs @ cb' # ys) \<Longrightarrow> list_ex is_waiting (xs @ cb # ys)"
  by auto

lemma waiting_simps [simp]:
  "is_waiting (CbWait j)" "\<not> is_waiting (CbStart j)" "\<not> is_waiting (CbRefresh j)" "\<not> is_waiting CbRearm" "\<not> is_waiting CbEnd" "\<not> is_waiting CbLoad"
  "\<not> is_waiting (CbPersist e)"
  by (simp_all add: is_waiting_def)

lemma callback_not_waiting: "runs cb \<Longrightarrow> callback_do E cb (m, w) = (cb', m', w') \<Longrightarrow> \<not> is_waiting cb'"
  by (cases "(E, cb, m, w)" rule: callback_do.cases) (auto split: option.splits if_splits)

lemma th_inv_step: "th_step own ev s s' \<Longrightarrow> th_inv s \<Longrightarrow> th_inv s'"
proof (induction rule: th_step.induct)
  case (run s xs cb ys E cb' m w)
  then show ?case using wg_callback [of "th_m s" xs cb ys E "th_w s" cb' m w] callback_not_waiting [of cb E] by (auto simp: th_inv_def)
next
  case (panic s xs cb ys)
  have "unarmed (panicked cb) = unarmed cb" "\<not> is_waiting (panicked cb)" by (simp_all add: panicked_def is_waiting_def)
  then show ?case using panic wg_swap [of "th_m s" xs cb ys "panicked cb"] by (auto simp: th_inv_def)
next
  case (join s xs j ys)
  then show ?case using wg_swap [of "th_m s" xs "CbRefresh j" ys "CbWait j"] by (auto simp: th_inv_def)
next
  case (finish s xs ys)
  then show ?case using wg_finish [of "th_m s" xs ys] by (auto simp: th_inv_def)
next
  case (land s r)
  then show ?case using filter_wake [of r "th_cbs s"] unfolding th_inv_def wg_ok_def by (simp del: filter_map)
next
  case (crash s e r)
  then show ?case using filter_wake [of "Inr e" "th_cbs s"] unfolding th_inv_def wg_ok_def aborted_wake [of e] by (simp del: filter_map)
qed (auto simp: th_inv_def wg_callers wg_flight wg_fire is_waiting_def)

lemma th_inv_new: "th_inv (th_new (NewTokenManager now r dir k mg mi pi) w)"
  by (simp add: th_inv_def wg_ok_def th_new_def NewTokenManager_def)

lemma th_inv_run: "th_run s tr s' \<Longrightarrow> th_inv s \<Longrightarrow> th_inv s'"
  by (induction rule: th_run.induct) (auto intro: th_inv_step)

section \<open>Stop\<close>

text \<open>How many steps the callbacks can still take, or wait for.\<close>

fun flight_left :: "flight \<Rightarrow> nat" where
  "flight_left FLoad = 8"
| "flight_left (FSnapshot e) = 7"
| "flight_left (FCall e r) = 6"
| "flight_left (FStore e) = 5"
| "flight_left (FPersist e) = 4"
| "flight_left (FReset e) = 3"
| "flight_left (FSchedule e) = 2"
| "flight_left (FDone r) = 1"

fun callback_left :: "flight option \<Rightarrow> callback \<Rightarrow> nat" where
  "callback_left f (CbStart j) = 14"
| "callback_left f (CbRefresh j) = 13"
| "callback_left f (CbWait j) = 4 + (case f of None \<Rightarrow> 0 | Some g \<Rightarrow> flight_left g)"
| "callback_left f (CbFailed j e) = 3"
| "callback_left f (CbRetry e) = 2"
| "callback_left f CbLoad = 4"
| "callback_left f (CbPersist e) = 3"
| "callback_left f CbRearm = 2"
| "callback_left f CbEnd = 1"

definition work :: "th_sys \<Rightarrow> nat" where
  "work s = sum_list (map (callback_left (th_flight s)) (th_cbs s))"

lemma flight_left_le: "flight_left f \<le> 8"
  by (cases f) simp_all

lemma callback_left_pos: "0 < callback_left f cb"
  by (cases cb) simp_all

lemma work_zero: "work s = 0 \<longleftrightarrow> th_cbs s = []"
  by (cases "th_cbs s") (simp_all add: work_def callback_left_pos)

lemma flight_do_left: "\<nexists>r. f = FDone r \<Longrightarrow> flight_do E f (m, w) = (f', m', w') \<Longrightarrow> flight_left f' < flight_left f"
  by (cases f) (auto split: option.splits sum.splits if_splits prod.splits)

lemma refresh_failed_left: "callback_left f (refresh_failed j err m) < 3"
  by (cases j) (simp_all split: option.split)

lemma callback_do_left: "runs cb \<Longrightarrow> callback_do E cb (m, w) = (cb', m', w') \<Longrightarrow> callback_left f cb' < callback_left f cb"
  using refresh_failed_left by (cases "(E, cb, m, w)" rule: callback_do.cases) (auto split: option.splits if_splits)

lemma sum_list_less:
  assumes "\<And>x. x \<in> set xs \<Longrightarrow> g x \<le> f x" "\<exists>x \<in> set xs. g x < f x"
  shows "sum_list (map g xs) < (sum_list (map f xs) :: nat)"
  using assms
proof (induction xs)
  case (Cons x xs)
  have "sum_list (map g xs) \<le> sum_list (map f xs)" using Cons.prems(1) by (intro sum_list_mono) simp
  then show ?case using Cons by (cases "g x < f x") (auto simp: add_less_le_mono add_le_less_mono)
qed simp

lemma left_other: "\<not> is_waiting cb \<Longrightarrow> callback_left f cb = callback_left g cb"
  by (cases cb) (simp_all add: is_waiting_def)

lemma left_waiting: "is_waiting cb \<Longrightarrow> callback_left (Some f) cb = 4 + flight_left f"
  by (cases cb) (simp_all add: is_waiting_def)

text \<open>A smaller rest of the flight, or its end, for every callback that waits for it.\<close>

lemma work_flight:
  assumes "flight_left f' < flight_left f"
  shows "sum_list (map (callback_left (Some f')) cbs) + (if list_ex is_waiting cbs then 1 else 0) \<le> sum_list (map (callback_left (Some f)) cbs)"
proof (cases "list_ex is_waiting cbs")
  case True
  have le: "callback_left (Some f') cb \<le> callback_left (Some f) cb" for cb
    using assms left_other [of cb "Some f'" "Some f"] left_waiting [of cb] by (cases "is_waiting cb") auto
  have "\<exists>cb \<in> set cbs. callback_left (Some f') cb < callback_left (Some f) cb"
    using True assms left_waiting [of _ f] left_waiting [of _ f'] unfolding list_ex_iff by (metis add_less_cancel_left)
  then have "sum_list (map (callback_left (Some f')) cbs) < sum_list (map (callback_left (Some f)) cbs)"
    by (rule sum_list_less [OF le])
  then show ?thesis using True by simp
next
  case False
  then have "map (callback_left (Some f')) cbs = map (callback_left (Some f)) cbs"
    by (auto simp: list_ex_iff intro: left_other)
  then show ?thesis using False by (simp del: map_eq_conv)
qed

lemma wake_left: "callback_left g (wake r cb) \<le> callback_left (Some (FDone r)) cb"
    "is_waiting cb \<Longrightarrow> callback_left g (wake r cb) < callback_left (Some (FDone r)) cb"
  by (cases "(r, cb)" rule: wake.cases; simp add: is_waiting_def)+

lemma work_land:
  "sum_list (map (callback_left None) (map (wake r) cbs)) + (if list_ex is_waiting cbs then 1 else 0) \<le> sum_list (map (callback_left (Some (FDone r))) cbs)"
proof (cases "list_ex is_waiting cbs")
  case True
  then have "\<exists>cb \<in> set cbs. callback_left None (wake r cb) < callback_left (Some (FDone r)) cb"
    using wake_left(2) by (auto simp: list_ex_iff)
  then have "sum_list (map (\<lambda>cb. callback_left None (wake r cb)) cbs) < sum_list (map (callback_left (Some (FDone r))) cbs)"
    by (rule sum_list_less [rotated]) (rule wake_left)
  then show ?thesis using True by (simp add: comp_def)
next
  case False
  then show ?thesis by (simp add: comp_def) (intro sum_list_mono wake_left)
qed

lemma work_crash:
  "sum_list (map (callback_left None) (map aborted cbs)) + (if list_ex is_waiting cbs then 1 else 0) \<le> sum_list (map (callback_left (Some (FCall e r))) cbs)"
proof -
  have "callback_left (Some (FDone (Inr e))) cb \<le> callback_left (Some (FCall e r)) cb" for cb by (cases cb) simp_all
  then have "sum_list (map (callback_left (Some (FDone (Inr e)))) cbs) \<le> sum_list (map (callback_left (Some (FCall e r))) cbs)" by (intro sum_list_mono)
  then show ?thesis using work_land [of "Inr e" cbs] unfolding aborted_wake [of e] by linarith
qed

lemma left_none: "\<not> list_ex is_waiting cbs \<Longrightarrow> map (callback_left f) cbs = map (callback_left g) cbs"
  by (auto simp: list_ex_iff intro: left_other)

lemma work_join:
  assumes "f = None \<longrightarrow> \<not> list_ex is_waiting (xs @ ys)"
  shows "sum_list (map (callback_left (Some (case f of None \<Rightarrow> FLoad | Some g \<Rightarrow> g))) (xs @ CbWait j # ys)) < sum_list (map (callback_left f) (xs @ CbRefresh j # ys))"
proof -
  have "map (callback_left (Some (case f of None \<Rightarrow> FLoad | Some g \<Rightarrow> g))) (xs @ ys) = map (callback_left f) (xs @ ys)"
    using assms left_none [of "xs @ ys" "Some FLoad" None] by (cases f) simp_all
  then have "sum_list (map (callback_left (Some (case f of None \<Rightarrow> FLoad | Some g \<Rightarrow> g))) xs) + sum_list (map (callback_left (Some (case f of None \<Rightarrow> FLoad | Some g \<Rightarrow> g))) ys) =
      sum_list (map (callback_left f) xs) + sum_list (map (callback_left f) ys)"
    by (metis map_append sum_list.append)
  then show ?thesis using flight_left_le [of "case f of None \<Rightarrow> FLoad | Some g \<Rightarrow> g"] by simp
qed

lemma stopped_callers:
  assumes "tm_stopped m"
  shows "scheduleProactiveRefresh now e m = m" "scheduleRetry now r e m = m" "startPersistWatchdog now m = m" "Stop m = m"
  using assms by (simp_all add: manager_defs)

lemma callers_stopped:
  "tm_stopped (scheduleProactiveRefresh now e m) = tm_stopped m" "tm_stopped (scheduleRetry now r e m) = tm_stopped m"
  by (simp_all add: manager_defs split: prod.split)

lemma flight_stopped: "flight_do E f (m, w) = (f', m', w') \<Longrightarrow> tm_stopped m' = tm_stopped m"
  by (cases f) (auto simp: callers_stopped)

lemma callback_stopped: "callback_do E cb (m, w) = (cb', m', w') \<Longrightarrow> tm_stopped m' = tm_stopped m"
  by (cases "(E, cb, m, w)" rule: callback_do.cases) (auto simp: callers_stopped split: if_splits)

lemma panicked_left: "runs cb \<Longrightarrow> cb \<noteq> CbRearm \<Longrightarrow> callback_left f (panicked cb) < callback_left f cb"
  by (cases cb) (auto simp: panicked_def)

lemma stopped_step:
  "th_step own ev s s' \<Longrightarrow> th_inv s \<Longrightarrow> tm_stopped (th_m s) \<Longrightarrow> tm_stopped (th_m s') \<and> work s' + (if own then 1 else 0) \<le> work s"
proof (induction rule: th_step.induct)
  case (fly s f E f' m w)
  then show ?case using work_flight [OF flight_do_left [of f E], of "th_m s" "th_w s" f' m w "th_cbs s"] flight_stopped [of E f] by (auto simp: work_def)
next
  case (land s r)
  then show ?case using work_land [of r "th_cbs s"] by (simp add: work_def)
next
  case (crash s e r)
  then show ?case using work_crash [of "th_cbs s" e r] by (simp add: work_def)
next
  case (run s xs cb ys E cb' m w)
  then show ?case using callback_do_left [of cb E "th_m s" "th_w s" cb' m w "th_flight s"] callback_stopped [of E cb] by (auto simp: work_def)
next
  case (panic s xs cb ys)
  then show ?case using panicked_left [of cb "th_flight s"] by (simp add: work_def)
next
  case (join s xs j ys)
  then show ?case using work_join [of "th_flight s" xs ys j] by (simp add: work_def th_inv_def is_waiting_def)
next
  case (refresh s)
  then have "map (callback_left (Some FLoad)) (th_cbs s) = map (callback_left None) (th_cbs s)" by (intro left_none) (simp add: th_inv_def)
  then show ?case using refresh by (simp add: work_def del: map_eq_conv)
qed (auto simp: work_def th_inv_def wg_ok_def pending_def stopped_callers GetToken_def SetRefresher_def split: option.split)

text \<open>A callback that is left has a step to take, or the flight it waits for has.\<close>

lemma callback_enabled:
  assumes "th_inv s" "th_cbs s \<noteq> []"
  shows "\<exists>ev s'. th_step True ev s s'"
proof -
  obtain cb cbs where cbs: "th_cbs s = [] @ cb # cbs" using assms(2) by (cases "th_cbs s") auto
  show ?thesis
  proof (cases "runs cb")
    case True
    fix E :: call_env
    obtain cb' m w where "callback_do E cb (th_m s, th_w s) = (cb', m, w)" by (metis surj_pair)
    from th_step.run [OF cbs True this] show ?thesis by blast
  next
    case False
    then consider j where "cb = CbWait j" | j where "cb = CbRefresh j" | "cb = CbEnd" by (cases cb) auto
    then show ?thesis
    proof cases
      case 1
      then have w: "list_ex is_waiting (th_cbs s)" using cbs by (simp add: is_waiting_def)
      then obtain f where f: "th_flight s = Some f" using assms(1) by (auto simp: th_inv_def)
      show ?thesis
      proof (cases "\<exists>r. f = FDone r")
        case True
        then show ?thesis using th_step.land [of s] f w by auto
      next
        case False
        fix E :: call_env
        obtain f' m w' where "flight_do E f (th_m s, th_w s) = (f', m, w')" by (metis surj_pair)
        from th_step.fly [OF f False this] w show ?thesis by auto
      qed
    qed (use cbs th_step.join th_step.finish in blast)+
  qed
qed

lemma stopped_run:
  assumes "th_run s tr s'" "th_inv s" "tm_stopped (th_m s)"
  shows "tm_stopped (th_m s') \<and> length (filter fst tr) + work s' \<le> work s"
  using assms
proof (induction rule: th_run.induct)
  case (snoc s tr s' own ev s'')
  from stopped_step [OF snoc(2) th_inv_run [OF snoc(1)]] snoc show ?case by (cases own) auto
qed simp

lemma callback_left_le: "callback_left f cb \<le> 14"
  by (cases cb) (auto split: option.split intro: order_trans [OF flight_left_le])

lemma work_bounds: "length (th_cbs s) \<le> work s" "work s \<le> 14 * length (th_cbs s)"
proof -
  have "length cbs \<le> sum_list (map (callback_left f) cbs) \<and> sum_list (map (callback_left f) cbs) \<le> 14 * length cbs" for f cbs
  proof (induction cbs)
    case (Cons cb cbs)
    then show ?case using callback_left_pos [of f cb] callback_left_le [of f cb] by simp
  qed simp
  then show "length (th_cbs s) \<le> work s" "work s \<le> 14 * length (th_cbs s)" by (simp_all add: work_def)
qed

text \<open>
  C16: \<open>Stop\<close> brings the callbacks to an end.  Let \<open>Stop\<close> have taken the lock, at any point of any interleaving of callbacks, refreshes, new tokens and
  requests, and let anything happen afterwards.  No timer is armed, neither by the callbacks that were under way nor by the refresh they wait for, nor by a
  caller of \<open>SetInitialToken\<close>; the wait group counts exactly the callbacks that are left.  These take, or wait for, at most fourteen steps each, panics and
  the refresh they have joined included, and as long as one is left such a step can be taken: the wait of \<open>Stop\<close> ends.
\<close>

theorem Stop_quiescent:
  assumes "th_run (th_new (NewTokenManager now r dir k margin minInterval persistInterval) w) tr0 s" and "tm_stopped (th_m s)"
    and "th_run s tr s'"
  shows "\<not> pending (tm_refreshTimer (th_m s')) \<and> \<not> pending (tm_persistTimer (th_m s')) \<and>
    tm_callbackWg (th_m s') = int (length (th_cbs s')) \<and>
    length (filter fst tr) + length (th_cbs s') \<le> 14 * length (th_cbs s) \<and>
    (th_cbs s' \<noteq> [] \<longrightarrow> (\<exists>ev s''. th_step True ev s' s''))"
proof -
  have inv: "th_inv s" by (rule th_inv_run [OF assms(1) th_inv_new])
  note inv' = th_inv_run [OF assms(3) inv]
  from stopped_run [OF assms(3) inv assms(2)] have st: "tm_stopped (th_m s')" "length (filter fst tr) + work s' \<le> work s" by simp_all
  have "\<not> pending (tm_refreshTimer (th_m s'))" "\<not> pending (tm_persistTimer (th_m s'))" "tm_callbackWg (th_m s') = int (length (th_cbs s'))"
    using inv' st(1) by (auto simp: th_inv_def wg_ok_def n_pending_def)
  then show ?thesis using st(2) work_bounds [of s] work_bounds [of s'] callback_enabled [OF inv'] by auto
qed

section \<open>Rotating refresh tokens\<close>

text \<open>
  A provider that rotates refresh tokens answers with a new one, and the old one is spent: presenting it again is taken for theft.  What is
  spent along a run, and what the provider and the logins promise: they hand out no token that is spent.  A token counts as spent when a refresh with it has
  succeeded and brought another one; what the provider did when the refresher reports an error, or panics, the manager cannot know.
\<close>

fun spent_after :: "string set \<Rightarrow> th_event \<Rightarrow> string set" where
  "spent_after S (Asked rt (Some rt')) = (if rt' = rt then S else insert rt S)"
| "spent_after S _ = S"

fun issues_unspent :: "string set \<Rightarrow> th_event \<Rightarrow> bool" where
  "issues_unspent S (Asked rt (Some rt')) \<longleftrightarrow> rt' = rt \<or> rt' \<notin> S"
| "issues_unspent S (Installed rt) \<longleftrightarrow> rt \<notin> S"
| "issues_unspent S _ \<longleftrightarrow> True"

fun asks_unspent :: "string set \<Rightarrow> th_event \<Rightarrow> bool" where
  "asks_unspent S (Asked rt _) \<longleftrightarrow> rt \<notin> S"
| "asks_unspent S _ \<longleftrightarrow> True"

fun along :: "(string set \<Rightarrow> th_event \<Rightarrow> bool) \<Rightarrow> string set \<Rightarrow> (bool \<times> th_event) list \<Rightarrow> bool" where
  "along P S [] \<longleftrightarrow> True"
| "along P S ((own, ev) # tr) \<longleftrightarrow> P S ev \<and> along P (spent_after S ev) tr"

definition spent :: "(bool \<times> th_event) list \<Rightarrow> string set" where
  "spent tr = fold (\<lambda>(own, ev) S. spent_after S ev) tr {}"

lemma along_snoc: "along P S (tr @ [(own, ev)]) \<longleftrightarrow> along P S tr \<and> P (fold (\<lambda>(own, ev) S. spent_after S ev) tr S) ev"
proof (induction tr arbitrary: S)
  case (Cons x tr)
  then show ?case by (cases x) simp
qed simp

text \<open>Steps that show nothing do not matter.\<close>

lemma along_loud: "(\<And>S. P S Quiet) \<Longrightarrow> along P S tr \<longleftrightarrow> along P S (filter (\<lambda>p. snd p \<noteq> Quiet) tr)"
proof (induction tr arbitrary: S)
  case (Cons x tr)
  then show ?case by (cases x; cases "snd x") auto
qed simp

lemma spent_loud: "spent tr = spent (filter (\<lambda>p. snd p \<noteq> Quiet) tr)"
proof -
  have "fold (\<lambda>(own, ev) S. spent_after S ev) tr S = fold (\<lambda>(own, ev) S. spent_after S ev) (filter (\<lambda>p. snd p \<noteq> Quiet) tr) S" for S
    by (induction tr arbitrary: S) auto
  then show ?thesis by (simp add: spent_def)
qed

lemma spent_snoc [simp]: "spent [] = {}" "spent (tr @ [(own, ev)]) = spent_after (spent tr) ev"
  by (simp_all add: spent_def)

text \<open>The current token is not spent, unless the flight is about to replace it; nor is what the flight holds.\<close>

fun flight_unspent :: "string set \<Rightarrow> flight \<Rightarrow> bool" where
  "flight_unspent S (FSnapshot e) \<longleftrightarrow> te_refreshToken e \<notin> S"
| "flight_unspent S (FCall e r) \<longleftrightarrow> te_refreshToken e \<notin> S"
| "flight_unspent S (FStore e) \<longleftrightarrow> te_refreshToken e \<notin> S"
| "flight_unspent S _ \<longleftrightarrow> True"

definition token_unspent :: "string set \<Rightarrow> flight option \<Rightarrow> TokenManager \<Rightarrow> bool" where
  "token_unspent S f m \<longleftrightarrow> (\<exists>e. f = Some (FStore e)) \<or> (\<forall>e. tm_current m = Some e \<longrightarrow> te_refreshToken e \<notin> S)"

definition rot_inv :: "string set \<Rightarrow> th_sys \<Rightarrow> bool" where
  "rot_inv S s \<longleftrightarrow> token_unspent S (th_flight s) (th_m s) \<and> (\<forall>f. th_flight s = Some f \<longrightarrow> flight_unspent S f)"

lemma callers_current [simp]:
  "tm_current (scheduleProactiveRefresh now e m) = tm_current m" "tm_current (startPersistWatchdog now m) = tm_current m"
  "tm_current (snd (GetToken now m)) = tm_current m" "tm_current (SetRefresher r m) = tm_current m" "tm_current (Stop m) = tm_current m"
  by (simp_all add: manager_defs case_prod_beta split: option.split)

lemma callback_current: "callback_do E cb (m, w) = (cb', m', w') \<Longrightarrow> tm_current m' = tm_current m"
  by (cases "(E, cb, m, w)" rule: callback_do.cases) (auto split: if_splits)

lemma flight_rot:
  assumes "flight_do E f (m, w) = (f', m', w')" "\<nexists>r. f = FDone r" "token_unspent S (Some f) m" "flight_unspent S f" "issues_unspent S (asks E m f)"
  shows "asks_unspent S (asks E m f) \<and> token_unspent (spent_after S (asks E m f)) (Some f') m' \<and> flight_unspent (spent_after S (asks E m f)) f'"
  using assms by (cases f) (auto simp: token_unspent_def split: option.splits sum.splits prod.splits if_splits)

lemma rot_step:
  "th_step own ev s s' \<Longrightarrow> rot_inv S s \<Longrightarrow> issues_unspent S ev \<Longrightarrow> asks_unspent S ev \<and> rot_inv (spent_after S ev) s'"
proof (induction rule: th_step.induct)
  case (fly s f E f' m w)
  then show ?case using flight_rot [OF fly(3,2), of S] by (simp add: rot_inv_def)
next
  case (run s xs cb ys E cb' m w)
  then show ?case using callback_current [OF run(3)] by (simp add: rot_inv_def token_unspent_def)
qed (auto simp: rot_inv_def token_unspent_def split: option.splits)

lemma rot_run:
  "th_run s tr s' \<Longrightarrow> rot_inv {} s \<Longrightarrow> along issues_unspent {} tr \<Longrightarrow> along asks_unspent {} tr \<and> rot_inv (spent tr) s'"
proof (induction rule: th_run.induct)
  case (snoc s tr s' own ev s'')
  then have "along issues_unspent {} tr" "issues_unspent (spent tr) ev" by (simp_all add: along_snoc spent_def)
  with rot_step [OF snoc(2), of "spent tr"] snoc show ?case by (simp add: along_snoc spent_def [symmetric])
qed simp

text \<open>
  C17: a spent refresh token is never presented again.  In every interleaving of callbacks, refreshes on demand, watchdog, logins and \<open>Stop\<close> of a manager: if the
  provider and the logins hand out no token that an earlier answer has replaced, then every request to the provider presents a token that
  no earlier answer has replaced.  Two refreshes never race with the same token, although the body of \<open>Refresh\<close> holds no lock while it waits for the
  provider and stores the new token only afterwards: all callers share one flight, and the next one starts when the token is stored.
\<close>

theorem no_replay:
  assumes "th_run (th_new (NewTokenManager now r dir k margin minInterval persistInterval) w) tr s" and "along issues_unspent {} tr"
  shows "along asks_unspent {} tr"
proof -
  have "rot_inv {} (th_new (NewTokenManager now r dir k margin minInterval persistInterval) w)"
    by (simp add: rot_inv_def token_unspent_def th_new_def)
  from rot_run [OF assms(1) this assms(2)] show ?thesis by simp
qed

section \<open>Concrete runs\<close>

lemma th_run_trans: "th_run s' tr' s'' \<Longrightarrow> th_run s tr s' \<Longrightarrow> th_run s (tr @ tr') s''"
proof (induction rule: th_run.induct)
  case (snoc s' tr' s1 own ev s'')
  then show ?case using th_run.snoc [of s "tr @ tr'" s1 own ev s''] by simp
qed simp

text \<open>A flight that no callback has joined, from the start to its end.\<close>

lemma wake_none: "\<not> list_ex is_waiting cbs \<Longrightarrow> map (wake r) cbs = cbs"
proof (induction cbs)
  case (Cons cb cbs)
  then show ?case by (cases "(r, cb)" rule: wake.cases) auto
qed simp

lemma fly_alone:
  assumes "th_run s0 tr s" "\<not> list_ex is_waiting (th_cbs s)" "th_flight s = Some f" "\<nexists>r. f = FDone r"
  shows "th_run s0 (tr @ [(False, asks E (th_m s) f)])
    (case flight_do E f (th_m s, th_w s) of (f', m, w) \<Rightarrow> s\<lparr>th_m := m, th_w := w, th_flight := Some f'\<rparr>)"
  using th_run.snoc [OF assms(1) th_step.fly [OF assms(3,4)]] assms(2) by (auto split: prod.split)

lemma callers_dir:
  "tm_persistDir (scheduleProactiveRefresh now e m) = tm_persistDir m" "tm_cacheKey (scheduleProactiveRefresh now e m) = tm_cacheKey m"
  "tm_persistDir (startPersistWatchdog now m) = tm_persistDir m" "tm_cacheKey (startPersistWatchdog now m) = tm_cacheKey m"
  by (simp_all add: manager_defs case_prod_beta)

lemma flight_completes:
  fixes E :: call_env
  assumes "th_flight s = None" "\<not> list_ex is_waiting (th_cbs s)" "tm_current (th_m s) = Some e" "te_refreshToken e \<noteq> []"
    and "ce_refresh E (tm_ctxDone (th_m s)) (tm_refresher (th_m s)) (te_refreshToken e) = Inr (i, rt, x)"
  shows "\<exists>tr s'. th_run s tr s' \<and> filter (\<lambda>p. snd p \<noteq> Quiet) tr = [(False, Asked (te_refreshToken e) (Some rt))] \<and>
    th_flight s' = None \<and> th_cbs s' = th_cbs s \<and>
    th_w s' = snd (PersistToken (ce_io E) (tm_persistDir (th_m s)) (tm_cacheKey (th_m s)) i rt (th_w s)) \<and>
    tm_persistDir (th_m s') = tm_persistDir (th_m s) \<and> tm_cacheKey (th_m s') = tm_cacheKey (th_m s) \<and>
    tm_current (th_m s') = Some \<lparr>te_idToken = i, te_refreshToken = rt, te_expiry = x, te_obtainedAt = ce_fin E\<rparr>"
proof -
  let ?e = "\<lparr>te_idToken = i, te_refreshToken = rt, te_expiry = x, te_obtainedAt = ce_fin E\<rparr>"
  let ?a = "(False, Asked (te_refreshToken e) (Some rt))" and ?q = "(False, Quiet)"
  have r0: "th_run s [?q] (s\<lparr>th_flight := Some FLoad\<rparr>)" using th_run.snoc [OF th_run.refl th_step.refresh] assms(1) by simp
  obtain w' where w: "snd (PersistToken (ce_io E) (tm_persistDir (th_m s)) (tm_cacheKey (th_m s)) i rt (th_w s)) = w'" by blast
  let ?m = "(th_m s)\<lparr>tm_current := Some ?e\<rparr>"
  have "th_run s [?q, ?q] (s\<lparr>th_flight := Some (FSnapshot e)\<rparr>)" using fly_alone [OF r0, where E = E and f = "FLoad"] assms by simp
  from fly_alone [OF this, where E = E and f = "FSnapshot e"] have "th_run s [?q, ?q, ?q] (s\<lparr>th_flight := Some (FCall e (tm_refresher (th_m s)))\<rparr>)" using assms by simp
  from fly_alone [OF this, where E = E and f = "FCall e (tm_refresher (th_m s))"] have "th_run s [?q, ?q, ?q, ?a] (s\<lparr>th_flight := Some (FStore ?e)\<rparr>)" using assms by simp
  from fly_alone [OF this, where E = E and f = "FStore ?e"] have "th_run s [?q, ?q, ?q, ?a, ?q] (s\<lparr>th_m := ?m, th_flight := Some (FPersist ?e)\<rparr>)" using assms by simp
  from fly_alone [OF this, where E = E and f = "FPersist ?e"] have "th_run s [?q, ?q, ?q, ?a, ?q, ?q] (s\<lparr>th_m := ?m, th_w := w', th_flight := Some (FReset ?e)\<rparr>)" using assms w by simp
  from fly_alone [OF this, where E = E and f = "FReset ?e"] have "th_run s [?q, ?q, ?q, ?a, ?q, ?q, ?q]
      (s\<lparr>th_m := ?m\<lparr>tm_retryCount := 0\<rparr>, th_w := w', th_flight := Some (FSchedule ?e)\<rparr>)" using assms by simp
  from fly_alone [OF this, where E = E and f = "FSchedule ?e"] have "th_run s [?q, ?q, ?q, ?a, ?q, ?q, ?q, ?q]
      (s\<lparr>th_m := scheduleProactiveRefresh (ce_fin E) ?e (?m\<lparr>tm_retryCount := 0\<rparr>), th_w := w', th_flight := Some (FDone (Inr ?e))\<rparr>)" using assms by simp
  from th_run.snoc [OF this th_step.land] have "th_run s [?q, ?q, ?q, ?a, ?q, ?q, ?q, ?q, ?q]
      (s\<lparr>th_m := scheduleProactiveRefresh (ce_fin E) ?e (?m\<lparr>tm_retryCount := 0\<rparr>), th_w := w', th_flight := None, th_cbs := th_cbs s\<rparr>)" using assms wake_none [of "th_cbs s" "Inr ?e"] by simp
  then show ?thesis using w by (intro exI conjI) (assumption, simp_all add: callers_dir)
qed

definition rotating :: call_env where
  "rotating = \<lparr>ce_now = 100, ce_fin = 100,
     ce_refresh = (\<lambda>done r rt. Inr (''i'', if rt = ''r1'' then ''r2'' else ''r3'', 100 + 3600 * second)), ce_io = no_faults ''1'', ce_rand = 0\<rparr>"

definition demo_entry :: tokenEntry where
  "demo_entry = \<lparr>te_idToken = ''i'', te_refreshToken = ''r1'', te_expiry = 100 + 3600 * second, te_obtainedAt = 100\<rparr>"

abbreviation demo_fresh :: TokenManager where
  "demo_fresh \<equiv> NewTokenManager 100 demo_refresher ''/d'' ''ab'' 0 0 0"

lemma demo_stored:
  "th_run (th_new demo_fresh one_dir) [(False, Installed ''r1'')]
     ((th_new demo_fresh one_dir)\<lparr>th_m := demo_fresh\<lparr>tm_current := Some demo_entry\<rparr>, th_setters := [SetSchedule demo_entry]\<rparr>)"
  using th_run.snoc [OF th_run.refl th_step.store [of demo_entry "th_new demo_fresh one_dir"]] by (simp add: th_new_def demo_entry_def)

theorem no_replay_witness:
  "\<exists>tr s. th_run (th_new demo_fresh one_dir) tr s \<and> along asks_unspent {} tr \<and>
     map snd (filter (\<lambda>p. snd p \<noteq> Quiet) tr) = [Installed ''r1'', Asked ''r1'' (Some ''r2''), Asked ''r2'' (Some ''r3'')]"
proof -
  let ?s = "(th_new demo_fresh one_dir)\<lparr>th_m := demo_fresh\<lparr>tm_current := Some demo_entry\<rparr>, th_setters := [SetSchedule demo_entry]\<rparr>"
  obtain tr1 s1 where a: "th_run ?s tr1 s1" "filter (\<lambda>p. snd p \<noteq> Quiet) tr1 = [(False, Asked ''r1'' (Some ''r2''))]" "th_flight s1 = None" "\<not> list_ex is_waiting (th_cbs s1)"
    "tm_current (th_m s1) = Some \<lparr>te_idToken = ''i'', te_refreshToken = ''r2'', te_expiry = 100 + 3600 * second, te_obtainedAt = 100\<rparr>"
    using flight_completes [of ?s demo_entry rotating "''i''" "''r2''" "100 + 3600 * second"] by (auto simp: th_new_def demo_entry_def rotating_def)
  obtain tr2 s2 where b: "th_run s1 tr2 s2" "filter (\<lambda>p. snd p \<noteq> Quiet) tr2 = [(False, Asked ''r2'' (Some ''r3''))]"
    using flight_completes [OF a(3,4,5), of rotating "''i''" "''r3''" "100 + 3600 * second"] by (auto simp: rotating_def)
  let ?tr = "([(False, Installed ''r1'')] @ tr1) @ tr2"
  have run: "th_run (th_new demo_fresh one_dir) ?tr s2" by (rule th_run_trans [OF b(1) th_run_trans [OF a(1) demo_stored]])
  have f: "filter (\<lambda>p. snd p \<noteq> Quiet) ?tr = [(False, Installed ''r1''), (False, Asked ''r1'' (Some ''r2'')), (False, Asked ''r2'' (Some ''r3''))]"
    by (simp add: a(2) b(2))
  have "along issues_unspent {} ?tr" by (subst along_loud) (simp_all only: f, simp_all)
  from no_replay [OF run this] run f show ?thesis by (intro exI [of _ ?tr] exI [of _ s2]) simp
qed

theorem Stop_quiescent_witness:
  "\<exists>tr s. th_run (th_new demo_fresh one_dir) tr s \<and> tm_stopped (th_m s) \<and> tm_callbackWg (th_m s) = 1 \<and> length (th_cbs s) = 1 \<and>
     \<not> pending (tm_refreshTimer (th_m s)) \<and> (\<exists>ev s''. th_step True ev s s'')"
proof -
  let ?m = "scheduleProactiveRefresh 100 demo_entry (demo_fresh\<lparr>tm_current := Some demo_entry\<rparr>)"
  let ?s = "(th_new demo_fresh one_dir)\<lparr>th_m := demo_fresh\<lparr>tm_current := Some demo_entry\<rparr>, th_setters := [SetSchedule demo_entry]\<rparr>"
  obtain t where t: "tm_refreshTimer ?m = Some t" "tr_status t = TPending"
    by (simp add: scheduleProactiveRefresh_def NewTokenManager_def demo_entry_def Let_def second_def time_Sub_def min_duration_def max_duration_def AfterFunc_def)
  have st: "\<not> tm_stopped ?m" by (simp add: callers_stopped NewTokenManager_def)
  have "th_run (th_new demo_fresh one_dir) [(False, Installed ''r1''), (False, Quiet)] (?s\<lparr>th_m := ?m, th_setters := [SetWatchdog]\<rparr>)"
    using th_run.snoc [OF demo_stored th_step.schedule [of ?s "[]" demo_entry "[]" 100]] by simp
  from th_run.snoc [OF this th_step.fire_refresh [of _ t]] t
  have "th_run (th_new demo_fresh one_dir) [(False, Installed ''r1''), (False, Quiet), (False, Quiet)]
      (?s\<lparr>th_m := ?m\<lparr>tm_refreshTimer := Some (fire t)\<rparr>, th_cbs := [CbStart (tr_job t)], th_setters := [SetWatchdog]\<rparr>)" by (simp add: th_new_def)
  note run = th_run.snoc [OF this th_step.stop]
  show ?thesis
    by (rule exI, rule exI, rule conjI [OF run]) (use Stop_quiescent [OF run _ th_run.refl] in \<open>simp add: Stop_def\<close>)
qed

section \<open>What the watchdog may write\<close>

lemma demo_two_writes:
  obtains w where "PersistToken (no_faults ''2'') ''/d'' ''ab'' ''i'' ''r1'' (snd (PersistToken (no_faults ''1'') ''/d'' ''ab'' ''i'' ''r2'' one_dir)) = (None, w)"
proof -
  obtain w1 where w1: "PersistToken (no_faults ''1'') ''/d'' ''ab'' ''i'' ''r2'' one_dir = (None, w1)"
    using PersistToken_ok [of "''ab''" one_dir "''/d''" "''1''"] by (auto simp: one_dir_def)
  have "gm_get (vf_dirs w1) ''/d'' \<noteq> None"
    using PersistToken_dirs [of one_dir "''/d''" "no_faults ''1''" "''/d''" "''ab''" "''i''" "''r2''"] w1 by (simp add: one_dir_def)
  then show ?thesis
    using PersistToken_ok [of "''ab''" w1 "''/d''" "''2''" "''i''" "''r1''"] PersistToken_written(2) [OF w1] that w1
    by (auto simp: one_dir_def temp_path_def token_path_def new_node_def)
qed

text \<open>
  The watchdog loads the token and writes it to disk in two steps.  A refresh that runs in between stores and persists its new token first, and the watchdog
  then replaces it on disk by the token that the provider has just retired: until the watchdog runs again, what is on disk is a
  spent refresh token, which a daemon that starts anew would present.
\<close>

theorem watchdog_writes_spent:
  "\<exists>tr s. th_run (th_new demo_fresh one_dir) tr s \<and> along issues_unspent {} tr \<and> CurrentRefreshToken (th_m s) = ''r2'' \<and>
     look_token ''/d'' (th_w s) ''ab'' = Inr (''i'', ''r1'') \<and> ''r1'' \<in> spent tr"
proof -
  let ?m0 = "demo_fresh\<lparr>tm_current := Some demo_entry\<rparr>"
  let ?m1 = "scheduleProactiveRefresh 100 demo_entry ?m0"
  let ?m2 = "startPersistWatchdog 100 ?m1"
  let ?s = "(th_new demo_fresh one_dir)\<lparr>th_m := ?m0, th_setters := [SetSchedule demo_entry]\<rparr>" and ?q = "(False, Quiet)"
  let ?i = "(False, Installed ''r1'')"
  obtain t where t: "tm_persistTimer ?m2 = Some t" "tr_status t = TPending" "tr_job t = JobWatchdog"
    by (simp add: startPersistWatchdog_def callers_stopped scheduleProactiveRefresh_def NewTokenManager_def Let_def AfterFunc_def case_prod_beta)
  let ?m3 = "?m2\<lparr>tm_persistTimer := Some (fire t)\<rparr>"
  have c: "tm_current ?m3 = Some demo_entry" "\<not> tm_ctxDone ?m3" "tm_persistDir ?m3 = ''/d''" "tm_cacheKey ?m3 = ''ab''"
    by (simp_all add: callers_dir) (simp_all add: manager_defs NewTokenManager_def case_prod_beta)
  have "th_run (th_new demo_fresh one_dir) [?i, ?q] (?s\<lparr>th_m := ?m1, th_setters := [SetWatchdog]\<rparr>)"
    using th_run.snoc [OF demo_stored th_step.schedule [of ?s "[]" demo_entry "[]" 100]] by simp
  from th_run.snoc [OF this th_step.watchdog [of _ "[]" "[]" 100]]
  have "th_run (th_new demo_fresh one_dir) [?i, ?q, ?q] (?s\<lparr>th_m := ?m2, th_setters := []\<rparr>)" by simp
  from th_run.snoc [OF this th_step.fire_persist [of _ t]] t
  have "th_run (th_new demo_fresh one_dir) [?i, ?q, ?q, ?q] (?s\<lparr>th_m := ?m3, th_setters := [], th_cbs := [CbStart JobWatchdog]\<rparr>)"
    by (simp add: th_new_def)
  from th_run.snoc [OF this th_step.run [of _ "[]" _ "[]" rotating]] c(2)
  have "th_run (th_new demo_fresh one_dir) [?i, ?q, ?q, ?q, (True, Quiet)] (?s\<lparr>th_m := ?m3, th_setters := [], th_cbs := [CbLoad]\<rparr>)"
    by (simp add: th_new_def)
  from th_run.snoc [OF this th_step.run [of _ "[]" _ "[]" rotating]] c(1)
  have r1: "th_run (th_new demo_fresh one_dir) [?i, ?q, ?q, ?q, (True, Quiet), (True, Quiet)] (?s\<lparr>th_m := ?m3, th_setters := [], th_cbs := [CbPersist demo_entry]\<rparr>)"
    by (simp add: th_new_def demo_entry_def)
  let ?s1 = "?s\<lparr>th_m := ?m3, th_setters := [], th_cbs := [CbPersist demo_entry]\<rparr>"
  obtain tr2 s2 where f: "th_run ?s1 tr2 s2" "filter (\<lambda>p. snd p \<noteq> Quiet) tr2 = [(False, Asked ''r1'' (Some ''r2''))]"
    "th_cbs s2 = [CbPersist demo_entry]" "th_w s2 = snd (PersistToken (no_faults ''1'') ''/d'' ''ab'' ''i'' ''r2'' one_dir)"
    "tm_persistDir (th_m s2) = ''/d''" "tm_cacheKey (th_m s2) = ''ab''"
    "tm_current (th_m s2) = Some \<lparr>te_idToken = ''i'', te_refreshToken = ''r2'', te_expiry = 100 + 3600 * second, te_obtainedAt = 100\<rparr>"
    using flight_completes [of ?s1 demo_entry rotating "''i''" "''r2''" "100 + 3600 * second"] c by (auto simp: th_new_def demo_entry_def rotating_def)
  let ?E = "rotating\<lparr>ce_io := no_faults ''2''\<rparr>"
  obtain w where w: "PersistToken (no_faults ''2'') ''/d'' ''ab'' ''i'' ''r1'' (th_w s2) = (None, w)"
    unfolding f(4) by (rule demo_two_writes)
  have r3: "th_run s2 [(True, Quiet)] (s2\<lparr>th_w := w, th_cbs := [CbRearm]\<rparr>)"
    using th_run.snoc [OF th_run.refl th_step.run [of s2 "[]" "CbPersist demo_entry" "[]" ?E CbRearm "th_m s2" w]] f(3,5,6) w
    by (simp add: demo_entry_def rotating_def)
  let ?tr = "([?i, ?q, ?q, ?q, (True, Quiet), (True, Quiet)] @ tr2) @ [(True, Quiet)]"
  have run: "th_run (th_new demo_fresh one_dir) ?tr (s2\<lparr>th_w := w, th_cbs := [CbRearm]\<rparr>)" by (rule th_run_trans [OF r3 th_run_trans [OF f(1) r1]])
  have loud: "filter (\<lambda>p. snd p \<noteq> Quiet) ?tr = [?i, (False, Asked ''r1'' (Some ''r2''))]" by (simp add: f(2))
  have "along issues_unspent {} ?tr" by (subst along_loud) (simp_all only: loud, simp_all)
  moreover have "look_token ''/d'' w ''ab'' = Inr (''i'', ''r1'')" using ts.save_look [OF w] by (simp add: storable_def ascii_def byte_of_def)
  moreover have "''r1'' \<in> spent ?tr" unfolding spent_loud [of ?tr] loud by (simp add: spent_def)
  ultimately show ?thesis using run f(7) by (intro exI conjI) (assumption, simp_all add: CurrentRefreshToken_def)
qed

end
