(* ===== verification/Windows.thy ===== *)
theory Windows
  imports ServerProps
begin

text \<open>
  The platform files of the daemon that the other theories do not follow: \<open>persist_windows.go\<close>, \<open>security_windows.go\<close>, \<open>transport_windows.go\<close>,
  \<open>socket_windows.go\<close>, \<open>find_pid_windows.go\<close>, and \<open>socket_darwin.go\<close>.  The calls of the Windows API and of the pipe library are parameters; the handles
  that are open are part of the state.
\<close>

section \<open>The interface of the system\<close>

type_synonym sid = string

datatype well_known = WinLocalSystemSid | WinBuiltinAdministratorsSid

definition FILE_ATTRIBUTE_REPARSE_POINT :: "32 word" where "FILE_ATTRIBUTE_REPARSE_POINT = 0x400"

definition GENERIC_ALL :: "32 word" where "GENERIC_ALL = 0x10000000"

definition SET_ACCESS :: "32 word" where "SET_ACCESS = 2"

definition OBJECT_INHERIT_ACE :: "32 word" where "OBJECT_INHERIT_ACE = 1"

definition CONTAINER_INHERIT_ACE :: "32 word" where "CONTAINER_INHERIT_ACE = 2"

definition DACL_SECURITY_INFORMATION :: "32 word" where "DACL_SECURITY_INFORMATION = 4"

definition PROTECTED_DACL_SECURITY_INFORMATION :: "32 word" where "PROTECTED_DACL_SECURITY_INFORMATION = 0x80000000"

text \<open>One entry of an access list, for a trustee given by its identifier.\<close>

record explicit_access =
  ea_AccessPermissions :: "32 word"
  ea_AccessMode :: "32 word"
  ea_Inheritance :: "32 word"
  ea_Trustee :: sid

record ('h, 'd, 'acl) winapi =
  wa_UTF16Ptr :: "string \<Rightarrow> go_error option"
  wa_CreateFile :: "string \<Rightarrow> go_error + 'h"
  wa_FileAttributes :: "'h \<Rightarrow> go_error + 32 word"
  wa_TokenUser :: "go_error + sid"
  wa_CopySid :: "sid \<Rightarrow> go_error + sid"
  wa_NamedSecurityInfo :: "string \<Rightarrow> go_error + 'd"
  wa_Owner :: "'d \<Rightarrow> go_error + sid"
  wa_WellKnownSid :: "well_known \<Rightarrow> go_error + sid"
  wa_ACLFromEntries :: "explicit_access list \<Rightarrow> go_error + 'acl"
  wa_SetNamedSecurityInfo :: "string \<Rightarrow> 32 word \<Rightarrow> 'acl \<Rightarrow> go_error option"

section \<open>Identity\<close>

definition runtimeUserID :: "('h, 'd, 'acl) winapi \<Rightarrow> string" where
  "runtimeUserID W = (case wa_TokenUser W of Inl _ \<Rightarrow> ''0'' | Inr s \<Rightarrow> s)"

definition platformUID :: nat where "platformUID = 0"

definition fileInode :: "node \<Rightarrow> nat" where "fileInode info = 0"

definition currentUserSID :: "('h, 'd, 'acl) winapi \<Rightarrow> go_error + sid" where
  "currentUserSID W = (case wa_TokenUser W of Inl e \<Rightarrow> Inl e | Inr s \<Rightarrow> wa_CopySid W s)"

section \<open>Files\<close>

text \<open>Both functions open the entry itself and look at the attributes of the handle.\<close>

definition openNoFollow_win :: "('h, 'd, 'acl) winapi \<Rightarrow> string \<Rightarrow> 'h list \<Rightarrow> (go_error + 'h) \<times> 'h list" where
  "openNoFollow_win W path handles =
     (case wa_UTF16Ptr W path of
        Some e \<Rightarrow> (Inl (Wrap ''invalid path'' e), handles)
      | None \<Rightarrow>
          (case wa_CreateFile W path of
             Inl e \<Rightarrow> (Inl (Wrap ''CreateFile'' e), handles)
           | Inr h \<Rightarrow>
               let opened = h # handles in
               (case wa_FileAttributes W h of
                  Inl e \<Rightarrow> (Inl (Wrap ''GetFileInformationByHandle'' e), remove1 h opened)
                | Inr attrs \<Rightarrow>
                    if and attrs FILE_ATTRIBUTE_REPARSE_POINT \<noteq> 0
                    then (Inl (Err ''persist file is a symlink (rejected)''), remove1 h opened)
                    else (Inr h, opened))))"

definition owner_ok :: "('h, 'd, 'acl) winapi \<Rightarrow> sid \<Rightarrow> sid \<Rightarrow> bool" where
  "owner_ok W owner self \<longleftrightarrow> owner = self \<or> wa_WellKnownSid W WinBuiltinAdministratorsSid = Inr owner"

definition validateRuntimeDirSecurity_win :: "('h, 'd, 'acl) winapi \<Rightarrow> string \<Rightarrow> 'h list \<Rightarrow> go_error option \<times> 'h list" where
  "validateRuntimeDirSecurity_win W path handles =
     (case wa_UTF16Ptr W path of
        Some e \<Rightarrow> (Some (Wrap ''invalid path'' e), handles)
      | None \<Rightarrow>
          (case wa_CreateFile W path of
             Inl e \<Rightarrow> (Some (Wrap ''open runtime dir for reparse check'' e), handles)
           | Inr h \<Rightarrow>
               let opened = h # handles in
               (case wa_FileAttributes W h of
                  Inl e \<Rightarrow> (Some (Wrap ''GetFileInformationByHandle'' e), remove1 h opened)
                | Inr attrs \<Rightarrow>
                    (if and attrs FILE_ATTRIBUTE_REPARSE_POINT \<noteq> 0
                     then Some (Err (''runtime directory '' @ path @ '' is a reparse point (junction/symlink) - rejected''))
                     else
                       case wa_NamedSecurityInfo W path of
                         Inl e \<Rightarrow> Some (Wrap ''GetNamedSecurityInfo'' e)
                       | Inr d \<Rightarrow>
                           (case wa_Owner W d of
                              Inl e \<Rightarrow> Some (Wrap ''get owner SID'' e)
                            | Inr owner \<Rightarrow>
                                (case currentUserSID W of
                                   Inl e \<Rightarrow> Some (Wrap ''get current user SID'' e)
                                 | Inr self \<Rightarrow>
                                     if owner_ok W owner self then None
                                     else Some (Err (''runtime directory '' @ path @ '' owned by '' @ owner @ '', expected '' @ self)))),
                     remove1 h opened))))"

definition access_entries :: "('h, 'd, 'acl) winapi \<Rightarrow> bool \<Rightarrow> sid \<Rightarrow> explicit_access list" where
  "access_entries W isDir self =
     (let inheritFlags = (if isDir then or OBJECT_INHERIT_ACE CONTAINER_INHERIT_ACE else 0);
          entry = (\<lambda>s. \<lparr>ea_AccessPermissions = GENERIC_ALL, ea_AccessMode = SET_ACCESS, ea_Inheritance = inheritFlags, ea_Trustee = s\<rparr>) in
      [entry self] @
      (case wa_WellKnownSid W WinLocalSystemSid of Inl _ \<Rightarrow> [] | Inr s \<Rightarrow> [entry s]) @
      (case wa_WellKnownSid W WinBuiltinAdministratorsSid of Inl _ \<Rightarrow> [] | Inr s \<Rightarrow> [entry s]))"

definition setPrivatePermissions_win :: "('h, 'd, 'acl) winapi \<Rightarrow> string \<Rightarrow> bool \<Rightarrow> go_error option" where
  "setPrivatePermissions_win W path isDir =
     (case currentUserSID W of
        Inl e \<Rightarrow> Some (Wrap ''get current user SID'' e)
      | Inr self \<Rightarrow>
          (case wa_ACLFromEntries W (access_entries W isDir self) of
             Inl e \<Rightarrow> Some (Wrap ''ACLFromEntries'' e)
           | Inr acl \<Rightarrow> wa_SetNamedSecurityInfo W path (or DACL_SECURITY_INFORMATION PROTECTED_DACL_SECURITY_INFORMATION) acl))"

section \<open>The pipe\<close>

definition pipePrefix :: string where "pipePrefix = [CHR 0x5C, CHR 0x5C] @ ''.'' @ [CHR 0x5C] @ ''pipe'' @ [CHR 0x5C] @ ''kubelogin-daemon-''"

definition transportAddress_win :: "('h, 'd, 'acl) winapi \<Rightarrow> string" where
  "transportAddress_win W = (case currentUserSID W of Inl _ \<Rightarrow> pipePrefix @ ''default'' | Inr s \<Rightarrow> pipePrefix @ s)"

definition userOnlySDDL :: "('h, 'd, 'acl) winapi \<Rightarrow> go_error + string" where
  "userOnlySDDL W = (case currentUserSID W of Inl e \<Rightarrow> Inl e | Inr s \<Rightarrow> Inr (''D:(A;;GA;;;'' @ s @ '')(A;;GA;;;SY)''))"

text \<open>\<open>listen\<close> is \<open>winio.ListenPipe\<close>, by address and security descriptor; the second result is the inode, which a pipe does not have.\<close>

definition transportListen_win :: "('h, 'd, 'acl) winapi \<Rightarrow> (string \<Rightarrow> string \<Rightarrow> go_error + 'l) \<Rightarrow> string \<Rightarrow> go_error + ('l \<times> nat)" where
  "transportListen_win W listen address =
     (case userOnlySDDL W of
        Inl e \<Rightarrow> Inl (Wrap ''build pipe SDDL'' e)
      | Inr sddl \<Rightarrow>
          (case listen address sddl of
             Inl e \<Rightarrow> Inl (Wrap (''bind pipe '' @ address) e)
           | Inr l \<Rightarrow> Inr (l, 0)))"

definition transportCleanup_win :: "string \<Rightarrow> nat \<Rightarrow> vfs \<Rightarrow> vfs" where
  "transportCleanup_win address expectedInode w = w"

section \<open>Peers\<close>

definition verifyPeerUID_win :: "nat \<Rightarrow> go_error option" where
  "verifyPeerUID_win expectedUID = None"

text \<open>macOS: whether the connection is one of a Unix socket, the errors of \<open>SyscallConn\<close> and \<open>Control\<close>, and the answer of \<open>LOCAL_PEERCRED\<close>.\<close>

definition verifyPeerUID_darwin :: "bool \<Rightarrow> go_error option \<Rightarrow> go_error option \<Rightarrow> go_error + nat \<Rightarrow> nat \<Rightarrow> go_error option" where
  "verifyPeerUID_darwin unixConn syscallErr controlErr cred expectedUID =
     (if \<not> unixConn then Some (Err ''not a unix connection'')
      else case (syscallErr, controlErr, cred) of
             (Some e, _, _) \<Rightarrow> Some (Wrap ''get syscall conn'' e)
           | (None, Some e, _) \<Rightarrow> Some (Wrap ''raw control'' e)
           | (None, None, Inl e) \<Rightarrow> Some (Wrap ''getsockopt LOCAL_PEERCRED'' e)
           | (None, None, Inr uid) \<Rightarrow>
               if uid \<noteq> expectedUID
               then Some (Err (''peer UID '' @ show_nat uid @ '' does not match expected UID '' @ show_nat expectedUID)) else None)"

section \<open>The process of a pipe\<close>

text \<open>The snapshot of processes by name and identifier, \<open>None\<close> when it cannot be made.\<close>

fun scan_processes :: "32 word \<Rightarrow> (string \<times> 32 word) list \<Rightarrow> int" where
  "scan_processes myPID [] = 0"
| "scan_processes myPID ((name, pid) # ps) =
     (if name = ''kubelogin-daemon.exe'' \<and> pid \<noteq> myPID then uint pid else scan_processes myPID ps)"

definition findPIDBySocket_win :: "(string \<times> 32 word) list option \<Rightarrow> 32 word \<Rightarrow> string \<Rightarrow> int" where
  "findPIDBySocket_win snapshot myPID socketPath = (case snapshot of None \<Rightarrow> 0 | Some ps \<Rightarrow> scan_processes myPID ps)"

section \<open>What protects the daemon\<close>

text \<open>Opening a token file follows no link and leaves no handle behind when it fails.\<close>

theorem openNoFollow_win_safe:
  "case openNoFollow_win W path handles of
     (Inl _, handles') \<Rightarrow> handles' = handles
   | (Inr h, handles') \<Rightarrow> handles' = h # handles \<and> (\<exists>attrs. wa_FileAttributes W h = Inr attrs \<and> and attrs FILE_ATTRIBUTE_REPARSE_POINT = 0)"
  by (auto simp: openNoFollow_win_def Let_def split: option.split sum.split)

text \<open>
  The directory is accepted only when it is no reparse point and belongs to the user or the administrators; whatever is found, the handle
  is closed.
\<close>

theorem validate_win_sound:
  "snd (validateRuntimeDirSecurity_win W path handles) = handles"
  "fst (validateRuntimeDirSecurity_win W path handles) = None \<Longrightarrow>
     \<exists>h attrs d owner self. wa_CreateFile W path = Inr h \<and> wa_FileAttributes W h = Inr attrs \<and> and attrs FILE_ATTRIBUTE_REPARSE_POINT = 0 \<and>
       wa_NamedSecurityInfo W path = Inr d \<and> wa_Owner W d = Inr owner \<and> currentUserSID W = Inr self \<and>
       (owner = self \<or> wa_WellKnownSid W WinBuiltinAdministratorsSid = Inr owner)"
  by (auto simp: validateRuntimeDirSecurity_win_def owner_ok_def Let_def split: option.splits sum.splits if_splits)

text \<open>
  The files that hold the nonce and the tokens get an access list of the user, the system account and the administrators, with full access
  each, or the error is reported; the list is set as protected, so that no entry of the directory above is inherited.
\<close>

lemma setPrivatePermissions_win_protects:
  assumes "setPrivatePermissions_win W path isDir = None"
  shows "\<exists>self es acl info. currentUserSID W = Inr self \<and> wa_ACLFromEntries W es = Inr acl \<and> wa_SetNamedSecurityInfo W path info acl = None \<and>
    ea_Trustee ` set es = {self} \<union> {s. \<exists>k. wa_WellKnownSid W k = Inr s} \<and>
    list_all (\<lambda>e. ea_AccessPermissions e = GENERIC_ALL \<and> ea_AccessMode e = SET_ACCESS \<and> ea_Inheritance e = (if isDir then 3 else 0)) es \<and>
    and info DACL_SECURITY_INFORMATION \<noteq> 0 \<and> and info PROTECTED_DACL_SECURITY_INFORMATION \<noteq> 0"
proof -
  let ?info = "or DACL_SECURITY_INFORMATION PROTECTED_DACL_SECURITY_INFORMATION"
  from assms obtain self acl where c: "currentUserSID W = Inr self" "wa_ACLFromEntries W (access_entries W isDir self) = Inr acl"
    "wa_SetNamedSecurityInfo W path ?info acl = None"
    by (auto simp: setPrivatePermissions_win_def split: sum.splits)
  have "(\<exists>k. wa_WellKnownSid W k = Inr s) \<longleftrightarrow>
      wa_WellKnownSid W WinLocalSystemSid = Inr s \<or> wa_WellKnownSid W WinBuiltinAdministratorsSid = Inr s" for s
    by (metis well_known.exhaust)
  then have "ea_Trustee ` set (access_entries W isDir self) = {self} \<union> {s. \<exists>k. wa_WellKnownSid W k = Inr s}"
    by (auto simp: access_entries_def Let_def split: sum.splits)
  moreover have "list_all (\<lambda>e. ea_AccessPermissions e = GENERIC_ALL \<and> ea_AccessMode e = SET_ACCESS \<and> ea_Inheritance e = (if isDir then 3 else 0))
      (access_entries W isDir self)"
    by (auto simp: access_entries_def Let_def OBJECT_INHERIT_ACE_def CONTAINER_INHERIT_ACE_def split: sum.splits)
  moreover have "and ?info DACL_SECURITY_INFORMATION \<noteq> 0" "and ?info PROTECTED_DACL_SECURITY_INFORMATION \<noteq> 0"
    by (simp_all add: DACL_SECURITY_INFORMATION_def PROTECTED_DACL_SECURITY_INFORMATION_def)
  ultimately show ?thesis using c by blast
qed

end
