(* ===== verification/Float64.thy ===== *)
theory Float64
  imports Prelude Complex_Main "HOL-Library.Log_Nat"
begin

text \<open>
  Go's \<open>float64\<close> as the stress test uses it: values are rationals, and an operation rounds its exact result to the nearest
  double, ties to even.  All values that occur are within the normal range, so that overflow and subnormal
  numbers are left out.  The main fact: a percentage computed in floating point compares with a limit as the exact one does.
\<close>

section \<open>Rounding\<close>

text \<open>The exponent of the binade a positive number lies in.\<close>

definition bin_exp :: "rat \<Rightarrow> int" where
  "bin_exp x = (let (p, q) = quotient_of x; k = int (floorlog 2 (nat p)) - int (floorlog 2 (nat q))
     in if 2 powi k \<le> x then k else k - 1)"

definition round_even :: "rat \<Rightarrow> int" where
  "round_even x = (let f = \<lfloor>x\<rfloor>; r = x - of_int f
     in if r < 1 / 2 then f else if r > 1 / 2 then f + 1 else if even f then f else f + 1)"

definition fl :: "rat \<Rightarrow> rat" where
  "fl x = (if x = 0 then 0
     else let e = bin_exp \<bar>x\<bar> - 52 in sgn x * of_int (round_even (\<bar>x\<bar> / 2 powi e)) * 2 powi e)"

lemma floorlog_rat:
  assumes "0 < n"
  shows "(2::rat) ^ (floorlog 2 n - 1) \<le> of_nat n" "of_nat n < (2::rat) ^ floorlog 2 n"
proof -
  have b: "2 ^ (floorlog 2 n - 1) \<le> n" "n < 2 ^ floorlog 2 n" using floorlog_bounds [of n 2] assms by auto
  have "(of_nat (2 ^ (floorlog 2 n - 1)) :: rat) \<le> of_nat n" using b(1) by (simp only: of_nat_le_iff)
  then show "(2::rat) ^ (floorlog 2 n - 1) \<le> of_nat n" by simp
  have "(of_nat n :: rat) < of_nat (2 ^ floorlog 2 n)" using b(2) by (simp only: of_nat_less_iff)
  then show "of_nat n < (2::rat) ^ floorlog 2 n" by simp
qed

lemma powi_quotient: "(2::rat) ^ m / 2 ^ n = 2 powi (int m - int n)"
  by (simp add: power_int_diff power_int_of_nat)

lemma bin_exp_bounds:
  assumes "0 < x"
  shows "2 powi bin_exp x \<le> x \<and> x < 2 powi (bin_exp x + 1)"
proof -
  obtain p q where pq: "quotient_of x = (p, q)" by fastforce
  have q: "0 < q" and x: "x = of_int p / of_int q" using quotient_of_denom_pos [OF pq] quotient_of_div [OF pq] by auto
  with assms have p: "0 < p" by (simp add: zero_less_divide_iff)
  define a where "a = floorlog 2 (nat p)"
  define b where "b = floorlog 2 (nat q)"
  have a: "(2::rat) ^ (a - 1) \<le> of_int p" "of_int p < (2::rat) ^ a" "0 < a"
    using floorlog_rat [of "nat p"] p by (auto simp: a_def floorlog_def)
  have b: "(2::rat) ^ (b - 1) \<le> of_int q" "of_int q < (2::rat) ^ b" "0 < b"
    using floorlog_rat [of "nat q"] q by (auto simp: b_def floorlog_def)
  have "x < 2 ^ a / 2 ^ (b - 1)"
    unfolding x using a b p q by (intro frac_less) auto
  moreover have "int a - int (b - 1) = int a - int b + 1" using b(3) by simp
  ultimately have u: "x < 2 powi (int a - int b + 1)" by (simp only: powi_quotient)
  have "2 ^ (a - 1) / 2 ^ b < x" unfolding x using a b p q by (intro frac_less2) auto
  moreover have "int (a - 1) - int b = int a - int b - 1" using a(3) by simp
  ultimately have l: "2 powi (int a - int b - 1) < x" by (simp only: powi_quotient)
  show ?thesis using u l by (auto simp: bin_exp_def pq Let_def a_def [symmetric] b_def [symmetric] algebra_simps)
qed

lemma bin_exp_unique:
  assumes "2 powi k \<le> x" "x < 2 powi (k + 1)"
  shows "bin_exp x = k"
proof -
  have "(0::rat) < 2 powi k" by simp
  then have "0 < x" using assms(1) by linarith
  note b = bin_exp_bounds [OF this]
  have "(2::rat) powi bin_exp x < 2 powi (k + 1)" "(2::rat) powi k < 2 powi (bin_exp x + 1)" using b assms by auto
  then have "bin_exp x < k + 1" "k < bin_exp x + 1" by (meson not_less one_le_numeral power_int_increasing)+
  then show ?thesis by simp
qed

lemma round_even_err: "\<bar>of_int (round_even x) - x\<bar> \<le> 1 / 2"
  using floor_correct [of x] by (auto simp: round_even_def Let_def abs_le_iff)

lemma round_even_int [simp]: "round_even (of_int n) = n"
  by (simp add: round_even_def)

lemma round_even_near: "\<bar>x - of_int n\<bar> < 1 / 2 \<Longrightarrow> round_even x = n"
proof -
  assume a: "\<bar>x - of_int n\<bar> < 1 / 2"
  have "\<bar>of_int (round_even x) - of_int n\<bar> < (1::rat)" using round_even_err [of x] a by linarith
  then have "\<bar>of_int (round_even x - n)\<bar> < (1::rat)" by simp
  then show ?thesis by linarith
qed

lemma fl_error: "\<bar>fl x - x\<bar> \<le> \<bar>x\<bar> / 2 ^ 53"
proof (cases "x = 0")
  case False
  define e where "e = bin_exp \<bar>x\<bar> - 52"
  let ?m = "of_int (round_even (\<bar>x\<bar> / 2 powi e)) :: rat" and ?p = "2 powi e :: rat"
  have p: "0 < ?p" by simp
  have "2 powi (e + 52) \<le> \<bar>x\<bar>" using bin_exp_bounds [of "\<bar>x\<bar>"] False by (simp add: e_def)
  then have big: "?p * 2 ^ 52 \<le> \<bar>x\<bar>" by (simp add: power_int_add)
  have "fl x = sgn x * ?m * ?p" using False by (simp add: fl_def e_def Let_def)
  moreover have "x = sgn x * (\<bar>x\<bar> / ?p) * ?p" by (simp add: sgn_mult_abs)
  ultimately have "fl x - x = sgn x * (?m - \<bar>x\<bar> / ?p) * ?p" by (simp add: algebra_simps)
  then have "\<bar>fl x - x\<bar> = \<bar>?m - \<bar>x\<bar> / ?p\<bar> * ?p" using False p by (simp add: abs_mult)
  also have "\<dots> \<le> 1 / 2 * ?p" using round_even_err [of "\<bar>x\<bar> / ?p"] p by (intro mult_right_mono) auto
  also have "\<dots> \<le> \<bar>x\<bar> / 2 ^ 53" using big by simp
  finally show ?thesis .
qed (simp add: fl_def)

lemma fl_eval:
  assumes "2 powi (e + 52) \<le> x" "x < 2 powi (e + 53)" "\<bar>x / 2 powi e - of_int n\<bar> < 1 / 2"
  shows "fl x = of_int n * 2 powi e"
proof -
  have "(0::rat) < 2 powi (e + 52)" by simp
  then have pos: "0 < x" using assms(1) by linarith
  have "bin_exp x = e + 52" using bin_exp_unique [of "e + 52" x] assms(1,2) by (simp add: add.commute add.left_commute)
  then show ?thesis using pos round_even_near [OF assms(3)] by (simp add: fl_def Let_def)
qed

section \<open>Percentages\<close>

text \<open>\<open>float64(s) / float64(t) * 100\<close>\<close>

definition percent :: "int \<Rightarrow> int \<Rightarrow> rat" where
  "percent s t = fl (fl (fl (of_int s) / fl (of_int t)) * 100)"

lemma fl_int:
  assumes "0 \<le> n" "n < 2 ^ 53"
  shows "fl (of_int n) = of_int n"
proof (cases "n = 0")
  case False
  define e where "e = bin_exp (of_int n) - 52"
  have n: "0 < n" using False assms by simp
  have "(2::rat) powi bin_exp (of_int n) \<le> of_int n" using bin_exp_bounds [of "of_int n"] n by simp
  also have "\<dots> < of_int (2 ^ 53)" using assms(2) by (simp only: of_int_less_iff)
  also have "\<dots> = 2 powi 53" by simp
  finally have "bin_exp (of_int n) < 53" by (meson not_less one_le_numeral power_int_increasing)
  then have "e \<le> 0" by (simp add: e_def)
  then obtain k where k: "e = - int k" by (metis nonpos_int_cases)
  have p: "(2::rat) powi e = inverse (2 ^ k)" by (simp add: k power_int_minus)
  have "of_int n / (2::rat) powi e = of_int (n * 2 ^ k)" by (simp add: p field_simps)
  then have "round_even (of_int n / 2 powi e) = n * 2 ^ k" by (simp only: round_even_int)
  then show ?thesis using n by (simp add: fl_def Let_def e_def [symmetric] p)
qed (simp add: fl_def)

lemma percent_exact:
  assumes "c \<in> {5, 95, 99}" "100 * s = c * t" "0 < t" "t < 2 ^ 53" "0 \<le> s" "s < 2 ^ 53"
  shows "percent s t = of_int c"
proof -
  have q: "(of_int s :: rat) / of_int t = of_int c / 100"
  proof -
    have "(of_int (100 * s) :: rat) = of_int (c * t)" using assms(2) by (simp only:)
    then show ?thesis using assms(3) by (simp add: field_simps)
  qed
  have "fl (5 / 100) = 3602879701896397 / 2 ^ 56" "fl (3602879701896397 / 2 ^ 56 * 100) = 5"
    using fl_eval [of "- 57" "5 / 100" 7205759403792794] fl_eval [of "- 50" "3602879701896397 / 2 ^ 56 * 100" 5629499534213120]
    by (simp_all add: power_int_def power_divide)
  moreover have "fl (95 / 100) = 8556839292003942 / 2 ^ 53" "fl (8556839292003942 / 2 ^ 53 * 100) = 95"
    using fl_eval [of "- 53" "95 / 100" 8556839292003942] fl_eval [of "- 46" "8556839292003942 / 2 ^ 53 * 100" 6685030696878080]
    by (simp_all add: power_int_def power_divide)
  moreover have "fl (99 / 100) = 8917127262193582 / 2 ^ 53" "fl (8917127262193582 / 2 ^ 53 * 100) = 99"
    using fl_eval [of "- 53" "99 / 100" 8917127262193582] fl_eval [of "- 46" "8917127262193582 / 2 ^ 53 * 100" 6966505673588736]
    by (simp_all add: power_int_def power_divide)
  ultimately have "c \<in> {5, 95, 99} \<Longrightarrow> fl (fl (of_int c / 100) * 100) = of_int c"
    by (elim insertE emptyE) (simp_all only: of_int_numeral)
  moreover have "percent s t = fl (fl (of_int c / 100) * 100)" unfolding percent_def using assms by (simp add: fl_int q)
  ultimately show ?thesis using assms(1) by simp
qed

lemma percent_error:
  assumes "0 < t" "t < 2 ^ 53" "0 \<le> s" "s < 2 ^ 53"
  shows "\<bar>percent s t - 100 * (of_int s / of_int t)\<bar> \<le> 100 * (of_int s / of_int t) / 2 ^ 51"
proof -
  define r :: rat where "r = of_int s / of_int t"
  have r: "0 \<le> r" using assms by (simp add: r_def)
  have 1: "\<bar>fl r - r\<bar> \<le> r / 9007199254740992" using fl_error [of r] r by simp
  then have "0 \<le> fl r" using r by linarith
  then have 2: "\<bar>fl (fl r * 100) - fl r * 100\<bar> \<le> fl r * 100 / 9007199254740992" using fl_error [of "fl r * 100"] by simp
  have "percent s t = fl (fl r * 100)" using assms by (simp add: percent_def r_def fl_int)
  moreover have "\<bar>fl (fl r * 100) - 100 * r\<bar> \<le> 100 * r / 2251799813685248" using 1 2 r by linarith
  ultimately show ?thesis unfolding r_def [symmetric] by simp
qed

text \<open>
  A percentage computed with \<open>float64\<close> is below (above) 5, 95 or 99 exactly when the quotient of the integers is, for counts up
  to \<open>2 ^ 40\<close>.
\<close>

theorem percent_compare:
  assumes "c \<in> {5, 95, 99}" "0 < t" "t \<le> 2 ^ 40" "0 \<le> s" "s \<le> 2 ^ 40"
  shows "percent s t < of_int c \<longleftrightarrow> 100 * s < c * t" "of_int c < percent s t \<longleftrightarrow> c * t < 100 * s"
proof -
  define r :: rat where "r = 100 * (of_int s / of_int t)"
  have t: "(0::rat) < of_int t" using assms(2) by simp
  have "(of_int t :: rat) \<le> of_int (2 ^ 40)" using assms(3) by (simp only: of_int_le_iff)
  then have t2: "(of_int t :: rat) \<le> 1099511627776" by simp
  have c: "(0::rat) < of_int c" "(of_int c :: rat) \<le> 99" using assms(1) by auto
  have err: "\<bar>percent s t - r\<bar> \<le> r / 2251799813685248" using percent_error [of t s] assms by (simp add: r_def)
  have gap: "(1::rat) / 1099511627776 \<le> 1 / of_int t" using t t2 by (simp add: frac_le)
  have lower: "percent s t < of_int c" if "100 * s < c * t"
  proof -
    have "of_int (100 * s) \<le> (of_int (c * t - 1) :: rat)" using that by (simp only: of_int_le_iff)
    then have "r \<le> of_int c - 1 / of_int t" using t by (simp add: r_def field_simps)
    then have "r \<le> of_int c - 1 / 1099511627776" using gap by linarith
    then show ?thesis using err c by linarith
  qed
  have upper: "of_int c < percent s t" if "c * t < 100 * s"
  proof -
    have "of_int (c * t + 1) \<le> (of_int (100 * s) :: rat)" using that by (simp only: of_int_le_iff)
    then have "(of_int c * of_int t + 1) / of_int t \<le> of_int (100 * s) / (of_int t :: rat)" using t by (intro divide_right_mono) auto
    then have "of_int c + 1 / of_int t \<le> r" using t by (simp add: r_def add_divide_distrib)
    then have "of_int c + 1 / 1099511627776 \<le> r" using gap by linarith
    then show ?thesis using err c by linarith
  qed
  have eq: "percent s t = of_int c" if "100 * s = c * t"
    using percent_exact [OF assms(1) that] assms by simp
  show "percent s t < of_int c \<longleftrightarrow> 100 * s < c * t" "of_int c < percent s t \<longleftrightarrow> c * t < 100 * s"
    using lower upper eq by (metis less_asym less_irrefl linorder_less_linear)+
qed

section \<open>Ranks\<close>

lemma round_even_le:
  assumes "x < of_int n + 1 / 2" shows "round_even x \<le> n"
proof (cases "\<lfloor>x\<rfloor> = n")
  case True
  then show ?thesis using assms by (simp add: round_even_def)
next
  case False
  have "x < of_int n + 1" using assms by simp
  then have "\<lfloor>x\<rfloor> \<le> n" by (simp add: floor_le_iff)
  then show ?thesis using False by (auto simp: round_even_def Let_def)
qed

text \<open>A number at most half a unit in the last place above an integer is not rounded beyond it.\<close>

lemma fl_le_int:
  assumes "0 < y" "0 \<le> m" "m < 2 ^ 53" "y - of_int m \<le> y / 2 ^ 54"
  shows "fl y \<le> of_int m"
proof -
  define e where "e = bin_exp y - 52"
  have b: "2 powi bin_exp y \<le> y" "y < 2 powi (bin_exp y + 1)" using bin_exp_bounds [OF assms(1)] by auto
  have "(of_int m :: rat) \<le> of_int (2 ^ 53 - 1)" using assms(3) by (simp only: of_int_le_iff)
  then have "y < 2 powi 53" using assms(4) by simp
  then have "(2::rat) powi bin_exp y < 2 powi 53" using b by linarith
  then have "bin_exp y < 53" by (meson not_less one_le_numeral power_int_increasing)
  then have "e \<le> 0" by (simp add: e_def)
  then obtain k where k: "e = - int k" by (metis nonpos_int_cases)
  have p: "(2::rat) powi e = inverse (2 ^ k)" by (simp add: k power_int_minus)
  have "bin_exp y + 1 = 54 + (e - 1)" by (simp add: e_def)
  then have "(2::rat) powi (bin_exp y + 1) = 2 ^ 54 * (2 powi e / 2)" by (simp add: power_int_add power_int_diff)
  then have "y - of_int m < 2 powi e / 2" using assms(4) b(2) by simp
  then have "y / 2 powi e < of_int (m * 2 ^ k) + 1 / 2" by (simp add: p field_simps)
  then have "round_even (y / 2 powi e) \<le> m * 2 ^ k" by (rule round_even_le)
  then have "(of_int (round_even (y / 2 powi e)) :: rat) \<le> of_int (m * 2 ^ k)" by (simp only: of_int_le_iff)
  then show ?thesis using assms(1) by (simp add: fl_def Let_def e_def [symmetric] p field_simps)
qed

definition rank_factor :: "int \<Rightarrow> rat" where "rank_factor p = fl (of_int p / 100)"

lemma rank_factor_values:
  "rank_factor 50 = 1 / 2" "rank_factor 90 = 8106479329266893 / 2 ^ 53" "rank_factor 95 = 8556839292003942 / 2 ^ 53"
  "rank_factor 99 = 8917127262193582 / 2 ^ 53"
  using fl_eval [of "- 53" "1 / 2" 4503599627370496] fl_eval [of "- 53" "9 / 10" 8106479329266893]
    fl_eval [of "- 53" "19 / 20" 8556839292003942] fl_eval [of "- 53" "99 / 100" 8917127262193582]
  by (simp_all add: rank_factor_def power_int_def power_divide)

lemma rank_factor_close:
  assumes "p \<in> {50, 90, 95, 99}"
  shows "\<bar>rank_factor p - of_int p / 100\<bar> \<le> 1 / 2 ^ 54" "rank_factor p - of_int p / 100 \<le> rank_factor p / 2 ^ 54"
    "1 / 2 \<le> rank_factor p" "rank_factor p \<le> 1"
  using assms by (auto simp: rank_factor_values)

text \<open>
  The ceiling of the \<open>float64\<close> product \<open>p / 100 * n\<close> is the exact one, for the percentiles of the report and lists of up to \<open>2 ^ 40\<close>
  elements.
\<close>

theorem rank_exact:
  assumes p: "p \<in> {50, 90, 95, 99}" and n: "0 < n" "n \<le> 2 ^ 40"
  shows "\<lceil>fl (fl (of_int p / 100) * of_int n)\<rceil> = (p * n + 99) div 100"
proof -
  define y where "y = rank_factor p * of_int n"
  define x :: rat where "x = of_int p / 100 * of_int n"
  define m where "m = (p * n + 99) div 100"
  have n1: "(1 :: rat) \<le> of_int n" using n(1) by simp
  have "(of_int n :: rat) \<le> of_int (2 ^ 40)" using n(2) by (simp only: of_int_le_iff)
  then have n2: "(of_int n :: rat) \<le> 1099511627776" by simp
  note f = rank_factor_close [OF p]
  have y0: "0 < y" using f(3) n1 by (simp add: y_def zero_less_mult_iff)
  have "y \<le> of_int n" using mult_right_mono [OF f(4), of "of_int n"] n1 by (simp add: y_def)
  then have y1: "y \<le> 1099511627776" using n2 by linarith
  have diff: "y - x = (rank_factor p - of_int p / 100) * of_int n" by (simp add: y_def x_def left_diff_distrib)
  then have "\<bar>y - x\<bar> = \<bar>rank_factor p - of_int p / 100\<bar> * of_int n" using n1 by (simp add: abs_mult)
  also have "\<dots> \<le> 1 / 2 ^ 54 * of_int n" using f(1) n1 by (intro mult_right_mono) auto
  finally have yx: "\<bar>y - x\<bar> \<le> 1 / 16384" using n2 by simp
  have fy: "\<bar>fl y - y\<bar> \<le> 1 / 8192" using fl_error [of y] y0 y1 by simp
  have m: "100 * m - 99 \<le> p * n" "p * n \<le> 100 * m" unfolding m_def by presburger+
  have "(of_int (100 * m - 99) :: rat) \<le> of_int (p * n)" using m(1) by (simp only: of_int_le_iff)
  then have low: "of_int m - 99 / 100 \<le> x" by (simp add: x_def field_simps)
  have low': "of_int m - 1 < fl y" using low yx fy by (simp add: abs_if split: if_splits)
  have "fl y \<le> of_int m"
  proof (cases "p * n = 100 * m")
    case True
    then have xm: "x = of_int m" by (simp add: x_def of_int_mult [symmetric] del: of_int_mult)
    have "0 \<le> p" "p \<le> 100" using p by auto
    then have "0 \<le> p * n" "p * n \<le> 100 * n" using n(1) by (simp_all add: mult_right_mono)
    then have m0: "0 \<le> m" "m < 2 ^ 53" using True n(2) by simp_all
    have "y - x \<le> rank_factor p / 2 ^ 54 * of_int n" unfolding diff using f(2) n1 by (intro mult_right_mono) auto
    then have "y - of_int m \<le> y / 2 ^ 54" using xm by (simp add: y_def)
    then show ?thesis using fl_le_int [OF y0 m0] by simp
  next
    case False
    then have "(of_int (p * n) :: rat) \<le> of_int (100 * m - 1)" using m(2) by (simp only: of_int_le_iff)
    then have "x \<le> of_int m - 1 / 100" by (simp add: x_def field_simps)
    then show ?thesis using yx fy by (simp add: abs_if split: if_splits)
  qed
  with low' have "\<lceil>fl y\<rceil> = m" by (simp add: ceiling_eq_iff)
  then show ?thesis by (simp add: y_def rank_factor_def m_def)
qed

text \<open>A quotient of integers is above 5 exactly when it is computed so.\<close>

lemma quotient_above_5:
  assumes "0 < b" "b \<le> 2 ^ 40" "0 \<le> a" "a < 2 ^ 53"
  shows "5 < fl (fl (of_int a) / fl (of_int b)) \<longleftrightarrow> 5 * b < a"
proof -
  have b: "(0::rat) < of_int b" using assms(1) by simp
  have "(of_int b :: rat) \<le> of_int (2 ^ 40)" using assms(2) by (simp only: of_int_le_iff)
  then have gap: "(1::rat) / 1099511627776 \<le> 1 / of_int b" using b by (simp add: frac_le)
  define q :: rat where "q = of_int a / of_int b"
  have q: "fl (fl (of_int a) / fl (of_int b)) = fl q" using assms by (simp add: fl_int q_def)
  have q0: "0 \<le> q" using assms b by (simp add: q_def)
  have err: "\<bar>fl q - q\<bar> \<le> q / 9007199254740992" using fl_error [of q] q0 by simp
  consider (less) "a + 1 \<le> 5 * b" | (eq) "a = 5 * b" | (greater) "5 * b + 1 \<le> a" by linarith
  then have "5 < fl q \<longleftrightarrow> 5 * b < a"
  proof cases
    case less
    then have "(of_int (a + 1) :: rat) \<le> of_int (5 * b)" by (simp only: of_int_le_iff)
    then have "q \<le> 5 - 1 / of_int b" using b by (simp add: q_def field_simps)
    then have "q \<le> 5 - 1 / 1099511627776" using gap by linarith
    then have "fl q < 5" using err by (simp add: abs_if split: if_splits)
    then show ?thesis using less by simp
  next
    case eq
    then have "q = of_int 5" using b by (simp add: q_def)
    then have "fl q = of_int 5" using fl_int [of 5] by simp
    then show ?thesis using eq by simp
  next
    case greater
    then have "(of_int (5 * b + 1) :: rat) \<le> of_int a" by (simp only: of_int_le_iff)
    then have "of_int (5 * b + 1) / of_int b \<le> q" unfolding q_def using b by (intro divide_right_mono) simp_all
    then have "5 + 1 / of_int b \<le> q" using b by (simp add: add_divide_distrib)
    then have "5 + 1 / 1099511627776 \<le> q" using gap by linarith
    then have "5 < fl q" using err by (simp add: abs_if split: if_splits)
    then show ?thesis using greater by simp
  qed
  then show ?thesis unfolding q .
qed

end
