(* ===== verification/StressConfig.thy ===== *)
theory StressConfig
  imports Float64 Json Filesys
begin

text \<open>
  The configuration of the stress test (\<open>stresstest/internal/config\<close>): its structure, the defaults, the reading of durations
  with \<open>time.ParseDuration\<close>, loading and validation.  The YAML library is a parameter.  Texts of validation errors are the
  constructors of a datatype; those of \<open>ParseDuration\<close> leave out the quoted input.
\<close>

section \<open>Durations\<close>

definition hour :: duration where [code_unfold]: "hour = 60 * minute"

definition unit_ns :: "string \<Rightarrow> nat option" where
  "unit_ns u =
     (if u = ''ns'' then Some 1
      else if u = ''us'' \<or> u = [CHR 0xC2, CHR 0xB5, CHR ''s''] \<or> u = [CHR 0xCE, CHR 0xBC, CHR ''s''] then Some 1000
      else if u = ''ms'' then Some 1000000
      else if u = ''s'' then Some 1000000000
      else if u = ''m'' then Some 60000000000
      else if u = ''h'' then Some 3600000000000
      else None)"

fun leadingInt :: "nat \<Rightarrow> string \<Rightarrow> (nat \<times> string) option" where
  "leadingInt x [] = Some (x, [])"
| "leadingInt x (c # cs) =
     (if \<not> is_digit c then Some (x, c # cs)
      else if x > 2 ^ 63 div 10 then None
      else let x' = x * 10 + (byte_of c - 48) in if x' > 2 ^ 63 then None else leadingInt x' cs)"

fun leadingFraction :: "nat \<Rightarrow> nat \<Rightarrow> bool \<Rightarrow> string \<Rightarrow> nat \<times> nat \<times> string" where
  "leadingFraction x scale overflow [] = (x, scale, [])"
| "leadingFraction x scale overflow (c # cs) =
     (if \<not> is_digit c then (x, scale, c # cs)
      else if overflow \<or> x > (2 ^ 63 - 1) div 10 then leadingFraction x scale True cs
      else let y = x * 10 + (byte_of c - 48)
           in if y > 2 ^ 63 then leadingFraction x scale True cs else leadingFraction y (scale * 10) False cs)"

definition invalid_duration :: go_error where "invalid_duration = Err ''time: invalid duration''"

text \<open>One number with its unit, in nanoseconds, and the rest of the string.\<close>

definition dur_part :: "string \<Rightarrow> go_error + (nat \<times> string)" where
  "dur_part s =
     (if s = [] \<or> \<not> (hd s = CHR ''.'' \<or> is_digit (hd s)) then Inl invalid_duration
      else case leadingInt 0 s of
             None \<Rightarrow> Inl invalid_duration
           | Some (v, s1) \<Rightarrow>
               let frac = (if s1 \<noteq> [] \<and> hd s1 = CHR ''.'' then leadingFraction 0 1 False (tl s1) else (0, 1, s1));
                   f = fst frac; scale = fst (snd frac); s2 = snd (snd frac);
                   pre = (length s1 \<noteq> length s);
                   post = (s1 \<noteq> [] \<and> hd s1 = CHR ''.'' \<and> length s2 \<noteq> length (tl s1));
                   u = takeWhile (\<lambda>c. \<not> (c = CHR ''.'' \<or> is_digit c)) s2; s3 = drop (length u) s2
               in if \<not> pre \<and> \<not> post then Inl invalid_duration
                  else if u = [] then Inl (Err ''time: missing unit in duration'')
                  else case unit_ns u of
                         None \<Rightarrow> Inl (Err ''time: unknown unit in duration'')
                       | Some unit \<Rightarrow>
                           if v > 2 ^ 63 div unit then Inl invalid_duration
                           else let v' = (if f > 0 then v * unit + nat \<lfloor>fl (fl (of_nat f) * fl (of_nat unit / of_nat scale))\<rfloor> else v * unit)
                                in if f > 0 \<and> v' > 2 ^ 63 then Inl invalid_duration else Inr (v', s3))"

lemma leadingInt_length: "leadingInt x s = Some (v, r) \<Longrightarrow> length r \<le> length s"
  by (induction x s rule: leadingInt.induct) (fastforce split: if_splits simp: Let_def)+

lemma leadingFraction_length: "length (snd (snd (leadingFraction x k o' s))) \<le> length s"
  by (induction s arbitrary: x k o') (auto simp: Let_def le_SucI)

lemma dur_part_length:
  assumes "dur_part s = Inr (v, rest)"
  shows "length rest < length s"
proof -
  from assms obtain v0 s1 where 1: "leadingInt 0 s = Some (v0, s1)"
    by (auto simp: dur_part_def split: if_splits option.splits)
  define s2 where "s2 = snd (snd (if s1 \<noteq> [] \<and> hd s1 = CHR ''.'' then leadingFraction 0 1 False (tl s1) else (0, 1, s1)))"
  have 2: "length s2 \<le> length s1" unfolding s2_def using leadingFraction_length [of 0 1 False "tl s1"] by (cases s1) auto
  define u where "u = takeWhile (\<lambda>c. \<not> (c = CHR ''.'' \<or> is_digit c)) s2"
  have "u \<noteq> []" "rest = drop (length u) s2"
    using assms 1 unfolding dur_part_def Let_def s2_def u_def by (auto split: if_splits option.splits)
  moreover have "length u \<le> length s2" unfolding u_def by (rule length_takeWhile_le)
  ultimately show ?thesis using 2 leadingInt_length [OF 1] by (cases u) auto
qed

text \<open>The sum of the parts is kept in an unsigned 64-bit integer.\<close>

function dur_parts :: "nat \<Rightarrow> string \<Rightarrow> go_error + nat" where
  "dur_parts d s =
     (if s = [] then Inr d
      else case dur_part s of
             Inl e \<Rightarrow> Inl e
           | Inr (v, rest) \<Rightarrow> (let d' = (d + v) mod 2 ^ 64 in if d' > 2 ^ 63 then Inl invalid_duration else dur_parts d' rest))"
  by pat_completeness auto
termination
  by (relation "measure (\<lambda>(d, s). length s)") (auto dest: dur_part_length)

declare dur_parts.simps [simp del]

definition ParseDuration :: "string \<Rightarrow> go_error + duration" where
  "ParseDuration orig =
     (let neg = (orig \<noteq> [] \<and> hd orig = CHR ''-'');
          s = (if orig \<noteq> [] \<and> (hd orig = CHR ''-'' \<or> hd orig = CHR ''+'') then tl orig else orig)
      in if s = ''0'' then Inr 0
         else if s = [] then Inl invalid_duration
         else case dur_parts 0 s of
                Inl e \<Rightarrow> Inl e
              | Inr d \<Rightarrow> if neg then Inr (wrap64 (- int d)) else if d > 2 ^ 63 - 1 then Inl invalid_duration else Inr (int d))"

section \<open>Structure\<close>

record CommandWeights =
  cw_Read :: int
  cw_Mutate :: int
  cw_Invalid :: int
  cw_Fuzz :: int

record RateLimitConfig =
  rl_SteadyQPS :: int
  rl_SteadyBurst :: int
  rl_BurstQPS :: int
  rl_BurstBurst :: int
  rl_QuietQPS :: int
  rl_QuietBurst :: int

record WorkloadConfig =
  wl_SteadyWeight :: int
  wl_BurstWeight :: int
  wl_QuietWeight :: int
  wl_SteadyMinConc :: int
  wl_SteadyMaxConc :: int
  wl_SteadyMinDelay :: duration
  wl_SteadyMaxDelay :: duration
  wl_BurstMinConc :: int
  wl_BurstMaxConc :: int
  wl_BurstMinDelay :: duration
  wl_BurstMaxDelay :: duration
  wl_QuietMinConc :: int
  wl_QuietMaxConc :: int
  wl_QuietMinDelay :: duration
  wl_QuietMaxDelay :: duration
  wl_PhaseDurationMin :: duration
  wl_PhaseDurationMax :: duration
  wl_CommandWeights :: CommandWeights
  wl_DirectIPCWorkers :: int
  wl_DirectIPCRate :: int
  wl_KubectlTimeout :: duration
  wl_SLAThreshold :: duration
  wl_RateLimit :: RateLimitConfig
  wl_MaxResources :: int
  wl_KubeconfigContext :: string
  wl_SteadyMinDelayStr :: string
  wl_SteadyMaxDelayStr :: string
  wl_BurstMinDelayStr :: string
  wl_BurstMaxDelayStr :: string
  wl_QuietMinDelayStr :: string
  wl_QuietMaxDelayStr :: string
  wl_PhaseDurationMinStr :: string
  wl_PhaseDurationMaxStr :: string
  wl_KubectlTimeoutStr :: string
  wl_SLAThresholdStr :: string

record ChaosTypeConfig =
  ct_Enabled :: bool
  ct_IntervalMin :: duration
  ct_IntervalMax :: duration
  ct_HoldDuration :: duration
  ct_TargetCount :: int
  ct_MaxFillBytes :: int
  ct_IntervalMinStr :: string
  ct_IntervalMaxStr :: string
  ct_HoldDurationStr :: string

record ChaosConfig =
  ch_Enabled :: bool
  ch_InitialStabilityPeriod :: duration
  ch_GlobalCooldown :: duration
  ch_KillDaemon :: ChaosTypeConfig
  ch_DeleteSocket :: ChaosTypeConfig
  ch_CorruptTokenFiles :: ChaosTypeConfig
  ch_FillConnections :: ChaosTypeConfig
  ch_FillDisk :: ChaosTypeConfig
  ch_InitialStabilityPeriodStr :: string
  ch_GlobalCooldownStr :: string

record HealthConfig =
  hl_PollInterval :: duration
  hl_HangThreshold :: duration
  hl_ExitThreshold :: duration
  hl_MemoryWarnMB :: int
  hl_MemoryKillMB :: int
  hl_IdleAwareProbing :: bool
  hl_PollIntervalStr :: string
  hl_HangThresholdStr :: string
  hl_ExitThresholdStr :: string

record ReaperConfig =
  rp_Interval :: duration
  rp_MaxAge :: duration
  rp_IntervalStr :: string
  rp_MaxAgeStr :: string

record ReportConfig =
  rc_Percentiles :: "int list"
  rc_IncludeTimeline :: bool

record Config =
  cf_Namespace :: string
  cf_Duration :: duration
  cf_DurationStr :: string
  cf_OutputDir :: string
  cf_RNGSeed :: int
  cf_RunLabel :: string
  cf_DaemonBinary :: string
  cf_RuntimeDir :: string
  cf_SocketPath :: string
  cf_Verbose :: bool
  cf_Workload :: WorkloadConfig
  cf_Chaos :: ChaosConfig
  cf_Health :: HealthConfig
  cf_Reaper :: ReaperConfig
  cf_Report :: ReportConfig

section \<open>Labels\<close>

definition ManagedByValue :: "Config \<Rightarrow> string" where
  "ManagedByValue c = (let base = ''kld-stress-test'' in if cf_RunLabel c \<noteq> [] then base @ ''-'' @ cf_RunLabel c else base)"

definition LabelSelector :: "Config \<Rightarrow> string" where
  "LabelSelector c =
     (let base = ''kld-stress-test'' in ''app.kubernetes.io/managed-by='' @ (if cf_RunLabel c \<noteq> [] then base @ ''-'' @ cf_RunLabel c else base))"

section \<open>Validation\<close>

text \<open>The regular expression \<open>^[a-z0-9]([a-z0-9-]{0,45}[a-z0-9])?$\<close>.\<close>

definition label_end :: "char \<Rightarrow> bool" where
  "label_end c \<longleftrightarrow> byte_in 97 122 c \<or> byte_in 48 57 c"

definition label_char :: "char \<Rightarrow> bool" where
  "label_char c \<longleftrightarrow> label_end c \<or> c = CHR ''-''"

definition run_label_match :: "string \<Rightarrow> bool" where
  "run_label_match s \<longleftrightarrow> s \<noteq> [] \<and> label_end (hd s) \<and>
     (tl s = [] \<or> label_end (last s) \<and> length (butlast (tl s)) \<le> 45 \<and> list_all label_char (butlast (tl s)))"

datatype config_error =
    NamespaceRequired
  | DurationNotPositive
  | LabelTooLong
  | LabelMismatch
  | PhaseWeightSum int
  | CommandWeightSum int
  | MinAboveMax string int int
  | NotPositive string
  | TooFewWorkers
  | NegativeRate
  | FillDiskBytes
  | FillConnectionsCount
  | ChaosInterval string
  | ChaosIntervalNotPositive string

fun first_min_max :: "(string \<times> int \<times> int) list \<Rightarrow> config_error option" where
  "first_min_max [] = None"
| "first_min_max ((name, lo, hi) # rest) = (if lo > hi then Some (MinAboveMax name lo hi) else first_min_max rest)"

fun first_chaos_error :: "(string \<times> ChaosTypeConfig) list \<Rightarrow> config_error option" where
  "first_chaos_error [] = None"
| "first_chaos_error ((name, cfg) # rest) =
     (if \<not> ct_Enabled cfg then first_chaos_error rest
      else if ct_IntervalMin cfg > ct_IntervalMax cfg then Some (ChaosInterval name)
      else if ct_IntervalMin cfg \<le> 0 then Some (ChaosIntervalNotPositive name)
      else first_chaos_error rest)"

definition duration_ranges :: "WorkloadConfig \<Rightarrow> (string \<times> int \<times> int) list" where
  "duration_ranges w = [(''steady_delay'', wl_SteadyMinDelay w, wl_SteadyMaxDelay w), (''burst_delay'', wl_BurstMinDelay w, wl_BurstMaxDelay w),
     (''quiet_delay'', wl_QuietMinDelay w, wl_QuietMaxDelay w), (''phase_duration'', wl_PhaseDurationMin w, wl_PhaseDurationMax w)]"

definition conc_ranges :: "WorkloadConfig \<Rightarrow> (string \<times> int \<times> int) list" where
  "conc_ranges w = [(''steady_conc'', wl_SteadyMinConc w, wl_SteadyMaxConc w), (''burst_conc'', wl_BurstMinConc w, wl_BurstMaxConc w),
     (''quiet_conc'', wl_QuietMinConc w, wl_QuietMaxConc w)]"

definition chaos_types :: "ChaosConfig \<Rightarrow> (string \<times> ChaosTypeConfig) list" where
  "chaos_types ch = [(''kill_daemon'', ch_KillDaemon ch), (''delete_socket'', ch_DeleteSocket ch), (''corrupt_token_files'', ch_CorruptTokenFiles ch),
     (''fill_connections'', ch_FillConnections ch), (''fill_disk'', ch_FillDisk ch)]"

text \<open>Sums of weights wrap around at 64 bits.\<close>

definition phase_sum :: "WorkloadConfig \<Rightarrow> int" where
  "phase_sum w = wrap64 (wl_SteadyWeight w + wl_BurstWeight w + wl_QuietWeight w)"

definition command_sum :: "CommandWeights \<Rightarrow> int" where
  "command_sum cw = wrap64 (cw_Read cw + cw_Mutate cw + cw_Invalid cw + cw_Fuzz cw)"

definition Validate :: "Config \<Rightarrow> config_error option" where
  "Validate c =
     (let w = cf_Workload c; cw = wl_CommandWeights w; ch = cf_Chaos c in
      if cf_Namespace c = [] then Some NamespaceRequired
      else if cf_Duration c \<le> 0 then Some DurationNotPositive
      else if cf_RunLabel c \<noteq> [] \<and> length (cf_RunLabel c) > 47 then Some LabelTooLong
      else if cf_RunLabel c \<noteq> [] \<and> \<not> run_label_match (cf_RunLabel c) then Some LabelMismatch
      else if phase_sum w \<noteq> 100 then Some (PhaseWeightSum (phase_sum w))
      else if command_sum cw \<noteq> 100 then Some (CommandWeightSum (command_sum cw))
      else case first_min_max (duration_ranges w) of
             Some e \<Rightarrow> Some e
           | None \<Rightarrow>
      (case first_min_max (conc_ranges w) of
         Some e \<Rightarrow> Some e
       | None \<Rightarrow>
      if wl_MaxResources w \<le> 0 then Some (NotPositive ''max_resources'')
      else if wl_KubectlTimeout w \<le> 0 then Some (NotPositive ''kubectl_timeout'')
      else if wl_SLAThreshold w \<le> 0 then Some (NotPositive ''sla_threshold'')
      else if wl_DirectIPCWorkers w < 1 then Some TooFewWorkers
      else if wl_DirectIPCRate w < 0 then Some NegativeRate
      else if ct_Enabled (ch_FillDisk ch) \<and> ct_MaxFillBytes (ch_FillDisk ch) \<le> 0 then Some FillDiskBytes
      else if ct_Enabled (ch_FillConnections ch) \<and> ct_TargetCount (ch_FillConnections ch) \<le> 0 then Some FillConnectionsCount
      else first_chaos_error (chaos_types ch)))"

section \<open>Loading\<close>

definition SetDuration :: "string \<Rightarrow> Config \<Rightarrow> go_error + Config" where
  "SetDuration s c =
     (case ParseDuration s of
        Inl e \<Rightarrow> Inl (Wrap ''invalid duration'' e)
      | Inr d \<Rightarrow> Inr (c\<lparr>cf_Duration := d, cf_DurationStr := s\<rparr>))"

text \<open>One call of the local function \<open>parse\<close>: an empty string leaves the target as it is.\<close>

definition dur_step :: "string \<Rightarrow> ('c \<Rightarrow> string) \<Rightarrow> ((duration \<Rightarrow> duration) \<Rightarrow> 'c \<Rightarrow> 'c) \<Rightarrow> 'c \<Rightarrow> go_error + 'c" where
  "dur_step name text_of upd c =
     (if text_of c = [] then Inr c
      else case ParseDuration (text_of c) of Inl e \<Rightarrow> Inl (Wrap name e) | Inr d \<Rightarrow> Inr (upd (\<lambda>_. d) c))"

fun run_steps :: "('c \<Rightarrow> go_error + 'c) list \<Rightarrow> 'c \<Rightarrow> go_error + 'c" where
  "run_steps [] c = Inr c"
| "run_steps (f # fs) c = (case f c of Inl e \<Rightarrow> Inl e | Inr c' \<Rightarrow> run_steps fs c')"

text \<open>Steps on a part of the configuration.\<close>

definition on_part :: "('c \<Rightarrow> 'p) \<Rightarrow> (('p \<Rightarrow> 'p) \<Rightarrow> 'c \<Rightarrow> 'c) \<Rightarrow> ('p \<Rightarrow> go_error + 'p) \<Rightarrow> 'c \<Rightarrow> go_error + 'c" where
  "on_part part upd f c = (case f (part c) of Inl e \<Rightarrow> Inl e | Inr p \<Rightarrow> Inr (upd (\<lambda>_. p) c))"

definition workload_steps :: "(WorkloadConfig \<Rightarrow> go_error + WorkloadConfig) list" where
  "workload_steps =
     [dur_step ''steady_min_delay'' wl_SteadyMinDelayStr wl_SteadyMinDelay_update, dur_step ''steady_max_delay'' wl_SteadyMaxDelayStr wl_SteadyMaxDelay_update,
      dur_step ''burst_min_delay'' wl_BurstMinDelayStr wl_BurstMinDelay_update, dur_step ''burst_max_delay'' wl_BurstMaxDelayStr wl_BurstMaxDelay_update,
      dur_step ''quiet_min_delay'' wl_QuietMinDelayStr wl_QuietMinDelay_update, dur_step ''quiet_max_delay'' wl_QuietMaxDelayStr wl_QuietMaxDelay_update,
      dur_step ''phase_duration_min'' wl_PhaseDurationMinStr wl_PhaseDurationMin_update, dur_step ''phase_duration_max'' wl_PhaseDurationMaxStr wl_PhaseDurationMax_update,
      dur_step ''kubectl_timeout'' wl_KubectlTimeoutStr wl_KubectlTimeout_update, dur_step ''sla_threshold'' wl_SLAThresholdStr wl_SLAThreshold_update]"

definition chaos_type_steps :: "(ChaosTypeConfig \<Rightarrow> go_error + ChaosTypeConfig) list" where
  "chaos_type_steps = [dur_step ''interval_min'' ct_IntervalMinStr ct_IntervalMin_update, dur_step ''interval_max'' ct_IntervalMaxStr ct_IntervalMax_update,
     dur_step ''hold_duration'' ct_HoldDurationStr ct_HoldDuration_update]"

definition chaos_steps :: "(ChaosConfig \<Rightarrow> go_error + ChaosConfig) list" where
  "chaos_steps =
     [dur_step ''initial_stability_period'' ch_InitialStabilityPeriodStr ch_InitialStabilityPeriod_update,
      dur_step ''global_cooldown'' ch_GlobalCooldownStr ch_GlobalCooldown_update,
      on_part ch_KillDaemon ch_KillDaemon_update (run_steps chaos_type_steps), on_part ch_DeleteSocket ch_DeleteSocket_update (run_steps chaos_type_steps),
      on_part ch_CorruptTokenFiles ch_CorruptTokenFiles_update (run_steps chaos_type_steps),
      on_part ch_FillConnections ch_FillConnections_update (run_steps chaos_type_steps), on_part ch_FillDisk ch_FillDisk_update (run_steps chaos_type_steps)]"

definition health_steps :: "(HealthConfig \<Rightarrow> go_error + HealthConfig) list" where
  "health_steps = [dur_step ''poll_interval'' hl_PollIntervalStr hl_PollInterval_update, dur_step ''hang_threshold'' hl_HangThresholdStr hl_HangThreshold_update,
     dur_step ''exit_threshold'' hl_ExitThresholdStr hl_ExitThreshold_update]"

definition reaper_steps :: "(ReaperConfig \<Rightarrow> go_error + ReaperConfig) list" where
  "reaper_steps = [dur_step ''interval'' rp_IntervalStr rp_Interval_update, dur_step ''max_age'' rp_MaxAgeStr rp_MaxAge_update]"

definition parseDurations :: "Config \<Rightarrow> go_error + Config" where
  "parseDurations =
     run_steps [dur_step ''duration'' cf_DurationStr cf_Duration_update,
       on_part cf_Workload cf_Workload_update (run_steps workload_steps), on_part cf_Chaos cf_Chaos_update (run_steps chaos_steps),
       on_part cf_Health cf_Health_update (run_steps health_steps), on_part cf_Reaper cf_Reaper_update (run_steps reaper_steps)]"

definition chaos_type :: "duration \<Rightarrow> duration \<Rightarrow> string \<Rightarrow> string \<Rightarrow> ChaosTypeConfig" where
  "chaos_type lo hi los his = \<lparr>ct_Enabled = True, ct_IntervalMin = lo, ct_IntervalMax = hi, ct_HoldDuration = 0, ct_TargetCount = 0,
     ct_MaxFillBytes = 0, ct_IntervalMinStr = los, ct_IntervalMaxStr = his, ct_HoldDurationStr = []\<rparr>"

definition default_workload :: WorkloadConfig where
  "default_workload = \<lparr>wl_SteadyWeight = 70, wl_BurstWeight = 20, wl_QuietWeight = 10,
     wl_SteadyMinConc = 1, wl_SteadyMaxConc = 10, wl_SteadyMinDelay = 100 * millisecond, wl_SteadyMaxDelay = 2 * second,
     wl_BurstMinConc = 20, wl_BurstMaxConc = 100, wl_BurstMinDelay = 0, wl_BurstMaxDelay = 500 * millisecond,
     wl_QuietMinConc = 0, wl_QuietMaxConc = 1, wl_QuietMinDelay = 2 * second, wl_QuietMaxDelay = 5 * second,
     wl_PhaseDurationMin = 5 * minute, wl_PhaseDurationMax = 15 * minute,
     wl_CommandWeights = \<lparr>cw_Read = 60, cw_Mutate = 20, cw_Invalid = 10, cw_Fuzz = 10\<rparr>,
     wl_DirectIPCWorkers = 5, wl_DirectIPCRate = 5, wl_KubectlTimeout = 30 * second, wl_SLAThreshold = 2 * second,
     wl_RateLimit = \<lparr>rl_SteadyQPS = 50, rl_SteadyBurst = 100, rl_BurstQPS = 200, rl_BurstBurst = 200, rl_QuietQPS = 5, rl_QuietBurst = 10\<rparr>,
     wl_MaxResources = 200, wl_KubeconfigContext = [],
     wl_SteadyMinDelayStr = ''100ms'', wl_SteadyMaxDelayStr = ''2s'', wl_BurstMinDelayStr = ''0ms'', wl_BurstMaxDelayStr = ''500ms'',
     wl_QuietMinDelayStr = ''2s'', wl_QuietMaxDelayStr = ''5s'', wl_PhaseDurationMinStr = ''5m'', wl_PhaseDurationMaxStr = ''15m'',
     wl_KubectlTimeoutStr = ''30s'', wl_SLAThresholdStr = ''2s''\<rparr>"

definition default_chaos :: ChaosConfig where
  "default_chaos = \<lparr>ch_Enabled = True, ch_InitialStabilityPeriod = 5 * minute, ch_GlobalCooldown = 30 * second,
     ch_KillDaemon = chaos_type (30 * minute) (60 * minute) ''30m'' ''60m'',
     ch_DeleteSocket = chaos_type (15 * minute) (45 * minute) ''15m'' ''45m'',
     ch_CorruptTokenFiles = chaos_type (30 * minute) (90 * minute) ''30m'' ''90m'',
     ch_FillConnections = (chaos_type (30 * minute) (60 * minute) ''30m'' ''60m'')\<lparr>ct_HoldDuration := 5 * second, ct_TargetCount := 260, ct_HoldDurationStr := ''5s''\<rparr>,
     ch_FillDisk = (chaos_type (45 * minute) (90 * minute) ''45m'' ''90m'')\<lparr>ct_HoldDuration := 10 * second, ct_MaxFillBytes := 1073741824, ct_HoldDurationStr := ''10s''\<rparr>,
     ch_InitialStabilityPeriodStr = ''5m'', ch_GlobalCooldownStr = ''30s''\<rparr>"

definition Defaults :: Config where
  "Defaults = \<lparr>cf_Namespace = [], cf_Duration = 24 * hour, cf_DurationStr = ''24h'', cf_OutputDir = ''./stress-results'', cf_RNGSeed = 0,
     cf_RunLabel = [], cf_DaemonBinary = ''kubelogin-daemon'', cf_RuntimeDir = [], cf_SocketPath = [], cf_Verbose = False,
     cf_Workload = default_workload, cf_Chaos = default_chaos,
     cf_Health = \<lparr>hl_PollInterval = 10 * second, hl_HangThreshold = 30 * second, hl_ExitThreshold = 5 * minute, hl_MemoryWarnMB = 100,
       hl_MemoryKillMB = 500, hl_IdleAwareProbing = True, hl_PollIntervalStr = ''10s'', hl_HangThresholdStr = ''30s'', hl_ExitThresholdStr = ''5m''\<rparr>,
     cf_Reaper = \<lparr>rp_Interval = 5 * minute, rp_MaxAge = hour, rp_IntervalStr = ''5m'', rp_MaxAgeStr = ''1h''\<rparr>,
     cf_Report = \<lparr>rc_Percentiles = [50, 90, 95, 99], rc_IncludeTimeline = True\<rparr>\<rparr>"

definition Load :: "(string \<Rightarrow> Config \<Rightarrow> go_error + Config) \<Rightarrow> os_error + string \<Rightarrow> go_error + Config" where
  "Load yaml file =
     (case file of
        Inl e \<Rightarrow> if e = ENOENT then Inr Defaults else Inl (Wrap ''read config file'' (OsErr e))
      | Inr data \<Rightarrow>
          (case yaml data Defaults of
             Inl e \<Rightarrow> Inl (Wrap ''parse config file'' e)
           | Inr cfg \<Rightarrow>
               (case parseDurations cfg of
                  Inl e \<Rightarrow> Inl (Wrap ''parse durations'' e)
                | Inr cfg' \<Rightarrow> Inr cfg')))"

section \<open>The run command\<close>

text \<open>The flags given on the command line; a flag that was not given is \<open>None\<close>.\<close>

record run_flags =
  rf_duration :: "string option"
  rf_namespace :: "string option"
  rf_outputDir :: "string option"
  rf_rngSeed :: "int option"
  rf_runLabel :: "string option"
  rf_verbose :: bool

datatype run_error = LoadFailed go_error | FlagInvalid go_error | ConfigInvalid config_error

definition override :: "'a option \<Rightarrow> ('a \<Rightarrow> 'c \<Rightarrow> 'c) \<Rightarrow> 'c \<Rightarrow> 'c" where
  "override v assign c = (case v of None \<Rightarrow> c | Some x \<Rightarrow> assign x c)"

definition run_config :: "(string \<Rightarrow> Config \<Rightarrow> go_error + Config) \<Rightarrow> os_error + string \<Rightarrow> run_flags \<Rightarrow> run_error + Config" where
  "run_config yaml file f =
     (case Load yaml file of
        Inl e \<Rightarrow> Inl (LoadFailed (Wrap ''load config'' e))
      | Inr c0 \<Rightarrow>
          (case (case rf_duration f of None \<Rightarrow> Inr c0 | Some s \<Rightarrow> SetDuration s c0) of
             Inl e \<Rightarrow> Inl (FlagInvalid e)
           | Inr c1 \<Rightarrow>
               let c2 = override (rf_namespace f) (\<lambda>v c. c\<lparr>cf_Namespace := v\<rparr>) c1;
                   c3 = override (rf_outputDir f) (\<lambda>v c. c\<lparr>cf_OutputDir := v\<rparr>) c2;
                   c4 = override (rf_rngSeed f) (\<lambda>v c. c\<lparr>cf_RNGSeed := v\<rparr>) c3;
                   c5 = override (rf_runLabel f) (\<lambda>v c. c\<lparr>cf_RunLabel := v\<rparr>) c4;
                   c6 = (if rf_verbose f then c5\<lparr>cf_Verbose := True\<rparr> else c5)
               in case Validate c6 of Some e \<Rightarrow> Inl (ConfigInvalid e) | None \<Rightarrow> Inr c6))"

section \<open>Reading durations\<close>

lemma is_digit_digit: "d < 10 \<Longrightarrow> is_digit (digit_char d) \<and> byte_of (digit_char d) = 48 + d"
  by (simp add: is_digit_def byte_of_def)

lemma leadingInt_show: "n \<le> 2 ^ 63 \<Longrightarrow> leadingInt 0 (show_nat n @ r) = leadingInt n r"
proof (induction n arbitrary: r rule: show_nat.induct)
  case (1 n)
  show ?case
  proof (cases "n < 10")
    case True
    then show ?thesis using is_digit_digit [of n] by (simp add: show_nat.simps [of n] del: digit_char.simps)
  next
    case False
    have "n div 10 \<le> 2 ^ 63 div 10" using 1(2) by (rule div_le_mono)
    then show ?thesis using False 1(1) [of "digit_char (n mod 10) # r"] 1(2) is_digit_digit [of "n mod 10"]
      by (simp add: show_nat.simps [of n] Let_def del: digit_char.simps)
  qed
qed

lemma show_nat_Cons: "\<exists>c cs. show_nat n = c # cs \<and> is_digit c"
proof (induction n rule: show_nat.induct)
  case (1 n)
  show ?case
  proof (cases "n < 10")
    case True
    then show ?thesis using is_digit_digit [of n] by (simp add: show_nat.simps [of n] del: digit_char.simps)
  next
    case False
    then show ?thesis using 1 by (auto simp add: show_nat.simps [of n] simp del: digit_char.simps)
  qed
qed

definition plain_unit :: "string \<Rightarrow> bool" where
  "plain_unit u \<longleftrightarrow> u \<noteq> [] \<and> list_all (\<lambda>c. c \<noteq> CHR ''.'' \<and> \<not> is_digit c) u"

text \<open>A number printed before a unit is read as that many units, as long as the result fits into 63 bits.\<close>

lemma ParseDuration_show:
  assumes "plain_unit u" "unit_ns u = Some k" "n * k < 2 ^ 63"
  shows "ParseDuration (show_nat n @ u) = Inr (int (n * k))"
proof -
  obtain c cs where c: "show_nat n = c # cs" "is_digit c" using show_nat_Cons by blast
  have k: "0 < k" using assms(2) by (auto simp: unit_ns_def split: if_splits)
  obtain x xs where u: "u = x # xs" "\<not> is_digit x" "x \<noteq> CHR ''.''" using assms(1) by (cases u) (auto simp: plain_unit_def)
  have n: "n < 2 ^ 63" using assms(3) k by (metis le_less_trans mult.right_neutral mult_le_mono2 One_nat_def Suc_leI)
  have lead: "leadingInt 0 (show_nat n @ u) = Some (n, u)" using leadingInt_show [of n u] n u by simp
  have unit: "takeWhile (\<lambda>c. \<not> (c = CHR ''.'' \<or> is_digit c)) u = u"
    using assms(1) by (simp add: plain_unit_def takeWhile_eq_all_conv list_all_iff)
  have rest: "takeWhile (\<lambda>c. c \<noteq> CHR ''.'' \<and> \<not> is_digit c) xs = xs"
    using assms(1) by (simp add: plain_unit_def takeWhile_eq_all_conv list_all_iff u)
  have "n \<le> 2 ^ 63 div k" using assms(3) k by (simp add: less_eq_div_iff_mult_less_eq)
  then have part: "dur_part (show_nat n @ u) = Inr (n * k, [])"
    using c u assms(2) unfolding dur_part_def Let_def lead by (simp add: rest)
  have ne: "show_nat n @ u \<noteq> ''0''" using u c by auto
  have sign: "c \<noteq> CHR ''-''" "c \<noteq> CHR ''+''" using c(2) by (auto simp: is_digit_def byte_of_def)
  have "dur_parts 0 (show_nat n @ u) = Inr (n * k)"
    using part assms(3) c by (simp add: dur_parts.simps [of 0] dur_parts.simps [of _ "[]"] Let_def)
  then show ?thesis using c sign ne assms(3) u(1) by (auto simp: ParseDuration_def Let_def)
qed

lemma plain_units [simp]: "plain_unit ''ms''" "plain_unit ''s''" "plain_unit ''m''" "plain_unit ''h''"
  by (simp_all add: plain_unit_def is_digit_def byte_of_def)

lemma show_literals:
  "show_nat 0 = ''0''" "show_nat 1 = ''1''" "show_nat 2 = ''2''" "show_nat 5 = ''5''" "show_nat 10 = ''10''" "show_nat 15 = ''15''" "show_nat 24 = ''24''"
  "show_nat 30 = ''30''" "show_nat 45 = ''45''" "show_nat 60 = ''60''" "show_nat 90 = ''90''" "show_nat 100 = ''100''" "show_nat 500 = ''500''"
  by (simp_all add: show_nat.simps char_of_eq byte_of_def)

lemma default_durations:
  "ParseDuration ''24h'' = Inr (24 * hour)" "ParseDuration ''100ms'' = Inr (100 * millisecond)" "ParseDuration ''2s'' = Inr (2 * second)"
  "ParseDuration ''0ms'' = Inr 0" "ParseDuration ''500ms'' = Inr (500 * millisecond)" "ParseDuration ''5s'' = Inr (5 * second)"
  "ParseDuration ''5m'' = Inr (5 * minute)" "ParseDuration ''15m'' = Inr (15 * minute)" "ParseDuration ''30s'' = Inr (30 * second)"
  "ParseDuration ''30m'' = Inr (30 * minute)" "ParseDuration ''60m'' = Inr (60 * minute)" "ParseDuration ''45m'' = Inr (45 * minute)"
  "ParseDuration ''90m'' = Inr (90 * minute)" "ParseDuration ''10s'' = Inr (10 * second)" "ParseDuration ''1h'' = Inr hour"
  using ParseDuration_show [of "''h''" _ 24] ParseDuration_show [of "''ms''" _ 100] ParseDuration_show [of "''s''" _ 2] ParseDuration_show [of "''ms''" _ 0]
    ParseDuration_show [of "''ms''" _ 500] ParseDuration_show [of "''s''" _ 5] ParseDuration_show [of "''m''" _ 5] ParseDuration_show [of "''m''" _ 15]
    ParseDuration_show [of "''s''" _ 30] ParseDuration_show [of "''m''" _ 30] ParseDuration_show [of "''m''" _ 60] ParseDuration_show [of "''m''" _ 45]
    ParseDuration_show [of "''m''" _ 90] ParseDuration_show [of "''s''" _ 10] ParseDuration_show [of "''h''" _ 1]
  by (simp_all add: unit_ns_def show_literals hour_def minute_def second_def millisecond_def del: One_nat_def)

text \<open>
  The defaults agree with themselves.  Every default duration is the value of the string that stands beside it, so that a
  configuration file that sets nothing gives the same configuration as no file; and the defaults pass validation once a
  namespace is set.
\<close>

theorem defaults_consistent:
  "parseDurations Defaults = Inr Defaults \<and> Load (\<lambda>data cfg. Inr cfg) (Inr data) = Load yaml (Inl ENOENT) \<and>
   (\<forall>ns. Validate (Defaults\<lparr>cf_Namespace := ns\<rparr>) = (if ns = [] then Some NamespaceRequired else None))"
proof -
  note steps = run_steps.simps dur_step_def on_part_def default_durations
  have w: "run_steps workload_steps default_workload = Inr default_workload"
    by (simp add: workload_steps_def default_workload_def steps)
  have t: "run_steps chaos_type_steps (chaos_type lo hi los his) = Inr (chaos_type lo hi los his)"
    if "ParseDuration los = Inr lo" "ParseDuration his = Inr hi" for lo hi los his
    using that by (simp add: chaos_type_steps_def chaos_type_def steps)
  have ch: "run_steps chaos_steps default_chaos = Inr default_chaos"
    unfolding chaos_steps_def default_chaos_def by (simp add: steps t) (simp add: chaos_type_steps_def chaos_type_def steps)
  have p: "parseDurations Defaults = Inr Defaults"
    by (simp add: parseDurations_def Defaults_def w ch health_steps_def reaper_steps_def steps)
  moreover have "Validate (Defaults\<lparr>cf_Namespace := ns\<rparr>) = (if ns = [] then Some NamespaceRequired else None)" for ns
    by (simp add: Validate_def Defaults_def default_workload_def default_chaos_def chaos_type_def Let_def phase_sum_def command_sum_def wrap64_def
        duration_ranges_def conc_ranges_def chaos_types_def hour_def minute_def second_def millisecond_def)
  ultimately show ?thesis by (simp add: Load_def)
qed

section \<open>Valid configurations\<close>

lemma Validate_None:
  assumes "Validate c = None"
  shows "cf_Namespace c \<noteq> []" "0 < cf_Duration c" "cf_RunLabel c \<noteq> [] \<Longrightarrow> length (cf_RunLabel c) \<le> 47 \<and> run_label_match (cf_RunLabel c)"
    "phase_sum (cf_Workload c) = 100" "command_sum (wl_CommandWeights (cf_Workload c)) = 100"
    "first_min_max (duration_ranges (cf_Workload c)) = None" "first_min_max (conc_ranges (cf_Workload c)) = None"
    "0 < wl_MaxResources (cf_Workload c)" "first_chaos_error (chaos_types (cf_Chaos c)) = None"
  using assms by (auto simp: Validate_def Let_def not_le split: if_splits option.splits)

lemma label_match_chars:
  assumes "run_label_match s"
  shows "list_all label_char s \<and> label_end (hd s) \<and> label_end (last s)"
proof (cases "tl s = []")
  case True
  then show ?thesis using assms by (cases s) (auto simp: run_label_match_def label_char_def)
next
  case False
  then obtain a m z where s: "s = a # m @ [z]" by (cases s; cases "tl s" rule: rev_cases) auto
  then show ?thesis using assms by (auto simp: run_label_match_def label_char_def)
qed

text \<open>
  The label of every resource is one the cluster accepts.  Whatever run label a validated configuration has, the value
  of the managed-by label has at most 63 characters, consists of lower-case letters, digits and hyphens, and begins and
  ends with a letter or digit; and the selector used for cleaning up selects exactly that value.
\<close>

theorem managed_by_label_valid:
  assumes "Validate c = None"
  shows "length (ManagedByValue c) \<le> 63 \<and> list_all label_char (ManagedByValue c) \<and> label_end (hd (ManagedByValue c)) \<and>
    label_end (last (ManagedByValue c)) \<and> LabelSelector c = ''app.kubernetes.io/managed-by='' @ ManagedByValue c"
proof -
  have base: "list_all label_char ''kld-stress-test''" "label_end (CHR ''k'')" "label_end (CHR ''t'')" "label_char (CHR ''-'')"
    by (simp_all add: label_char_def label_end_def byte_in_def byte_of_def)
  show ?thesis
  proof (cases "cf_RunLabel c = []")
    case True
    then show ?thesis using base by (simp add: ManagedByValue_def LabelSelector_def Let_def)
  next
    case False
    then show ?thesis using base Validate_None(3) [OF assms] label_match_chars [of "cf_RunLabel c"]
      by (simp add: ManagedByValue_def LabelSelector_def Let_def)
  qed
qed

theorem managed_by_label_valid_witness:
  "length (ManagedByValue (Defaults\<lparr>cf_Namespace := ''ns'', cf_RunLabel := ''run-1''\<rparr>)) \<le> 63"
proof -
  have "Validate (Defaults\<lparr>cf_Namespace := ''ns'', cf_RunLabel := ''run-1''\<rparr>) = None"
    by (simp add: Validate_def Defaults_def default_workload_def default_chaos_def chaos_type_def Let_def phase_sum_def command_sum_def wrap64_def
        duration_ranges_def conc_ranges_def chaos_types_def hour_def minute_def second_def millisecond_def run_label_match_def label_end_def
        label_char_def byte_in_def byte_of_def)
  from managed_by_label_valid [OF this] show ?thesis by simp
qed

end
