(* ===== verification/StressWorkload.thy ===== *)
theory StressWorkload
  imports StressConfig
begin

text \<open>
  The workload of the stress test (\<open>stresstest/internal/workload\<close>) and its reaper (\<open>stresstest/internal/reaper\<close>): the tracker of created
  resources, the choice of commands, their execution and the classification of failures.  Commands run concurrently; a
  command takes part in the shared state twice, when it is chosen and when its result is in, and the interleavings are a step
  relation.  Random draws, \<open>kubectl\<close> and the clock are parameters.
\<close>

section \<open>Types\<close>

datatype Phase = PhaseSteady | PhaseBurst | PhaseQuiescent

primrec Phase_String :: "Phase \<Rightarrow> string" where
  "Phase_String PhaseSteady = ''steady''"
| "Phase_String PhaseBurst = ''burst''"
| "Phase_String PhaseQuiescent = ''quiescent''"

datatype CommandCategory = CatReadOnly | CatMutating | CatInvalid | CatFuzzing | CatDirectIPC

primrec category_name :: "CommandCategory \<Rightarrow> string" where
  "category_name CatReadOnly = ''read''"
| "category_name CatMutating = ''mutate''"
| "category_name CatInvalid = ''invalid''"
| "category_name CatFuzzing = ''fuzz''"
| "category_name CatDirectIPC = ''ipc''"

datatype FailureClass = FailNone | FailDaemonDown | FailDaemonError | FailAPIServer | FailClientError | FailTimeout

primrec failure_name :: "FailureClass \<Rightarrow> string" where
  "failure_name FailNone = ''''"
| "failure_name FailDaemonDown = ''daemon_down''"
| "failure_name FailDaemonError = ''daemon_error''"
| "failure_name FailAPIServer = ''api_server_error''"
| "failure_name FailClientError = ''client_error''"
| "failure_name FailTimeout = ''timeout''"

record CmdTemplate =
  tp_Args :: "string list"
  tp_Weight :: int
  tp_Stdin :: string
  tp_ExpectClientError :: bool

record CommandResult =
  cr_Timestamp :: gotime
  cr_Category :: CommandCategory
  cr_CommandType :: string
  cr_Args :: "string list"
  cr_ExitCode :: int
  cr_Duration :: duration
  cr_FailureClass :: FailureClass
  cr_Error :: string
  cr_ResourceName :: string
  cr_SLAViolation :: bool
  cr_ExpectClientError :: bool

record TrackedResource =
  tr_Kind :: string
  tr_Name :: string
  tr_CreatedAt :: gotime

section \<open>Resource tracker\<close>

record ResourceTracker =
  rt_resources :: "(string, TrackedResource) gomap"
  rt_reserved :: int
  rt_maxCount :: int

definition NewResourceTracker :: "int \<Rightarrow> ResourceTracker" where
  "NewResourceTracker maxCount = \<lparr>rt_resources = [], rt_reserved = 0, rt_maxCount = maxCount\<rparr>"

definition ReserveSlot :: "ResourceTracker \<Rightarrow> bool \<times> ResourceTracker" where
  "ReserveSlot t =
     (if int (length (rt_resources t)) + rt_reserved t \<ge> rt_maxCount t then (False, t)
      else (True, t\<lparr>rt_reserved := rt_reserved t + 1\<rparr>))"

definition CommitSlot :: "gotime \<Rightarrow> string \<Rightarrow> string \<Rightarrow> ResourceTracker \<Rightarrow> ResourceTracker" where
  "CommitSlot now kind name t =
     t\<lparr>rt_reserved := rt_reserved t - 1,
       rt_resources := gm_put (kind @ ''/'' @ name) \<lparr>tr_Kind = kind, tr_Name = name, tr_CreatedAt = now\<rparr> (rt_resources t)\<rparr>"

definition ReleaseSlot :: "ResourceTracker \<Rightarrow> ResourceTracker" where
  "ReleaseSlot t = t\<lparr>rt_reserved := rt_reserved t - 1\<rparr>"

definition tracker_Remove :: "string \<Rightarrow> string \<Rightarrow> ResourceTracker \<Rightarrow> ResourceTracker" where
  "tracker_Remove kind name t = t\<lparr>rt_resources := gm_del (kind @ ''/'' @ name) (rt_resources t)\<rparr>"

definition tracker_Count :: "ResourceTracker \<Rightarrow> int" where
  "tracker_Count t = int (length (rt_resources t))"

definition ListOlderThan :: "gotime \<Rightarrow> duration \<Rightarrow> ResourceTracker \<Rightarrow> TrackedResource list" where
  "ListOlderThan now maxAge t = filter (\<lambda>r. time_Sub now (tr_CreatedAt r) > maxAge) (map snd (rt_resources t))"

definition ListByKind :: "string \<Rightarrow> ResourceTracker \<Rightarrow> string list" where
  "ListByKind kind t = map (\<lambda>(key, r). tr_Name r) (filter (\<lambda>(key, r). tr_Kind r = kind) (rt_resources t))"

definition OrphansAtEnd :: "ResourceTracker \<Rightarrow> int" where
  "OrphansAtEnd t = int (length (rt_resources t))"

section \<open>Random draws\<close>

text \<open>
  A source of random numbers: the draws still to come.  \<open>Intn\<close> and \<open>Int63n\<close> panic when their argument is not positive, which is \<open>None\<close>; any
  sequence of results in range is a sequence of draws.
\<close>

type_synonym rng = "(nat \<Rightarrow> nat) \<times> nat"

definition draw :: "rng \<Rightarrow> nat \<times> rng" where
  "draw g = (fst g (snd g), fst g, Suc (snd g))"

definition Intn :: "int \<Rightarrow> rng \<Rightarrow> (int \<times> rng) option" where
  "Intn n g = (if n \<le> 0 then None else let (x, g') = draw g in Some (int x mod n, g'))"

definition randomDuration :: "duration \<Rightarrow> duration \<Rightarrow> rng \<Rightarrow> (duration \<times> rng) option" where
  "randomDuration lo hi g =
     (if lo \<ge> hi then Some (lo, g)
      else map_option (\<lambda>(x, g'). (wrap64 (lo + x), g')) (Intn (wrap64 (hi - lo)) g))"

definition randomInt :: "int \<Rightarrow> int \<Rightarrow> rng \<Rightarrow> (int \<times> rng) option" where
  "randomInt lo hi g =
     (if lo \<ge> hi then Some (lo, g)
      else map_option (\<lambda>(x, g'). (wrap64 (lo + x), g')) (Intn (wrap64 (hi - lo + 1)) g))"

fun hex_digits :: "nat \<Rightarrow> string" where
  "hex_digits n = (if n < 16 then [hex_digit n] else hex_digits (n div 16) @ [hex_digit (n mod 16)])"

declare hex_digits.simps [simp del]

definition pad8 :: "string \<Rightarrow> string" where
  "pad8 s = replicate (8 - length s) (CHR ''0'') @ s"

definition randomHex8 :: "rng \<Rightarrow> string \<times> rng" where
  "randomHex8 g = (let (x, g') = draw g in (pad8 (hex_digits (x mod 2 ^ 32)), g'))"

section \<open>Phases\<close>

definition pickPhase :: "WorkloadConfig \<Rightarrow> rng \<Rightarrow> Phase \<times> rng" where
  "pickPhase cfg g =
     (let (x, g') = draw g; r = int x mod 100
      in (if r < wl_SteadyWeight cfg then PhaseSteady
          else if wrap64 (r - wl_SteadyWeight cfg) < wl_BurstWeight cfg then PhaseBurst else PhaseQuiescent, g'))"

primrec phaseParams :: "WorkloadConfig \<Rightarrow> Phase \<Rightarrow> int \<times> int \<times> duration \<times> duration" where
  "phaseParams cfg PhaseSteady = (wl_SteadyMinConc cfg, wl_SteadyMaxConc cfg, wl_SteadyMinDelay cfg, wl_SteadyMaxDelay cfg)"
| "phaseParams cfg PhaseBurst = (wl_BurstMinConc cfg, wl_BurstMaxConc cfg, wl_BurstMinDelay cfg, wl_BurstMaxDelay cfg)"
| "phaseParams cfg PhaseQuiescent = (wl_QuietMinConc cfg, wl_QuietMaxConc cfg, wl_QuietMinDelay cfg, wl_QuietMaxDelay cfg)"

primrec phase_limits :: "RateLimitConfig \<Rightarrow> Phase \<Rightarrow> int \<times> int" where
  "phase_limits rl PhaseSteady = (rl_SteadyQPS rl, rl_SteadyBurst rl)"
| "phase_limits rl PhaseBurst = (rl_BurstQPS rl, rl_BurstBurst rl)"
| "phase_limits rl PhaseQuiescent = (rl_QuietQPS rl, rl_QuietBurst rl)"

section \<open>Templates\<close>

definition tmpl :: "string list \<Rightarrow> int \<Rightarrow> CmdTemplate" where
  "tmpl args weight = \<lparr>tp_Args = args, tp_Weight = weight, tp_Stdin = [], tp_ExpectClientError = False\<rparr>"

definition readOnlyTemplates :: "CmdTemplate list" where
  "readOnlyTemplates =
     [tmpl [''get'', ''pods''] 10, tmpl [''get'', ''pods'', ''-o'', ''json''] 5, tmpl [''get'', ''pods'', ''-o'', ''wide''] 3,
      tmpl [''get'', ''pods'', ''--show-labels''] 3, tmpl [''get'', ''services''] 5, tmpl [''get'', ''deployments''] 5,
      tmpl [''get'', ''configmaps''] 5, tmpl [''get'', ''secrets''] 3, tmpl [''get'', ''jobs''] 3,
      tmpl [''get'', ''events'', ''--sort-by=.metadata.creationTimestamp''] 3, tmpl [''get'', ''pvc''] 2, tmpl [''get'', ''resourcequotas''] 2,
      tmpl [''describe'', ''pod'', ''{existing-pod}''] 3, tmpl [''describe'', ''service'', ''{existing-svc}''] 2,
      tmpl [''logs'', ''{existing-pod}'', ''--tail=10''] 3, tmpl [''logs'', ''{existing-pod}'', ''--since=5m''] 2,
      tmpl [''api-resources''] 1, tmpl [''version''] 2, tmpl [''auth'', ''can-i'', ''get'', ''pods''] 2,
      (tmpl [''get'', ''nodes''] 1)\<lparr>tp_ExpectClientError := True\<rparr>, (tmpl [''get'', ''namespaces''] 1)\<lparr>tp_ExpectClientError := True\<rparr>,
      (tmpl [''top'', ''pods''] 1)\<lparr>tp_ExpectClientError := True\<rparr>]"

definition invalidTemplates :: "CmdTemplate list" where
  "invalidTemplates =
     [tmpl [''get'', ''pod'', ''nonexistent-{random}''] 20, tmpl [''logs'', ''nonexistent-{random}''] 10,
      tmpl [''delete'', ''configmap'', ''nonexistent-{random}''] 10, tmpl [''get'', ''fakeresource''] 5,
      tmpl [''get'', ''pods'', ''--nonexistent-flag''] 5, tmpl [''delete'', ''node'', ''fake-node''] 5,
      (tmpl [''apply'', ''-f'', ''-''] 10)\<lparr>tp_Stdin := ''not valid yaml''\<rparr>, tmpl [''get'', ''--invalid-flag-{random}''] 5,
      tmpl [''exec'', ''nonexistent-{random}'', ''--'', ''echo''] 5]"

definition fuzzVerbs :: "string list" where
  "fuzzVerbs = [''get'', ''describe'', ''label'', ''annotate'', ''logs'']"

definition fuzzResources :: "string list" where
  "fuzzResources = [''pods'', ''services'', ''deployments'', ''configmaps'', ''secrets'', ''jobs'', ''statefulsets'', ''daemonsets'', ''ingresses'', ''pvc'']"

definition fuzzFlags :: "string list" where
  "fuzzFlags = [''-o'', ''json'', ''-o'', ''yaml'', ''-o'', ''wide'', ''--show-labels'', ''--field-selector=status.phase=Running'']"

section \<open>Choice of a command\<close>

definition selectCategory :: "CommandWeights \<Rightarrow> rng \<Rightarrow> CommandCategory \<times> rng" where
  "selectCategory w g =
     (let (x, g') = draw g; r = int x mod 100; r1 = wrap64 (r - cw_Read w); r2 = wrap64 (r1 - cw_Mutate w)
      in (if r < cw_Read w then CatReadOnly else if r1 < cw_Mutate w then CatMutating
          else if r2 < cw_Invalid w then CatInvalid else CatFuzzing, g'))"

fun join_with :: "string \<Rightarrow> string list \<Rightarrow> string" where
  "join_with sep [] = []"
| "join_with sep [s] = s"
| "join_with sep (s # t # ts) = s @ sep @ join_with sep (t # ts)"

definition template_name :: "CmdTemplate \<Rightarrow> string" where
  "template_name t = join_with ''_'' (take 2 (tp_Args t))"

fun weighted :: "('a \<Rightarrow> int) \<Rightarrow> int \<Rightarrow> 'a list \<Rightarrow> 'a option" where
  "weighted weight r [] = None"
| "weighted weight r (t # ts) = (if r - weight t < 0 then Some t else weighted weight (r - weight t) ts)"

definition selectWeightedTemplate :: "CmdTemplate list \<Rightarrow> rng \<Rightarrow> ((CmdTemplate \<times> string) \<times> rng) option" where
  "selectWeightedTemplate templates g =
     (case Intn (sum_list (map tp_Weight templates)) g of
        None \<Rightarrow> None
      | Some (r, g') \<Rightarrow>
          let t = (case weighted tp_Weight r templates of Some t \<Rightarrow> t | None \<Rightarrow> hd templates) in Some ((t, template_name t), g'))"

text \<open>\<open>strings.ReplaceAll\<close> for a pattern that is not empty.\<close>

function replace_all :: "string \<Rightarrow> string \<Rightarrow> string \<Rightarrow> string" where
  "replace_all old new s =
     (if old = [] \<or> s = [] then s
      else if prefix old s then new @ replace_all old new (drop (length old) s) else hd s # replace_all old new (tl s))"
  by pat_completeness auto
termination
  by (relation "measure (\<lambda>(a, b, s). length s)") auto

declare replace_all.simps [simp del]

definition pick_name :: "string list \<Rightarrow> string \<Rightarrow> rng \<Rightarrow> (string \<times> bool) \<times> rng" where
  "pick_name names missing g =
     (case Intn (int (length names)) g of None \<Rightarrow> ((missing, True), g) | Some (i, g') \<Rightarrow> ((names ! nat i, False), g'))"

text \<open>One argument of a template: its text and whether a failure is now expected.\<close>

definition expand_arg :: "ResourceTracker \<Rightarrow> string \<Rightarrow> rng \<Rightarrow> (string \<times> bool) \<times> rng" where
  "expand_arg t a g =
     (if a = ''{existing-pod}'' then pick_name (ListByKind ''pod'' t) ''nonexistent-pod'' g
      else if a = ''{existing-svc}'' then pick_name (ListByKind ''service'' t) ''nonexistent-svc'' g
      else if a = ''{random}'' then (let (h, g') = randomHex8 g in ((h, False), g'))
      else if contains a ''{random}'' then (let (h, g') = randomHex8 g in ((replace_all ''{random}'' h a, False), g'))
      else ((a, False), g))"

fun expand_args :: "ResourceTracker \<Rightarrow> string list \<Rightarrow> rng \<Rightarrow> (string list \<times> bool) \<times> rng" where
  "expand_args t [] g = (([], False), g)"
| "expand_args t (a # as) g =
     (let ((b, e), g1) = expand_arg t a g; ((bs, es), g2) = expand_args t as g1 in ((b # bs, e \<or> es), g2))"

definition expandPlaceholders :: "ResourceTracker \<Rightarrow> CmdTemplate \<Rightarrow> rng \<Rightarrow> CmdTemplate \<times> rng" where
  "expandPlaceholders t tm g =
     (let ((args, e), g') = expand_args t (tp_Args tm) g
      in (tm\<lparr>tp_Args := args, tp_ExpectClientError := tp_ExpectClientError tm \<or> e\<rparr>, g'))"

definition mutateTypes :: "(string \<times> string \<times> int) list" where
  "mutateTypes = [(''c'', ''configmap'', 30), (''s'', ''secret'', 20), (''j'', ''job'', 15)]"

definition job_yaml :: "string \<Rightarrow> string \<Rightarrow> string" where
  "job_yaml name managedBy =
     join_with [CHR 0x0A] [''apiVersion: batch/v1'', ''kind: Job'', ''metadata:'', ''  name: '' @ name, ''  labels:'',
       ''    app.kubernetes.io/managed-by: '' @ managedBy, ''spec:'', ''  ttlSecondsAfterFinished: 60'', ''  template:'', ''    spec:'',
       ''      containers:'', ''      - name: stress'', ''        image: busybox'',
       ''        command: ['' @ [CHR 0x22] @ ''echo'' @ [CHR 0x22] @ '', '' @ [CHR 0x22] @ ''stress-test'' @ [CHR 0x22] @ '']'',
       ''      restartPolicy: Never'', ''  backoffLimit: 0'']"

definition create_template :: "string \<Rightarrow> string \<Rightarrow> string \<Rightarrow> CmdTemplate" where
  "create_template managedBy kind name =
     (if kind = ''configmap'' then
        tmpl [''create'', ''configmap'', name, ''--from-literal=stress=test'', ''-l'', ''app.kubernetes.io/managed-by='' @ managedBy] 0
      else if kind = ''secret'' then
        tmpl [''create'', ''secret'', ''generic'', name, ''--from-literal=stress=test'', ''-l'', ''app.kubernetes.io/managed-by='' @ managedBy] 0
      else if kind = ''job'' then (tmpl [''apply'', ''-f'', ''-''] 0)\<lparr>tp_Stdin := job_yaml name managedBy\<rparr>
      else tmpl [] 0)"

text \<open>A command that was chosen: its template, type, whether it holds a slot, and the name of the resource it creates.\<close>

record chosen =
  cn_tmpl :: CmdTemplate
  cn_commandType :: string
  cn_slotReserved :: bool
  cn_resourceName :: string

definition read_command :: "CmdTemplate list \<Rightarrow> ResourceTracker \<Rightarrow> rng \<Rightarrow> (chosen \<times> rng) option" where
  "read_command templates t g =
     (case selectWeightedTemplate templates g of
        None \<Rightarrow> None
      | Some ((tm, name), g1) \<Rightarrow>
          let (tm', g2) = expandPlaceholders t tm g1
          in Some (\<lparr>cn_tmpl = tm', cn_commandType = name, cn_slotReserved = False, cn_resourceName = []\<rparr>, g2))"

definition generateMutateCommand :: "string \<Rightarrow> gotime \<Rightarrow> ResourceTracker \<Rightarrow> rng \<Rightarrow> (chosen \<times> ResourceTracker \<times> rng) option" where
  "generateMutateCommand managedBy now t g =
     (case ReserveSlot t of
        (False, t1) \<Rightarrow> map_option (\<lambda>(c, g'). (c, t1, g')) (read_command readOnlyTemplates t1 g)
      | (True, t1) \<Rightarrow>
          let (rnd, g1) = randomHex8 g in
          (case Intn (sum_list (map (\<lambda>(_, _, w). w) mutateTypes)) g1 of
             None \<Rightarrow> None
           | Some (r, g2) \<Rightarrow>
               let (code, kind) = (case weighted (\<lambda>(_, _, w). w) r mutateTypes of Some (c, k, _) \<Rightarrow> (c, k) | None \<Rightarrow> ([], []));
                   name = ''kldst-'' @ code @ ''-'' @ hex_digits (nat (to_Unix now)) @ ''-'' @ rnd
               in Some (\<lparr>cn_tmpl = create_template managedBy kind name, cn_commandType = ''create_'' @ kind,
                         cn_slotReserved = True, cn_resourceName = name\<rparr>, t1, g2)))"

fun fuzz_flags :: "nat \<Rightarrow> rng \<Rightarrow> (string list \<times> rng) option" where
  "fuzz_flags 0 g = Some ([], g)"
| "fuzz_flags (Suc n) g =
     (case Intn (int (length fuzzFlags)) g of
        None \<Rightarrow> None
      | Some (i, g1) \<Rightarrow> map_option (\<lambda>(fs, g2). (fuzzFlags ! nat i # fs, g2)) (fuzz_flags n g1))"

text \<open>\<open>Float64() < 0.5\<close> and \<open>Float64() < 0.3\<close> are the coins \<open>flip 5\<close> and \<open>flip 3\<close>.\<close>

definition flip :: "nat \<Rightarrow> rng \<Rightarrow> bool \<times> rng" where
  "flip tenths g = (let (x, g') = draw g in (x mod 10 < tenths, g'))"

definition generateFuzzArgs :: "rng \<Rightarrow> (string list \<times> rng) option" where
  "generateFuzzArgs g =
     (case Intn (int (length fuzzVerbs)) g of
        None \<Rightarrow> None
      | Some (v, g1) \<Rightarrow>
     (case Intn (int (length fuzzResources)) g1 of
        None \<Rightarrow> None
      | Some (r, g2) \<Rightarrow>
          let args = [fuzzVerbs ! nat v, fuzzResources ! nat r];
              (named, g3) = flip 5 g2;
              (args1, g4) = (if named then (let (h, g') = randomHex8 g3 in (args @ [''stress-'' @ h], g')) else (args, g3));
              (flagged, g5) = flip 3 g4
          in if flagged
             then (case Intn 3 g5 of
                     None \<Rightarrow> None
                   | Some (n, g6) \<Rightarrow> map_option (\<lambda>(fs, g7). (args1 @ fs, g7)) (fuzz_flags (nat n + 1) g6))
             else Some (args1, g5)))"

definition choose_command :: "WorkloadConfig \<Rightarrow> string \<Rightarrow> gotime \<Rightarrow> ResourceTracker \<Rightarrow> rng \<Rightarrow> (CommandCategory \<times> chosen \<times> ResourceTracker \<times> rng) option" where
  "choose_command cfg managedBy now t g =
     (let (cat, g1) = selectCategory (wl_CommandWeights cfg) g in
      case cat of
        CatReadOnly \<Rightarrow> map_option (\<lambda>(c, g2). (cat, c, t, g2)) (read_command readOnlyTemplates t g1)
      | CatMutating \<Rightarrow> map_option (\<lambda>(c, t', g2). (cat, c, t', g2)) (generateMutateCommand managedBy now t g1)
      | CatInvalid \<Rightarrow> map_option (\<lambda>(c, g2). (cat, c, t, g2)) (read_command invalidTemplates t g1)
      | CatFuzzing \<Rightarrow>
          map_option (\<lambda>(args, g2). (cat, \<lparr>cn_tmpl = tmpl args 0, cn_commandType = ''fuzz_'' @ hd args, cn_slotReserved = False, cn_resourceName = []\<rparr>, t, g2))
            (generateFuzzArgs g1)
      | CatDirectIPC \<Rightarrow> None)"

definition extractKind :: "string list \<Rightarrow> string" where
  "extractKind args =
     (if length args \<ge> 2 then
        (if args ! 0 = ''create'' then args ! 1 else if args ! 0 = ''apply'' then ''apply'' else ''unknown'')
      else ''unknown'')"

section \<open>Execution\<close>

definition isClusterScoped :: "string list \<Rightarrow> bool" where
  "isClusterScoped args \<longleftrightarrow> length args \<ge> 2 \<and> args ! 1 \<in> set [''nodes'', ''namespaces'', ''clusterroles'', ''clusterrolebindings'', ''api-resources'']"

definition truncateStr :: "string \<Rightarrow> nat \<Rightarrow> string" where
  "truncateStr s maxLen = (if length s \<le> maxLen then s else take (maxLen - 3) s @ ''...'')"

definition classifyFailure :: "string \<Rightarrow> int \<Rightarrow> FailureClass" where
  "classifyFailure stderr exitCode =
     (let s = ToLower stderr in
      if contains s ''connection refused'' \<or> contains s ''no such file or directory'' \<or> contains s ''unable to connect to the server'' then FailDaemonDown
      else if contains s ''needs-auth'' \<or> contains s ''login-in-progress'' \<or> contains s ''daemon'' then FailDaemonError
      else if contains s ''internal error'' \<or> contains s ''503 service unavailable'' \<or> contains s ''500 internal server error'' \<or>
        contains s ''i/o timeout'' \<or> contains s ''tls handshake timeout'' then FailAPIServer
      else if contains s ''forbidden'' \<or> contains s ''not found'' \<or> contains s ''error:'' \<or> contains s ''unknown flag'' \<or> contains s ''invalid'' \<or>
        contains s ''the server doesn't have a resource type'' then FailClientError
      else if exitCode \<noteq> 0 then FailClientError
      else FailNone)"

record KubectlExecutor =
  ke_namespace :: string
  ke_context :: string
  ke_timeout :: duration

text \<open>How a run of \<open>kubectl\<close> ended: well, by the deadline, with an exit code and standard error, or without being started.\<close>

datatype cmd_outcome = CmdOk | CmdTimeout | CmdExit int string | CmdFailed string

definition executor_args :: "KubectlExecutor \<Rightarrow> CmdTemplate \<Rightarrow> string list" where
  "executor_args e tm =
     (if ke_namespace e \<noteq> [] \<and> \<not> isClusterScoped (tp_Args tm) then [''--namespace'', ke_namespace e] else [])
     @ (if ke_context e \<noteq> [] then [''--context'', ke_context e] else []) @ tp_Args tm"

text \<open>\<open>timeout_text\<close> prints the duration of the timeout.\<close>

definition executor_Run :: "(duration \<Rightarrow> string) \<Rightarrow> KubectlExecutor \<Rightarrow> cmd_outcome \<Rightarrow> gotime \<Rightarrow> duration \<Rightarrow> CmdTemplate \<Rightarrow> CommandCategory \<Rightarrow> string \<Rightarrow> CommandResult" where
  "executor_Run timeout_text e oc start dur tm category commandType =
     (let result = \<lparr>cr_Timestamp = start, cr_Category = category, cr_CommandType = commandType, cr_Args = executor_args e tm, cr_ExitCode = 0,
            cr_Duration = dur, cr_FailureClass = FailNone, cr_Error = [], cr_ResourceName = [], cr_SLAViolation = False,
            cr_ExpectClientError = tp_ExpectClientError tm\<rparr>
      in case oc of
           CmdOk \<Rightarrow> result
         | CmdTimeout \<Rightarrow> result\<lparr>cr_FailureClass := FailTimeout, cr_ExitCode := - 1, cr_Error := ''timeout after '' @ timeout_text (ke_timeout e)\<rparr>
         | CmdExit code stderr \<Rightarrow>
             let err = truncateStr stderr 1024 in result\<lparr>cr_ExitCode := code, cr_Error := err, cr_FailureClass := classifyFailure err code\<rparr>
         | CmdFailed msg \<Rightarrow> result\<lparr>cr_ExitCode := - 1, cr_Error := msg, cr_FailureClass := FailDaemonDown\<rparr>)"

text \<open>The exit code and standard error of \<open>RunRaw\<close>; a command killed by its deadline has an exit error too.\<close>

primrec RunRaw_result :: "cmd_outcome \<Rightarrow> int \<times> string" where
  "RunRaw_result CmdOk = (0, [])"
| "RunRaw_result CmdTimeout = (- 1, [])"
| "RunRaw_result (CmdExit code stderr) = (code, stderr)"
| "RunRaw_result (CmdFailed msg) = (- 1, msg)"

section \<open>The generator\<close>

record gen_state =
  gs_tracker :: ResourceTracker
  gs_totalInvocations :: int
  gs_totalSuccesses :: int
  gs_totalFailures :: int
  gs_slaViolations :: int
  gs_consecutiveDaemonErrors :: int
  gs_doubleFaultLogged :: bool
  gs_results :: "CommandResult list"
  gs_timeline :: "(string \<times> string) list"

definition NewGenerator :: "ResourceTracker \<Rightarrow> gen_state" where
  "NewGenerator t = \<lparr>gs_tracker = t, gs_totalInvocations = 0, gs_totalSuccesses = 0, gs_totalFailures = 0, gs_slaViolations = 0,
     gs_consecutiveDaemonErrors = 0, gs_doubleFaultLogged = False, gs_results = [], gs_timeline = []\<rparr>"

definition Stats :: "gen_state \<Rightarrow> int \<times> int \<times> int \<times> int" where
  "Stats s = (gs_totalInvocations s, gs_totalSuccesses s, gs_totalFailures s, gs_slaViolations s)"

text \<open>The counting of daemon errors in a row: the twentieth is logged once.\<close>

definition count_daemon_error :: "gen_state \<Rightarrow> gen_state" where
  "count_daemon_error s =
     (let n = gs_consecutiveDaemonErrors s + 1
      in if n \<ge> 20 \<and> \<not> gs_doubleFaultLogged s
         then s\<lparr>gs_consecutiveDaemonErrors := n, gs_doubleFaultLogged := True,
                gs_timeline := gs_timeline s @ [(''double_fault'', show_int n @ '' consecutive daemon errors (needs-auth)'')]\<rparr>
         else s\<lparr>gs_consecutiveDaemonErrors := n\<rparr>)"

definition on_tracker :: "(ResourceTracker \<Rightarrow> ResourceTracker) \<Rightarrow> gen_state \<Rightarrow> gen_state" where
  "on_tracker f s = s\<lparr>gs_tracker := f (gs_tracker s)\<rparr>"

text \<open>What \<open>executeOneCommand\<close> does with the result of the command it chose.\<close>

definition finish_command :: "gotime \<Rightarrow> chosen \<Rightarrow> CommandResult \<Rightarrow> gen_state \<Rightarrow> gen_state" where
  "finish_command now c result0 s =
     (let result = result0\<lparr>cr_ResourceName := cn_resourceName c\<rparr>;
          s1 = s\<lparr>gs_totalInvocations := gs_totalInvocations s + 1\<rparr>;
          (s2, held) =
            (if cr_FailureClass result = FailNone then
               let s' = s1\<lparr>gs_totalSuccesses := gs_totalSuccesses s1 + 1, gs_consecutiveDaemonErrors := 0\<rparr>
               in if cn_slotReserved c \<and> cn_resourceName c \<noteq> []
                  then (on_tracker (CommitSlot now (extractKind (tp_Args (cn_tmpl c))) (cn_resourceName c)) s', False)
                  else (s', cn_slotReserved c)
             else
               let s' = s1\<lparr>gs_totalFailures := gs_totalFailures s1 + 1\<rparr>
               in (if cr_FailureClass result = FailDaemonError then count_daemon_error s' else s'\<lparr>gs_consecutiveDaemonErrors := 0\<rparr>, cn_slotReserved c));
          s3 = (if held then on_tracker ReleaseSlot s2 else s2)
      in s3\<lparr>gs_results := gs_results s3 @ [result]\<rparr>)"

text \<open>One command without interruption.\<close>

definition executeOneCommand ::
    "WorkloadConfig \<Rightarrow> string \<Rightarrow> gotime \<Rightarrow> (CmdTemplate \<Rightarrow> CommandCategory \<Rightarrow> string \<Rightarrow> CommandResult) \<Rightarrow> rng \<Rightarrow> gen_state \<Rightarrow> (gen_state \<times> rng) option" where
  "executeOneCommand cfg managedBy now run g s =
     (case choose_command cfg managedBy now (gs_tracker s) g of
        None \<Rightarrow> None
      | Some (cat, c, t, g') \<Rightarrow>
          Some (finish_command now c (run (cn_tmpl c) cat (cn_commandType c)) (s\<lparr>gs_tracker := t\<rparr>), g'))"

section \<open>Direct probes\<close>

definition findSubstring :: "string \<Rightarrow> string \<Rightarrow> bool" where
  "findSubstring s sub \<longleftrightarrow> list_ex (\<lambda>i. take (length sub) (drop i s) = sub) [0..<nat (int (length s) - int (length sub) + 1)]"

definition prober_contains :: "string \<Rightarrow> string \<Rightarrow> bool" where
  "prober_contains s sub \<longleftrightarrow> length s \<ge> length sub \<and> (s = sub \<or> length s > 0 \<and> findSubstring s sub)"

definition isConnectionError :: "string \<Rightarrow> bool" where
  "isConnectionError errText \<longleftrightarrow> list_ex (\<lambda>pat. length errText > 0 \<and> prober_contains errText pat) [''connection refused'', ''no such file'', ''read nonce'']"

text \<open>The row a probe records, from the time it took and its error.\<close>

definition probe_result :: "duration \<Rightarrow> gotime \<Rightarrow> duration \<Rightarrow> string option \<Rightarrow> CommandResult" where
  "probe_result slaThresh ts dur err =
     \<lparr>cr_Timestamp = ts, cr_Category = CatDirectIPC, cr_CommandType = ''health_probe'', cr_Args = [], cr_ExitCode = 0, cr_Duration = dur,
      cr_FailureClass = (case err of None \<Rightarrow> FailNone | Some e \<Rightarrow> if e \<noteq> [] \<and> \<not> isConnectionError e then FailDaemonError else FailDaemonDown),
      cr_Error = (case err of None \<Rightarrow> [] | Some e \<Rightarrow> e), cr_ResourceName = [], cr_SLAViolation = (dur > slaThresh), cr_ExpectClientError = False\<rparr>"

lemma contains_take: "contains s sub \<longleftrightarrow> (\<exists>i. i + length sub \<le> length s \<and> take (length sub) (drop i s) = sub)"
proof
  assume "contains s sub"
  then obtain a b where "s = a @ sub @ b" by (auto simp: contains_iff)
  then show "\<exists>i. i + length sub \<le> length s \<and> take (length sub) (drop i s) = sub" by (intro exI [of _ "length a"]) simp
next
  assume "\<exists>i. i + length sub \<le> length s \<and> take (length sub) (drop i s) = sub"
  then obtain i where "take (length sub) (drop i s) = sub" by blast
  then have "s = take i s @ sub @ drop (length sub) (drop i s)" by (metis append_take_drop_id)
  then show "contains s sub" by (auto simp: contains_iff)
qed

text \<open>The prober's own search is \<open>strings.Contains\<close>.\<close>

theorem prober_contains_eq: "prober_contains s sub \<longleftrightarrow> contains s sub"
proof -
  have "i < nat (int (length s) - int (length sub) + 1) \<longleftrightarrow> i + length sub \<le> length s" for i by arith
  then have f: "findSubstring s sub \<longleftrightarrow> contains s sub"
    unfolding contains_take findSubstring_def by (simp add: list_ex_iff Bex_def)
  have "contains s sub \<Longrightarrow> length sub \<le> length s" by (auto simp: contains_iff)
  moreover have "contains s s" by (metis append_Nil append_Nil2 contains_iff)
  moreover have "s = [] \<Longrightarrow> contains s sub \<Longrightarrow> s = sub" by simp
  ultimately show ?thesis unfolding prober_contains_def f by (metis length_greater_0_conv)
qed

section \<open>The reaper\<close>

record reaper_row =
  rr_type :: string
  rr_name :: string
  rr_success :: bool

definition delete_args :: "string \<Rightarrow> TrackedResource \<Rightarrow> string list" where
  "delete_args namespace res = [''delete'', tr_Kind res, tr_Name res, ''--namespace'', namespace, ''--wait=false'', ''--ignore-not-found'']"

definition sweep_one :: "(string list \<Rightarrow> cmd_outcome) \<Rightarrow> string \<Rightarrow> TrackedResource \<Rightarrow> ResourceTracker \<times> reaper_row list \<Rightarrow> ResourceTracker \<times> reaper_row list" where
  "sweep_one kubectl namespace res st =
     (let success = (fst (RunRaw_result (kubectl (delete_args namespace res))) = 0)
      in (if success then tracker_Remove (tr_Kind res) (tr_Name res) (fst st) else fst st,
          snd st @ [\<lparr>rr_type = tr_Kind res, rr_name = tr_Name res, rr_success = success\<rparr>]))"

definition reaper_sweep :: "(string list \<Rightarrow> cmd_outcome) \<Rightarrow> string \<Rightarrow> duration \<Rightarrow> gotime \<Rightarrow> ResourceTracker \<Rightarrow> ResourceTracker \<times> reaper_row list" where
  "reaper_sweep kubectl namespace maxAge now t = fold (sweep_one kubectl namespace) (ListOlderThan now maxAge t) (t, [])"

definition resourceTypes :: "string list" where
  "resourceTypes = [''jobs'', ''deployments'', ''services'', ''secrets'', ''configmaps'']"

text \<open>The attempts for one type: how often \<open>kubectl\<close> was called and whether it succeeded.  \<open>kubectl\<close> gets the number of the attempt.\<close>

fun cleanup_attempts :: "(nat \<Rightarrow> string list \<Rightarrow> cmd_outcome) \<Rightarrow> string list \<Rightarrow> nat \<Rightarrow> nat \<Rightarrow> nat \<times> bool" where
  "cleanup_attempts kubectl args attempt 0 = (attempt, False)"
| "cleanup_attempts kubectl args attempt (Suc left) =
     (if fst (RunRaw_result (kubectl attempt args)) = 0 then (Suc attempt, True) else cleanup_attempts kubectl args (Suc attempt) left)"

text \<open>The outcome per type, the tracker, and the note in the timeline when resources remain.\<close>

definition FinalCleanup :: "(nat \<Rightarrow> string list \<Rightarrow> cmd_outcome) \<Rightarrow> string \<Rightarrow> string \<Rightarrow> ResourceTracker \<Rightarrow> (string \<times> nat \<times> bool) list \<times> ResourceTracker \<times> (string \<times> string) list" where
  "FinalCleanup kubectl namespace selector t =
     (let done = map (\<lambda>rt. (rt, cleanup_attempts kubectl [''delete'', rt, ''-l'', selector, ''--namespace'', namespace, ''--wait=false'', ''--ignore-not-found''] 0 3))
                   resourceTypes;
          remaining = OrphansAtEnd t
      in (done, t, if remaining > 0 then [(''reaper'', ''final cleanup: '' @ show_int remaining @ '' orphans remaining'')] else []))"

section \<open>Interleavings\<close>

text \<open>
  The state of a run: the shared state and the commands that were chosen and are not finished.  The reaper runs
  beside them.
\<close>

inductive work_step :: "WorkloadConfig \<Rightarrow> string \<Rightarrow> gen_state \<times> chosen list \<Rightarrow> gen_state \<times> chosen list \<Rightarrow> bool" for cfg managedBy where
  begin_command: "choose_command cfg managedBy now (gs_tracker s) g = Some (cat, c, t, g') \<Longrightarrow>
    work_step cfg managedBy (s, cs) (s\<lparr>gs_tracker := t\<rparr>, c # cs)"
| end_command: "work_step cfg managedBy (s, as @ c # bs) (finish_command now c result s, as @ bs)"
| sweep: "reaper_sweep kubectl ns maxAge now (gs_tracker s) = (t, rows) \<Longrightarrow>
    work_step cfg managedBy (s, cs) (s\<lparr>gs_tracker := t\<rparr>, cs)"

inductive work_reach :: "WorkloadConfig \<Rightarrow> string \<Rightarrow> gen_state \<times> chosen list \<Rightarrow> bool" for cfg managedBy where
  start: "work_reach cfg managedBy (NewGenerator (NewResourceTracker (wl_MaxResources cfg)), [])"
| step: "work_reach cfg managedBy st \<Longrightarrow> work_step cfg managedBy st st' \<Longrightarrow> work_reach cfg managedBy st'"

definition slots_held :: "chosen list \<Rightarrow> int" where
  "slots_held cs = int (length (filter cn_slotReserved cs))"

definition tracker_ok :: "int \<Rightarrow> int \<Rightarrow> ResourceTracker \<Rightarrow> bool" where
  "tracker_ok maxCount held t \<longleftrightarrow> rt_maxCount t = maxCount \<and> rt_reserved t = held \<and> gm_wf (rt_resources t) \<and>
     int (length (rt_resources t)) + held \<le> max 0 maxCount \<and> 0 \<le> held"

definition work_inv :: "WorkloadConfig \<Rightarrow> gen_state \<times> chosen list \<Rightarrow> bool" where
  "work_inv cfg st \<longleftrightarrow> (case st of (s, cs) \<Rightarrow>
     tracker_ok (wl_MaxResources cfg) (slots_held cs) (gs_tracker s) \<and> (\<forall>c \<in> set cs. cn_slotReserved c \<longrightarrow> cn_resourceName c \<noteq> []) \<and>
     gs_totalInvocations s = gs_totalSuccesses s + gs_totalFailures s \<and> gs_totalInvocations s = int (length (gs_results s)) \<and>
     gs_slaViolations s = 0)"

lemma length_put_le: "gm_wf m \<Longrightarrow> length (gm_put k v m) \<le> Suc (length m)"
  using gm.length_put_new [of m k v] gm.length_put_old [of m k v] by (cases "gm_get m k") auto

lemma tracker_Commit: "tracker_ok m h t \<Longrightarrow> 0 < h \<Longrightarrow> tracker_ok m (h - 1) (CommitSlot now kind name t)"
  using length_put_le [of "rt_resources t" "kind @ ''/'' @ name" "\<lparr>tr_Kind = kind, tr_Name = name, tr_CreatedAt = now\<rparr>"]
  by (auto simp: tracker_ok_def CommitSlot_def gm.invar_put)

lemma tracker_Release: "tracker_ok m h t \<Longrightarrow> 0 < h \<Longrightarrow> tracker_ok m (h - 1) (ReleaseSlot t)"
  by (auto simp: tracker_ok_def ReleaseSlot_def)

lemma tracker_Remove_ok: "tracker_ok m h t \<Longrightarrow> tracker_ok m h (tracker_Remove kind name t)"
  using gm.length_del_le [of "rt_resources t" "kind @ ''/'' @ name"]
  by (auto simp: tracker_ok_def tracker_Remove_def gm.invar_del)

lemma tracker_sweep: "tracker_ok m h t \<Longrightarrow> tracker_ok m h (fst (fold (sweep_one kubectl ns) rs (t, rows)))"
  by (induction rs arbitrary: t rows) (auto simp: sweep_one_def Let_def tracker_Remove_ok)

lemma tracker_Reserve:
  assumes "tracker_ok m h t" "ReserveSlot t = (b, t')"
  shows "tracker_ok m (if b then h + 1 else h) t'"
  using assms by (auto simp: tracker_ok_def ReserveSlot_def split: if_splits)

lemma read_command_slot: "read_command ts t g = Some (c, g') \<Longrightarrow> cn_slotReserved c = False"
  by (auto simp: read_command_def Let_def split: option.splits prod.splits)

lemma choose_slots:
  assumes "choose_command cfg managedBy now t g = Some (cat, c, t', g')" "tracker_ok m h t"
  shows "tracker_ok m (if cn_slotReserved c then h + 1 else h) t' \<and> (cn_slotReserved c \<longrightarrow> cn_resourceName c \<noteq> [])"
proof -
  obtain b t1 where r: "ReserveSlot t = (b, t1)" by fastforce
  have mutate: "tracker_ok m (if cn_slotReserved c' then h + 1 else h) t0 \<and> (cn_slotReserved c' \<longrightarrow> cn_resourceName c' \<noteq> [])"
    if "generateMutateCommand managedBy now t g0 = Some (c', t0, g1)" for g0 c' t0 g1
    using that tracker_Reserve [OF assms(2) r]
    by (cases b) (auto simp: generateMutateCommand_def r Let_def dest: read_command_slot split: option.splits prod.splits)
  show ?thesis using assms
    by (auto simp: choose_command_def Let_def dest: read_command_slot dest!: mutate split: prod.splits CommandCategory.splits)
qed

lemma finish_slots:
  assumes "tracker_ok m h (gs_tracker s)" "cn_slotReserved c \<longrightarrow> 0 < h \<and> cn_resourceName c \<noteq> []"
  shows "tracker_ok m (if cn_slotReserved c then h - 1 else h) (gs_tracker (finish_command now c result s))"
  using assms tracker_Commit tracker_Release
  by (auto simp: finish_command_def Let_def on_tracker_def count_daemon_error_def)

lemma finish_counts:
  "gs_totalInvocations (finish_command now c result s) = gs_totalInvocations s + 1"
  "gs_totalSuccesses (finish_command now c result s) + gs_totalFailures (finish_command now c result s) = gs_totalSuccesses s + gs_totalFailures s + 1"
  "length (gs_results (finish_command now c result s)) = Suc (length (gs_results s))"
  "gs_slaViolations (finish_command now c result s) = gs_slaViolations s"
  by (auto simp: finish_command_def Let_def on_tracker_def count_daemon_error_def)

lemma work_step_inv:
  assumes "work_step cfg managedBy st st'" "work_inv cfg st"
  shows "work_inv cfg st'"
  using assms
proof (induction rule: work_step.induct)
  case (begin_command now s g cat c t g' cs)
  then have "tracker_ok (wl_MaxResources cfg) (slots_held cs) (gs_tracker s)" by (simp add: work_inv_def)
  with begin_command show ?case using choose_slots [OF begin_command(1), of "wl_MaxResources cfg" "slots_held cs"]
    by (auto simp: work_inv_def slots_held_def add.commute)
next
  case (end_command s as c bs now result)
  let ?h = "slots_held (as @ c # bs)"
  have "tracker_ok (wl_MaxResources cfg) (if cn_slotReserved c then ?h - 1 else ?h) (gs_tracker (finish_command now c result s))"
    using end_command by (intro finish_slots) (auto simp: work_inv_def slots_held_def)
  moreover have "(if cn_slotReserved c then ?h - 1 else ?h) = slots_held (as @ bs)" by (simp add: slots_held_def)
  ultimately show ?case using end_command finish_counts [of now c result s] by (auto simp: work_inv_def)
next
  case (sweep kubectl ns maxAge now s t rows cs)
  then have "tracker_ok (wl_MaxResources cfg) (slots_held cs) t"
    using tracker_sweep [of "wl_MaxResources cfg" "slots_held cs" "gs_tracker s" kubectl ns "ListOlderThan now maxAge (gs_tracker s)" "[]"]
    by (simp add: work_inv_def reaper_sweep_def)
  with sweep show ?case by (simp add: work_inv_def)
qed

lemma work_reach_inv: "work_reach cfg managedBy st \<Longrightarrow> work_inv cfg st"
proof (induction rule: work_reach.induct)
  case start
  show ?case by (simp add: work_inv_def NewGenerator_def NewResourceTracker_def tracker_ok_def slots_held_def)
qed (rule work_step_inv)

text \<open>
  C28: the stress test never holds more resources than configured and leaks no slot.  However commands and the reaper interleave,
  the reserved slots are exactly those of commands under way, tracked resources and reserved slots together stay within the
  maximum, and when no command is under way no slot is reserved; every finished command is counted once, as a success or as
  a failure, and recorded once.
\<close>

theorem tracker_capacity:
  assumes "work_reach cfg managedBy (s, cs)" and "0 \<le> wl_MaxResources cfg"
  shows "tracker_Count (gs_tracker s) + rt_reserved (gs_tracker s) \<le> wl_MaxResources cfg \<and>
    rt_reserved (gs_tracker s) = slots_held cs \<and> (cs = [] \<longrightarrow> rt_reserved (gs_tracker s) = 0) \<and>
    (case Stats s of (n, ok, failed, sla) \<Rightarrow> n = ok + failed \<and> n = int (length (gs_results s)))"
  using work_reach_inv [OF assms(1)] assms(2) by (auto simp: work_inv_def tracker_ok_def tracker_Count_def slots_held_def Stats_def)

text \<open>A run of the defaults in which a config map is created.\<close>

definition demo_name :: string where
  "demo_name = ''kldst-c-'' @ hex_digits (nat (to_Unix 0)) @ ''-'' @ pad8 (hex_digits 75)"

definition demo_chosen :: chosen where
  "demo_chosen = \<lparr>cn_tmpl = create_template ''demo'' ''configmap'' demo_name, cn_commandType = ''create_configmap'',
     cn_slotReserved = True, cn_resourceName = demo_name\<rparr>"

lemma demo_choose:
  "choose_command default_workload ''demo'' 0 (NewResourceTracker 200) ((\<lambda>_. 75), 0) =
     Some (CatMutating, demo_chosen, (NewResourceTracker 200)\<lparr>rt_reserved := 1\<rparr>, ((\<lambda>_. 75), 3))"
  by (simp add: choose_command_def selectCategory_def draw_def Let_def default_workload_def wrap64_def generateMutateCommand_def
      ReserveSlot_def NewResourceTracker_def randomHex8_def Intn_def mutateTypes_def demo_chosen_def demo_name_def)

lemma demo_work:
  "work_reach default_workload ''demo''
     (finish_command 0 demo_chosen (executor_Run (\<lambda>_. []) \<lparr>ke_namespace = [], ke_context = [], ke_timeout = 0\<rparr> CmdOk 0 0 (cn_tmpl demo_chosen) CatMutating [])
       ((NewGenerator (NewResourceTracker 200))\<lparr>gs_tracker := (NewResourceTracker 200)\<lparr>rt_reserved := 1\<rparr>\<rparr>), [])"
proof -
  have m: "wl_MaxResources default_workload = 200" by (simp add: default_workload_def)
  have "work_step default_workload ''demo'' (NewGenerator (NewResourceTracker 200), [])
     ((NewGenerator (NewResourceTracker 200))\<lparr>gs_tracker := (NewResourceTracker 200)\<lparr>rt_reserved := 1\<rparr>\<rparr>, [demo_chosen])"
    using demo_choose by (intro work_step.begin_command) (simp add: NewGenerator_def)
  with work_reach.start [of default_workload "''demo''"]
  have "work_reach default_workload ''demo'' ((NewGenerator (NewResourceTracker 200))\<lparr>gs_tracker := (NewResourceTracker 200)\<lparr>rt_reserved := 1\<rparr>\<rparr>, [demo_chosen])"
    unfolding m by (rule work_reach.step)
  then show ?thesis by (rule work_reach.step) (use work_step.end_command [where as = "[]" and bs = "[]"] in simp)
qed

theorem tracker_capacity_witness:
  "\<exists>s. work_reach default_workload ''demo'' (s, []) \<and> tracker_Count (gs_tracker s) = 1 \<and> rt_reserved (gs_tracker s) = 0 \<and>
     fst (Stats s) = 1"
proof -
  let ?s = "finish_command 0 demo_chosen (executor_Run (\<lambda>_. []) \<lparr>ke_namespace = [], ke_context = [], ke_timeout = 0\<rparr> CmdOk 0 0 (cn_tmpl demo_chosen) CatMutating [])
       ((NewGenerator (NewResourceTracker 200))\<lparr>gs_tracker := (NewResourceTracker 200)\<lparr>rt_reserved := 1\<rparr>\<rparr>)"
  have "rt_reserved (gs_tracker ?s) = 0"
    using tracker_capacity [OF demo_work] by (simp add: default_workload_def)
  moreover have "tracker_Count (gs_tracker ?s) = 1 \<and> fst (Stats ?s) = 1"
    by (simp add: finish_command_def executor_Run_def Let_def demo_chosen_def demo_name_def CommitSlot_def on_tracker_def tracker_Count_def Stats_def
        NewGenerator_def NewResourceTracker_def)
  ultimately show ?thesis using demo_work by blast
qed

end
