(* ===== verification/StressChaos.thy ===== *)
theory StressChaos
  imports StressWorkload Persist JsonPrint
begin

text \<open>
  The fault injection of the stress test (\<open>stresstest/internal/chaos\<close>): the five actions, and the engine that runs one loop per enabled
  action under a mutex with a global cooldown and an exclusion window.  The loops are labelled steps on a shared state; the
  operating system's answers and the random draws are parameters.
\<close>

section \<open>Actions\<close>

record ChaosEvent =
  ev_Timestamp :: gotime
  ev_Type :: string
  ev_Description :: string
  ev_DurationHeld :: duration
  ev_RecoveryTime :: duration

definition chaos_event :: "gotime \<Rightarrow> string \<Rightarrow> ChaosEvent" where
  "chaos_event ts ty = \<lparr>ev_Timestamp = ts, ev_Type = ty, ev_Description = [], ev_DurationHeld = 0, ev_RecoveryTime = 0\<rparr>"

definition describe :: "string \<Rightarrow> ChaosEvent \<Rightarrow> ChaosEvent" where
  "describe d ev = ev\<lparr>ev_Description := ev_Description ev @ d\<rparr>"

text \<open>
  What an action leads to: its event, its error, whether it marked the kill as intentional (the mark is cleared five seconds after
  the action returns), and the processes it killed.
\<close>

record chaos_out =
  co_event :: ChaosEvent
  co_err :: "go_error option"
  co_marked :: bool
  co_killed :: "int list"

definition plain_out :: "ChaosEvent \<Rightarrow> chaos_out" where
  "plain_out ev = \<lparr>co_event = ev, co_err = None, co_marked = False, co_killed = []\<rparr>"

datatype poll = PollCancelled | PollDialled bool

fun recovery_polls :: "(nat \<Rightarrow> poll) \<Rightarrow> nat \<Rightarrow> nat \<Rightarrow> bool option" where
  "recovery_polls poll i 0 = Some False"
| "recovery_polls poll i (Suc n) =
     (case poll i of
        PollCancelled \<Rightarrow> None
      | PollDialled ok \<Rightarrow> if ok then Some True else recovery_polls poll (Suc i) n)"

text \<open>\<open>took\<close> is the time the polls took; \<open>dur_text\<close> prints a duration.\<close>

definition measureRecovery :: "(duration \<Rightarrow> string) \<Rightarrow> (nat \<Rightarrow> poll) \<Rightarrow> duration \<Rightarrow> ChaosEvent \<Rightarrow> ChaosEvent" where
  "measureRecovery dur_text poll took ev =
     (case recovery_polls poll 0 60 of
        None \<Rightarrow> ev
      | Some recovered \<Rightarrow>
          describe (if recovered then '', recovered in '' @ dur_text took else '', recovery timeout (30s)'') (ev\<lparr>ev_RecoveryTime := took\<rparr>))"

definition killDaemon ::
    "(duration \<Rightarrow> string) \<Rightarrow> gotime \<Rightarrow> int \<Rightarrow> go_error option \<Rightarrow> go_error option \<Rightarrow> (nat \<Rightarrow> poll) \<Rightarrow> duration \<Rightarrow> chaos_out" where
  "killDaemon dur_text now pid find_err signal_err poll took =
     (let ev = chaos_event now ''kill_daemon'' in
      if pid \<le> 0 then plain_out (describe ''kill_daemon: no known daemon PID, skipping'' ev)
      else
        (case find_err of
           Some e \<Rightarrow>
             \<lparr>co_event = describe (''kill_daemon: FindProcess('' @ show_int pid @ '') failed: '' @ Error e) ev, co_err = Some e,
              co_marked = True, co_killed = []\<rparr>
         | None \<Rightarrow>
             (case signal_err of
                Some e \<Rightarrow>
                  \<lparr>co_event = describe (''kill_daemon: SIGKILL PID '' @ show_int pid @ '' failed: '' @ Error e) ev, co_err = None,
                   co_marked = True, co_killed = []\<rparr>
              | None \<Rightarrow>
                  \<lparr>co_event = measureRecovery dur_text poll took (describe (''kill_daemon: sent SIGKILL to PID '' @ show_int pid) ev),
                   co_err = None, co_marked = True, co_killed = [pid]\<rparr>)))"

text \<open>\<open>cmdline\<close> is what \<open>/proc\<close> says of a process, if it can be read.\<close>

definition processIsKubeloginDaemon :: "(int \<Rightarrow> string option) \<Rightarrow> int \<Rightarrow> bool" where
  "processIsKubeloginDaemon cmdline pid =
     (case cmdline pid of None \<Rightarrow> False | Some data \<Rightarrow> contains data ''kubelogin-daemon'')"

definition deleteSocketUnix ::
    "(duration \<Rightarrow> string) \<Rightarrow> gotime \<Rightarrow> int \<Rightarrow> os_error option \<Rightarrow> go_error option \<Rightarrow> (int \<Rightarrow> string option) \<Rightarrow> (nat \<Rightarrow> poll) \<Rightarrow> duration \<Rightarrow> chaos_out" where
  "deleteSocketUnix dur_text now oldPID remove_err find_err cmdline poll took =
     (let ev = chaos_event now ''delete_socket'' in
      case remove_err of
        Some e \<Rightarrow>
          if e = ENOENT then plain_out (describe ''delete_socket: socket already gone'' ev)
          else (plain_out (describe (''delete_socket: remove failed: '' @ Error (OsErr e)) ev))\<lparr>co_err := Some (OsErr e)\<rparr>
      | None \<Rightarrow>
          let ev1 = measureRecovery dur_text poll took (describe (''delete_socket: removed socket (old PID '' @ show_int oldPID @ '')'') ev)
          in if oldPID > 0 \<and> find_err = None \<and> processIsKubeloginDaemon cmdline oldPID
             then (plain_out (describe ('', killed orphaned PID '' @ show_int oldPID) ev1))\<lparr>co_killed := [oldPID]\<rparr>
             else plain_out ev1)"

definition deleteSocketWindows ::
    "(duration \<Rightarrow> string) \<Rightarrow> gotime \<Rightarrow> int \<Rightarrow> go_error option \<Rightarrow> go_error option \<Rightarrow> (nat \<Rightarrow> poll) \<Rightarrow> duration \<Rightarrow> chaos_out" where
  "deleteSocketWindows dur_text now oldPID find_err signal_err poll took =
     (let ev = chaos_event now ''delete_socket'' in
      if oldPID \<le> 0 then plain_out (describe ''delete_socket: no known daemon PID, skipping'' ev)
      else
        (case find_err of
           Some e \<Rightarrow>
             (plain_out (describe (''delete_socket: FindProcess('' @ show_int oldPID @ '') failed: '' @ Error e) ev))\<lparr>co_marked := True\<rparr>
         | None \<Rightarrow>
             (case signal_err of
                Some e \<Rightarrow>
                  (plain_out (describe (''delete_socket: kill PID '' @ show_int oldPID @ '' failed: '' @ Error e @ '' (may already be dead)'') ev))\<lparr>co_marked := True\<rparr>
              | None \<Rightarrow>
                  (plain_out (measureRecovery dur_text poll took
                     (describe (''delete_socket: killed daemon PID '' @ show_int oldPID @ '' (named pipe destroyed)'') ev)))
                  \<lparr>co_marked := True, co_killed := [oldPID]\<rparr>)))"

text \<open>\<open>dial i\<close> is the answer to the \<open>i\<close>-th dial: \<open>None\<close> when the context is done, else whether it succeeded.\<close>

fun open_connections :: "(nat \<Rightarrow> bool option) \<Rightarrow> nat \<Rightarrow> nat \<Rightarrow> int \<times> int" where
  "open_connections dial i 0 = (0, 0)"
| "open_connections dial i (Suc n) =
     (case dial i of
        None \<Rightarrow> (0, 0)
      | Some ok \<Rightarrow> let (c, r) = open_connections dial (Suc i) n in if ok then (c + 1, r) else (c, r + 1))"

definition fillConnections ::
    "(duration \<Rightarrow> string) \<Rightarrow> ChaosTypeConfig \<Rightarrow> gotime \<Rightarrow> (nat \<Rightarrow> bool option) \<Rightarrow> (nat \<Rightarrow> bool) \<Rightarrow> duration \<Rightarrow> chaos_out" where
  "fillConnections dur_text cfg now dial redial took =
     (let (connected, rejected) = open_connections dial 0 (nat (ct_TargetCount cfg));
          ev = (describe (''fill_connections: opened '' @ show_int connected @ '', rejected '' @ show_int rejected @ '' (target '' @
                  show_int (ct_TargetCount cfg) @ '')'') (chaos_event now ''fill_connections''))
               \<lparr>ev_DurationHeld := ct_HoldDuration cfg, ev_RecoveryTime := took\<rparr>
      in if list_ex redial [0..<10]
         then plain_out (describe ('', recovered in '' @ dur_text took) ev)
         else (plain_out (describe '', recovery timeout (5s)'' ev))
                \<lparr>co_err := Some (Err ''fill_connections: daemon did not recover after 5s'')\<rparr>)"

definition chunkSize :: nat where "chunkSize = 1048576"

definition chunk :: string where "chunk = replicate chunkSize (CHR 0xAA)"

definition fill_path :: "string \<Rightarrow> nat \<Rightarrow> path" where
  "fill_path dir i = Path dir (''kldst-fill-'' @ show_int (int i))"

text \<open>
  The loop that fills the disk: bytes, files, whether writing failed, and the file system.  \<open>os i\<close> tells whether the context is done
  before file \<open>i\<close>, and the answers for that file.
\<close>

function fill_loop :: "(nat \<Rightarrow> bool \<times> faults) \<Rightarrow> string \<Rightarrow> int \<Rightarrow> int \<Rightarrow> path list \<Rightarrow> vfs \<Rightarrow> int \<times> path list \<times> bool \<times> vfs" where
  "fill_loop os dir maxBytes filled files w =
     (if filled < maxBytes then
        let (cancelled, io) = os (length files); p = fill_path dir (length files) in
        if cancelled then (filled, files, False, w)
        else
          (case os_Create io perm644 p w of
             Inl e \<Rightarrow> (filled, files, True, w)
           | Inr w1 \<Rightarrow>
               (case f_Write io p chunk w1 of
                  (Some e, w2) \<Rightarrow> (filled + int (length (take (f_written io) chunk)), files @ [p], True, w2)
                | (None, w2) \<Rightarrow> fill_loop os dir maxBytes (filled + int chunkSize) (files @ [p]) w2))
      else (filled, files, False, w))"
  by pat_completeness auto
termination
  by (relation "measure (\<lambda>(os, dir, maxBytes, filled, files, w). nat (maxBytes - filled))") (auto simp: chunkSize_def)

declare fill_loop.simps [simp del]

text \<open>\<open>rm_fails\<close> tells which files cannot be removed.\<close>

definition fillDisk :: "(nat \<Rightarrow> bool \<times> faults) \<Rightarrow> (path \<Rightarrow> bool) \<Rightarrow> ChaosTypeConfig \<Rightarrow> gotime \<Rightarrow> string \<Rightarrow> vfs \<Rightarrow> chaos_out \<times> vfs" where
  "fillDisk os rm_fails cfg now dir w =
     (case fill_loop os dir (ct_MaxFillBytes cfg) 0 [] w of
        (filled, files, enospc, w1) \<Rightarrow>
          let d = (if enospc
                   then ''fill_disk: ENOSPC after '' @ show_int filled @ '' bytes ('' @ show_int (int (length files)) @ '' files)''
                   else ''fill_disk: wrote '' @ show_int filled @ '' bytes ('' @ show_int (int (length files)) @ '' files, cap reached without ENOSPC)'');
              ev = (describe d (chaos_event now ''fill_disk''))\<lparr>ev_DurationHeld := ct_HoldDuration cfg\<rparr>;
              errors = length (filter rm_fails files)
          in (plain_out (if errors > 0 then describe ('', cleanup errors: '' @ show_int (int errors)) ev else ev),
              fold os_Remove (filter (\<lambda>p. \<not> rm_fails p) files) w1))"

text \<open>The contents a strategy writes; strategy 0 writes 128 random bytes.\<close>

definition corrupt_data :: "string \<Rightarrow> int \<Rightarrow> string \<times> string" where
  "corrupt_data garbage strategy =
     (if strategy = 0 then (''random_bytes'', garbage)
      else if strategy = 1 then (''truncate_zero'', [])
      else if strategy = 2 then
        (''wrong_format_version'', CHR ''{'' # CHR 0x22 # ''format_version'' @ CHR 0x22 # '':9999,'' @ CHR 0x22 # ''key'' @ CHR 0x22 # CHR '':'' # CHR 0x22 # ''test'' @ CHR 0x22 # ''}'')
      else (''partial_json'', CHR ''{'' # CHR 0x22 # ''format_version'' @ CHR 0x22 # '':1,'' @ CHR 0x22 # ''id_token'' @ CHR 0x22 # CHR '':'' # CHR 0x22 # ''eyJ''))"

text \<open>The files \<open>*.json\<close> of the runtime directory are picked from in the order of the directory.\<close>

definition token_files :: "string \<Rightarrow> vfs \<Rightarrow> path list" where
  "token_files dir w = map (\<lambda>(name, n). Path dir name) (filter (\<lambda>(name, n). suffix ''.json'' name) (dir_entries dir w))"

definition corruptTokenFiles :: "faults \<Rightarrow> string \<Rightarrow> gotime \<Rightarrow> string \<Rightarrow> rng \<Rightarrow> vfs \<Rightarrow> chaos_out \<times> vfs" where
  "corruptTokenFiles io garbage now dir g w =
     (let ev = chaos_event now ''corrupt_token_files''; files = token_files dir w in
      case Intn (int (length files)) g of
        None \<Rightarrow> (plain_out (describe ''corrupt_token_files: no token files found'' ev), w)
      | Some (i, g1) \<Rightarrow>
          let target = files ! nat i; (x, g2) = draw g1; (name, data) = corrupt_data garbage (int x mod 4) in
          (case os_WriteFile io target data perm600 w of
             (Some e, w') \<Rightarrow>
               ((plain_out (describe (''corrupt_token_files: strategy '' @ name @ '' failed on '' @ p_name target @ '': '' @ Error (OsErr e)) ev))
                  \<lparr>co_err := Some (OsErr e)\<rparr>, w')
           | (None, w') \<Rightarrow> (plain_out (describe (''corrupt_token_files: applied '' @ name @ '' to '' @ p_name target) ev), w')))"

section \<open>What the actions leave behind\<close>

lemma file_at_fold_Remove: "file_at (fold os_Remove ps w) p = (if p \<in> set ps then None else file_at w p)"
  by (induction ps arbitrary: w) auto

lemma fill_loop_frame:
  assumes "fill_loop os dir maxBytes filled files w = (n, files', e, w')"
    and "files = map (fill_path dir) [0..<k]" and "filled = int k * int chunkSize"
  shows "\<exists>m. files' = map (fill_path dir) [0..<m] \<and> k \<le> m \<and> (m = k \<or> int (m - 1) * int chunkSize < maxBytes) \<and>
    (\<forall>p. p \<notin> set files' \<longrightarrow> file_at w' p = file_at w p)"
  using assms
proof (induction os dir maxBytes filled files w arbitrary: k rule: fill_loop.induct)
  case (1 os dir maxBytes filled files w)
  have len: "length files = k" using 1(3) by simp
  obtain cancelled io where os: "os k = (cancelled, io)" by fastforce
  let ?p = "fill_path dir k"
  have snoc: "files @ [?p] = map (fill_path dir) [0..<Suc k]" using 1(3) by simp
  show ?case
  proof (cases "filled < maxBytes \<and> \<not> cancelled \<and> (\<exists>w1. os_Create io perm644 ?p w = Inr w1)")
    case False
    then have "files' = files \<and> w' = w"
      using 1(2) by (auto simp: fill_loop.simps [of os dir maxBytes filled] len os Let_def split: sum.splits if_splits)
    then show ?thesis using 1(3) by blast
  next
    case True
    then obtain w1 where go: "filled < maxBytes" "\<not> cancelled" "os_Create io perm644 ?p w = Inr w1" by blast
    obtain r w2 where wr: "f_Write io ?p chunk w1 = (r, w2)" by fastforce
    have frame: "file_at w2 p = file_at w p" if "p \<noteq> ?p" for p
      using that file_at_Create_other [OF go(3)] file_at_Write_other [OF wr] by metis
    show ?thesis
    proof (cases r)
      case (Some err)
      then have "files' = files @ [?p] \<and> w' = w2"
        using 1(2) go wr by (auto simp: fill_loop.simps [of os dir maxBytes filled] len os Let_def)
      then show ?thesis using snoc frame go(1) 1(4) by (intro exI [of _ "Suc k"]) auto
    next
      case None
      then have step: "fill_loop os dir maxBytes (filled + int chunkSize) (files @ [?p]) w2 = (n, files', e, w')"
        using 1(2) go wr by (simp add: fill_loop.simps [of os dir maxBytes filled] len os Let_def)
      have "filled + int chunkSize = int (Suc k) * int chunkSize" using 1(4) by (simp add: algebra_simps)
      moreover note 1(1) [OF go(1) refl os [folded len, symmetric] refl go(2) go(3) [folded len] wr [folded len, unfolded None, symmetric] refl, unfolded len, OF step snoc]
      ultimately obtain m where m:
        "files' = map (fill_path dir) [0..<m]" "Suc k \<le> m" "m = Suc k \<or> int (m - 1) * int chunkSize < maxBytes"
        "\<forall>p. p \<notin> set files' \<longrightarrow> file_at w' p = file_at w2 p" by blast
      have "?p \<in> set files'" using m(1,2) by auto
      then have "\<forall>p. p \<notin> set files' \<longrightarrow> file_at w' p = file_at w p" using m(4) frame by metis
      then show ?thesis using m(1-3) go(1) 1(4) by (intro exI [of _ m]) auto
    qed
  qed
qed

lemma token_path_not_fill: "token_path dir k \<noteq> fill_path dir' i"
proof
  assume "token_path dir k = fill_path dir' i"
  then have "k @ ''.json'' = ''kldst-fill-'' @ show_int (int i)" by (simp add: token_path_def fill_path_def)
  then have "last (k @ ''.json'') = last (''kldst-fill-'' @ show_int (int i))" by (rule arg_cong)
  moreover have "list_all is_digit (show_nat i)" "show_nat i \<noteq> []" using show_nat_digits [of i] by auto
  moreover from this have "is_digit (last (show_nat i))" by (simp add: list_all_iff)
  ultimately have "is_digit (CHR ''n'')" by (simp add: show_int_def)
  then show False by (simp add: is_digit_def byte_of_def)
qed

text \<open>
  Filling the disk leaves nothing behind.  Whatever the disk answers, the files it wrote are \<open>kldst-fill-0\<close>, \<open>kldst-fill-1\<close>, and so
  on, at most one more than fit under the configured limit; when they can be removed, none of them is left, every other
  file is as before, and so is every token file of the daemon.
\<close>

theorem fillDisk_cleans_up:
  assumes "\<And>p. \<not> rm_fails p" and "fillDisk os rm_fails cfg now dir w = (out, w')"
  shows "(\<exists>m. (m = 0 \<or> int (m - 1) * int chunkSize < ct_MaxFillBytes cfg) \<and>
      (\<forall>p. file_at w' p = (if p \<in> fill_path dir ` {0..<m} then None else file_at w p))) \<and>
    (\<forall>k. file_at w' (token_path dir k) = file_at w (token_path dir k))"
proof -
  obtain n files e w1 where l: "fill_loop os dir (ct_MaxFillBytes cfg) 0 [] w = (n, files, e, w1)" by (metis prod_cases4)
  then obtain m where m: "files = map (fill_path dir) [0..<m]" "m = 0 \<or> int (m - 1) * int chunkSize < ct_MaxFillBytes cfg"
    "\<forall>p. p \<notin> set files \<longrightarrow> file_at w1 p = file_at w p"
    using fill_loop_frame [OF l, of 0] by auto
  have "w' = fold os_Remove files w1"
    using assms l by (simp add: fillDisk_def Let_def)
  then have w': "\<forall>p. file_at w' p = (if p \<in> fill_path dir ` {0..<m} then None else file_at w p)"
    using m(1,3) by (auto simp: file_at_fold_Remove)
  moreover have "token_path dir k \<notin> fill_path dir ` {0..<m}" for k using token_path_not_fill by blast
  ultimately show ?thesis using m(2) by auto
qed

theorem fillDisk_cleans_up_witness:
  "\<exists>out w'. fillDisk (\<lambda>i. (False, (no_faults [])\<lparr>f_write := Some EIO, f_written := 3\<rparr>)) (\<lambda>p. False) (ch_FillDisk default_chaos) 0 ''/d''
       (one_dir\<lparr>vf_files := [(token_path ''/d'' ''ab'', new_node (no_faults []) perm600 ''x'')]\<rparr>) = (out, w') \<and>
     file_at w' (token_path ''/d'' ''ab'') \<noteq> None \<and> file_at w' (fill_path ''/d'' 0) = None"
proof -
  let ?w = "one_dir\<lparr>vf_files := [(token_path ''/d'' ''ab'', new_node (no_faults []) perm600 ''x'')]\<rparr>"
  let ?os = "\<lambda>i :: nat. (False, (no_faults [])\<lparr>f_write := Some EIO, f_written := 3\<rparr>)"
  obtain out w' where f: "fillDisk ?os (\<lambda>p. False) (ch_FillDisk default_chaos) 0 ''/d'' ?w = (out, w')" by fastforce
  have "file_at w' (token_path ''/d'' ''ab'') = file_at ?w (token_path ''/d'' ''ab'')"
    using fillDisk_cleans_up [OF _ f] by simp
  moreover have "file_at w' (fill_path ''/d'' 0) = None"
    using fillDisk_cleans_up [OF _ f] token_path_not_fill [of "''/d''" "''ab''" "''/d''" 0] by (auto split: if_splits)
  ultimately show ?thesis using f by auto
qed

text \<open>A file whose contents the daemon does not take for a token.\<close>

definition no_token :: "string \<Rightarrow> bool" where
  "no_token b \<longleftrightarrow> (case unmarshal_token b of Inl e \<Rightarrow> True | Inr d \<Rightarrow> pt_FormatVersion d \<noteq> persistFormatVersion)"

lemma no_token_strategies:
  "no_token (snd (corrupt_data garbage 1))" "no_token (snd (corrupt_data garbage 2))" "no_token (snd (corrupt_data garbage 3))"
  by code_simp+

lemma no_token_corrupt: "no_token garbage \<Longrightarrow> no_token (snd (corrupt_data garbage (int x mod 4)))"
proof -
  assume g: "no_token garbage"
  have "int x mod 4 = 0 \<or> int x mod 4 = 1 \<or> int x mod 4 = 2 \<or> int x mod 4 = 3" by presburger
  then show ?thesis using g no_token_strategies [of garbage] by (elim disjE) (simp_all add: corrupt_data_def)
qed

lemma Load_no_token:
  assumes "file_at w (token_path dir k) = Some n" "no_token (n_data n)" "length (n_data n) \<le> maxPersistFileSize" "f_open io = None"
  shows "isl (fst (LoadPersistedToken io dir k w))"
  using assms by (auto simp: LoadPersistedToken_def read_fault_def openNoFollow_def no_token_def Let_def split: option.splits sum.splits os_error.splits)

lemma Load_cong:
  assumes "file_at w (token_path dir k) = file_at w' (token_path dir k)"
  shows "fst (LoadPersistedToken io dir k w) = fst (LoadPersistedToken io dir k w')"
  using assms by (auto simp: LoadPersistedToken_def read_fault_def openNoFollow_def Let_def split: option.splits sum.splits os_error.splits)

text \<open>
  C11: the daemon notices every corruption the stress test makes.  After \<open>corruptTokenFiles\<close>, whichever file and strategy was drawn, a
  token the daemon loads for any key is the token it would have loaded before; and the key whose file was hit loads as an
  error.  The random bytes of the first strategy are assumed not to be a token file by themselves.
\<close>

theorem corruption_detected:
  assumes "corruptTokenFiles io garbage now dir g w = (out, w')" and "f_write io = None" and "f_open io' = None"
    and "no_token garbage" and "length garbage = 128"
  shows "(\<forall>k t. fst (LoadPersistedToken io' dir k w') = Inr t \<longrightarrow> fst (LoadPersistedToken io' dir k w) = Inr t) \<and>
    (\<forall>k. file_at w' (token_path dir k) \<noteq> file_at w (token_path dir k) \<longrightarrow> isl (fst (LoadPersistedToken io' dir k w')))"
proof (cases "Intn (int (length (token_files dir w))) g")
  case None
  then have "w' = w" using assms(1) by (simp add: corruptTokenFiles_def Let_def)
  then show ?thesis by simp
next
  case (Some ig)
  then obtain i g1 where i: "Intn (int (length (token_files dir w))) g = Some (i, g1)" by (cases ig) auto
  obtain x g2 where x: "draw g1 = (x, g2)" by (cases "draw g1") auto
  let ?data = "snd (corrupt_data garbage (int x mod 4))"
  have "w' = snd (os_WriteFile io (token_files dir w ! nat i) ?data perm600 w)"
    using assms(1) i x by (auto simp: corruptTokenFiles_def Let_def split: prod.splits option.splits)
  then obtain e where wr: "os_WriteFile io (token_files dir w ! nat i) ?data perm600 w = (e, w')" by (metis prod.collapse)
  have data: "no_token ?data" using assms(4) by (rule no_token_corrupt)
  have len: "length ?data \<le> maxPersistFileSize" using assms(5) by (simp add: corrupt_data_def maxPersistFileSize_def)
  have bad: "isl (fst (LoadPersistedToken io' dir k w'))" if ne: "file_at w' (token_path dir k) \<noteq> file_at w (token_path dir k)" for k
  proof -
    from ne obtain n where "file_at w' (token_path dir k) = Some n" "n_data n = ?data"
      using os_WriteFile_effect [OF wr assms(2)] by metis
    then show ?thesis using Load_no_token [of w' dir k n io'] data len assms(3) by simp
  qed
  have "fst (LoadPersistedToken io' dir k w) = Inr t" if "fst (LoadPersistedToken io' dir k w') = Inr t" for k t
    using that bad [of k] Load_cong [of w' dir k w io'] by (cases "file_at w' (token_path dir k) = file_at w (token_path dir k)") auto
  then show ?thesis using bad by blast
qed

lemma demo_garbage: "no_token (replicate 128 (CHR ''x''))"
  by code_simp

theorem corruption_detected_witness:
  "let w = one_dir\<lparr>vf_files := [(token_path ''/d'' ''ab'', new_node (no_faults []) perm600 (marshal_token \<lparr>pt_FormatVersion = 1, pt_IDToken = ''i'', pt_RefreshToken = ''r''\<rparr>))]\<rparr>;
       w' = snd (corruptTokenFiles (no_faults []) (replicate 128 (CHR ''x'')) 0 ''/d'' ((\<lambda>_. 2), 0) w)
   in file_at w' (token_path ''/d'' ''ab'') \<noteq> file_at w (token_path ''/d'' ''ab'') \<and>
      isl (fst (LoadPersistedToken (no_faults []) ''/d'' ''ab'' w'))"
proof -
  let ?w = "one_dir\<lparr>vf_files := [(token_path ''/d'' ''ab'', new_node (no_faults []) perm600 (marshal_token \<lparr>pt_FormatVersion = 1, pt_IDToken = ''i'', pt_RefreshToken = ''r''\<rparr>))]\<rparr>"
  obtain out w' where c: "corruptTokenFiles (no_faults []) (replicate 128 (CHR ''x'')) 0 ''/d'' ((\<lambda>_. 2), 0) ?w = (out, w')" by fastforce
  have ne: "map_option n_data (file_at (snd (corruptTokenFiles (no_faults []) (replicate 128 (CHR ''x'')) 0 ''/d'' ((\<lambda>_. 2), 0) ?w)) (token_path ''/d'' ''ab'')) \<noteq>
    map_option n_data (file_at ?w (token_path ''/d'' ''ab''))"
    by code_simp
  then have "file_at w' (token_path ''/d'' ''ab'') \<noteq> file_at ?w (token_path ''/d'' ''ab'')" unfolding c by force
  then show ?thesis using corruption_detected [OF c _ _ demo_garbage, of "no_faults []"] c by (simp add: no_faults_def)
qed

section \<open>The engine\<close>

definition chaos_actions :: "ChaosConfig \<Rightarrow> (string \<times> ChaosTypeConfig) list" where
  "chaos_actions cfg = filter (\<lambda>(name, c). ct_Enabled c) (chaos_types cfg)"

text \<open>
  Where the loop of an action is: waiting for its timer, waiting for the end of the cooldown, holding the mutex before the time is
  noted, before the exclusion is checked, or while the action runs (since the given time), or ended.
\<close>

datatype loop_state = Timer gotime | Cooling gotime | Locked | Checking | Executing gotime | Stopped

record chaos_run =
  xr_name :: string
  xr_start :: gotime
  xr_finish :: gotime
  xr_event :: ChaosEvent

record engine =
  eg_now :: gotime
  eg_lastChaosTime :: gotime
  eg_lastCorruptTime :: gotime
  eg_lastKillTime :: gotime
  eg_holder :: "string option"
  eg_loops :: "(string, loop_state) gomap"
  eg_log :: "chaos_run list"

definition exclusionWindow :: duration where "exclusionWindow = 6 * minute"

definition isKillLike :: "string \<Rightarrow> bool" where
  "isKillLike name \<longleftrightarrow> name = ''kill_daemon'' \<or> name = ''delete_socket''"

definition excluded :: "string \<Rightarrow> engine \<Rightarrow> bool" where
  "excluded name s \<longleftrightarrow>
     isKillLike name \<and> \<not> IsZero (eg_lastCorruptTime s) \<and> time_Since (eg_now s) (eg_lastCorruptTime s) < exclusionWindow \<or>
     name = ''corrupt_token_files'' \<and> \<not> IsZero (eg_lastKillTime s) \<and> time_Since (eg_now s) (eg_lastKillTime s) < exclusionWindow"

definition set_loop :: "string \<Rightarrow> loop_state \<Rightarrow> engine \<Rightarrow> engine" where
  "set_loop name l s = s\<lparr>eg_loops := gm_put name l (eg_loops s)\<rparr>"

text \<open>The timer of the next round, with the interval drawn for it.\<close>

definition next_round :: "ChaosConfig \<Rightarrow> rng \<Rightarrow> string \<Rightarrow> engine \<Rightarrow> engine option" where
  "next_round cfg g name s =
     (case map_of (chaos_actions cfg) name of
        None \<Rightarrow> None
      | Some c \<Rightarrow>
          (case randomDuration (ct_IntervalMin c) (ct_IntervalMax c) g of
             None \<Rightarrow> None
           | Some (interval, g') \<Rightarrow> Some (set_loop name (Timer (eg_now s + interval)) s)))"

definition record_times :: "string \<Rightarrow> engine \<Rightarrow> engine" where
  "record_times name s =
     (if name = ''corrupt_token_files'' then s\<lparr>eg_lastCorruptTime := eg_now s\<rparr>
      else if isKillLike name then s\<lparr>eg_lastKillTime := eg_now s\<rparr> else s)"

datatype label = Pass gotime | Acquire string | Reacquire string | Mark string | Check string rng | Finish string ChaosEvent rng | Cancel string

text \<open>One step of the loops; \<open>None\<close> when it cannot be taken.\<close>

fun chaos_do :: "ChaosConfig \<Rightarrow> label \<Rightarrow> engine \<Rightarrow> engine option" where
  "chaos_do cfg (Pass t) s = (if eg_now s \<le> t then Some (s\<lparr>eg_now := t\<rparr>) else None)"
| "chaos_do cfg (Acquire a) s =
     (case gm_get (eg_loops s) a of
        Some (Timer due) \<Rightarrow>
          if due \<le> eg_now s \<and> eg_holder s = None then
            let elapsed = time_Since (eg_now s) (eg_lastChaosTime s)
            in if elapsed < ch_GlobalCooldown cfg
               then Some (set_loop a (Cooling (eg_now s + (ch_GlobalCooldown cfg - elapsed))) s)
               else Some (set_loop a Locked (s\<lparr>eg_holder := Some a\<rparr>))
          else None
      | _ \<Rightarrow> None)"
| "chaos_do cfg (Reacquire a) s =
     (case gm_get (eg_loops s) a of
        Some (Cooling due) \<Rightarrow> if due \<le> eg_now s \<and> eg_holder s = None then Some (set_loop a Locked (s\<lparr>eg_holder := Some a\<rparr>)) else None
      | _ \<Rightarrow> None)"
| "chaos_do cfg (Mark a) s =
     (if gm_get (eg_loops s) a = Some Locked then Some (set_loop a Checking (s\<lparr>eg_lastChaosTime := eg_now s\<rparr>)) else None)"
| "chaos_do cfg (Check a g) s =
     (if gm_get (eg_loops s) a = Some Checking then
        if excluded a s then next_round cfg g a (s\<lparr>eg_holder := None\<rparr>) else Some (set_loop a (Executing (eg_now s)) s)
      else None)"
| "chaos_do cfg (Finish a ev g) s =
     (case gm_get (eg_loops s) a of
        Some (Executing st) \<Rightarrow>
          let s1 = record_times a s
          in next_round cfg g a (s1\<lparr>eg_holder := None, eg_log := eg_log s1 @ [\<lparr>xr_name = a, xr_start = st, xr_finish = eg_now s, xr_event = ev\<rparr>]\<rparr>)
      | _ \<Rightarrow> None)"
| "chaos_do cfg (Cancel a) s =
     (case gm_get (eg_loops s) a of
        Some (Timer due) \<Rightarrow> Some (set_loop a Stopped s)
      | Some (Cooling due) \<Rightarrow> Some (set_loop a Stopped s)
      | _ \<Rightarrow> None)"

text \<open>The engine when the stability period is over: every loop starts, none has run.\<close>

definition engine_at :: "gotime \<Rightarrow> engine" where
  "engine_at t = \<lparr>eg_now = t, eg_lastChaosTime = 0, eg_lastCorruptTime = 0, eg_lastKillTime = 0, eg_holder = None, eg_loops = [], eg_log = []\<rparr>"

fun start_loops :: "ChaosConfig \<Rightarrow> (string \<Rightarrow> rng) \<Rightarrow> (string \<times> ChaosTypeConfig) list \<Rightarrow> engine \<Rightarrow> engine option" where
  "start_loops cfg g [] s = Some s"
| "start_loops cfg g ((name, c) # as) s =
     (case next_round cfg (g name) name s of None \<Rightarrow> None | Some s' \<Rightarrow> start_loops cfg g as s')"

text \<open>A chaos engine that is disabled or has no action waits for the end.\<close>

definition Engine_Run_start :: "ChaosConfig \<Rightarrow> (string \<Rightarrow> rng) \<Rightarrow> gotime \<Rightarrow> engine option" where
  "Engine_Run_start cfg g t =
     (if \<not> ch_Enabled cfg \<or> chaos_actions cfg = [] then Some (engine_at t)
      else start_loops cfg g (chaos_actions cfg) (engine_at (t + ch_InitialStabilityPeriod cfg)))"

inductive chaos_reach :: "ChaosConfig \<Rightarrow> gotime \<Rightarrow> engine \<Rightarrow> bool" for cfg t where
  start: "Engine_Run_start cfg g t = Some s \<Longrightarrow> chaos_reach cfg t s"
| step: "chaos_reach cfg t s \<Longrightarrow> chaos_do cfg l s = Some s' \<Longrightarrow> chaos_reach cfg t s'"

section \<open>Faults that must not meet\<close>

definition conflicting :: "string \<Rightarrow> string \<Rightarrow> bool" where
  "conflicting a b \<longleftrightarrow> a = ''corrupt_token_files'' \<and> isKillLike b \<or> isKillLike a \<and> b = ''corrupt_token_files''"

definition apart :: "chaos_run \<Rightarrow> chaos_run \<Rightarrow> bool" where
  "apart r r' \<longleftrightarrow> xr_finish r \<le> xr_start r' \<and> (conflicting (xr_name r) (xr_name r') \<longrightarrow> xr_finish r + exclusionWindow \<le> xr_start r')"

fun busy :: "loop_state \<Rightarrow> bool" where
  "busy Locked \<longleftrightarrow> True"
| "busy Checking \<longleftrightarrow> True"
| "busy (Executing st) \<longleftrightarrow> True"
| "busy _ \<longleftrightarrow> False"

text \<open>A run is known to the engine: it is over, and the time of its kind was noted no earlier than its end.\<close>

definition run_known :: "engine \<Rightarrow> chaos_run \<Rightarrow> bool" where
  "run_known s r \<longleftrightarrow> 0 < xr_finish r \<and> xr_start r \<le> xr_finish r \<and> xr_finish r \<le> eg_now s \<and>
     (xr_name r = ''corrupt_token_files'' \<longrightarrow> xr_finish r \<le> eg_lastCorruptTime s) \<and> (isKillLike (xr_name r) \<longrightarrow> xr_finish r \<le> eg_lastKillTime s)"

definition engine_inv :: "engine \<Rightarrow> bool" where
  "engine_inv s \<longleftrightarrow> 0 < eg_now s \<and>
     (\<forall>a l. gm_get (eg_loops s) a = Some l \<longrightarrow> busy l \<longrightarrow> eg_holder s = Some a) \<and>
     (\<forall>r \<in> set (eg_log s). run_known s r) \<and>
     (\<forall>a st. gm_get (eg_loops s) a = Some (Executing st) \<longrightarrow>
        st \<le> eg_now s \<and> (\<forall>r \<in> set (eg_log s). xr_finish r \<le> st \<and> (conflicting (xr_name r) a \<longrightarrow> xr_finish r + exclusionWindow \<le> st))) \<and>
     sorted_wrt apart (eg_log s)"

lemma not_excluded:
  assumes "\<not> excluded a s" "run_known s r" "conflicting (xr_name r) a"
  shows "xr_finish r + exclusionWindow \<le> eg_now s"
proof -
  have w: "min_duration \<le> exclusionWindow - 1" "exclusionWindow - 1 < max_duration"
    by (simp_all add: exclusionWindow_def minute_def second_def min_duration_def max_duration_def)
  have since: "xr_finish r + exclusionWindow \<le> eg_now s" if "xr_finish r \<le> t" "\<not> time_Since (eg_now s) t < exclusionWindow" for t
    using that time_Sub_gt_iff [OF w, of "eg_now s" t] by linarith
  have "0 < xr_finish r" using assms(2) by (simp add: run_known_def)
  consider (corrupt) "xr_name r = ''corrupt_token_files''" "isKillLike a" | (kill) "isKillLike (xr_name r)" "a = ''corrupt_token_files''"
    using assms(3) by (auto simp: conflicting_def)
  then show ?thesis
  proof cases
    case corrupt
    then have "xr_finish r \<le> eg_lastCorruptTime s" using assms(2) by (simp add: run_known_def)
    then show ?thesis using since corrupt assms(1) \<open>0 < xr_finish r\<close> by (simp add: excluded_def IsZero_def)
  next
    case kill
    then have "xr_finish r \<le> eg_lastKillTime s" using assms(2) by (simp add: run_known_def)
    then show ?thesis using since kill assms(1) \<open>0 < xr_finish r\<close> by (simp add: excluded_def IsZero_def)
  qed
qed

lemma engine_inv_holder: "engine_inv s \<Longrightarrow> gm_get (eg_loops s) a = Some l \<Longrightarrow> busy l \<Longrightarrow> eg_holder s = Some a"
  unfolding engine_inv_def by blast

lemma next_round_frame:
  assumes "next_round cfg g a s = Some s'"
  shows "\<exists>due. s' = set_loop a (Timer due) s"
  using assms by (auto simp: next_round_def split: option.splits)

lemma engine_inv_idle:
  assumes "engine_inv s" "\<not> busy l" shows "engine_inv (set_loop a l s)"
  using assms by (auto simp: engine_inv_def set_loop_def run_known_def split: if_splits)

lemma engine_inv_lock:
  assumes "engine_inv s" "eg_holder s = None" shows "engine_inv (set_loop a Locked (s\<lparr>eg_holder := Some a\<rparr>))"
  using assms by (auto simp: engine_inv_def set_loop_def run_known_def split: if_splits)

lemma engine_inv_checking:
  assumes "engine_inv s" "eg_holder s = Some a" shows "engine_inv (set_loop a Checking s)"
  using assms by (auto simp: engine_inv_def set_loop_def run_known_def split: if_splits)

lemma engine_inv_finish:
  assumes "engine_inv s" "gm_get (eg_loops s) a = Some (Executing st)"
  shows "engine_inv (set_loop a (Timer due) ((record_times a s)\<lparr>eg_holder := None,
    eg_log := eg_log (record_times a s) @ [\<lparr>xr_name = a, xr_start = st, xr_finish = eg_now s, xr_event = ev\<rparr>]\<rparr>))"
proof -
  let ?r = "\<lparr>xr_name = a, xr_start = st, xr_finish = eg_now s, xr_event = ev\<rparr>"
  let ?s = "set_loop a (Timer due) ((record_times a s)\<lparr>eg_holder := None, eg_log := eg_log (record_times a s) @ [?r]\<rparr>)"
  have log: "eg_log ?s = eg_log s @ [?r]" by (simp add: set_loop_def record_times_def)
  have "b = a" if "gm_get (eg_loops s) b = Some l" "busy l" for b l
    using engine_inv_holder [OF assms(1) that] engine_inv_holder [OF assms] by simp
  then have loops: "\<not> busy l" if "gm_get (eg_loops ?s) b = Some l" for b l
    using that by (fastforce simp: set_loop_def record_times_def split: if_splits)
  have "run_known ?s ?r" using assms
    by (auto simp: run_known_def set_loop_def record_times_def engine_inv_def isKillLike_def)
  moreover have "run_known ?s r" if "r \<in> set (eg_log s)" for r
    using assms that by (fastforce simp: run_known_def set_loop_def record_times_def engine_inv_def)
  moreover have "apart r ?r" if "r \<in> set (eg_log s)" for r
    using assms that by (auto simp: apart_def engine_inv_def)
  moreover have "0 < eg_now ?s" "sorted_wrt apart (eg_log s)" using assms by (auto simp: engine_inv_def set_loop_def record_times_def)
  ultimately show ?thesis using loops unfolding engine_inv_def log by (fastforce simp: sorted_wrt_append)
qed

lemma chaos_do_inv:
  assumes "engine_inv s" "chaos_do cfg l s = Some s'" shows "engine_inv s'"
proof (cases l)
  case (Pass t)
  then show ?thesis using assms by (fastforce simp: engine_inv_def run_known_def split: if_splits)
next
  case (Acquire a)
  then show ?thesis using assms
    by (auto simp: Let_def engine_inv_idle engine_inv_lock split: option.splits loop_state.splits if_splits)
next
  case (Reacquire a)
  then show ?thesis using assms by (auto simp: engine_inv_lock split: option.splits loop_state.splits if_splits)
next
  case (Mark a)
  then have l: "gm_get (eg_loops s) a = Some Locked" "s' = set_loop a Checking (s\<lparr>eg_lastChaosTime := eg_now s\<rparr>)"
    using assms(2) by (auto split: if_splits)
  have "engine_inv (s\<lparr>eg_lastChaosTime := eg_now s\<rparr>)" using assms(1) by (simp add: engine_inv_def run_known_def)
  moreover have "eg_holder s = Some a" using engine_inv_holder [OF assms(1) l(1)] by simp
  ultimately show ?thesis unfolding l(2) by (intro engine_inv_checking) simp_all
next
  case (Check a g)
  then have c: "gm_get (eg_loops s) a = Some Checking" using assms by (auto split: if_splits)
  then have h: "eg_holder s = Some a" using assms(1) by (auto simp: engine_inv_def)
  show ?thesis
  proof (cases "excluded a s")
    case True
    then obtain due where "s' = set_loop a (Timer due) (s\<lparr>eg_holder := None\<rparr>)"
      using Check c assms(2) next_round_frame by (fastforce split: if_splits)
    then show ?thesis using assms(1) h by (fastforce simp: engine_inv_def set_loop_def run_known_def split: if_splits)
  next
    case False
    then have "s' = set_loop a (Executing (eg_now s)) s" using Check c assms(2) by auto
    then show ?thesis using assms(1) h not_excluded [OF False] by (auto simp: engine_inv_def set_loop_def run_known_def split: if_splits)
  qed
next
  case (Finish a ev g)
  then obtain st where "gm_get (eg_loops s) a = Some (Executing st)" using assms(2) by (auto split: option.splits loop_state.splits)
  then show ?thesis using Finish assms next_round_frame engine_inv_finish by (fastforce simp: Let_def)
next
  case (Cancel a)
  then show ?thesis using assms by (auto simp: engine_inv_idle split: option.splits loop_state.splits)
qed

lemma start_loops_inv: "engine_inv s \<Longrightarrow> start_loops cfg g as s = Some s' \<Longrightarrow> engine_inv s'"
  by (induction cfg g as s rule: start_loops.induct)
    (auto simp: engine_inv_idle split: option.splits dest!: next_round_frame)

lemma engine_at_inv: "0 < t \<Longrightarrow> engine_inv (engine_at t)"
  by (simp add: engine_inv_def engine_at_def)

lemma chaos_reach_inv:
  assumes "chaos_reach cfg t s" "0 < t" "0 \<le> ch_InitialStabilityPeriod cfg"
  shows "engine_inv s"
  using assms(1)
proof induction
  case (start g s)
  have "engine_inv (engine_at t)" "engine_inv (engine_at (t + ch_InitialStabilityPeriod cfg))" using assms by (simp_all add: engine_at_inv)
  with start show ?case by (auto simp: Engine_Run_start_def dest: start_loops_inv split: if_splits)
qed (rule chaos_do_inv)

text \<open>
  C26: the chaos engine never makes a fault the daemon cannot recover from.  Whatever the interleaving of the loops, the actions run
  one after the other; and between the end of a corruption of token files and the start of a kill or of a removal of the
  socket, and the other way round, lie at least six minutes, so that the daemon's watchdog can rewrite the file.
\<close>

theorem chaos_exclusion:
  assumes "chaos_reach cfg t s" and "0 < t" and "0 \<le> ch_InitialStabilityPeriod cfg" and "i < j" and "j < length (eg_log s)"
  shows "xr_finish (eg_log s ! i) \<le> xr_start (eg_log s ! j) \<and>
    (xr_name (eg_log s ! i) = ''corrupt_token_files'' \<and> xr_name (eg_log s ! j) \<in> {''kill_daemon'', ''delete_socket''} \<or>
     xr_name (eg_log s ! i) \<in> {''kill_daemon'', ''delete_socket''} \<and> xr_name (eg_log s ! j) = ''corrupt_token_files'' \<longrightarrow>
     xr_finish (eg_log s ! i) + 6 * minute \<le> xr_start (eg_log s ! j))"
proof -
  have "sorted_wrt apart (eg_log s)" using chaos_reach_inv assms by (simp add: engine_inv_def)
  then have "apart (eg_log s ! i) (eg_log s ! j)" using assms by (simp add: sorted_wrt_iff_nth_less)
  then show ?thesis by (auto simp: apart_def conflicting_def isKillLike_def exclusionWindow_def)
qed

fun chaos_play :: "ChaosConfig \<Rightarrow> label list \<Rightarrow> engine \<Rightarrow> engine option" where
  "chaos_play cfg [] s = Some s"
| "chaos_play cfg (l # ls) s = (case chaos_do cfg l s of None \<Rightarrow> None | Some s' \<Rightarrow> chaos_play cfg ls s')"

lemma chaos_play_reach: "chaos_reach cfg t s \<Longrightarrow> chaos_play cfg ls s = Some s' \<Longrightarrow> chaos_reach cfg t s'"
  by (induction cfg ls s rule: chaos_play.induct) (auto split: option.splits intro: chaos_reach.step)

text \<open>
  A run of the defaults: the socket is removed; then three timers end together, connections are filled, the daemon is killed and the
  socket is removed again; the token files are corrupted in the next round, the first attempt being too early.
\<close>

definition demo_rng :: rng where
  "demo_rng = ((\<lambda>_. 0), 0)"

definition demo_due :: gotime where "demo_due = second + 35 * minute"

definition demo_labels :: "label list" where
  "demo_labels =
     (let g = demo_rng; ev = chaos_event 0 []
      in [Pass (demo_due - 15 * minute), Acquire ''delete_socket'', Mark ''delete_socket'', Check ''delete_socket'' g, Finish ''delete_socket'' ev g,
          Pass demo_due, Acquire ''fill_connections'', Mark ''fill_connections'', Check ''fill_connections'' g,
          Pass (demo_due + 5 * second), Finish ''fill_connections'' ev g, Acquire ''kill_daemon'', Acquire ''delete_socket'',
          Pass (demo_due + 30 * second), Reacquire ''kill_daemon'', Mark ''kill_daemon'', Check ''kill_daemon'' g,
          Pass (demo_due + 31 * second), Finish ''kill_daemon'' ev g, Reacquire ''delete_socket'', Mark ''delete_socket'', Check ''delete_socket'' g,
          Finish ''delete_socket'' ev g,
          Pass (demo_due + minute + second), Acquire ''corrupt_token_files'', Mark ''corrupt_token_files'', Check ''corrupt_token_files'' g,
          Pass (demo_due + 32 * minute), Acquire ''corrupt_token_files'', Mark ''corrupt_token_files'', Check ''corrupt_token_files'' g,
          Finish ''corrupt_token_files'' ev g])"

definition demo_engine :: "engine option" where
  "demo_engine =
     (case Engine_Run_start default_chaos (\<lambda>_. demo_rng) second of None \<Rightarrow> None | Some s \<Rightarrow> chaos_play default_chaos demo_labels s)"

definition demo_runs :: "(string \<times> gotime \<times> gotime) list" where
  "demo_runs =
      [(''delete_socket'', demo_due - 15 * minute, demo_due - 15 * minute), (''fill_connections'', demo_due, demo_due + 5 * second),
       (''kill_daemon'', demo_due + 30 * second, demo_due + 31 * second), (''delete_socket'', demo_due + 31 * second, demo_due + 31 * second),
       (''corrupt_token_files'', demo_due + 32 * minute, demo_due + 32 * minute)]"

abbreviation run_times :: "engine \<Rightarrow> (string \<times> gotime \<times> gotime) list" where
  "run_times s \<equiv> map (\<lambda>r. (xr_name r, xr_start r, xr_finish r)) (eg_log s)"

lemma demo_engine_log: "map_option run_times demo_engine = Some demo_runs"
  by code_simp

lemma demo_engine_reach:
  obtains s where "chaos_reach default_chaos second s" "run_times s = demo_runs" "length (eg_log s) = 5"
proof -
  obtain s where s: "demo_engine = Some s" using demo_engine_log by (cases demo_engine) auto
  then have "chaos_reach default_chaos second s"
    by (auto simp: demo_engine_def intro: chaos_play_reach chaos_reach.start split: option.splits)
  moreover have runs: "run_times s = demo_runs" using demo_engine_log unfolding s by (simp only: option.map option.inject)
  moreover have "length (eg_log s) = 5" using arg_cong [OF runs, of length] by (simp add: demo_runs_def)
  ultimately show ?thesis by (rule that)
qed

lemma run_nth:
  assumes "map (\<lambda>r. (xr_name r, xr_start r, xr_finish r)) rs = xs" "i < length xs"
  shows "xr_name (rs ! i) = fst (xs ! i)" "xr_start (rs ! i) = fst (snd (xs ! i))" "xr_finish (rs ! i) = snd (snd (xs ! i))"
  using assms by auto

theorem chaos_exclusion_witness:
  "\<exists>s. chaos_reach default_chaos second s \<and> xr_name (eg_log s ! 3) = ''delete_socket'' \<and> xr_name (eg_log s ! 4) = ''corrupt_token_files'' \<and>
     xr_finish (eg_log s ! 3) + 6 * minute \<le> xr_start (eg_log s ! 4)"
proof -
  obtain s where s: "chaos_reach default_chaos second s"
    and runs: "run_times s = demo_runs" and len: "length (eg_log s) = 5"
    by (rule demo_engine_reach)
  show ?thesis
    using chaos_exclusion [OF s, of 3 4] s len run_nth [OF runs, of 3] run_nth [OF runs, of 4]
    by (intro exI [of _ s]) (simp add: demo_runs_def default_chaos_def second_def minute_def)
qed

text \<open>
  The global cooldown is not kept.  The cooldown is checked once, before a loop waits for the rest of it; when two loops wait at the
  same time the second one does not check again.  With the defaults, whose cooldown is 30 seconds, a run exists in which the
  socket is removed one second after the daemon was killed.
\<close>

theorem cooldown_not_kept:
  "\<exists>s i. chaos_reach default_chaos second s \<and> Suc i < length (eg_log s) \<and> xr_name (eg_log s ! i) = ''kill_daemon'' \<and>
     xr_name (eg_log s ! Suc i) = ''delete_socket'' \<and>
     xr_start (eg_log s ! Suc i) = xr_start (eg_log s ! i) + second \<and> xr_start (eg_log s ! Suc i) < xr_start (eg_log s ! i) + ch_GlobalCooldown default_chaos"
proof -
  obtain s where s: "chaos_reach default_chaos second s"
    and runs: "run_times s = demo_runs" and len: "length (eg_log s) = 5"
    by (rule demo_engine_reach)
  show ?thesis
    using s len run_nth [OF runs, of 2] run_nth [OF runs, of 3]
    by (intro exI [of _ s] exI [of _ 2]) (simp add: demo_runs_def default_chaos_def second_def eval_nat_numeral)
qed

end
