(* ===== verification/StressReport.thy ===== *)
theory StressReport
  imports StressWorkload "HOL-Library.Product_Lexorder" "HOL-Library.List_Lexorder" "HOL-Library.Char_ord"
begin

text \<open>
  The metrics of the stress test (\<open>stresstest/internal/metrics\<close>) and its report (\<open>stresstest/internal/report\<close>): the tables of the database, the recorder
  that fills them, the queries of the reporter and the verdict.  A table is the list of its rows in the order of insertion;
  quotients are computed with the rounding of \<open>float64\<close>.
\<close>

section \<open>Tables\<close>

record cmd_row =
  cw_run :: string
  cw_ts :: gotime
  cw_category :: string
  cw_type :: string
  cw_args :: "string list"
  cw_exit :: int
  cw_ms :: int
  cw_failure :: string
  cw_error :: string
  cw_resource :: string
  cw_sla :: bool
  cw_expect :: bool

record chaos_row =
  cv_run :: string
  cv_ts :: gotime
  cv_type :: string
  cv_description :: string
  cv_held_ms :: int
  cv_recovery_ms :: int

record health_row =
  hr_run :: string
  hr_ts :: gotime
  hr_pid :: int
  hr_uptime :: int
  hr_rss :: int
  hr_tokens :: int
  hr_responsive :: bool
  hr_ms :: int
  hr_mode :: string

record timeline_row =
  tw_run :: string
  tw_ts :: gotime
  tw_category :: string
  tw_description :: string

record reaped_row =
  rw_run :: string
  rw_ts :: gotime
  rw_type :: string
  rw_name :: string
  rw_success :: bool

record stress_db =
  db_commands :: "cmd_row list"
  db_chaos :: "chaos_row list"
  db_health :: "health_row list"
  db_timeline :: "timeline_row list"
  db_reaper :: "reaped_row list"

section \<open>Recorder\<close>

record recorder =
  re_db :: stress_db
  re_run :: string
  re_buf :: "cmd_row list"
  re_closed :: bool

definition NewRecorder :: "stress_db \<Rightarrow> string \<Rightarrow> recorder" where
  "NewRecorder db run = \<lparr>re_db = db, re_run = run, re_buf = [], re_closed = False\<rparr>"

definition Milliseconds :: "duration \<Rightarrow> int" where
  "Milliseconds d = (if d < 0 then - (- d div millisecond) else d div millisecond)"

definition row_of_result :: "string \<Rightarrow> CommandResult \<Rightarrow> cmd_row" where
  "row_of_result run r =
     \<lparr>cw_run = run, cw_ts = cr_Timestamp r, cw_category = category_name (cr_Category r), cw_type = cr_CommandType r, cw_args = cr_Args r,
      cw_exit = cr_ExitCode r, cw_ms = Milliseconds (cr_Duration r), cw_failure = failure_name (cr_FailureClass r),
      cw_error = truncateStr (cr_Error r) 1024, cw_resource = cr_ResourceName r, cw_sla = cr_SLAViolation r, cw_expect = cr_ExpectClientError r\<rparr>"

definition RecordResult :: "CommandResult \<Rightarrow> recorder \<Rightarrow> recorder" where
  "RecordResult r rec = rec\<lparr>re_buf := re_buf rec @ [row_of_result (re_run rec) r]\<rparr>"

text \<open>\<open>tx\<close> tells whether the transaction could be prepared, and which inserts succeeded; a batch that cannot be written is lost.\<close>

definition flushCommands :: "(cmd_row \<Rightarrow> bool) option \<Rightarrow> recorder \<Rightarrow> recorder" where
  "flushCommands tx rec =
     (if re_buf rec = [] then rec
      else case tx of
             None \<Rightarrow> rec\<lparr>re_buf := []\<rparr>
           | Some inserted \<Rightarrow>
               rec\<lparr>re_buf := [], re_db := (re_db rec)\<lparr>db_commands := db_commands (re_db rec) @ filter inserted (re_buf rec)\<rparr>\<rparr>)"

definition recorder_Close :: "recorder \<Rightarrow> recorder" where
  "recorder_Close rec = rec\<lparr>re_closed := True\<rparr>"

definition on_db :: "(stress_db \<Rightarrow> stress_db) \<Rightarrow> recorder \<Rightarrow> recorder" where
  "on_db f rec = rec\<lparr>re_db := f (re_db rec)\<rparr>"

definition RecordChaos :: "gotime \<Rightarrow> string \<Rightarrow> string \<Rightarrow> duration \<Rightarrow> duration \<Rightarrow> recorder \<Rightarrow> recorder" where
  "RecordChaos ts ty d held recovery rec =
     on_db (db_chaos_update (\<lambda>rows. rows @ [\<lparr>cv_run = re_run rec, cv_ts = ts, cv_type = ty, cv_description = d,
       cv_held_ms = Milliseconds held, cv_recovery_ms = Milliseconds recovery\<rparr>])) rec"

definition RecordHealth :: "gotime \<Rightarrow> int \<Rightarrow> int \<Rightarrow> int \<Rightarrow> int \<Rightarrow> bool \<Rightarrow> int \<Rightarrow> string \<Rightarrow> recorder \<Rightarrow> recorder" where
  "RecordHealth ts pid uptime rss tokens responsive ms mode rec =
     on_db (db_health_update (\<lambda>rows. rows @ [\<lparr>hr_run = re_run rec, hr_ts = ts, hr_pid = pid, hr_uptime = uptime, hr_rss = rss, hr_tokens = tokens,
       hr_responsive = responsive, hr_ms = ms, hr_mode = mode\<rparr>])) rec"

definition RecordTimeline :: "gotime \<Rightarrow> string \<Rightarrow> string \<Rightarrow> recorder \<Rightarrow> recorder" where
  "RecordTimeline now category d rec =
     on_db (db_timeline_update (\<lambda>rows. rows @ [\<lparr>tw_run = re_run rec, tw_ts = now, tw_category = category, tw_description = d\<rparr>])) rec"

definition RecordReaper :: "gotime \<Rightarrow> string \<Rightarrow> string \<Rightarrow> bool \<Rightarrow> recorder \<Rightarrow> recorder" where
  "RecordReaper now ty name success rec =
     on_db (db_reaper_update (\<lambda>rows. rows @ [\<lparr>rw_run = re_run rec, rw_ts = now, rw_type = ty, rw_name = name, rw_success = success\<rparr>])) rec"

text \<open>
  Rows are sorted by the text of their time stamp.  Within a second the text is the fraction without trailing zeros and the letter
  \<open>Z\<close>; before that the texts have the same length and are ordered like the seconds.
\<close>

definition fraction_text :: "nat \<Rightarrow> string" where
  "fraction_text ns =
     (if ns = 0 then ''Z''
      else CHR ''.'' # rev (dropWhile (\<lambda>c. c = CHR ''0'') (rev (replicate (9 - length (show_nat ns)) (CHR ''0'') @ show_nat ns))) @ ''Z'')"

definition ts_key :: "gotime \<Rightarrow> int \<times> string" where
  "ts_key t = (t div second, fraction_text (nat (t mod second)))"

definition order_by :: "('r \<Rightarrow> gotime) \<Rightarrow> 'r list \<Rightarrow> 'r list" where
  "order_by ts rows = sort_key (\<lambda>r. ts_key (ts r)) rows"

definition LatestRunID :: "stress_db \<Rightarrow> go_error + string" where
  "LatestRunID db =
     (case rev (order_by tw_ts (db_timeline db)) of
        [] \<Rightarrow> Inl (Wrap ''no test runs found'' (Err ''sql: no rows in result set''))
      | r # rs \<Rightarrow> Inr (tw_run r))"

section \<open>Report\<close>

record SummaryStats =
  su_TotalInvocations :: int
  su_SLOInvocations :: int
  su_SLOSuccesses :: int
  su_SLOSuccessRate :: rat
  su_SLAViolations :: int
  su_DaemonRestarts :: int

record CategoryStats =
  ca_Total :: int
  ca_Successes :: int
  ca_Rate :: rat

record LatencyStats =
  la_P50Ms :: int
  la_P90Ms :: int
  la_P95Ms :: int
  la_P99Ms :: int
  la_MaxMs :: int

record DaemonHealthStats =
  dh_TotalPolls :: int
  dh_ResponsivePolls :: int
  dh_AvailabilityPct :: rat
  dh_MemoryHighWaterMB :: int
  dh_MemoryInitialMB :: int
  dh_MemoryFinalMB :: int
  dh_MemoryGrowthRatio :: rat
  dh_RestartCount :: int
  dh_LongestOutageMs :: int

record TokenIntegrityStats =
  ti_CorruptionEvents :: int
  ti_CheckFailures :: int
  ti_PostRestartMismatches :: int
  ti_RefreshCount :: int

record ChaosResultStats =
  cx_TotalInjections :: int
  cx_ByType :: "(string, int) gomap"
  cx_RecoveryFailures :: int
  cx_MaxRecoveryTimeMs :: int

record ResourceMgmtStats =
  rm_Created :: int
  rm_Reaped :: int
  rm_OrphansAtEnd :: int

record StressTestReport =
  sr_TestRunID :: string
  sr_Interrupted :: bool
  sr_Summary :: SummaryStats
  sr_ByCategory :: "(string, CategoryStats) gomap"
  sr_LatencySLO :: LatencyStats
  sr_DaemonHealth :: DaemonHealthStats
  sr_TokenIntegrity :: TokenIntegrityStats
  sr_ChaosResults :: ChaosResultStats
  sr_ResourceManagement :: ResourceMgmtStats
  sr_Timeline :: "(gotime \<times> string \<times> string) list"
  sr_Verdict :: string
  sr_Issues :: "string list"

definition count_rows :: "('a \<Rightarrow> bool) \<Rightarrow> 'a list \<Rightarrow> int" where
  "count_rows P xs = int (length (filter P xs))"

definition run_commands :: "string \<Rightarrow> stress_db \<Rightarrow> cmd_row list" where
  "run_commands run db = filter (\<lambda>r. cw_run r = run) (db_commands db)"

definition slo_row :: "cmd_row \<Rightarrow> bool" where
  "slo_row r \<longleftrightarrow> cw_category r \<in> set [''read'', ''mutate'', ''ipc''] \<and> \<not> cw_expect r"

definition ok_row :: "cmd_row \<Rightarrow> bool" where
  "ok_row r \<longleftrightarrow> cw_failure r = []"

definition fillSummary :: "string \<Rightarrow> stress_db \<Rightarrow> SummaryStats" where
  "fillSummary run db =
     (let rows = run_commands run db; n = count_rows slo_row rows; ok = count_rows (\<lambda>r. slo_row r \<and> ok_row r) rows
      in \<lparr>su_TotalInvocations = int (length rows), su_SLOInvocations = n, su_SLOSuccesses = ok,
          su_SLOSuccessRate = (if n > 0 then percent ok n else 0), su_SLAViolations = count_rows cw_sla rows, su_DaemonRestarts = 0\<rparr>)"

definition category_stats :: "cmd_row list \<Rightarrow> CategoryStats" where
  "category_stats rows =
     (let n = int (length rows); ok = count_rows ok_row rows in \<lparr>ca_Total = n, ca_Successes = ok, ca_Rate = (if n > 0 then percent ok n else 0)\<rparr>)"

definition fillByCategory :: "string \<Rightarrow> stress_db \<Rightarrow> (string, CategoryStats) gomap" where
  "fillByCategory run db =
     (let rows = run_commands run db
      in map (\<lambda>c. (c, category_stats (filter (\<lambda>r. cw_category r = c) rows))) (remdups (map cw_category rows)))"

text \<open>The index into the sorted latencies is computed with \<open>float64\<close> as well.\<close>

definition rank_index :: "int \<Rightarrow> nat \<Rightarrow> int" where
  "rank_index pct n = \<lceil>fl (fl (of_int pct / 100) * of_int (int n))\<rceil> - 1"

definition percentile :: "int list \<Rightarrow> int \<Rightarrow> int" where
  "percentile sorted_ms pct =
     (if sorted_ms = [] then 0
      else let i = max 0 (rank_index pct (length sorted_ms)); j = (if i \<ge> int (length sorted_ms) then int (length sorted_ms) - 1 else i)
           in sorted_ms ! nat j)"

definition fillLatency :: "string \<Rightarrow> stress_db \<Rightarrow> LatencyStats" where
  "fillLatency run db =
     (let ms = sort (map cw_ms (filter slo_row (run_commands run db)))
      in if ms = [] then \<lparr>la_P50Ms = 0, la_P90Ms = 0, la_P95Ms = 0, la_P99Ms = 0, la_MaxMs = 0\<rparr>
         else \<lparr>la_P50Ms = percentile ms 50, la_P90Ms = percentile ms 90, la_P95Ms = percentile ms 95, la_P99Ms = percentile ms 99, la_MaxMs = last ms\<rparr>)"

definition outage_step :: "bool \<Rightarrow> int \<times> int \<Rightarrow> int \<times> int" where
  "outage_step responsive lc =
     (case lc of (longest, current) \<Rightarrow>
        if responsive then (longest, 0) else (max longest (current + 10000), current + 10000))"

definition computeLongestOutage :: "health_row list \<Rightarrow> int" where
  "computeLongestOutage rows = fst (fold outage_step (map hr_responsive (order_by hr_ts rows)) (0, 0))"

definition max_list :: "int list \<Rightarrow> int option" where
  "max_list xs = (case xs of [] \<Rightarrow> None | y # ys \<Rightarrow> Some (fold max ys y))"

text \<open>\<open>float64(final) / float64(initial)\<close>\<close>

definition growth :: "int \<Rightarrow> int \<Rightarrow> rat" where
  "growth final initial = fl (fl (of_int final) / fl (of_int initial))"

definition fillDaemonHealth :: "string \<Rightarrow> stress_db \<Rightarrow> DaemonHealthStats" where
  "fillDaemonHealth run db =
     (let rows = filter (\<lambda>r. hr_run r = run) (db_health db); n = int (length rows); ok = count_rows hr_responsive rows;
          mem = map hr_rss (order_by hr_ts (filter (\<lambda>r. hr_rss r > 0) rows)); mb = (\<lambda>b. b div (1024 * 1024))
      in \<lparr>dh_TotalPolls = n, dh_ResponsivePolls = ok, dh_AvailabilityPct = (if n > 0 then percent ok n else 0),
          dh_MemoryHighWaterMB = (case max_list mem of None \<Rightarrow> 0 | Some b \<Rightarrow> mb b),
          dh_MemoryInitialMB = (if mem = [] then 0 else mb (hd mem)), dh_MemoryFinalMB = (if mem = [] then 0 else mb (last mem)),
          dh_MemoryGrowthRatio = (if mem = [] then 0 else growth (last mem) (hd mem)),
          dh_RestartCount = count_rows (\<lambda>r. tw_run r = run \<and> tw_category r = ''restart'') (db_timeline db),
          dh_LongestOutageMs = computeLongestOutage rows\<rparr>)"

definition fillChaosResults :: "string \<Rightarrow> stress_db \<Rightarrow> ChaosResultStats" where
  "fillChaosResults run db =
     (let rows = filter (\<lambda>r. cv_run r = run) (db_chaos db);
          byType = map (\<lambda>ty. (ty, count_rows (\<lambda>r. cv_type r = ty) rows)) (remdups (map cv_type rows))
      in \<lparr>cx_TotalInjections = sum_list (map snd byType), cx_ByType = byType, cx_RecoveryFailures = count_rows (\<lambda>r. cv_recovery_ms r > 30000) rows,
          cx_MaxRecoveryTimeMs = (case max_list (filter (\<lambda>ms. ms > 0) (map cv_recovery_ms rows)) of None \<Rightarrow> 0 | Some m \<Rightarrow> m)\<rparr>)"

definition fillResourceManagement :: "string \<Rightarrow> stress_db \<Rightarrow> ResourceMgmtStats" where
  "fillResourceManagement run db =
     \<lparr>rm_Created = count_rows (\<lambda>r. cw_category r = ''mutate'' \<and> ok_row r) (run_commands run db),
      rm_Reaped = count_rows (\<lambda>r. rw_run r = run \<and> rw_success r) (db_reaper db), rm_OrphansAtEnd = 0\<rparr>"

definition fillTimeline :: "string \<Rightarrow> stress_db \<Rightarrow> (gotime \<times> string \<times> string) list" where
  "fillTimeline run db =
     map (\<lambda>r. (tw_ts r, tw_category r, tw_description r)) (order_by tw_ts (filter (\<lambda>r. tw_run r = run) (db_timeline db)))"

definition Generate :: "string \<Rightarrow> stress_db \<Rightarrow> StressTestReport" where
  "Generate run db =
     \<lparr>sr_TestRunID = run, sr_Interrupted = False, sr_Summary = fillSummary run db, sr_ByCategory = fillByCategory run db,
      sr_LatencySLO = fillLatency run db, sr_DaemonHealth = fillDaemonHealth run db,
      sr_TokenIntegrity = \<lparr>ti_CorruptionEvents = 0, ti_CheckFailures = 0, ti_PostRestartMismatches = 0, ti_RefreshCount = 0\<rparr>,
      sr_ChaosResults = fillChaosResults run db, sr_ResourceManagement = fillResourceManagement run db, sr_Timeline = fillTimeline run db,
      sr_Verdict = [], sr_Issues = []\<rparr>"

section \<open>Verdict\<close>

text \<open>\<open>fmt1\<close> prints a number with one decimal.\<close>

definition issue_when :: "bool \<Rightarrow> string \<Rightarrow> string list" where
  "issue_when c text = (if c then [text] else [])"

definition ipc_issue :: "(rat \<Rightarrow> string) \<Rightarrow> CategoryStats option \<Rightarrow> string list" where
  "ipc_issue fmt1 found =
     (case found of
        Some cat \<Rightarrow>
          if ca_Total cat > 0 then
            let ipcRate = percent (ca_Successes cat) (ca_Total cat)
            in issue_when (ipcRate < 99) (''FAIL: IPC success rate '' @ fmt1 ipcRate @ ''% < 99% [I5]'')
          else [''DEGRADED: no IPC probes recorded, I5 (concurrent safety) not verified'']
      | None \<Rightarrow> [''DEGRADED: no IPC probes recorded, I5 (concurrent safety) not verified''])"

definition slo_issue :: "(rat \<Rightarrow> string) \<Rightarrow> rat \<Rightarrow> string list" where
  "slo_issue fmt1 rate =
     (if rate < 95 then [''FAIL: SLO success rate '' @ fmt1 rate @ ''% < 95%'']
      else issue_when (rate < 99) (''DEGRADED: SLO success rate '' @ fmt1 rate @ ''% (95-99%)''))"

definition verdict_issues :: "(rat \<Rightarrow> string) \<Rightarrow> StressTestReport \<Rightarrow> int \<Rightarrow> string list" where
  "verdict_issues fmt1 r memoryKillMB =
     (let dh = sr_DaemonHealth r; ti = sr_TokenIntegrity r; cx = sr_ChaosResults r; su = sr_Summary r;
          slaViolationRate = percent (su_SLAViolations su) (su_SLOInvocations su)
      in concat
        [issue_when (sr_Interrupted r) ''INCOMPLETE: test was interrupted before completion'',
         issue_when (dh_AvailabilityPct dh < 99) (''FAIL: daemon availability '' @ fmt1 (dh_AvailabilityPct dh) @ ''% < 99% [I1]''),
         issue_when (dh_MemoryHighWaterMB dh > memoryKillMB)
           (''FAIL: memory '' @ show_int (dh_MemoryHighWaterMB dh) @ ''MB > '' @ show_int memoryKillMB @ ''MB [I2]''),
         issue_when (dh_MemoryGrowthRatio dh > 5) (''FAIL: memory grew '' @ fmt1 (dh_MemoryGrowthRatio dh) @ ''x from initial [I2]''),
         issue_when (ti_CorruptionEvents ti > 0) (''FAIL: '' @ show_int (ti_CorruptionEvents ti) @ '' token corruption events [I3]''),
         issue_when (cx_MaxRecoveryTimeMs cx > 30000) (''FAIL: max chaos recovery '' @ show_int (cx_MaxRecoveryTimeMs cx) @ ''ms > 30s [I4]''),
         ipc_issue fmt1 (gm_get (sr_ByCategory r) ''ipc''),
         issue_when (ti_PostRestartMismatches ti > 0) (''FAIL: '' @ show_int (ti_PostRestartMismatches ti) @ '' post-restart token mismatches [I6]''),
         issue_when (la_P99Ms (sr_LatencySLO r) > 10000) (''FAIL: SLO p99 latency '' @ show_int (la_P99Ms (sr_LatencySLO r)) @ ''ms > 10s [I14]''),
         issue_when (su_SLOInvocations su > 0 \<and> slaViolationRate > 5) (''DEGRADED: '' @ fmt1 slaViolationRate @ ''% SLA violations (>5%)''),
         issue_when (rm_OrphansAtEnd (sr_ResourceManagement r) > 0)
           (''DEGRADED: '' @ show_int (rm_OrphansAtEnd (sr_ResourceManagement r)) @ '' orphaned resources at end [I15]''),
         issue_when (cx_RecoveryFailures cx > 0) (''FAIL: '' @ show_int (cx_RecoveryFailures cx) @ '' chaos recovery failures''),
         slo_issue fmt1 (su_SLOSuccessRate su),
         issue_when (dh_RestartCount dh > 20) (''DEGRADED: '' @ show_int (dh_RestartCount dh) @ '' daemon restarts (>20)''),
         issue_when (ti_RefreshCount ti = 0 \<and> \<not> sr_Interrupted r)
           ''DEGRADED: no token refresh observed (expected for tokens with >24h expiry)''])"

definition severe :: "string \<Rightarrow> bool" where
  "severe i \<longleftrightarrow> prefix ''FAIL:'' i \<or> prefix ''INCOMPLETE:'' i"

definition DetermineVerdict :: "(rat \<Rightarrow> string) \<Rightarrow> StressTestReport \<Rightarrow> int \<Rightarrow> string \<times> string list" where
  "DetermineVerdict fmt1 r memoryKillMB =
     (let issues = verdict_issues fmt1 r memoryKillMB
      in if issues = [] then (''PASS'', [])
         else if list_ex severe issues then (''FAIL'', issues)
         else (''DEGRADED'', issues))"

definition GenerateFromDB :: "(rat \<Rightarrow> string) \<Rightarrow> go_error + stress_db \<Rightarrow> int \<Rightarrow> string \<Rightarrow> go_error + StressTestReport" where
  "GenerateFromDB fmt1 opened version runID =
     (case opened of
        Inl e \<Rightarrow> Inl (Wrap ''open db'' e)
      | Inr db \<Rightarrow>
          if version \<noteq> 1 then Inl (Err (''schema version mismatch: expected 1, got '' @ show_int version))
          else
            (case (if runID = [] then LatestRunID db else Inr runID) of
               Inl e \<Rightarrow> Inl e
             | Inr run \<Rightarrow>
                 let rpt = Generate run db; (v, is) = DetermineVerdict fmt1 rpt 500 in Inr (rpt\<lparr>sr_Verdict := v, sr_Issues := is\<rparr>)))"

section \<open>Percentiles\<close>

lemma sorted_rank:
  assumes "sorted xs" "j < length xs"
  shows "Suc j \<le> length (filter (\<lambda>x. x \<le> xs ! j) xs)" "length (filter (\<lambda>x. x < xs ! j) xs) \<le> j"
proof -
  have "filter (\<lambda>x. x \<le> xs ! j) (take (Suc j) xs) = take (Suc j) xs"
    using assms by (auto simp: filter_id_conv in_set_conv_nth sorted_nth_mono)
  then have "length (filter (\<lambda>x. x \<le> xs ! j) (take (Suc j) xs)) = Suc j" using assms(2) by simp
  moreover have "length (filter (\<lambda>x. x \<le> xs ! j) xs) = length (filter (\<lambda>x. x \<le> xs ! j) (take (Suc j) xs)) + length (filter (\<lambda>x. x \<le> xs ! j) (drop (Suc j) xs))"
    by (metis append_take_drop_id filter_append length_append)
  ultimately show "Suc j \<le> length (filter (\<lambda>x. x \<le> xs ! j) xs)" by simp
  have "filter (\<lambda>x. x < xs ! j) (drop j xs) = []"
    using assms by (auto simp: filter_empty_conv in_set_conv_nth not_less sorted_nth_mono)
  moreover have "length (filter (\<lambda>x. x < xs ! j) (take j xs)) \<le> j" by (metis length_filter_le length_take min.bounded_iff)
  ultimately show "length (filter (\<lambda>x. x < xs ! j) xs) \<le> j"
    by (metis append_Nil2 append_take_drop_id filter_append)
qed

lemma percentile_rank:
  assumes "p \<in> {50, 90, 95, 99}" "xs \<noteq> []" "length xs \<le> 2 ^ 40"
  shows "\<exists>j. percentile xs p = xs ! j \<and> j < length xs \<and> int (Suc j) = (p * int (length xs) + 99) div 100"
proof -
  let ?n = "int (length xs)"
  have n: "0 < ?n" "?n \<le> 2 ^ 40" using assms(2,3) by simp_all
  let ?k = "(p * ?n + 99) div 100"
  have "1 * ?n \<le> p * ?n" "p * ?n \<le> 100 * ?n" using assms(1) n by (intro mult_right_mono; auto)+
  then have k: "1 \<le> ?k" "?k \<le> ?n" using n(1) by linarith+
  have "rank_index p (length xs) = ?k - 1" using rank_exact [OF assms(1) n] by (simp add: rank_index_def)
  then have "percentile xs p = xs ! nat (?k - 1)" using assms(2) k by (simp add: percentile_def Let_def)
  then show ?thesis using k by (intro exI [of _ "nat (?k - 1)"]) linarith
qed

text \<open>
  C30: a reported percentile is the percentile.  Though its index is computed in floating point, for the percentiles of the report and
  up to \<open>2 ^ 40\<close> measurements, at least \<open>p\<close> percent of the measurements are at most the value, and less than \<open>p\<close> percent lie below it.
\<close>

theorem percentile_correct:
  assumes "p \<in> {50, 90, 95, 99}" and "ms \<noteq> []" and "length ms \<le> 2 ^ 40" and "v = percentile (sort ms) p"
  shows "v \<in> set ms \<and> p * int (length ms) \<le> 100 * int (length (filter (\<lambda>x. x \<le> v) ms)) \<and>
    100 * int (length (filter (\<lambda>x. x < v) ms)) < p * int (length ms)"
proof -
  have cnt: "length (filter P (sort ms)) = length (filter P ms)" for P
    by (simp add: filter_sort)
  obtain j where j: "v = sort ms ! j" "j < length (sort ms)" "int (Suc j) = (p * int (length ms) + 99) div 100"
    using percentile_rank [OF assms(1), of "sort ms"] assms(2-4) by (metis length_0_conv length_sort)
  then have "v \<in> set ms" by (metis nth_mem set_sort)
  moreover have "int (Suc j) \<le> int (length (filter (\<lambda>x. x \<le> v) ms))"
    using sorted_rank(1) [OF sorted_sort j(2)] unfolding j(1) [symmetric] cnt by simp
  moreover have "int (length (filter (\<lambda>x. x < v) ms)) \<le> int j"
    using sorted_rank(2) [OF sorted_sort j(2)] unfolding j(1) [symmetric] cnt by simp
  ultimately show ?thesis using j(3) by (simp; linarith)
qed

theorem percentile_correct_witness:
  "percentile (sort [7, 3, 12]) 99 \<in> set [7, 3, 12] \<and> 297 \<le> 100 * int (length (filter (\<lambda>x. x \<le> percentile (sort [7, 3, 12]) 99) [7, 3, 12]))"
  using percentile_correct [of 99 "[7, 3, 12]", OF _ _ _ refl] by simp

section \<open>What a verdict means\<close>

text \<open>A report whose percentages are those of its counts, and whose counts are within the range in which they are exact.\<close>

definition small_count :: "int \<Rightarrow> bool" where
  "small_count n \<longleftrightarrow> 0 \<le> n \<and> n \<le> 2 ^ 40"

definition ipc_stats :: "StressTestReport \<Rightarrow> int \<times> int" where
  "ipc_stats r = (case gm_get (sr_ByCategory r) ''ipc'' of None \<Rightarrow> (0, 0) | Some c \<Rightarrow> (ca_Successes c, ca_Total c))"

definition report_wf :: "StressTestReport \<Rightarrow> bool" where
  "report_wf r \<longleftrightarrow>
     (let dh = sr_DaemonHealth r; su = sr_Summary r in
      small_count (dh_TotalPolls dh) \<and> small_count (dh_ResponsivePolls dh) \<and>
      dh_AvailabilityPct dh = (if dh_TotalPolls dh > 0 then percent (dh_ResponsivePolls dh) (dh_TotalPolls dh) else 0) \<and>
      small_count (su_SLOInvocations su) \<and> small_count (su_SLOSuccesses su) \<and> small_count (su_SLAViolations su) \<and>
      su_SLOSuccessRate su = (if su_SLOInvocations su > 0 then percent (su_SLOSuccesses su) (su_SLOInvocations su) else 0) \<and>
      small_count (fst (ipc_stats r)) \<and> small_count (snd (ipc_stats r)))"

text \<open>The conditions of the verdict over the integers.\<close>

definition run_failed :: "StressTestReport \<Rightarrow> int \<Rightarrow> bool" where
  "run_failed r memoryKillMB \<longleftrightarrow>
     (let dh = sr_DaemonHealth r; ti = sr_TokenIntegrity r; cx = sr_ChaosResults r; su = sr_Summary r; (ok, n) = ipc_stats r in
      sr_Interrupted r \<or> dh_TotalPolls dh = 0 \<or> 100 * dh_ResponsivePolls dh < 99 * dh_TotalPolls dh \<or>
      dh_MemoryHighWaterMB dh > memoryKillMB \<or> dh_MemoryGrowthRatio dh > 5 \<or> ti_CorruptionEvents ti > 0 \<or> cx_MaxRecoveryTimeMs cx > 30000 \<or>
      (n > 0 \<and> 100 * ok < 99 * n) \<or> ti_PostRestartMismatches ti > 0 \<or> la_P99Ms (sr_LatencySLO r) > 10000 \<or> cx_RecoveryFailures cx > 0 \<or>
      su_SLOInvocations su = 0 \<or> 100 * su_SLOSuccesses su < 95 * su_SLOInvocations su)"

definition run_degraded :: "StressTestReport \<Rightarrow> bool" where
  "run_degraded r \<longleftrightarrow>
     (let dh = sr_DaemonHealth r; su = sr_Summary r in
      snd (ipc_stats r) = 0 \<or> 5 * su_SLOInvocations su < 100 * su_SLAViolations su \<or> rm_OrphansAtEnd (sr_ResourceManagement r) > 0 \<or>
      100 * su_SLOSuccesses su < 99 * su_SLOInvocations su \<or> dh_RestartCount dh > 20 \<or> ti_RefreshCount (sr_TokenIntegrity r) = 0)"

lemma small_compare:
  assumes "small_count s" "small_count t" "0 < t"
  shows "percent s t < 95 \<longleftrightarrow> 100 * s < 95 * t" "percent s t < 99 \<longleftrightarrow> 100 * s < 99 * t" "5 < percent s t \<longleftrightarrow> 5 * t < 100 * s"
  using percent_compare [of 95 t s] percent_compare [of 99 t s] percent_compare [of 5 t s] assms by (simp_all add: small_count_def)

definition rate_of :: "int \<Rightarrow> int \<Rightarrow> rat" where
  "rate_of s t = (if t > 0 then percent s t else 0)"

lemma rate_below:
  assumes "small_count s" "small_count t"
  shows "rate_of s t < 95 \<longleftrightarrow> t = 0 \<or> 100 * s < 95 * t" "rate_of s t < 99 \<longleftrightarrow> t = 0 \<or> 100 * s < 99 * t"
  using small_compare [OF assms] assms by (auto simp: rate_of_def small_count_def)

lemma issue_when_simps [simp]: "list_ex P (issue_when c t) \<longleftrightarrow> c \<and> P t" "issue_when c t = [] \<longleftrightarrow> \<not> c"
  by (simp_all add: issue_when_def)

lemma list_ex_concat: "list_ex P (concat xss) \<longleftrightarrow> list_ex (list_ex P) xss"
  by (induction xss) auto

lemma ipc_issue_spec:
  assumes "report_wf r"
  shows "list_ex severe (ipc_issue fmt1 (gm_get (sr_ByCategory r) ''ipc'')) \<longleftrightarrow> snd (ipc_stats r) > 0 \<and> 100 * fst (ipc_stats r) < 99 * snd (ipc_stats r)"
    "ipc_issue fmt1 (gm_get (sr_ByCategory r) ''ipc'') = [] \<longleftrightarrow> snd (ipc_stats r) > 0 \<and> \<not> 100 * fst (ipc_stats r) < 99 * snd (ipc_stats r)"
  using assms small_compare(2)
  by (auto simp: report_wf_def Let_def ipc_stats_def ipc_issue_def severe_def small_count_def split: option.splits)

lemma slo_issue_spec:
  "list_ex severe (slo_issue fmt1 rate) \<longleftrightarrow> rate < 95" "slo_issue fmt1 rate = [] \<longleftrightarrow> \<not> rate < 95 \<and> \<not> rate < 99"
  by (simp_all add: slo_issue_def severe_def)

lemma report_rates:
  assumes "report_wf r"
  shows "dh_AvailabilityPct (sr_DaemonHealth r) = rate_of (dh_ResponsivePolls (sr_DaemonHealth r)) (dh_TotalPolls (sr_DaemonHealth r))"
    "su_SLOSuccessRate (sr_Summary r) = rate_of (su_SLOSuccesses (sr_Summary r)) (su_SLOInvocations (sr_Summary r))"
    "small_count (dh_ResponsivePolls (sr_DaemonHealth r))" "small_count (dh_TotalPolls (sr_DaemonHealth r))"
    "small_count (su_SLOSuccesses (sr_Summary r))" "small_count (su_SLOInvocations (sr_Summary r))" "small_count (su_SLAViolations (sr_Summary r))"
    "small_count (snd (ipc_stats r))"
  using assms by (simp_all add: report_wf_def Let_def rate_of_def)

lemma verdict_failing:
  assumes "report_wf r"
  shows "list_ex severe (verdict_issues fmt1 r memoryKillMB) \<longleftrightarrow> run_failed r memoryKillMB"
proof -
  note rates = report_rates [OF assms]
  show ?thesis
    unfolding verdict_issues_def run_failed_def Let_def list_ex_concat rates(1,2)
    by (simp add: ipc_issue_spec [OF assms] slo_issue_spec rate_below rates(3-) case_prod_beta) (simp add: severe_def; blast)
qed

lemma verdict_clean:
  assumes "report_wf r" "\<not> run_failed r memoryKillMB"
  shows "verdict_issues fmt1 r memoryKillMB = [] \<longleftrightarrow> \<not> run_degraded r"
proof -
  note rates = report_rates [OF assms(1)]
  have "0 < su_SLOInvocations (sr_Summary r)" "\<not> sr_Interrupted r" using assms rates(6) by (auto simp: run_failed_def Let_def small_count_def case_prod_beta)
  then show ?thesis
    using assms(2) small_compare(3) [OF rates(7,6)] rates(8)
    unfolding verdict_issues_def run_failed_def run_degraded_def Let_def rates(1,2)
    by (simp add: ipc_issue_spec [OF assms(1)] slo_issue_spec rate_below rates(3-6) case_prod_beta) (auto simp: small_count_def)
qed

text \<open>
  C29: the verdict means what it says.  For a report of up to \<open>2 ^ 40\<close> polls and commands the verdict, computed over rounded percentages
  and texts, is \<open>FAIL\<close> exactly when the run failed one of the checks over the exact counts, \<open>DEGRADED\<close> when it only missed a weaker
  one, and \<open>PASS\<close> otherwise.
\<close>

theorem verdict_meaning:
  assumes "report_wf r"
  shows "fst (DetermineVerdict fmt1 r memoryKillMB) =
    (if run_failed r memoryKillMB then ''FAIL'' else if run_degraded r then ''DEGRADED'' else ''PASS'')"
proof (cases "run_failed r memoryKillMB")
  case True
  then have "list_ex severe (verdict_issues fmt1 r memoryKillMB)" by (simp add: verdict_failing [OF assms])
  then have "verdict_issues fmt1 r memoryKillMB \<noteq> []" by auto
  with True show ?thesis by (simp add: DetermineVerdict_def Let_def verdict_failing [OF assms])
next
  case False
  then show ?thesis by (simp add: DetermineVerdict_def Let_def verdict_failing [OF assms] verdict_clean [OF assms])
qed

lemma small_length: "length xs \<le> 2 ^ 40 \<Longrightarrow> small_count (int (length xs))"
  by (simp add: small_count_def)

lemma small_count_of: "length xs \<le> 2 ^ 40 \<Longrightarrow> small_count (count_rows P xs)"
  using le_trans [OF length_filter_le [of P xs]] by (simp add: small_count_def count_rows_def)

lemma Generate_wf:
  assumes "length (db_commands db) \<le> 2 ^ 40" "length (db_health db) \<le> 2 ^ 40"
  shows "report_wf (Generate run db)"
proof -
  have c: "length (run_commands run db) \<le> 2 ^ 40" using assms(1) length_filter_le [of _ "db_commands db"] le_trans unfolding run_commands_def by blast
  have c': "length (filter P (run_commands run db)) \<le> 2 ^ 40" for P using c length_filter_le [of P "run_commands run db"] by linarith
  have h: "length (filter (\<lambda>r. hr_run r = run) (db_health db)) \<le> 2 ^ 40" using assms(2) length_filter_le le_trans by blast
  have "small_count (fst (ipc_stats (Generate run db))) \<and> small_count (snd (ipc_stats (Generate run db)))"
    using small_length [OF c'] small_count_of [OF c']
    by (auto simp: ipc_stats_def Generate_def fillByCategory_def category_stats_def Let_def small_count_def map_of_eq_None_iff split: option.splits
        dest!: map_of_SomeD)
  then show ?thesis using small_length [OF h] small_count_of [OF h] small_count_of [OF c]
    by (simp add: report_wf_def Let_def Generate_def fillDaemonHealth_def fillSummary_def)
qed

definition demo_db :: stress_db where
  "demo_db = \<lparr>db_commands = [row_of_result ''r'' (probe_result second 0 second None)], db_chaos = [],
     db_health = [\<lparr>hr_run = ''r'', hr_ts = 0, hr_pid = 1, hr_uptime = 1, hr_rss = 0, hr_tokens = 1, hr_responsive = True, hr_ms = 3, hr_mode = ''socket''\<rparr>],
     db_timeline = [], db_reaper = []\<rparr>"

lemma demo_percentile: "percentile [ms] 99 = ms"
  using percentile_rank [of 99 "[ms]"] by auto

lemma demo_report:
  "\<not> run_failed (Generate ''r'' demo_db) 500" "run_degraded (Generate ''r'' demo_db)"
  by (simp_all add: run_failed_def run_degraded_def Generate_def Let_def ipc_stats_def demo_db_def fillDaemonHealth_def fillByCategory_def
      fillChaosResults_def fillSummary_def fillLatency_def run_commands_def row_of_result_def probe_result_def category_stats_def
      count_rows_def slo_row_def ok_row_def order_by_def max_list_def demo_percentile Milliseconds_def second_def millisecond_def)

theorem verdict_meaning_witness: "fst (DetermineVerdict (\<lambda>_. []) (Generate ''r'' demo_db) 500) = ''DEGRADED''"
proof -
  have "report_wf (Generate ''r'' demo_db)" by (rule Generate_wf) (simp_all add: demo_db_def)
  then show ?thesis using verdict_meaning demo_report by simp
qed

section \<open>The recorder loses nothing but what it may\<close>

text \<open>
  The recorder among the goroutines that use it: results arrive in any order, the flush loop runs every second, and once more after
  \<open>Close\<close>.  \<open>rest\<close> lists the results recorded so far.
\<close>

inductive rec_reach :: "stress_db \<Rightarrow> string \<Rightarrow> recorder \<Rightarrow> CommandResult list \<Rightarrow> bool" for db run where
  new: "rec_reach db run (NewRecorder db run) []"
| result: "rec_reach db run rec rs \<Longrightarrow> rec_reach db run (RecordResult r rec) (rs @ [r])"
| flush: "rec_reach db run rec rs \<Longrightarrow> rec_reach db run (flushCommands (Some (\<lambda>_. True)) rec) rs"
| other: "rec_reach db run rec rs \<Longrightarrow> (\<And>d. db_commands (f d) = db_commands d) \<Longrightarrow> rec_reach db run (on_db f rec) rs"
| close: "rec_reach db run rec rs \<Longrightarrow> rec_reach db run (recorder_Close rec) rs"

lemma rec_reach_rows:
  "rec_reach db run rec rs \<Longrightarrow> re_run rec = run \<and> db_commands (re_db rec) @ re_buf rec = db_commands db @ map (row_of_result run) rs"
  by (induction rule: rec_reach.induct) (auto simp: NewRecorder_def RecordResult_def flushCommands_def on_db_def recorder_Close_def)

text \<open>
  Every recorded result reaches the database once and in order.  While the database works, the rows in the table and the rows still
  buffered are together exactly the recorded results, and a flush leaves none buffered.
\<close>

theorem recorder_keeps_results:
  assumes "rec_reach db run rec rs" and "rec' = flushCommands (Some (\<lambda>_. True)) rec"
  shows "db_commands (re_db rec) @ re_buf rec = db_commands db @ map (row_of_result run) rs \<and>
    re_buf rec' = [] \<and> db_commands (re_db rec') = db_commands db @ map (row_of_result run) rs"
  using rec_reach_rows [OF assms(1)] assms(2) by (auto simp: flushCommands_def)

theorem recorder_keeps_results_witness:
  "db_commands (re_db (flushCommands (Some (\<lambda>_. True)) (RecordResult (probe_result 0 0 0 None) (NewRecorder demo_db ''q'')))) =
     db_commands demo_db @ [row_of_result ''q'' (probe_result 0 0 0 None)]"
  using recorder_keeps_results [OF rec_reach.result [OF rec_reach.new] refl] by simp

text \<open>
  Closing the recorder does not write what is buffered.  \<open>Close\<close> only tells the flush loop to stop and does not wait for its last
  flush: a report generated next can miss results that were recorded before.
\<close>

theorem close_misses_results:
  "\<exists>rec. rec_reach demo_db ''q'' rec [probe_result 0 0 0 None] \<and> re_closed rec \<and>
     su_TotalInvocations (sr_Summary (Generate ''q'' (re_db rec))) = 0"
proof -
  let ?rec = "recorder_Close (RecordResult (probe_result 0 0 0 None) (NewRecorder demo_db ''q''))"
  have "rec_reach demo_db ''q'' ?rec [probe_result 0 0 0 None]"
    using rec_reach.close [OF rec_reach.result [OF rec_reach.new]] by fastforce
  moreover have "re_closed ?rec \<and> su_TotalInvocations (sr_Summary (Generate ''q'' (re_db ?rec))) = 0"
    by code_simp
  ultimately show ?thesis by blast
qed

end
