(* ===== verification/StressHealth.thy ===== *)
theory StressHealth
  imports StressReport ServerInv
begin

text \<open>
  The health monitor of the stress test (\<open>stresstest/internal/health\<close>): the probe over the socket and the one of the process, and the poll
  that records them, detects restarts and ends the test.  Time passes between polls; what a poll sees of the system is a
  parameter.
\<close>

section \<open>Probes\<close>

record probe =
  pb_pid :: int
  pb_rss :: int
  pb_tokens :: int
  pb_uptime :: int
  pb_responsive :: bool
  pb_time :: duration

definition probe_failed :: "duration \<Rightarrow> probe" where
  "probe_failed elapsed = \<lparr>pb_pid = 0, pb_rss = 0, pb_tokens = 0, pb_uptime = 0, pb_responsive = False, pb_time = elapsed\<rparr>"

definition health_request :: "string \<Rightarrow> Request" where
  "health_request nonce = zero_request\<lparr>rq_Version := ProtocolVersion, rq_Command := ''health'', rq_Nonce := nonce\<rparr>"

text \<open>
  \<open>dialled\<close> tells whether the connection was opened, \<open>nonce\<close> is the contents of the nonce file, and \<open>answer\<close> the response to the bytes that are sent,
  if one arrives and can be decoded.
\<close>

definition probeSocket :: "bool \<Rightarrow> string option \<Rightarrow> (string \<Rightarrow> Response option) \<Rightarrow> duration \<Rightarrow> probe" where
  "probeSocket dialled nonce answer elapsed =
     (if \<not> dialled then probe_failed elapsed
      else case nonce of
             None \<Rightarrow> probe_failed elapsed
           | Some n \<Rightarrow>
               (case answer (encode_request (health_request n)) of
                  None \<Rightarrow> probe_failed elapsed
                | Some resp \<Rightarrow>
                    if rs_Status resp \<noteq> ''ok'' then probe_failed elapsed
                    else \<lparr>pb_pid = rs_PID resp, pb_rss = 0, pb_tokens = rs_TokenCount resp, pb_uptime = rs_UptimeSeconds resp,
                          pb_responsive = True, pb_time = elapsed\<rparr>))"

text \<open>The fields of a text of ASCII characters, and the resident size from \<open>/proc/PID/statm\<close>.\<close>

definition is_space :: "char \<Rightarrow> bool" where
  "is_space c \<longleftrightarrow> byte_of c = 32 \<or> 9 \<le> byte_of c \<and> byte_of c \<le> 13"

function Fields :: "string \<Rightarrow> string list" where
  "Fields s =
     (let s' = dropWhile is_space s
      in if s' = [] then [] else takeWhile (\<lambda>c. \<not> is_space c) s' # Fields (dropWhile (\<lambda>c. \<not> is_space c) s'))"
  by pat_completeness auto
termination
proof (relation "measure length")
  fix s x assume x: "x = dropWhile is_space s" and ne: "x \<noteq> []"
  then have "\<not> is_space (hd x)" by (metis hd_dropWhile)
  then have "length (dropWhile (\<lambda>c. \<not> is_space c) x) < length x" using ne by (cases x) (auto simp: length_dropWhile_le le_imp_less_Suc)
  then show "(dropWhile (\<lambda>c. \<not> is_space c) x, s) \<in> measure length" using length_dropWhile_le [of is_space s] x by simp
qed simp

declare Fields.simps [simp del]

definition getProcessRSSLinux :: "string option \<Rightarrow> int \<Rightarrow> int option" where
  "getProcessRSSLinux statm pageSize =
     (case statm of
        None \<Rightarrow> None
      | Some data \<Rightarrow>
          (let fields = Fields data
           in if length fields < 2 then None else map_option (\<lambda>pages. wrap64 (pages * pageSize)) (ParseInt64 (fields ! 1))))"

definition probeProcessOnly :: "int \<Rightarrow> (int \<Rightarrow> bool) \<Rightarrow> (int \<Rightarrow> int option) \<Rightarrow> probe" where
  "probeProcessOnly p processExists getProcessRSS =
     (if p \<le> 0 then probe_failed 0
      else if \<not> processExists p then (probe_failed 0)\<lparr>pb_pid := p\<rparr>
      else (probe_failed 0)\<lparr>pb_pid := p, pb_rss := (case getProcessRSS p of None \<Rightarrow> 0 | Some b \<Rightarrow> b), pb_responsive := True\<rparr>)"

section \<open>Polls\<close>

record monitor =
  mo_failures :: int
  mo_daemonPID :: int
  mo_restarts :: int
  mo_recorder :: recorder

text \<open>What one poll finds: the time, whether the phase is quiescent, whether a kill is marked as intentional, and the probe.\<close>

record tick =
  tk_now :: gotime
  tk_quiescent :: bool
  tk_marked :: bool
  tk_mode :: string
  tk_probe :: probe

text \<open>The answers the system gives to the probes of one poll.\<close>

record poll_env =
  pe_now :: gotime
  pe_quiescent :: bool
  pe_marked :: bool
  pe_socket :: probe
  pe_exists :: "int \<Rightarrow> bool"
  pe_rss :: "int \<Rightarrow> int option"

definition observe :: "HealthConfig \<Rightarrow> int \<Rightarrow> poll_env \<Rightarrow> tick" where
  "observe cfg pid e =
     (let process = pe_quiescent e \<and> hl_IdleAwareProbing cfg
      in \<lparr>tk_now = pe_now e, tk_quiescent = pe_quiescent e, tk_marked = pe_marked e,
          tk_mode = (if process then ''process'' else ''socket''),
          tk_probe = (if process then probeProcessOnly pid (pe_exists e) (pe_rss e) else pe_socket e)\<rparr>)"

definition timeline :: "gotime \<Rightarrow> string \<Rightarrow> string \<Rightarrow> monitor \<Rightarrow> monitor" where
  "timeline now category d m = m\<lparr>mo_recorder := RecordTimeline now category d (mo_recorder m)\<rparr>"

text \<open>A new process behind the socket: a restart, unless no process was known.\<close>

definition note_pid :: "tick \<Rightarrow> monitor \<Rightarrow> monitor" where
  "note_pid t m =
     (let pid = pb_pid (tk_probe t); old = mo_daemonPID m
      in if pid > 0 \<and> pid \<noteq> old then
           let m1 = m\<lparr>mo_daemonPID := pid\<rparr>
           in if old > 0
              then timeline (tk_now t) ''restart'' (''PID '' @ show_int old @ '' -> '' @ show_int pid) (m1\<lparr>mo_restarts := mo_restarts m1 + 1\<rparr>)
              else m1
         else m)"

definition rss_MB :: "probe \<Rightarrow> int" where
  "rss_MB p = pb_rss p div (1024 * 1024)"

definition check_memory :: "HealthConfig \<Rightarrow> tick \<Rightarrow> monitor \<Rightarrow> go_error option \<times> monitor" where
  "check_memory cfg t m =
     (let mb = rss_MB (tk_probe t) in
      if pb_rss (tk_probe t) > 0 then
        if mb > hl_MemoryKillMB cfg
        then (Some (Err (''daemon RSS '' @ show_int mb @ ''MB exceeds kill threshold '' @ show_int (hl_MemoryKillMB cfg) @ ''MB'')), m)
        else if mb > hl_MemoryWarnMB cfg
        then (None, timeline (tk_now t) ''memory_warn'' (''RSS '' @ show_int mb @ ''MB > warn '' @ show_int (hl_MemoryWarnMB cfg) @ ''MB'') m)
        else (None, m)
      else (None, m))"

definition record_probe :: "tick \<Rightarrow> monitor \<Rightarrow> monitor" where
  "record_probe t m =
     (let p = tk_probe t
      in m\<lparr>mo_recorder := RecordHealth (tk_now t) (pb_pid p) (pb_uptime p) (pb_rss p) (pb_tokens p) (pb_responsive p)
           (Milliseconds (pb_time p)) (tk_mode t) (mo_recorder m)\<rparr>)"

text \<open>A poll of an active phase that got no answer; \<open>dur_text\<close> prints a duration.\<close>

definition poll_missed :: "(duration \<Rightarrow> string) \<Rightarrow> HealthConfig \<Rightarrow> tick \<Rightarrow> monitor \<Rightarrow> go_error option \<times> monitor" where
  "poll_missed dur_text cfg t m =
     (let n = mo_failures m + 1; failDur = wrap64 (n * hl_PollInterval cfg); m1 = m\<lparr>mo_failures := n\<rparr>;
          m2 = (if failDur > hl_HangThreshold cfg then timeline (tk_now t) ''alert'' (''daemon unresponsive for '' @ dur_text failDur) m1 else m1)
      in if hl_ExitThreshold cfg > 0 \<and> failDur > hl_ExitThreshold cfg
         then (Some (Err (''daemon unresponsive for '' @ dur_text failDur @ '' (exit threshold '' @ dur_text (hl_ExitThreshold cfg) @ '' exceeded)'')), m2)
         else (None, m2))"

definition note_recovery :: "tick \<Rightarrow> monitor \<Rightarrow> monitor" where
  "note_recovery t m =
     (if mo_failures m \<ge> 3
      then timeline (tk_now t) ''recovery'' (''recovered after '' @ show_int (mo_failures m) @ '' failed polls'') m else m)\<lparr>mo_failures := 0\<rparr>"

text \<open>The effect of one poll, with the error that ends the monitor.\<close>

definition monitor_tick :: "(duration \<Rightarrow> string) \<Rightarrow> HealthConfig \<Rightarrow> tick \<Rightarrow> monitor \<Rightarrow> go_error option \<times> monitor" where
  "monitor_tick dur_text cfg t m0 =
     (let m = record_probe t m0
      in if \<not> pb_responsive (tk_probe t) then
           if tk_marked t then (None, m\<lparr>mo_failures := 0\<rparr>)
           else if tk_quiescent t then (None, m)
           else poll_missed dur_text cfg t m
         else check_memory cfg t (note_pid t (note_recovery t m)))"

text \<open>The polls until the context is done or one ends the monitor.\<close>

fun monitor_run :: "(duration \<Rightarrow> string) \<Rightarrow> HealthConfig \<Rightarrow> tick list \<Rightarrow> monitor \<Rightarrow> go_error option \<times> monitor" where
  "monitor_run dur_text cfg [] m = (None, m)"
| "monitor_run dur_text cfg (t # ts) m =
     (case monitor_tick dur_text cfg t m of
        (Some e, m') \<Rightarrow> (Some e, m')
      | (None, m') \<Rightarrow> monitor_run dur_text cfg ts m')"

fun Monitor_Run :: "(duration \<Rightarrow> string) \<Rightarrow> HealthConfig \<Rightarrow> poll_env list \<Rightarrow> monitor \<Rightarrow> go_error option \<times> monitor" where
  "Monitor_Run dur_text cfg [] m = (None, m)"
| "Monitor_Run dur_text cfg (e # es) m =
     (case monitor_tick dur_text cfg (observe cfg (mo_daemonPID m) e) m of
        (Some err, m') \<Rightarrow> (Some err, m')
      | (None, m') \<Rightarrow> Monitor_Run dur_text cfg es m')"

definition NewMonitor :: "int \<Rightarrow> recorder \<Rightarrow> monitor" where
  "NewMonitor pid rec = \<lparr>mo_failures = 0, mo_daemonPID = pid, mo_restarts = 0, mo_recorder = rec\<rparr>"

section \<open>When the monitor ends the test\<close>

definition resets :: "tick \<Rightarrow> bool" where
  "resets t \<longleftrightarrow> pb_responsive (tk_probe t) \<or> tk_marked t"

text \<open>The polls of active phases that failed since the daemon last answered or was killed on purpose.\<close>

definition streak :: "tick list \<Rightarrow> int" where
  "streak ts = int (length (filter (\<lambda>t. \<not> tk_quiescent t) (takeWhile (\<lambda>t. \<not> resets t) (rev ts))))"

definition gives_up :: "HealthConfig \<Rightarrow> tick list \<Rightarrow> tick \<Rightarrow> bool" where
  "gives_up cfg before t \<longleftrightarrow>
     (if pb_responsive (tk_probe t) then pb_rss (tk_probe t) > 0 \<and> rss_MB (tk_probe t) > hl_MemoryKillMB cfg
      else \<not> tk_marked t \<and> \<not> tk_quiescent t \<and> 0 < hl_ExitThreshold cfg \<and> hl_ExitThreshold cfg < (streak before + 1) * hl_PollInterval cfg)"

lemma streak_snoc:
  "streak (ts @ [t]) = (if resets t then 0 else if tk_quiescent t then streak ts else streak ts + 1)"
  by (simp add: streak_def)

lemma streak_bounds: "0 \<le> streak ts" "streak ts \<le> int (length ts)"
proof -
  have "length (filter P (takeWhile Q (rev ts))) \<le> length ts" for P Q
    using le_trans [OF length_filter_le length_takeWhile_le [of Q "rev ts"]] by simp
  then show "0 \<le> streak ts" "streak ts \<le> int (length ts)" by (simp_all add: streak_def)
qed

lemma note_pid_failures [simp]: "mo_failures (note_pid t m) = mo_failures m"
  by (simp add: note_pid_def timeline_def Let_def)

lemma check_memory_spec:
  "mo_failures (snd (check_memory cfg t m)) = mo_failures m"
  "fst (check_memory cfg t m) \<noteq> None \<longleftrightarrow> pb_rss (tk_probe t) > 0 \<and> rss_MB (tk_probe t) > hl_MemoryKillMB cfg"
  by (simp_all add: check_memory_def timeline_def Let_def)

lemma poll_parts_failures [simp]: "mo_failures (record_probe t m) = mo_failures m" "mo_failures (note_recovery t m) = 0"
  by (simp_all add: record_probe_def note_recovery_def Let_def)

lemma monitor_tick_failures:
  assumes "mo_failures m = streak before"
  shows "mo_failures (snd (monitor_tick dt cfg t m)) = streak (before @ [t])"
  using assms by (simp add: monitor_tick_def poll_missed_def streak_snoc resets_def Let_def timeline_def check_memory_spec)

lemma monitor_tick_error:
  assumes "mo_failures m = streak before" "int64 ((streak before + 1) * hl_PollInterval cfg)"
  shows "fst (monitor_tick dt cfg t m) \<noteq> None \<longleftrightarrow> gives_up cfg before t"
  using assms check_memory_spec(2)
  by (simp add: monitor_tick_def poll_missed_def gives_up_def Let_def wrap64_id timeline_def)

lemma monitor_run_error:
  assumes "mo_failures m = streak before" "0 \<le> hl_PollInterval cfg" "int (length before + length ts) * hl_PollInterval cfg < 2 ^ 63"
  shows "fst (monitor_run dt cfg ts m) \<noteq> None \<longleftrightarrow> (\<exists>n < length ts. gives_up cfg (before @ take n ts) (ts ! n))"
  using assms
proof (induction ts arbitrary: before m)
  case (Cons t ts)
  have "(streak before + 1) * hl_PollInterval cfg \<le> int (length before + length (t # ts)) * hl_PollInterval cfg"
    using streak_bounds(2) [of before] Cons.prems(2) by (intro mult_right_mono) auto
  moreover have "0 \<le> (streak before + 1) * hl_PollInterval cfg" using streak_bounds(1) [of before] Cons.prems(2) by simp
  ultimately have i: "int64 ((streak before + 1) * hl_PollInterval cfg)" using Cons.prems(3) by (simp add: int64_def)
  obtain e m' where tick: "monitor_tick dt cfg t m = (e, m')" by fastforce
  have err: "e \<noteq> None \<longleftrightarrow> gives_up cfg before t" using monitor_tick_error [OF Cons.prems(1) i, of dt t] tick by simp
  have "mo_failures m' = streak (before @ [t])" using monitor_tick_failures [OF Cons.prems(1), of dt cfg t] tick by simp
  then have rest: "fst (monitor_run dt cfg ts m') \<noteq> None \<longleftrightarrow> (\<exists>n < length ts. gives_up cfg ((before @ [t]) @ take n ts) (ts ! n))"
    using Cons.prems(2,3) by (intro Cons.IH) simp_all
  show ?case using tick err rest by (cases e) (auto simp: less_Suc_eq_0_disj)
qed simp

lemma Monitor_Run_ticks:
  "\<exists>ts. Monitor_Run dt cfg es m = monitor_run dt cfg ts m \<and> length ts = length es \<and> (\<forall>i < length es. \<exists>pid. ts ! i = observe cfg pid (es ! i))"
proof (induction es arbitrary: m)
  case (Cons e es)
  let ?t = "observe cfg (mo_daemonPID m) e"
  obtain err m' where tick: "monitor_tick dt cfg ?t m = (err, m')" by fastforce
  obtain ts where "Monitor_Run dt cfg es m' = monitor_run dt cfg ts m'" "length ts = length es"
    "\<forall>i < length es. \<exists>pid. ts ! i = observe cfg pid (es ! i)" using Cons by blast
  then show ?case using tick by (intro exI [of _ "?t # ts"]) (auto simp: nth_Cons split: option.splits nat.splits)
qed simp

text \<open>
  C27: the monitor gives up exactly when it should.  Over any sequence of polls it ends the test if and only if, at some poll, a
  daemon that answers uses more memory than allowed, or the polls of active phases that failed since the daemon last answered or
  was killed on purpose last longer than the exit threshold.  One answer, or one intentional kill, starts the count again, and
  polls of quiescent phases do not count.
\<close>

theorem monitor_gives_up:
  assumes "0 \<le> hl_PollInterval cfg" and "int (length ts) * hl_PollInterval cfg < 2 ^ 63"
  shows "fst (monitor_run dur_text cfg ts (NewMonitor pid rec)) \<noteq> None \<longleftrightarrow>
    (\<exists>n < length ts. let p = tk_probe (ts ! n) in
       pb_responsive p \<and> pb_rss p > 0 \<and> rss_MB p > hl_MemoryKillMB cfg \<or>
       \<not> pb_responsive p \<and> \<not> tk_marked (ts ! n) \<and> \<not> tk_quiescent (ts ! n) \<and> 0 < hl_ExitThreshold cfg \<and>
       hl_ExitThreshold cfg < streak (take (Suc n) ts) * hl_PollInterval cfg)"
proof -
  have "gives_up cfg (take n ts) (ts ! n) \<longleftrightarrow> (let p = tk_probe (ts ! n) in
       pb_responsive p \<and> pb_rss p > 0 \<and> rss_MB p > hl_MemoryKillMB cfg \<or>
       \<not> pb_responsive p \<and> \<not> tk_marked (ts ! n) \<and> \<not> tk_quiescent (ts ! n) \<and> 0 < hl_ExitThreshold cfg \<and>
       hl_ExitThreshold cfg < streak (take (Suc n) ts) * hl_PollInterval cfg)" if "n < length ts" for n
    using that by (simp add: take_Suc_conv_app_nth streak_snoc gives_up_def resets_def Let_def)
  moreover have "mo_failures (NewMonitor pid rec) = streak []" by (simp add: NewMonitor_def streak_def)
  ultimately show ?thesis using monitor_run_error [of "NewMonitor pid rec" "[]" cfg ts dur_text] assms by auto
qed

definition demo_miss :: tick where
  "demo_miss = \<lparr>tk_now = 0, tk_quiescent = False, tk_marked = False, tk_mode = ''socket'', tk_probe = probe_failed 0\<rparr>"

lemma demo_miss_fields: "\<not> pb_responsive (tk_probe demo_miss)" "\<not> tk_marked demo_miss" "\<not> tk_quiescent demo_miss" "\<not> resets demo_miss"
  by (simp_all add: demo_miss_def probe_failed_def resets_def)

theorem monitor_gives_up_witness:
  "fst (monitor_run (\<lambda>_. []) (cf_Health Defaults) (replicate 31 demo_miss) (NewMonitor 0 (NewRecorder demo_db ''q''))) \<noteq> None"
proof -
  define ts where "ts = replicate 31 demo_miss"
  have ts: "length ts = 31" "ts ! 30 = demo_miss" "take (Suc 30) ts = ts" "streak ts = 31"
    by (simp_all add: ts_def streak_def demo_miss_fields)
  have c: "hl_ExitThreshold (cf_Health Defaults) = 300000000000" "hl_PollInterval (cf_Health Defaults) = 10000000000"
    by (simp_all add: Defaults_def minute_def second_def)
  have "\<exists>n < length ts. let p = tk_probe (ts ! n) in
       pb_responsive p \<and> pb_rss p > 0 \<and> rss_MB p > hl_MemoryKillMB (cf_Health Defaults) \<or>
       \<not> pb_responsive p \<and> \<not> tk_marked (ts ! n) \<and> \<not> tk_quiescent (ts ! n) \<and> 0 < hl_ExitThreshold (cf_Health Defaults) \<and>
       hl_ExitThreshold (cf_Health Defaults) < streak (take (Suc n) ts) * hl_PollInterval (cf_Health Defaults)"
    unfolding c Let_def by (intro exI [of _ 30]) (simp only: ts demo_miss_fields; simp)
  then show ?thesis
    unfolding ts_def [symmetric] by (subst monitor_gives_up) (simp_all add: c ts(1))
qed

section \<open>Restarts and memory\<close>

definition restart_rows :: "recorder \<Rightarrow> int" where
  "restart_rows rec = count_rows (\<lambda>r. tw_run r = re_run rec \<and> tw_category r = ''restart'') (db_timeline (re_db rec))"

lemma restart_rows_timeline:
  "restart_rows (RecordTimeline now category d rec) = (if category = ''restart'' then restart_rows rec + 1 else restart_rows rec)"
  by (simp add: restart_rows_def RecordTimeline_def on_db_def count_rows_def)

lemma restart_rows_health [simp]: "restart_rows (RecordHealth ts pid u b k ok ms mode rec) = restart_rows rec"
  by (simp add: restart_rows_def RecordHealth_def on_db_def)

definition restarts_recorded :: "monitor \<Rightarrow> bool" where
  "restarts_recorded m \<longleftrightarrow> mo_restarts m = restart_rows (mo_recorder m)"

lemma restarts_recorded_parts:
  assumes "restarts_recorded m"
  shows "restarts_recorded (note_pid t m)" "restarts_recorded (snd (check_memory cfg t m))" "restarts_recorded (note_recovery t m)"
    "restarts_recorded (record_probe t m)" "restarts_recorded (snd (poll_missed dt cfg t m))" "restarts_recorded (m\<lparr>mo_failures := n\<rparr>)"
  using assms
  by (simp_all add: restarts_recorded_def note_pid_def check_memory_def note_recovery_def record_probe_def poll_missed_def timeline_def Let_def
      restart_rows_timeline)

lemma monitor_tick_restarts: "restarts_recorded m \<Longrightarrow> restarts_recorded (snd (monitor_tick dt cfg t m))"
  by (simp add: monitor_tick_def Let_def restarts_recorded_parts)

text \<open>The restarts counted in memory are those of the database.\<close>

theorem restarts_agree: "restarts_recorded m \<Longrightarrow> restarts_recorded (snd (Monitor_Run dt cfg es m))"
proof (induction es arbitrary: m)
  case (Cons e es)
  then show ?case using monitor_tick_restarts [OF Cons.prems, of dt cfg "observe cfg (mo_daemonPID m) e"]
    by (auto split: prod.splits option.splits)
qed simp

text \<open>The probe over the socket never reports memory, so that memory is watched in quiescent phases only.\<close>

lemma probeSocket_no_memory: "pb_rss (probeSocket dialled nonce answer elapsed) = 0"
  by (simp add: probeSocket_def probe_failed_def split: option.split)

theorem memory_only_quiescent:
  assumes "pe_socket e = probeSocket dialled nonce answer elapsed" and "\<not> (pe_quiescent e \<and> hl_IdleAwareProbing cfg)"
  shows "pb_rss (tk_probe (observe cfg pid e)) = 0"
  using assms by (auto simp: observe_def Let_def probeSocket_no_memory)

section \<open>The probe and the daemon\<close>

lemma health_request_wire: "ascii nonce \<Longrightarrow> wire_ok (health_request nonce)"
  by (simp add: health_request_def wire_ok_def zero_request_def zero_tls_def ascii_def byte_of_def int64_def ascii_map_def gm_wf_def ProtocolVersion_def)

text \<open>
  C25: the health probe sees the daemon.  A probe that read the daemon's nonce and whose connection reaches the daemon, as the same user,
  gets the daemon's process number and the number of its tokens: the request the monitor writes is decoded,
  authenticated and answered by the server's own connection handler.
\<close>

theorem probe_sees_daemon:
  assumes "ascii (sv_nonce s)" and "length (encode_request (health_request (sv_nonce s))) \<le> 2 ^ 20" and "0 < en_pid E"
  shows "let p = probeSocket True (Some (sv_nonce s)) (\<lambda>b. fst (handleConnection E (Inr (sv_uid s)) b s)) elapsed
    in pb_responsive p \<and> pb_pid p = en_pid E \<and> pb_tokens p = int (length (sv_managers s)) \<and> pb_time p = elapsed"
proof -
  let ?r = "health_request (sv_nonce s)"
  have dec: "decode_request (encode_request ?r) = Inr (sort_maps ?r, [CHR 0x0A])"
    using decode_encode_ok [OF health_request_wire [OF assms(1)] assms(2)] .
  have r: "rq_Nonce (sort_maps ?r) = sv_nonce s" "rq_Version (sort_maps ?r) = ProtocolVersion" "rq_Command (sort_maps ?r) = ''health''"
    by (simp_all add: sort_maps_def health_request_def)
  let ?s1 = "s\<lparr>sv_lastRequest := to_Unix (en_now E)\<rparr>"
  have "fst (handleConnection E (Inr (sv_uid s)) (encode_request ?r) s) = Some (fst (handleHealth E ?s1))"
    by (simp add: handleConnection_def verifyPeerUID_def dec r dispatch_def Let_def TrimSpace_newline case_prod_beta)
  moreover have "rs_Status (fst (handleHealth E ?s1)) = ''ok'' \<and> rs_PID (fst (handleHealth E ?s1)) = en_pid E \<and>
      rs_TokenCount (fst (handleHealth E ?s1)) = int (length (sv_managers s))"
    by (auto simp: handleHealth_def Let_def base_response_def split: list.split prod.split option.split)
  ultimately show ?thesis by (simp add: probeSocket_def Let_def)
qed

lemma health_request_short: "length nonce \<le> 1000 \<Longrightarrow> length (encode_request (health_request nonce)) \<le> 2 ^ 20"
proof -
  assume n: "length nonce \<le> 1000"
  have ints: "show_int 2 = ''2''" "show_int 0 = ''0''"
    by (simp_all add: show_int_def show_nat.simps char_of_eq byte_of_def)
  show ?thesis
    using n length_json_quote [of "''version''"] length_json_quote [of "''command''"] length_json_quote [of "''health''"]
      length_json_quote [of "''nonce''"] length_json_quote [of nonce] length_json_quote [of "''tls_config''"] length_json_quote [of "''cache_key''"]
      length_json_quote [of "''CACertFilename''"] length_json_quote [of "''CACertData''"] length_json_quote [of "[]"]
      length_json_quote [of "''SkipTLSVerify''"] length_json_quote [of "''Renegotiation''"]
    by (simp add: encode_request_def health_request_def request_members_def zero_request_def zero_tls_def omit_string_def omit_strings_def omit_map_def
        omit_bool_def tls_json_def strings_json_def ints ProtocolVersion_def)
qed

theorem probe_sees_daemon_witness:
  "pb_pid (probeSocket True (Some ''a1'') (\<lambda>b. fst (handleConnection ((demo_senv second)\<lparr>en_pid := 7\<rparr>) (Inr (sv_uid demo_server)) b
     (demo_server\<lparr>sv_nonce := ''a1''\<rparr>))) second) = 7"
  using probe_sees_daemon [of "demo_server\<lparr>sv_nonce := ''a1''\<rparr>" "(demo_senv second)\<lparr>en_pid := 7\<rparr>" second] health_request_short [of "''a1''"]
  by (simp add: Let_def ascii_def byte_of_def)

end
