(* ===== verification/StressRun.thy ===== *)
theory StressRun
  imports StressChaos StressHealth
begin

text \<open>
  The orchestrator of the stress test (\<open>stresstest/internal/orchestrator\<close>): the checks before a run, the errors that interrupt it, the report
  at its end and the removal of what it leaves behind.
\<close>

section \<open>Before the run\<close>

definition transport_address :: "string \<Rightarrow> string" where
  "transport_address dir = dir @ ''/sock''"

definition resolveRuntimePaths :: "Config \<Rightarrow> string \<Rightarrow> string \<times> string" where
  "resolveRuntimePaths cfg daemonDir =
     (let dir = (if cf_RuntimeDir cfg \<noteq> [] then cf_RuntimeDir cfg else daemonDir)
      in (dir, if cf_SocketPath cfg \<noteq> [] then cf_SocketPath cfg else transport_address dir))"

text \<open>What the system answers to the preparations; \<open>oe_output\<close> tells whether the output path is a directory, if it exists.\<close>

record orch_env =
  oe_mkdir :: "go_error option"
  oe_db :: "go_error option"
  oe_logger :: "go_error option"
  oe_look_daemon :: "go_error + string"
  oe_open_daemon :: "go_error option"
  oe_hash :: "go_error + string"
  oe_look_kubectl :: "go_error option"
  oe_namespace :: "(go_error \<times> string) option"
  oe_output :: "bool option"

definition resolveDaemonBinary :: "Config \<Rightarrow> orch_env \<Rightarrow> go_error + string" where
  "resolveDaemonBinary cfg e =
     (case oe_look_daemon e of
        Inl err \<Rightarrow> Inl (Wrap (''daemon binary '' @ [CHR 0x22] @ cf_DaemonBinary cfg @ [CHR 0x22] @ '' not found in PATH'') err)
      | Inr p \<Rightarrow>
          (case oe_open_daemon e of
             Some err \<Rightarrow> Inl (Wrap ''open daemon binary'' err)
           | None \<Rightarrow> (case oe_hash e of Inl err \<Rightarrow> Inl (Wrap ''hash daemon binary'' err) | Inr h \<Rightarrow> Inr h)))"

definition validateKubectl :: "orch_env \<Rightarrow> go_error option" where
  "validateKubectl e = map_option (Wrap ''kubectl not found in PATH'') (oe_look_kubectl e)"

definition validateNamespaceAccess :: "Config \<Rightarrow> orch_env \<Rightarrow> go_error option" where
  "validateNamespaceAccess cfg e =
     map_option (\<lambda>(err, out). Err (''namespace access check failed for '' @ [CHR 0x22] @ cf_Namespace cfg @ [CHR 0x22] @ '': '' @ Error err @ [CHR 0x0A] @ out))
       (oe_namespace e)"

definition validateDiskSpace :: "Config \<Rightarrow> orch_env \<Rightarrow> go_error option" where
  "validateDiskSpace cfg e =
     (if oe_output e = Some False then Some (Err (''output_dir '' @ [CHR 0x22] @ cf_OutputDir cfg @ [CHR 0x22] @ '' is not a directory'')) else None)"

text \<open>The steps up to the start of the subsystems, with the hash of the binary.\<close>

definition prepare_run :: "Config \<Rightarrow> orch_env \<Rightarrow> go_error + string" where
  "prepare_run cfg e =
     (case oe_mkdir e of
        Some err \<Rightarrow> Inl (Wrap ''create output dir'' err)
      | None \<Rightarrow>
     (case oe_db e of
        Some err \<Rightarrow> Inl (Wrap ''init db'' err)
      | None \<Rightarrow>
     (case oe_logger e of
        Some err \<Rightarrow> Inl (Wrap ''init logger'' err)
      | None \<Rightarrow>
     (case resolveDaemonBinary cfg e of
        Inl err \<Rightarrow> Inl err
      | Inr h \<Rightarrow>
     (case validateKubectl e of
        Some err \<Rightarrow> Inl err
      | None \<Rightarrow>
     (case validateNamespaceAccess cfg e of
        Some err \<Rightarrow> Inl err
      | None \<Rightarrow> (case validateDiskSpace cfg e of Some err \<Rightarrow> Inl err | None \<Rightarrow> Inr h)))))))"

text \<open>The first probe takes the process number of any response.\<close>

definition probeDaemon :: "bool \<Rightarrow> string option \<Rightarrow> (string \<Rightarrow> Response option) \<Rightarrow> int \<Rightarrow> int" where
  "probeDaemon dialled nonce answer known =
     (if \<not> dialled then known
      else case nonce of
             None \<Rightarrow> known
           | Some n \<Rightarrow>
               (case answer (encode_request (health_request n)) of
                  None \<Rightarrow> known
                | Some resp \<Rightarrow> if rs_PID resp > 0 then rs_PID resp else known))"

section \<open>Files\<close>

definition stale_fill_files :: "string \<Rightarrow> vfs \<Rightarrow> path list" where
  "stale_fill_files dir w = map (\<lambda>(name, n). Path dir name) (filter (\<lambda>(name, n). prefix ''kldst-fill-'' name) (dir_entries dir w))"

definition cleanStaleFillFiles :: "string \<Rightarrow> vfs \<Rightarrow> vfs" where
  "cleanStaleFillFiles dir w = fold os_Remove (stale_fill_files dir w) w"

text \<open>The copy of the daemon's log: nothing when it cannot be read or the copy cannot be created.\<close>

definition copyDaemonLog :: "faults \<Rightarrow> string \<Rightarrow> string \<Rightarrow> vfs \<Rightarrow> vfs" where
  "copyDaemonLog io runtimeDir outputDir w =
     (case (f_open io, file_at w (Path runtimeDir ''daemon.log'')) of
        (None, Some n) \<Rightarrow>
          (case os_Create io perm644 (Path outputDir ''daemon.log'') w of
             Inl e \<Rightarrow> w
           | Inr w1 \<Rightarrow> snd (f_Write io (Path outputDir ''daemon.log'') (n_data n) w1))
      | _ \<Rightarrow> w)"

text \<open>The \<open>cleanup\<close> command: the outcome per resource type, and the fill files are gone.\<close>

definition orchestrator_Cleanup :: "(string list \<Rightarrow> cmd_outcome) \<Rightarrow> Config \<Rightarrow> string \<Rightarrow> vfs \<Rightarrow> (string \<times> bool) list \<times> vfs" where
  "orchestrator_Cleanup kubectl cfg daemonDir w =
     (map (\<lambda>rt. (rt, fst (RunRaw_result (kubectl [''delete'', rt, ''-l'', LabelSelector cfg, ''--namespace'', cf_Namespace cfg, ''--wait=false'', ''--ignore-not-found''])) = 0))
        resourceTypes,
      fold os_Remove (stale_fill_files daemonDir w) w)"

section \<open>The end of the run\<close>

text \<open>How a subsystem ended.\<close>

datatype sub_result = SubOk | SubCanceled | SubDeadline | SubErr go_error

definition sendErr :: "sub_result \<Rightarrow> go_error list \<Rightarrow> go_error list" where
  "sendErr r errCh = (case r of SubErr e \<Rightarrow> if length errCh < 4 then errCh @ [e] else errCh | _ \<Rightarrow> errCh)"

text \<open>
  Whether the run counts as interrupted: an error arrived before the deadline or while the channel was drained, the parent context
  ended, or the subsystems did not stop in time.
\<close>

definition was_interrupted :: "go_error list \<Rightarrow> bool \<Rightarrow> bool \<Rightarrow> bool" where
  "was_interrupted errCh ctxErr late \<longleftrightarrow> errCh \<noteq> [] \<or> ctxErr \<or> late"

text \<open>The report: what the database yields, and what the orchestrator overwrites.\<close>

definition final_report :: "(rat \<Rightarrow> string) \<Rightarrow> Config \<Rightarrow> string \<Rightarrow> stress_db \<Rightarrow> bool \<Rightarrow> int \<Rightarrow> gen_state \<Rightarrow> StressTestReport" where
  "final_report fmt1 cfg run db interrupted restarts gs =
     (let rpt = Generate run db;
          rpt1 = rpt\<lparr>sr_Interrupted := interrupted,
                     sr_DaemonHealth := (sr_DaemonHealth rpt)\<lparr>dh_RestartCount := restarts\<rparr>,
                     sr_ResourceManagement := (sr_ResourceManagement rpt)\<lparr>rm_OrphansAtEnd := OrphansAtEnd (gs_tracker gs)\<rparr>,
                     sr_Summary := (sr_Summary rpt)\<lparr>su_DaemonRestarts := restarts, su_SLAViolations := snd (snd (snd (Stats gs)))\<rparr>\<rparr>;
          (v, is) = DetermineVerdict fmt1 rpt1 (hl_MemoryKillMB (cf_Health cfg))
      in rpt1\<lparr>sr_Verdict := v, sr_Issues := is\<rparr>)"

definition run_result :: "StressTestReport \<Rightarrow> go_error option" where
  "run_result rpt = (if sr_Verdict rpt = ''FAIL'' then Some (Err (''stress test FAILED: '' @ join_with ''; '' (sr_Issues rpt))) else None)"

section \<open>What the verdict can be\<close>

lemma final_report_parts:
  "sr_TokenIntegrity (final_report fmt1 cfg run db interrupted restarts gs) =
     \<lparr>ti_CorruptionEvents = 0, ti_CheckFailures = 0, ti_PostRestartMismatches = 0, ti_RefreshCount = 0\<rparr>"
  "sr_Interrupted (final_report fmt1 cfg run db interrupted restarts gs) = interrupted"
  by (simp_all add: final_report_def Generate_def Let_def case_prod_beta)

text \<open>The verdict is that of the report without the verdict.\<close>

lemma final_report_verdict:
  "\<exists>r. sr_Verdict (final_report fmt1 cfg run db interrupted restarts gs) = fst (DetermineVerdict fmt1 r (hl_MemoryKillMB (cf_Health cfg))) \<and>
     sr_Issues (final_report fmt1 cfg run db interrupted restarts gs) = snd (DetermineVerdict fmt1 r (hl_MemoryKillMB (cf_Health cfg))) \<and>
     ti_RefreshCount (sr_TokenIntegrity r) = 0 \<and> sr_Interrupted r = interrupted"
  unfolding final_report_def Let_def Generate_def by (auto simp: case_prod_beta intro: exI)

lemma refresh_issue:
  assumes "ti_RefreshCount (sr_TokenIntegrity r) = 0"
  shows "verdict_issues fmt1 r kill \<noteq> []" "sr_Interrupted r \<Longrightarrow> list_ex severe (verdict_issues fmt1 r kill)"
  using assms by (auto simp: verdict_issues_def Let_def issue_when_def severe_def)

lemma verdict_cases:
  "sr_Verdict (final_report fmt1 cfg run db interrupted restarts gs) \<in> (if interrupted then {''FAIL''} else {''FAIL'', ''DEGRADED''})"
  "sr_Issues (final_report fmt1 cfg run db interrupted restarts gs) \<noteq> []"
proof -
  obtain r where r: "sr_Verdict (final_report fmt1 cfg run db interrupted restarts gs) = fst (DetermineVerdict fmt1 r (hl_MemoryKillMB (cf_Health cfg)))"
    "sr_Issues (final_report fmt1 cfg run db interrupted restarts gs) = snd (DetermineVerdict fmt1 r (hl_MemoryKillMB (cf_Health cfg)))"
    "ti_RefreshCount (sr_TokenIntegrity r) = 0" "sr_Interrupted r = interrupted"
    using final_report_verdict by blast
  show "sr_Verdict (final_report fmt1 cfg run db interrupted restarts gs) \<in> (if interrupted then {''FAIL''} else {''FAIL'', ''DEGRADED''})"
    "sr_Issues (final_report fmt1 cfg run db interrupted restarts gs) \<noteq> []"
    unfolding r(1,2) using refresh_issue [OF r(3), of fmt1 "hl_MemoryKillMB (cf_Health cfg)"] r(4) by (auto simp: DetermineVerdict_def Let_def)
qed

lemma run_result_iff:
  "run_result (final_report fmt1 cfg run db interrupted restarts gs) = None \<longleftrightarrow>
     sr_Verdict (final_report fmt1 cfg run db interrupted restarts gs) = ''DEGRADED''"
  using verdict_cases(1) [of fmt1 cfg run db interrupted restarts gs] by (auto simp: run_result_def split: if_splits)

text \<open>
  C31: a stress test never passes.  Nothing fills the counts of refreshes, corruptions and mismatches, so that every report has an
  issue: a complete run always lacks a token refresh, an incomplete one is reported as such.  Whatever the database, the
  daemon and the workload did, the verdict is \<open>FAIL\<close> or \<open>DEGRADED\<close>; an interrupted run is a \<open>FAIL\<close>, and the command fails exactly then.
\<close>

theorem never_passes:
  "let rpt = final_report fmt1 cfg run db interrupted restarts gs in
     sr_Verdict rpt \<in> (if interrupted then {''FAIL''} else {''FAIL'', ''DEGRADED''}) \<and> sr_Issues rpt \<noteq> [] \<and>
     (run_result rpt = None \<longleftrightarrow> sr_Verdict rpt = ''DEGRADED'')"
  using verdict_cases run_result_iff by (simp add: Let_def)

text \<open>The database without its marks of SLA violations.\<close>

definition clear_sla :: "stress_db \<Rightarrow> stress_db" where
  "clear_sla db = db\<lparr>db_commands := map (\<lambda>r. r\<lparr>cw_sla := False\<rparr>) (db_commands db)\<rparr>"

lemma filter_clear:
  assumes "\<And>r. P (r\<lparr>cw_sla := False\<rparr>) = P r"
  shows "filter P (map (\<lambda>r. r\<lparr>cw_sla := False\<rparr>) rows) = map (\<lambda>r. r\<lparr>cw_sla := False\<rparr>) (filter P rows)"
  using assms by (induction rows) auto

lemma run_commands_clear: "run_commands run (clear_sla db) = map (\<lambda>r. r\<lparr>cw_sla := False\<rparr>) (run_commands run db)"
  unfolding run_commands_def clear_sla_def by (simp add: filter_clear)

lemma count_clear: "(\<And>r. P (r\<lparr>cw_sla := False\<rparr>) = P r) \<Longrightarrow> count_rows P (map (\<lambda>r. r\<lparr>cw_sla := False\<rparr>) rows) = count_rows P rows"
  by (simp add: count_rows_def filter_clear)

lemma rows_clear [simp]: "slo_row (r\<lparr>cw_sla := False\<rparr>) = slo_row r" "ok_row (r\<lparr>cw_sla := False\<rparr>) = ok_row r"
  by (simp_all add: slo_row_def ok_row_def)

lemma fill_clear:
  "fillByCategory run (clear_sla db) = fillByCategory run db" "fillLatency run (clear_sla db) = fillLatency run db"
  "fillDaemonHealth run (clear_sla db) = fillDaemonHealth run db" "fillChaosResults run (clear_sla db) = fillChaosResults run db"
  "fillResourceManagement run (clear_sla db) = fillResourceManagement run db" "fillTimeline run (clear_sla db) = fillTimeline run db"
  "(fillSummary run (clear_sla db))\<lparr>su_DaemonRestarts := j, su_SLAViolations := k\<rparr> = (fillSummary run db)\<lparr>su_DaemonRestarts := j, su_SLAViolations := k\<rparr>"
proof -
  show "fillByCategory run (clear_sla db) = fillByCategory run db"
    by (simp add: fillByCategory_def run_commands_clear Let_def filter_clear category_stats_def count_clear comp_def)
  show "fillLatency run (clear_sla db) = fillLatency run db"
    by (simp add: fillLatency_def run_commands_clear Let_def filter_clear comp_def)
  show "fillDaemonHealth run (clear_sla db) = fillDaemonHealth run db" by (simp add: fillDaemonHealth_def clear_sla_def)
  show "fillChaosResults run (clear_sla db) = fillChaosResults run db" by (simp add: fillChaosResults_def clear_sla_def)
  show "fillTimeline run (clear_sla db) = fillTimeline run db" by (simp add: fillTimeline_def clear_sla_def)
  show "fillResourceManagement run (clear_sla db) = fillResourceManagement run db"
    unfolding fillResourceManagement_def run_commands_clear by (simp add: count_clear) (simp add: clear_sla_def)
  show "(fillSummary run (clear_sla db))\<lparr>su_DaemonRestarts := j, su_SLAViolations := k\<rparr> = (fillSummary run db)\<lparr>su_DaemonRestarts := j, su_SLAViolations := k\<rparr>"
    by (simp add: fillSummary_def run_commands_clear Let_def count_clear)
qed

text \<open>
  SLA violations are measured but never judged.  The probes mark in the database every answer that took too long, but the report
  takes the number of violations from the workload generator, which never counts one.  For every reachable state of the
  generator, the final report shows zero violations and is the same, verdict included, as if no probe had been too slow.
\<close>

theorem sla_never_judged:
  assumes "work_reach wcfg managedBy (gs, cs)"
  shows "su_SLAViolations (sr_Summary (final_report fmt1 cfg run db interrupted restarts gs)) = 0 \<and>
    final_report fmt1 cfg run (clear_sla db) interrupted restarts gs = final_report fmt1 cfg run db interrupted restarts gs"
proof -
  have "gs_slaViolations gs = 0" using work_reach_inv [OF assms] by (simp add: work_inv_def)
  then have "snd (snd (snd (Stats gs))) = 0" by (simp add: Stats_def)
  moreover have "final_report fmt1 cfg run (clear_sla db) interrupted restarts gs = final_report fmt1 cfg run db interrupted restarts gs"
    by (simp add: final_report_def Generate_def fill_clear Let_def)
  ultimately show ?thesis by (simp add: final_report_def Let_def case_prod_beta)
qed

theorem sla_never_judged_witness:
  "\<exists>gs. work_reach default_workload ''demo'' (gs, []) \<and>
     su_SLAViolations (sr_Summary (final_report (\<lambda>_. []) Defaults ''r'' demo_db False 0 gs)) = 0"
  using sla_never_judged [OF demo_work] demo_work by blast

section \<open>Restarts in the report\<close>

text \<open>
  The restarts of the report are those of the database.  The orchestrator overwrites the count the reporter queried with the
  monitor's own counter; for a run the database did not know before, the two agree after every sequence of polls.
\<close>

theorem report_restarts:
  assumes "restart_rows rec = 0" and "snd (Monitor_Run dur_text hcfg es (NewMonitor pid rec)) = m" and "re_run (mo_recorder m) = run"
  shows "dh_RestartCount (sr_DaemonHealth (final_report fmt1 cfg run (re_db (mo_recorder m)) interrupted (mo_restarts m) gs)) =
    dh_RestartCount (fillDaemonHealth run (re_db (mo_recorder m)))"
proof -
  have "restarts_recorded (NewMonitor pid rec)" using assms(1) by (simp add: restarts_recorded_def NewMonitor_def)
  then have "restarts_recorded m" using restarts_agree assms(2) by blast
  then show ?thesis using assms(3)
    by (simp add: restarts_recorded_def restart_rows_def fillDaemonHealth_def final_report_def Let_def case_prod_beta)
qed

definition demo_poll :: "int \<Rightarrow> poll_env" where
  "demo_poll pid = \<lparr>pe_now = second, pe_quiescent = False, pe_marked = False,
     pe_socket = (probe_failed 0)\<lparr>pb_pid := pid, pb_responsive := True\<rparr>, pe_exists = (\<lambda>_. True), pe_rss = (\<lambda>_. None)\<rparr>"

definition demo_monitor :: monitor where
  "demo_monitor = snd (Monitor_Run (\<lambda>_. []) (cf_Health Defaults) [demo_poll 7, demo_poll 8] (NewMonitor 0 (NewRecorder demo_db ''q'')))"

lemma demo_monitor_fields: "restart_rows (NewRecorder demo_db ''q'') = 0" "re_run (mo_recorder demo_monitor) = ''q''" "mo_restarts demo_monitor = 1"
  by (simp_all add: demo_monitor_def demo_poll_def restart_rows_def demo_db_def NewRecorder_def count_rows_def NewMonitor_def observe_def monitor_tick_def
      record_probe_def note_pid_def note_recovery_def check_memory_def timeline_def RecordHealth_def RecordTimeline_def on_db_def probe_failed_def Let_def)

theorem report_restarts_witness:
  "dh_RestartCount (fillDaemonHealth ''q'' (re_db (mo_recorder demo_monitor))) = 1"
  using report_restarts [OF demo_monitor_fields(1) demo_monitor_def [symmetric] demo_monitor_fields(2), of "\<lambda>_. []" Defaults False
    "NewGenerator (NewResourceTracker 0)"] demo_monitor_fields(3)
  by (simp add: final_report_def Let_def case_prod_beta)

section \<open>Files left by a crash\<close>

lemma stale_fill_files_iff:
  "gm_wf (vf_files w) \<Longrightarrow> p \<in> set (stale_fill_files dir w) \<longleftrightarrow> p_dir p = dir \<and> prefix ''kldst-fill-'' (p_name p) \<and> file_at w p \<noteq> None"
  by (cases p) (force simp: stale_fill_files_def dir_entries_def gm_get_in_set image_iff)

lemma gm_wf_map_node: "gm_wf (vf_files w) \<Longrightarrow> gm_wf (vf_files (map_node p f w))"
  by (simp add: map_node_def set_files_def gm.invar_put split: option.split)

lemma gm_wf_fill:
  assumes "gm_wf (vf_files w)"
  shows "os_Create io perm p w = Inr w' \<Longrightarrow> gm_wf (vf_files w')" "gm_wf (vf_files (snd (f_Write io p b w)))"
  using assms gm_wf_map_node by (auto simp: os_Create_def f_Write_def set_files_def gm.invar_put split: option.splits if_splits)

lemma fill_loop_wf:
  "gm_wf (vf_files w) \<Longrightarrow> gm_wf (vf_files (snd (snd (snd (fill_loop os dir maxBytes filled files w)))))"
proof (induction os dir maxBytes filled files w rule: fill_loop.induct)
  case (1 os dir maxBytes filled files w)
  obtain cancelled io where os: "os (length files) = (cancelled, io)" by fastforce
  let ?p = "fill_path dir (length files)"
  show ?case
  proof (cases "filled < maxBytes \<and> \<not> cancelled \<and> (\<exists>w1. os_Create io perm644 ?p w = Inr w1)")
    case False
    then show ?thesis using 1(2) by (auto simp: fill_loop.simps [of os dir maxBytes filled] os Let_def split: sum.splits)
  next
    case True
    then obtain w1 where go: "filled < maxBytes" "\<not> cancelled" "os_Create io perm644 ?p w = Inr w1" by blast
    obtain r w2 where wr: "f_Write io ?p chunk w1 = (r, w2)" by fastforce
    have "gm_wf (vf_files w2)" using gm_wf_fill(2) [OF gm_wf_fill(1) [OF 1(2) go(3)], of io ?p chunk] wr by simp
    then show ?thesis using 1(1) [OF go(1) refl os [symmetric] refl go(2,3) wr [symmetric]] go wr
      by (cases r) (simp_all add: fill_loop.simps [of os dir maxBytes filled] os Let_def)
  qed
qed

text \<open>
  The next run removes what a crash left.  However far a run came in filling the disk before it was killed, and whatever else the
  directory holds, afterwards \<open>cleanStaleFillFiles\<close> leaves no fill file, and every other file as it was before the disk was filled.
\<close>

theorem stale_fill_removed:
  assumes "fill_loop os dir maxBytes 0 [] w = (n, files, e, w1)" and "gm_wf (vf_files w)" and "w2 = cleanStaleFillFiles dir w1"
  shows "(\<forall>i. file_at w2 (fill_path dir i) = None) \<and>
    (\<forall>p. \<not> (p_dir p = dir \<and> prefix ''kldst-fill-'' (p_name p)) \<longrightarrow> file_at w2 p = file_at w p)"
proof -
  obtain m where m: "files = map (fill_path dir) [0..<m]" "\<forall>p. p \<notin> set files \<longrightarrow> file_at w1 p = file_at w p"
    using fill_loop_frame [OF assms(1), of 0] by auto
  have wf: "gm_wf (vf_files w1)" using fill_loop_wf [OF assms(2), of os dir maxBytes 0 "[]"] assms(1) by simp
  have at: "file_at w2 p = (if p_dir p = dir \<and> prefix ''kldst-fill-'' (p_name p) then None else file_at w1 p)" for p
    using wf assms(3) by (simp add: cleanStaleFillFiles_def file_at_fold_Remove stale_fill_files_iff)
  have "file_at w2 (fill_path dir i) = None" for i by (simp add: at fill_path_def)
  moreover have "file_at w2 p = file_at w p" if "\<not> (p_dir p = dir \<and> prefix ''kldst-fill-'' (p_name p))" for p
  proof -
    have "p \<notin> set files" using that m(1) by (auto simp: fill_path_def)
    then show ?thesis using m(2) that by (auto simp: at)
  qed
  ultimately show ?thesis by blast
qed

theorem stale_fill_removed_witness:
  "\<exists>n files e w1. fill_loop (\<lambda>i. (i > 0, no_faults [])) ''/d'' 1073741824 0 [] one_dir = (n, files, e, w1) \<and>
     file_at (cleanStaleFillFiles ''/d'' w1) (fill_path ''/d'' 0) = None"
proof -
  obtain n files e w1 where l: "fill_loop (\<lambda>i. (i > 0, no_faults [])) ''/d'' 1073741824 0 [] one_dir = (n, files, e, w1)" by (metis prod_cases4)
  have "gm_wf (vf_files one_dir)" by (simp add: one_dir_def gm_wf_def)
  then show ?thesis using stale_fill_removed [OF l _ refl] l by auto
qed

end
