(* ===== verification/StressGenerator.thy ===== *)
theory StressGenerator
  imports StressRun
begin

text \<open>
  The loop of the workload generator and its direct probes (\<open>stresstest/internal/workload/generator.go\<close>, \<open>prober.go\<close>), and what their errors do
  to the run.  The commands of a batch run concurrently; a batch is the order in which they finish.
\<close>

section \<open>Direct probes\<close>

definition ProbeHealth :: "go_error option \<Rightarrow> go_error + string \<Rightarrow> (string \<Rightarrow> go_error + Response) \<Rightarrow> go_error option" where
  "ProbeHealth dial_err nonce answer =
     (case dial_err of
        Some e \<Rightarrow> Some e
      | None \<Rightarrow>
          (case nonce of
             Inl e \<Rightarrow> Some (Wrap ''read nonce'' e)
           | Inr n \<Rightarrow>
               (case answer (encode_request (health_request n)) of
                  Inl e \<Rightarrow> Some e
                | Inr resp \<Rightarrow>
                    if rs_Status resp \<noteq> ''ok''
                    then Some (Err (''daemon returned status '' @ [CHR 0x22] @ rs_Status resp @ [CHR 0x22] @ '': '' @ rs_Error resp))
                    else None)))"

text \<open>The probes of one round, in the order in which they end: the time, how long each took and its error.\<close>

definition RunProbes :: "duration \<Rightarrow> (gotime \<times> duration \<times> go_error option) list \<Rightarrow> recorder \<Rightarrow> recorder" where
  "RunProbes slaThresh probes rec =
     fold (\<lambda>(ts, dur, err) r. RecordResult (probe_result slaThresh ts dur (map_option Error err)) r) probes rec"

section \<open>The loop\<close>

text \<open>Concurrency and delay of the next batch.\<close>

definition batch_plan :: "WorkloadConfig \<Rightarrow> Phase \<Rightarrow> rng \<Rightarrow> ((int \<times> duration) \<times> rng) option" where
  "batch_plan cfg phase g =
     (case phaseParams cfg phase of (minConc, maxConc, minDelay, maxDelay) \<Rightarrow>
        (case randomInt minConc maxConc g of
           None \<Rightarrow> None
         | Some (conc, g1) \<Rightarrow> map_option (\<lambda>(delay, g2). ((conc, delay), g2)) (randomDuration minDelay maxDelay g1)))"

text \<open>
  What happens during a batch: whether the context is done before it, the commands of the batch that were let through by the rate
  limiter, with their results in the order in which they finish, and whether the context ends during the delay.
\<close>

record batch_env =
  be_done :: bool
  be_now :: gotime
  be_commands :: "(chosen \<times> CommandResult) list"
  be_interrupted :: bool

datatype gen_exit = GenCtx | GenDoubleFault int

definition run_batch :: "gotime \<Rightarrow> (chosen \<times> CommandResult) list \<Rightarrow> gen_state \<Rightarrow> gen_state" where
  "run_batch now cmds s = fold (\<lambda>(c, r). finish_command now c r) cmds s"

text \<open>
  The batches of one phase until it is over: how the loop ended, if it did, the state, and how many rounds of probes were asked for.
  A configuration for which a random draw panics has no result.
\<close>

fun phase_loop :: "WorkloadConfig \<Rightarrow> Phase \<Rightarrow> batch_env list \<Rightarrow> gen_state \<Rightarrow> nat \<Rightarrow> rng \<Rightarrow> (gen_exit option \<times> gen_state \<times> nat \<times> rng) option" where
  "phase_loop cfg phase [] s n g = Some (None, s, n, g)"
| "phase_loop cfg phase (e # es) s n g =
     (if be_done e then Some (Some GenCtx, s, n, g)
      else case batch_plan cfg phase g of
             None \<Rightarrow> None
           | Some ((conc, delay), g1) \<Rightarrow>
               let s1 = run_batch (be_now e) (take (nat conc) (be_commands e)) s;
                   n1 = (if phase \<noteq> PhaseQuiescent \<and> wl_DirectIPCRate cfg > 0 then Suc n else n)
               in if gs_doubleFaultLogged s1 then Some (Some (GenDoubleFault (gs_consecutiveDaemonErrors s1)), s1, n, g1)
                  else if be_interrupted e then Some (Some GenCtx, s1, n1, g1)
                  else phase_loop cfg phase es s1 n1 g1)"

text \<open>The phases, each with the batches that fit into it; the phase is told to the monitor and to the rate limiter.\<close>

fun Generator_Run :: "WorkloadConfig \<Rightarrow> batch_env list list \<Rightarrow> gen_state \<Rightarrow> nat \<Rightarrow> rng \<Rightarrow> (gen_exit option \<times> gen_state \<times> nat \<times> Phase list) option" where
  "Generator_Run cfg [] s n g = Some (None, s, n, [])"
| "Generator_Run cfg (es # ess) s n g =
     (case pickPhase cfg g of (phase, g1) \<Rightarrow>
        (case randomDuration (wl_PhaseDurationMin cfg) (wl_PhaseDurationMax cfg) g1 of
           None \<Rightarrow> None
         | Some (dur, g2) \<Rightarrow>
             (case phase_loop cfg phase es s n g2 of
                None \<Rightarrow> None
              | Some (Some ex, s1, n1, g3) \<Rightarrow> Some (Some ex, s1, n1, [phase])
              | Some (None, s1, n1, g3) \<Rightarrow>
                  map_option (\<lambda>(ex, s2, n2, phases). (ex, s2, n2, phase # phases)) (Generator_Run cfg ess s1 n1 g3))))"

text \<open>What the orchestrator hears from the generator.\<close>

definition gen_result :: "gen_exit option \<Rightarrow> sub_result" where
  "gen_result ex =
     (case ex of
        Some (GenDoubleFault n) \<Rightarrow>
          SubErr (Err (''S3: unrecoverable double-fault detected ('' @ show_int n @ '' consecutive daemon errors), stopping workload''))
      | _ \<Rightarrow> SubCanceled)"

section \<open>Quiescence\<close>

text \<open>In a quiescent phase the generator sends no probe, so that the daemon may become idle.\<close>

lemma quiescent_no_probes:
  "phase_loop cfg PhaseQuiescent es s n g = Some (ex, s', n', g') \<Longrightarrow> n' = n"
  by (induction cfg PhaseQuiescent es s n g rule: phase_loop.induct) (auto simp: Let_def split: if_splits option.splits)

section \<open>Double faults\<close>

definition daemon_error :: "chosen \<times> CommandResult \<Rightarrow> bool" where
  "daemon_error cr \<longleftrightarrow> cr_FailureClass (snd cr) = FailDaemonError"

lemma finish_daemon_error:
  assumes "cr_FailureClass r = FailDaemonError"
  shows "gs_consecutiveDaemonErrors (finish_command now c r s) = gs_consecutiveDaemonErrors s + 1"
    "gs_doubleFaultLogged (finish_command now c r s) \<longleftrightarrow> gs_doubleFaultLogged s \<or> gs_consecutiveDaemonErrors s + 1 \<ge> 20"
  using assms by (auto simp: finish_command_def Let_def count_daemon_error_def on_tracker_def)

lemma finish_logged_mono: "gs_doubleFaultLogged s \<Longrightarrow> gs_doubleFaultLogged (finish_command now c r s)"
  by (simp add: finish_command_def Let_def count_daemon_error_def on_tracker_def)

lemma run_batch_errors:
  assumes "list_all daemon_error cmds"
  shows "gs_consecutiveDaemonErrors (run_batch now cmds s) = gs_consecutiveDaemonErrors s + int (length cmds) \<and>
    (cmds \<noteq> [] \<and> gs_consecutiveDaemonErrors s + int (length cmds) \<ge> 20 \<longrightarrow> gs_doubleFaultLogged (run_batch now cmds s))"
  using assms
proof (induction cmds rule: rev_induct)
  case (snoc cr cmds)
  obtain c r where cr: "cr = (c, r)" by fastforce
  have e: "cr_FailureClass r = FailDaemonError" using snoc(2) cr by (simp add: daemon_error_def)
  have s: "run_batch now (cmds @ [cr]) s = finish_command now c r (run_batch now cmds s)" by (simp add: run_batch_def cr)
  show ?case using snoc finish_daemon_error [OF e, of now c "run_batch now cmds s"] unfolding s by auto
qed (simp add: run_batch_def)

text \<open>
  A double fault ends the run as failed.  When the daemon answers the last twenty commands of a batch with an error of its own, the
  generator stops, its error reaches the orchestrator, the run counts as interrupted, and the verdict is \<open>FAIL\<close>.
\<close>

theorem double_fault_fails:
  assumes "\<not> be_done e" and "batch_plan cfg phase g = Some ((conc, delay), g1)"
    and "take (nat conc) (be_commands e) = before @ errs" and "list_all daemon_error errs" and "20 \<le> length errs"
    and "0 \<le> gs_consecutiveDaemonErrors (run_batch (be_now e) before s)"
  shows "\<exists>k s'. phase_loop cfg phase (e # es) s n g = Some (Some (GenDoubleFault k), s', n, g1) \<and>
    (\<forall>fmt1 run db restarts gs late. sr_Verdict (final_report fmt1 c run db (was_interrupted (sendErr (gen_result (Some (GenDoubleFault k))) []) False late) restarts gs) = ''FAIL'')"
proof -
  let ?s1 = "run_batch (be_now e) (take (nat conc) (be_commands e)) s"
  have s1: "?s1 = run_batch (be_now e) errs (run_batch (be_now e) before s)" by (simp add: assms(3) run_batch_def)
  have "errs \<noteq> []" using assms(5) by auto
  then have logged: "gs_doubleFaultLogged ?s1" unfolding s1 using run_batch_errors [OF assms(4)] assms(5,6) by force
  then have loop: "phase_loop cfg phase (e # es) s n g = Some (Some (GenDoubleFault (gs_consecutiveDaemonErrors ?s1)), ?s1, n, g1)"
    using assms(1,2) by (simp add: Let_def)
  have int: "was_interrupted (sendErr (gen_result (Some (GenDoubleFault k))) []) False late" for k late
    by (simp add: was_interrupted_def sendErr_def gen_result_def)
  have fail: "sr_Verdict (final_report fmt1 c run db True restarts gs) = ''FAIL''" for fmt1 run db restarts gs
  proof -
    obtain r where r: "sr_Verdict (final_report fmt1 c run db True restarts gs) = fst (DetermineVerdict fmt1 r (hl_MemoryKillMB (cf_Health c)))"
      "ti_RefreshCount (sr_TokenIntegrity r) = 0" "sr_Interrupted r" using final_report_verdict by blast
    then show ?thesis using refresh_issue [OF r(2), of fmt1 "hl_MemoryKillMB (cf_Health c)"] by (simp add: DetermineVerdict_def Let_def)
  qed
  show ?thesis by (intro exI conjI allI, rule loop) (simp add: int fail)
qed

end
