(* ===== verification/StressMain.thy ===== *)
theory StressMain
  imports StressGenerator DaemonCmd
begin

text \<open>
  The commands of the stress test (\<open>stresstest/cmd/kld-stresstest/main.go\<close>) and the run of the orchestrator as a whole
  (\<open>stresstest/internal/orchestrator\<close>), with the helpers and the log of \<open>stresstest/internal\<close> and the process queries of Windows.
\<close>

section \<open>The run\<close>

text \<open>
  What the subsystems leave behind: the errors in the channel when it is drained, whether the parent context ended, whether they stopped in
  time, the database, the counters and the files.  An error that arrives after the channel was drained is not part of it.  The database, the log
  and the report in the output directory are outside of the file system here.
\<close>

record run_end =
  rd_errors :: "go_error list"
  rd_ctxErr :: bool
  rd_late :: bool
  rd_db :: stress_db
  rd_restarts :: int
  rd_gen :: gen_state
  rd_fs :: vfs

definition Orchestrator_Run ::
  "(rat \<Rightarrow> string) \<Rightarrow> Config \<Rightarrow> orch_env \<Rightarrow> string \<Rightarrow> string \<Rightarrow> faults \<Rightarrow> (vfs \<Rightarrow> run_end) \<Rightarrow> vfs \<Rightarrow> go_error option \<times> StressTestReport option \<times> vfs" where
  "Orchestrator_Run fmt1 cfg e daemonDir run io subsystems w =
     (case prepare_run cfg e of
        Inl err \<Rightarrow> (Some err, None, w)
      | Inr h \<Rightarrow>
          let dir = fst (resolveRuntimePaths cfg daemonDir);
              r = subsystems (cleanStaleFillFiles dir w);
              interrupted = was_interrupted (rd_errors r) (rd_ctxErr r) (rd_late r);
              w1 = copyDaemonLog io dir (cf_OutputDir cfg) (rd_fs r);
              rpt = final_report fmt1 cfg run (rd_db r) interrupted (rd_restarts r) (rd_gen r)
          in (run_result rpt, Some rpt, w1))"

section \<open>The commands\<close>

datatype command_error = BadConfig run_error | Failure go_error

definition run_RunE ::
  "(string \<Rightarrow> Config \<Rightarrow> go_error + Config) \<Rightarrow> os_error + string \<Rightarrow> run_flags \<Rightarrow> (Config \<Rightarrow> vfs \<Rightarrow> go_error option \<times> StressTestReport option \<times> vfs) \<Rightarrow>
   vfs \<Rightarrow> command_error option \<times> StressTestReport option \<times> vfs" where
  "run_RunE yaml file f orchestrate w =
     (case run_config yaml file f of
        Inl e \<Rightarrow> (Some (BadConfig e), None, w)
      | Inr cfg \<Rightarrow> (case orchestrate cfg w of (r, rpt, w1) \<Rightarrow> (map_option Failure r, rpt, w1)))"

text \<open>\<open>cleanup\<close> has a flag for the namespace only.\<close>

definition cleanup_config :: "(string \<Rightarrow> Config \<Rightarrow> go_error + Config) \<Rightarrow> os_error + string \<Rightarrow> string option \<Rightarrow> go_error + Config" where
  "cleanup_config yaml file namespace =
     (case Load yaml file of
        Inl e \<Rightarrow> Inl (Wrap ''load config'' e)
      | Inr c0 \<Rightarrow>
          let c = override namespace (\<lambda>v c. c\<lparr>cf_Namespace := v\<rparr>) c0
          in if cf_Namespace c = [] then Inl (Err ''namespace is required'') else Inr c)"

definition cleanup_RunE ::
  "(string \<Rightarrow> Config \<Rightarrow> go_error + Config) \<Rightarrow> os_error + string \<Rightarrow> string option \<Rightarrow> (string list \<Rightarrow> cmd_outcome) \<Rightarrow> string \<Rightarrow>
   vfs \<Rightarrow> go_error option \<times> (string \<times> bool) list \<times> vfs" where
  "cleanup_RunE yaml file namespace kubectl daemonDir w =
     (case cleanup_config yaml file namespace of
        Inl e \<Rightarrow> (Some e, [], w)
      | Inr cfg \<Rightarrow> (None, orchestrator_Cleanup kubectl cfg daemonDir w))"

section \<open>Helpers\<close>

text \<open>
  \<open>rnd n\<close> is the value the generator returns for the bound \<open>n\<close>; it panics when \<open>n\<close> is not positive, which is \<open>None\<close>: the difference of the
  bounds may wrap around.
\<close>

definition RandomDuration :: "(int \<Rightarrow> int) \<Rightarrow> duration \<Rightarrow> duration \<Rightarrow> duration option" where
  "RandomDuration rnd lo hi =
     (if lo \<ge> hi then Some lo
      else let delta = wrap64 (hi - lo) in if delta \<le> 0 then None else Some (wrap64 (lo + rnd delta)))"

definition RandomInt :: "(int \<Rightarrow> int) \<Rightarrow> int \<Rightarrow> int \<Rightarrow> int option" where
  "RandomInt rnd lo hi =
     (if lo \<ge> hi then Some lo
      else let n = wrap64 (hi - lo + 1) in if n \<le> 0 then None else Some (wrap64 (lo + rnd n)))"

definition SecureRandomInt64 :: "(int \<Rightarrow> int) \<Rightarrow> int" where
  "SecureRandomInt64 rnd = rnd (2 ^ 62)"

definition RandomHex :: "(nat \<Rightarrow> string) \<Rightarrow> nat \<Rightarrow> string" where
  "RandomHex bytes n = take n (hex_encode (bytes ((n + 1) div 2)))"

definition RedactArgs :: "string list \<Rightarrow> string list" where
  "RedactArgs args = map (\<lambda>a. if prefix ''eyJ'' a \<or> length a > 100 then ''[REDACTED]'' else a) args"

text \<open>A negative length panics; \<open>None\<close>.\<close>

definition Truncate :: "string \<Rightarrow> int \<Rightarrow> string option" where
  "Truncate s maxLen =
     (if int (length s) \<le> maxLen then Some s
      else if maxLen < 0 then None
      else if maxLen \<le> 3 then Some (take (nat maxLen) s)
      else Some (take (nat (maxLen - 3)) s @ ''...''))"

section \<open>The log\<close>

record stress_logger =
  sl_path :: path
  sl_verbose :: bool

text \<open>The file is opened for appending and may exist.\<close>

definition logging_New :: "faults \<Rightarrow> path \<Rightarrow> bool \<Rightarrow> vfs \<Rightarrow> (go_error + stress_logger) \<times> vfs" where
  "logging_New io p verbose w =
     (case f_open io of
        Some e \<Rightarrow> (Inl (Wrap ''open log file'' (OsErr e)), w)
      | None \<Rightarrow>
          let lg = \<lparr>sl_path = p, sl_verbose = verbose\<rparr> in
          (case file_at w p of
             Some n \<Rightarrow> if n_kind n = Directory then (Inl (Wrap ''open log file'' (OsErr EISDIR)), w) else (Inr lg, w)
           | None \<Rightarrow>
               if gm_get (vf_dirs w) (p_dir p) = None then (Inl (Wrap ''open log file'' (OsErr ENOENT)), w)
               else (Inr lg, set_files (gm_put p (new_node io perm644 []) (vf_files w)) w)))"

text \<open>A line, to the file and perhaps to standard error; a failed write is ignored.\<close>

definition logging_write :: "faults \<Rightarrow> string \<Rightarrow> string \<Rightarrow> string \<Rightarrow> stress_logger \<Rightarrow> vfs \<times> string \<Rightarrow> vfs \<times> string" where
  "logging_write io ts level msg lg out =
     (let line = ts @ '' ['' @ level @ ''] '' @ msg @ [CHR 0x0A]
      in (snd (f_Write io (sl_path lg) line (fst out)),
          if sl_verbose lg \<or> level = ''ERROR'' \<or> level = ''WARN'' then snd out @ line else snd out))"

section \<open>Processes on Windows\<close>

text \<open>\<open>out\<close> is what \<open>tasklist\<close> prints, if it runs.  The reason why a number cannot be read is left out of the error.\<close>

definition processExists_win :: "go_error + string \<Rightarrow> int \<Rightarrow> bool" where
  "processExists_win out pid = (case out of Inl _ \<Rightarrow> False | Inr s \<Rightarrow> contains s (show_int pid))"

text \<open>\<open>strings.Split\<close> on a separator of three characters.\<close>

fun split_seq :: "string \<Rightarrow> string \<Rightarrow> string \<Rightarrow> string list" where
  "split_seq sep acc [] = [rev acc]"
| "split_seq sep acc (c # cs) =
     (if sep \<noteq> [] \<and> prefix sep (c # cs) then rev acc # split_seq sep [] (drop (length sep - 1) cs) else split_seq sep (c # acc) cs)"

definition memory_field :: "string \<Rightarrow> string" where
  "memory_field s = filter (\<lambda>c. c \<noteq> CHR '','') (TrimSpace (TrimSuffix (TrimSpace (TrimSuffix s [CHR 0x22])) ''K''))"

definition getProcessRSS_win :: "go_error + string \<Rightarrow> int \<Rightarrow> go_error + int" where
  "getProcessRSS_win out pid =
     (case out of
        Inl e \<Rightarrow> Inl (Wrap ''tasklist'' e)
      | Inr s \<Rightarrow>
          let line = TrimSpace s in
          if line = [] \<or> contains line ''No tasks'' then Inl (Err (''process '' @ show_int pid @ '' not found''))
          else
            let fields = split_seq [CHR 0x22, CHR '','', CHR 0x22] [] line in
            if length fields < 5 then Inl (Err (''unexpected tasklist output: '' @ line))
            else
              (case Atoi (memory_field (fields ! 4)) of
                 None \<Rightarrow> Inl (Err (''parse memory '' @ [CHR 0x22] @ memory_field (fields ! 4) @ [CHR 0x22]))
               | Some kb \<Rightarrow> Inr (wrap64 (kb * 1024))))"

section \<open>What the commands report\<close>

text \<open>
  The run command fails exactly when its configuration is rejected, the preparation fails or the verdict is \<open>FAIL\<close>; what it accepts is never a
  pass, and before the preparations succeed no file is removed.
\<close>

theorem run_exit:
  "case run_RunE yaml file f (\<lambda>cfg. Orchestrator_Run fmt1 cfg e daemonDir run io subsystems) w of (err, rpt, w') \<Rightarrow>
     (err = None \<longleftrightarrow> (\<exists>r. rpt = Some r \<and> sr_Verdict r = ''DEGRADED'')) \<and> (rpt \<noteq> None \<or> w' = w)"
  by (auto simp: run_RunE_def Orchestrator_Run_def Let_def run_result_iff split: sum.split prod.split)

text \<open>
  \<open>cleanup\<close> knows no run label: after a run that was started with one, it deletes by another label and exits without an error.
\<close>

theorem cleanup_misses_label:
  assumes "run_config yaml file f = Inr cfg" and "rf_runLabel f = Some l" and "l \<noteq> []"
    and "cleanup_config yaml file ns = Inr cfg'" and "cf_RunLabel cfg' = []"
  shows "LabelSelector cfg \<noteq> LabelSelector cfg'"
proof -
  have "cf_RunLabel cfg = l"
    using assms(1,2) by (auto simp: run_config_def override_def Let_def split: sum.splits option.splits if_splits)
  then show ?thesis using assms(3,5) by (simp add: LabelSelector_def)
qed

theorem cleanup_misses_label_witness:
  "\<exists>cfg cfg'. run_config (\<lambda>_ c. Inr c) (Inl ENOENT) \<lparr>rf_duration = None, rf_namespace = Some ''n'', rf_outputDir = None, rf_rngSeed = None,
       rf_runLabel = Some ''x'', rf_verbose = False\<rparr> = Inr cfg \<and>
     cleanup_config (\<lambda>_ c. Inr c) (Inl ENOENT) (Some ''n'') = Inr cfg' \<and> LabelSelector cfg \<noteq> LabelSelector cfg'"
proof -
  have valid: "Validate (Defaults\<lparr>cf_Namespace := ''n'', cf_RunLabel := ''x''\<rparr>) = None"
    by (simp add: Validate_def Defaults_def default_workload_def default_chaos_def chaos_type_def Let_def phase_sum_def command_sum_def wrap64_def
        duration_ranges_def conc_ranges_def chaos_types_def hour_def minute_def second_def millisecond_def run_label_match_def label_end_def
        label_char_def byte_in_def byte_of_def)
  have "run_config (\<lambda>_ c. Inr c) (Inl ENOENT) \<lparr>rf_duration = None, rf_namespace = Some ''n'', rf_outputDir = None, rf_rngSeed = None,
       rf_runLabel = Some ''x'', rf_verbose = False\<rparr> = Inr (Defaults\<lparr>cf_Namespace := ''n'', cf_RunLabel := ''x''\<rparr>)"
    using valid by (simp add: run_config_def Load_def override_def Let_def)
  moreover have "cleanup_config (\<lambda>_ c. Inr c) (Inl ENOENT) (Some ''n'') = Inr (Defaults\<lparr>cf_Namespace := ''n''\<rparr>)"
    by (simp add: cleanup_config_def Load_def override_def Let_def)
  moreover have "cf_RunLabel Defaults = []" by (simp add: Defaults_def)
  ultimately show ?thesis by (fastforce dest: cleanup_misses_label [where l = "''x''"])
qed

lemma Truncate_bound: "Truncate s n = Some t \<Longrightarrow> int (length t) \<le> n \<and> (\<exists>k. t = take k s \<or> t = take k s @ ''...'')"
  by (auto simp: Truncate_def split: if_splits intro: exI [of _ "length s"])

text \<open>Within their documented bounds, as long as the number of values fits a 64-bit integer.\<close>

lemma RandomInt_range:
  assumes "\<forall>n > 0. 0 \<le> rnd n \<and> rnd n < n" "lo \<le> hi" "int64 lo" "int64 hi" "int64 (hi - lo + 1)"
  shows "\<exists>v \<in> {lo..hi}. RandomInt rnd lo hi = Some v"
proof -
  have r: "0 \<le> rnd (hi - lo + 1)" "rnd (hi - lo + 1) < hi - lo + 1" using assms(1,2) by (auto dest: spec [of _ "hi - lo + 1"])
  then have "int64 (lo + rnd (hi - lo + 1))" using assms(3,4) by (simp add: int64_def)
  then show ?thesis using assms(2,5) r by (auto simp: RandomInt_def wrap64_id)
qed

lemma RedactArgs_tokens: "a \<in> set (RedactArgs args) \<Longrightarrow> \<not> prefix ''eyJ'' a \<and> length a \<le> 100"
  by (auto simp: RedactArgs_def)

end
