(* ===== verification/Spec2Isabelle.thy ===== *)
theory Spec2Isabelle
  imports SetupInstall SetupConfig DaemonCmd LoginFlows TokenCache CommandFlow TokenThreads Windows StressMain
begin

text \<open>
  A verification development for the kubelogin daemon: the background process that holds OIDC tokens for \<open>kubectl\<close>, the
  command that \<open>kubectl\<close> runs to fetch them, the commands that set both up, and the stress test that exercises them.

  \<^bold>\<open>The program.\<close>  \<open>kubectl\<close> runs \<open>get-token\<close> (\<open>src/main.go\<close>).  It computes a cache key from the provider's settings and asks the daemon over a
  Unix socket (\<open>src/pkg/shim\<close>), starting it when none answers.  The daemon (\<open>src/pkg/daemon\<close>) authenticates the peer by user and nonce, and
  keeps per key a token manager (token, timers, refresh against the provider, a file in the token directory) and an authentication state.
  When a login is needed, \<open>login\<close> takes the login lock of the key with the daemon, runs a flow of the OIDC client in the foreground
  (\<open>src/pkg/shim/auth.go\<close>, \<open>src/pkg/usecases/authentication\<close>, \<open>src/pkg/oidc/client\<close>) and hands the tokens to the daemon.  \<open>setup\<close> writes the exec section of
  kubeconfigs, \<open>clean\<close> removes tokens, \<open>daemon start|stop|status\<close> controls the process.  The stress test (\<open>src/stresstest\<close>) runs \<open>kubectl\<close>
  commands against a cluster while it kills the daemon and damages its files, and reports a verdict.

  \<^bold>\<open>Foundations.\<close>
  \<^item> \<open>Prelude\<close>: instants and durations as nanoseconds with the 64-bit wrap-around of \<open>time.Unix\<close>, the functions of \<open>strings\<close> and \<open>strconv\<close> used,
    errors with wrapping, and Go maps as association lists, with the locale \<open>go_map\<close> for what a lookup returns after a write.  The order of
    such a list is the iteration order of the map, so a theorem for all lists is one for all orders.
  \<^item> \<open>Json\<close>, \<open>JsonPrint\<close>: the parser and the printer of \<open>encoding/json\<close> over bytes, and that parsing undoes printing.  The parser descends
    with fuel \<open>json_fuel\<close>, twice the length of the input and two, which \<open>parse_enough_fuel\<close> shows is never used up.
  \<^item> \<open>Filesys\<close>: directories and their entries with kind, owner, mode and whether the data is synced; every call takes the faults it meets as
    an argument.  Atomic replacement, and frames for what a call touches.
  \<^item> \<open>Paths\<close>: the lexical functions of \<open>path/filepath\<close>, links and \<open>EvalSymlinks\<close> with Go's limit of 255 links and the kernel's of 40.
  \<^item> \<open>Float64\<close>: rounding to \<open>float64\<close> as a rational, and that ratios of counts below \<open>2^40\<close> and ranks compare as the exact ones do.

  \<^bold>\<open>The daemon\<close> (\<open>src/pkg/daemon\<close>, \<open>src/pkg/jwt\<close>).
  \<^item> \<open>State\<close> (\<open>state.go\<close>): \<open>StateManager\<close> as a record, every method as a function of it under its lock; the locale \<open>auth_states\<close> is
    the contract the server relies on.  Runs are interleavings of the critical sections of all connections; a login that was granted
    stands for its TTL unless an operation ends it.
  \<^item> \<open>Persist\<close> (\<open>persist.go\<close>): the file format, the atomic write, the read that removes what it cannot use, migration and clean-up.  The locale
    \<open>token_store\<close> is the refinement: the directory implements a map from keys to tokens.  No crash exposes a partial file.
  \<^item> \<open>Jwt\<close> (\<open>src/pkg/jwt\<close>): base64url and the claims that give the expiry.  \<open>Ipc\<close> (\<open>ipc.go\<close>): requests down to their bytes, with the round trip.
  \<^item> \<open>Refresher\<close> (\<open>refresher.go\<close>): filters, TLS settings and one refresh; the locale \<open>refresher_iface\<close> is what the token manager relies on.
  \<^item> \<open>TokenManager\<close> (\<open>token_manager.go\<close>): timers and callbacks as jobs of a system \<open>tm_sys\<close>, run in any order by \<open>tm_step\<close>, each as one step; the
    wait group counts the callbacks exactly, refreshes never lose the refresh token.  \<open>TokenThreads\<close> has the same methods at the grain of their
    locks and atomic accesses: the callbacks, the flight that \<open>singleflight\<close> shares among all refreshes and the callers of \<open>SetInitialToken\<close> are threads of \<open>th_step\<close>,
    and \<open>Stop\<close> may fall anywhere.  The callbacks end, no timer is armed after \<open>Stop\<close>, no spent refresh token is presented again; but the
    watchdog may write one to disk.  \<open>flight_alone\<close> relates the two grains.
  \<^item> \<open>Server\<close> (\<open>server.go\<close>, \<open>transport_unix.go\<close>, \<open>socket_linux.go\<close>, \<open>security_unix.go\<close>): every handler, start-up, shutdown, the idle watcher.
    \<open>ServerInv\<close> has the invariant over all interleavings of requests, callbacks and ticks (\<open>srv_step\<close>); \<open>ServerProps\<close> what a client may rely on;
    \<open>ServerFlows\<close> sequences such as store, restart, get; \<open>LoginLock\<close> the exclusion while a login runs, for handlers one at a time, and what breaks it, among
    it a \<open>get-token\<close> that is interrupted between its look at the state and its assignment.
  \<^item> \<open>AcceptLoop\<close> (\<open>ListenAndServe\<close>, \<open>handleConnection\<close>): the loop with its semaphore and the handlers it starts, interleaved by \<open>acc_step\<close>.  The locale
    \<open>server_frame\<close> is what every handler, tick and callback leaves alone, proved once over the handlers and interpreted for the identity of
    the daemon and for its listener; slots are bounded and none is lost.
  \<^item> \<open>Windows\<close> (\<open>persist_windows.go\<close>, \<open>security_windows.go\<close>, \<open>transport_windows.go\<close>, \<open>socket_windows.go\<close>, \<open>socket_darwin.go\<close>, \<open>find_pid_windows.go\<close>): ownership,
    access lists with their masks, modes and the protected flag, links and the pipe over the record \<open>winapi\<close> of the system's calls.
  \<^item> \<open>Log\<close> (\<open>log.go\<close>): the redaction loop against a structural reference, opening, rotation and closing.

  \<^bold>\<open>The command line\<close> (\<open>src/main.go\<close>, \<open>src/pkg/shim\<close>).
  \<^item> \<open>Shim\<close>: one request, the retry loop with three attempts and its deadline, automatic start (ten polls) and restart on a version
    mismatch.  The daemon, other processes and the clock are an arbitrary environment \<open>shim_env\<close>; the trace of a run is part of the state.
  \<^item> \<open>ExecArgs\<close>, \<open>Cli\<close>: exec arguments, kubeconfig lookup, merge with flags, the cache key; \<open>get-token\<close>, \<open>login\<close>, \<open>check\<close>, \<open>refresh\<close> as
    sequences of interactions.  The locale \<open>housekeeping\<close> is what requests other than those of a login leave alone in the trace.
  \<^item> \<open>Setup\<close>, \<open>SetupWrite\<close>, \<open>SetupInstall\<close>, \<open>SetupConfig\<close>: \<open>setup install|migrate|upgrade\<close> and \<open>clean\<close> (30 polls for the daemon to leave) over the
    file system with links: writes are safe at every moment, what is written is what \<open>login\<close> reads, the running binary survives.
  \<^item> \<open>DaemonCmd\<close>: \<open>daemon start|stop|status\<close> and the search for the process of a socket.
  \<^item> \<open>CommandLine\<close>: the flags of every command as tables, the variables of \<open>get-token\<close>, the closures \<open>RunE\<close> and the exit codes.  The flag library is a
    parameter \<open>parse\<close>; \<open>library_documented\<close> is what its documentation says of the registered flags and their kinds, for values without quotes and line breaks in
    lists and without leading zeros in numbers.  \<open>CommandFlow\<close>: the arguments of one exec section, read by the library for \<open>get-token\<close> and by \<open>parseExecArgs\<close>
    for the other commands, give one key, and so do those \<open>setup install\<close> writes.
  \<^item> \<open>TokenCache\<close> (\<open>src/pkg/tokencache\<close>): the upstream cache on disk and in the keyring; what is saved is found.

  \<^bold>\<open>The foreground login.\<close>
  \<^item> \<open>OidcClient\<close> (\<open>src/pkg/oidc/client\<close>, \<open>src/pkg/oidc\<close>, \<open>src/pkg/pkce\<close>, \<open>src/pkg/tlsclientconfig/loader\<close>): the factory, every grant, PKCE, state, nonce and
    the verification of tokens.  go-oidc, oauth2, oauth2cli and the random source are the record \<open>oidc_net\<close>.
  \<^item> \<open>LoginFlows\<close> (\<open>src/pkg/usecases/authentication\<close>, \<open>src/pkg/oidc/client/transport\<close>): the browser and the device-code flow and the header transport; what
    the daemon is given was verified for this login, what the authorization request carries, and which configured parameters and headers replace what.

  \<^bold>\<open>The stress test\<close> (\<open>src/stresstest\<close>).
  \<^item> \<open>StressConfig\<close>: durations, defaults, validation and overrides.  \<open>StressWorkload\<close>: the tracker, the commands, the classification of failures and
    the reaper; \<open>work_step\<close> interleaves the workers.  \<open>StressGenerator\<close>: the loop of the generator and its probes.
  \<^item> \<open>StressChaos\<close>: the five actions on the file system of the daemon, and the engine as labelled steps under its mutex; the mutex
    excludes, the times keep their distance, and a corrupted token file is never loaded as another token.
  \<^item> \<open>StressReport\<close>: tables, recorder, percentiles and the verdict.  \<open>StressHealth\<close>: the probes, answered by the model of the daemon itself, and
    the poll.  \<open>StressRun\<close>: preparation, errors, report and clean-up (60 polls of the recovery check) of a run.
  \<^item> \<open>StressMain\<close>: the \<open>run\<close> and \<open>cleanup\<close> commands and the run as a whole, with what its subsystems leave behind as a parameter; the helpers, the log
    file and the process queries of Windows.

  \<^bold>\<open>Conventions.\<close>  In the theories of the server a handler is one step, and interleavings are sequences of these steps; the code takes several locks in a
  handler, one after the other, and the finer steps are those of \<open>State\<close>, of \<open>TokenThreads\<close> and of the split handler in \<open>LoginLock\<close>.  A worker of the
  stress test updates its counters in one step when its command ends.  I/O faults, the clock, random draws, other processes and all code
  outside the repository are parameters, with what is relied on as hypotheses that the witnesses discharge.  Loops with a bound in the
  code recurse on that bound; the others have termination proofs.

  \<^bold>\<open>Not modelled.\<close>  The inside of the flag library (aliases of commands, help, the parsing of numbers) and of the Windows API; on Windows the automatic
  start, which is the common one without its clean-up, and the opening of the log file; the process query of macOS in the stress test; texts
  printed for the user, warnings and log lines; loading and writing of kubeconfigs by client-go; SQLite; the adapters of browser, clock
  and terminal; the dump of HTTP requests at a log level the daemon never sets; panics other than those of timer
  callbacks and of the refresher; the texts of errors of \<open>encoding/json\<close> and \<open>strconv\<close>; RFC 3339 formatting; process attributes; the wiring of the orchestrator.  These are pure
  I/O, data for a library, or have no effect that another part of the model observes.
\<close>

end
